(* ===== verification/Prelude.thy ===== *)
theory Prelude
  imports Main "HOL-Library.Word"
begin

text \<open>
  The vocabulary the component theories share.

  \<^item> The kernel's integer types at their width: \<open>u8\<close>, \<open>u16\<close>, \<open>u32\<close>, \<open>u64\<close> are words, so
    \<open>+\<close>, \<open>-\<close> and \<open>*\<close> wrap exactly as the unsigned C++ types do. A pointer is the \<open>u64\<close> the code
    casts it to, with \<open>0\<close> for \<open>nullptr\<close>. Byte-addressed memory is a function from addresses to bytes.
  \<^item> The result of running a piece of the kernel, \<open>'a prog\<close>: \<open>None\<close> when it never returns (a loop
    that runs forever, a spinlock that nobody will release), \<open>Some (Inl e)\<close> when it stops with a
    fault \<open>e\<close> (a null or dangling dereference, a failed assertion, a PANIC, an operation C++ leaves undefined), and \<open>Some (Inr x)\<close>
    when it returns \<open>x\<close>. \<open>bindP\<close> sequences two such pieces.
  \<^item> \<open>spinlock_acquire\<close> and \<open>spinlock_release\<close> (src/kernel/lib/src/arch/x86_64/spinlock.asm) on one
    processor: acquiring a lock that is already held spins forever.
  \<^item> The arithmetic macros of src/kernel/lib/include/util.h.
\<close>

section \<open>Machine types\<close>

type_synonym u8 = "8 word"
type_synonym u16 = "16 word"
type_synonym u32 = "32 word"
type_synonym u64 = "64 word"
type_synonym ptr = "64 word"
type_synonym memory = "64 word \<Rightarrow> 8 word"

abbreviation nullptr :: ptr where
  "nullptr \<equiv> 0"

abbreviation UINT64_MAX :: u64 where
  "UINT64_MAX \<equiv> - 1"

section \<open>Running code: faults and non-termination\<close>

datatype fault =
    NullDeref
  | Dangling ptr
  | AssertFailed string
  | Panic string
  | Undefined string

type_synonym 'a prog = "(fault + 'a) option"

definition ret :: "'a \<Rightarrow> 'a prog" where
  "ret x = Some (Inr x)"

definition stop :: "fault \<Rightarrow> 'a prog" where
  "stop e = Some (Inl e)"

definition bindP :: "'a prog \<Rightarrow> ('a \<Rightarrow> 'b prog) \<Rightarrow> 'b prog" where
  "bindP m f = Option.bind m (\<lambda>r. case r of Inl e \<Rightarrow> Some (Inl e) | Inr x \<Rightarrow> f x)"

named_theorems prog_simps \<open>equations of the run-result combinators\<close>
named_theorems prog_elims \<open>inversion of a run that returned\<close>

lemma bindP_ret [simp]: "bindP (ret x) f = f x"
  by (simp add: bindP_def ret_def)

lemma bindP_stop [simp]: "bindP (stop e) f = stop e"
  by (simp add: bindP_def stop_def)

lemma bindP_None [simp]: "bindP None f = None"
  by (simp add: bindP_def)

lemma ret_eq_ret [simp]: "ret x = ret y \<longleftrightarrow> x = y"
  by (simp add: ret_def)

lemma stop_eq_stop [simp]: "stop x = stop y \<longleftrightarrow> x = y"
  by (simp add: stop_def)

lemma ret_neq [simp]: "ret x \<noteq> None" "None \<noteq> ret x" "ret x \<noteq> stop e" "stop e \<noteq> ret x"
  "stop e \<noteq> None" "None \<noteq> stop e"
  by (simp_all add: ret_def stop_def)

lemma prog_is_Some [simp]: "\<exists>y. ret x = Some y" "\<exists>y. stop e = Some y"
  by (simp_all add: ret_def stop_def)

lemma prog_cases [case_names None stop ret]:
  obtains "m = None" | e where "m = stop e" | x where "m = ret x"
proof (cases m)
  case (Some r)
  then show thesis by (cases r) (auto simp: ret_def stop_def intro: that)
qed (rule that(1))

lemma bindP_eq_ret [prog_elims]: "bindP m f = ret y \<longleftrightarrow> (\<exists>x. m = ret x \<and> f x = ret y)"
  by (cases m rule: prog_cases) auto

lemma bindP_ret_right [simp]: "bindP m ret = m"
  by (cases m rule: prog_cases) auto

lemma bindP_assoc [prog_simps]: "bindP (bindP m f) g = bindP m (\<lambda>x. bindP (f x) g)"
  by (cases m rule: prog_cases) auto

lemma bindP_cong [fundef_cong]:
  "m = m' \<Longrightarrow> (\<And>x. m' = ret x \<Longrightarrow> f x = g x) \<Longrightarrow> bindP m f = bindP m' g"
  by (cases m' rule: prog_cases) auto

lemma bindP_mono [partial_function_mono]:
  assumes "mono_option B" and "\<And>y. mono_option (\<lambda>f. C y f)"
  shows "mono_option (\<lambda>f. bindP (B f) (\<lambda>y. C y f))"
  unfolding bindP_def
proof (rule bind_mono [OF assms(1)])
  fix r :: "fault + 'c"
  show "mono_option (\<lambda>f. case r of Inl e \<Rightarrow> Some (Inl e) | Inr x \<Rightarrow> C x f)"
    by (cases r) (auto intro: assms(2) option.const_mono)
qed

section \<open>Stores of objects\<close>

definition deref :: "(ptr \<rightharpoonup> 'a) \<Rightarrow> ptr \<Rightarrow> 'a prog" where
  "deref m p = (if p = nullptr then stop NullDeref else case m p of None \<Rightarrow> stop (Dangling p) | Some x \<Rightarrow> ret x)"

lemma deref_Some [simp]: "p \<noteq> nullptr \<Longrightarrow> m p = Some x \<Longrightarrow> deref m p = ret x"
  by (simp add: deref_def)

section \<open>Spinlocks\<close>

type_synonym spinlock_t = bool

definition spinlock_acquire :: "spinlock_t \<Rightarrow> spinlock_t prog" where
  "spinlock_acquire l = (if l then None else ret True)"

definition spinlock_release :: "spinlock_t \<Rightarrow> spinlock_t" where
  "spinlock_release l = False"

lemma spinlock_acquire_free [simp]: "spinlock_acquire False = ret True"
  by (simp add: spinlock_acquire_def)

lemma spinlock_acquire_held [simp]: "spinlock_acquire True = None"
  by (simp add: spinlock_acquire_def)

lemma spinlock_release_free [simp]: "spinlock_release l = False"
  by (simp add: spinlock_release_def)

section \<open>Words as numbers\<close>

text \<open>How the wrapping operations read when nothing wraps.\<close>

named_theorems unat_simps \<open>unat of arithmetic that does not wrap\<close>

lemma unat_less_2p64 [simp]: "unat (x :: u64) < 18446744073709551616"
  using unsigned_less [of x] by simp

lemma unat_of_nat64 [unat_simps]: "n < 2 ^ 64 \<Longrightarrow> unat (of_nat n :: u64) = n"
  by (simp add: unat_of_nat take_bit_nat_eq_self)

lemma unat_add64 [unat_simps]: "unat a + unat b < 2 ^ 64 \<Longrightarrow> unat (a + b :: u64) = unat a + unat b"
  by (simp add: unat_word_ariths)

lemma unat_mult64 [unat_simps]: "unat a * unat b < 2 ^ 64 \<Longrightarrow> unat (a * b :: u64) = unat a * unat b"
  by (simp add: unat_word_ariths)

lemma unat_sub64 [unat_simps]: "b \<le> a \<Longrightarrow> unat (a - b :: u64) = unat a - unat b"
  by (rule unat_sub)

lemma of_nat64_inj: "i < 2 ^ 64 \<Longrightarrow> j < 2 ^ 64 \<Longrightarrow> (of_nat i :: u64) = of_nat j \<longleftrightarrow> i = j"
  by (metis unat_of_nat64)

lemma of_nat64_less: "i < 2 ^ 64 \<Longrightarrow> j < 2 ^ 64 \<Longrightarrow> (of_nat i :: u64) < of_nat j \<longleftrightarrow> i < j"
  by (simp add: word_less_nat_alt unat_of_nat64)

text \<open>The offset of an address from a base, when it is one of the first \<open>n\<close> bytes after it.\<close>

lemma offset_iff: "n \<le> 2 ^ 64 \<Longrightarrow> (\<exists>i<n. x = a + of_nat i) \<longleftrightarrow> unat (x - a) < n" for a x :: u64
proof
  assume n: "n \<le> 2 ^ 64"
  assume "\<exists>i<n. x = a + of_nat i"
  then obtain i where "i < n" "x = a + of_nat i" by blast
  then show "unat (x - a) < n" using n by (simp add: unat_of_nat64)
next
  assume "unat (x - a) < n"
  then show "\<exists>i<n. x = a + of_nat i"
    by (intro exI [of _ "unat (x - a)"]) simp
qed

section \<open>Arithmetic macros of util.h\<close>

abbreviation PAGE_SIZE :: u64 where
  "PAGE_SIZE \<equiv> 4096"

definition KiB :: "u64 \<Rightarrow> u64" where
  "KiB x = x * 1024"

definition MiB :: "u64 \<Rightarrow> u64" where
  "MiB x = KiB x * 1024"

definition GiB :: "u64 \<Rightarrow> u64" where
  "GiB x = MiB x * 1024"

definition DIV_ROUNDUP :: "u64 \<Rightarrow> u64 \<Rightarrow> u64" where
  "DIV_ROUNDUP v d = (v + (d - 1)) div d"

definition ALIGN_UP :: "u64 \<Rightarrow> u64 \<Rightarrow> u64" where
  "ALIGN_UP v a = DIV_ROUNDUP v a * a"

definition ALIGN_DOWN :: "u64 \<Rightarrow> u64 \<Rightarrow> u64" where
  "ALIGN_DOWN v a = v div a * a"

lemma unat_DIV_ROUNDUP:
  assumes "0 < unat d" "unat v + (unat d - 1) < 2 ^ 64"
  shows "unat (DIV_ROUNDUP v d) = (unat v + (unat d - 1)) div unat d"
proof -
  have "unat (d - 1) = unat d - 1"
    using assms(1) by (subst unat_sub64) (simp_all add: word_le_nat_alt)
  then show ?thesis using assms(2) by (simp add: DIV_ROUNDUP_def unat_div_distrib unat_add64)
qed

lemma unat_ALIGN_UP:
  assumes "0 < unat d" "unat v + (unat d - 1) < 2 ^ 64"
  shows "unat (ALIGN_UP v d) = (unat v + (unat d - 1)) div unat d * unat d"
proof -
  have "(unat v + (unat d - 1)) div unat d * unat d \<le> unat v + (unat d - 1)"
    by (rule div_times_less_eq_dividend)
  with assms(2) have "unat (DIV_ROUNDUP v d) * unat d < 2 ^ 64"
    unfolding unat_DIV_ROUNDUP [OF assms] by (rule le_less_trans [rotated])
  then show ?thesis unfolding ALIGN_UP_def by (simp only: unat_mult64 unat_DIV_ROUNDUP [OF assms])
qed

text \<open>A signed 64-bit value kept as an \<open>int\<close>, read back from the word it is converted to.\<close>

lemma sint_of_int64: "0 \<le> c \<Longrightarrow> c < 2 ^ 63 \<Longrightarrow> sint (word_of_int c :: u64) = c"
proof -
  assume c: "0 \<le> c" "c < 2 ^ 63"
  have "sint (word_of_int c :: u64) = signed_take_bit 63 c"
    by (simp add: sint_uint take_bit_word_eq_self unsigned_of_int signed_take_bit_take_bit)
  also have "\<dots> = c" using c by (intro signed_take_bit_int_eq_self) simp_all
  finally show ?thesis .
qed

lemma unat_of_int64: "0 \<le> c \<Longrightarrow> c < 2 ^ 64 \<Longrightarrow> unat (word_of_int c :: u64) = nat c"
proof -
  assume c: "0 \<le> c" "c < 2 ^ 64"
  have "uint (word_of_int c :: u64) = take_bit 64 c" by (simp add: unsigned_of_int)
  also have "\<dots> = c" using c by (intro take_bit_int_eq_self) simp_all
  finally show ?thesis by (simp only: unat_eq_nat_uint)
qed

text \<open>Rounding up gives a multiple, at least the value and less than one step above it.\<close>

lemma ALIGN_UP_bounds:
  assumes "0 < unat d" "unat v + (unat d - 1) < 2 ^ 64"
  shows "unat d dvd unat (ALIGN_UP v d)" "unat v \<le> unat (ALIGN_UP v d)" "unat (ALIGN_UP v d) < unat v + unat d"
proof -
  define x where "x = unat v + (unat d - 1)"
  note eq = unat_ALIGN_UP [OF assms, folded x_def]
  have x: "x div unat d * unat d + x mod unat d = x" "x mod unat d < unat d" using assms(1) by simp_all
  show "unat d dvd unat (ALIGN_UP v d)" by (simp add: eq)
  show "unat v \<le> unat (ALIGN_UP v d)" unfolding eq using x assms(1) x_def by linarith
  show "unat (ALIGN_UP v d) < unat v + unat d" unfolding eq using x assms(1) x_def by linarith
qed

end
