(* ===== verification/Util.thy ===== *)
theory Util
  imports Prelude
begin

unbundle bit_operations_syntax

text \<open>
  The memory primitives of src/kernel/lib/src/util.c and the maximum of src/kernel/lib/src/math.c.
  Each loop is a fold over the indices in the order the C code visits them, so that what an
  overlapping copy does is what the code does. The 64-bit variants move one 8-byte word per
  iteration: all eight bytes are read before any of them is written.
\<close>

section \<open>The loops\<close>

definition memset :: "memory \<Rightarrow> ptr \<Rightarrow> u8 \<Rightarrow> u64 \<Rightarrow> memory" where
  "memset mem dst value n =
     fold (\<lambda>i m. m(dst + of_nat i := value)) [0..<unat n] mem"

definition copy_byte :: "ptr \<Rightarrow> ptr \<Rightarrow> nat \<Rightarrow> memory \<Rightarrow> memory" where
  "copy_byte dst src i m = m(dst + of_nat i := m (src + of_nat i))"

definition memcpy :: "memory \<Rightarrow> ptr \<Rightarrow> ptr \<Rightarrow> u64 \<Rightarrow> memory" where
  "memcpy mem dst src n =
     fold (copy_byte dst src) [0..<unat n] mem"

definition memmove :: "memory \<Rightarrow> ptr \<Rightarrow> ptr \<Rightarrow> u64 \<Rightarrow> memory" where
  "memmove mem dst src n =
     (if dst < src then memcpy mem dst src n
      else fold (copy_byte dst src) (rev [0..<unat n]) mem)"

definition write64 :: "memory \<Rightarrow> ptr \<Rightarrow> u64 \<Rightarrow> memory" where
  "write64 mem a v =
     (\<lambda>x. if unat (x - a) < 8 then ucast (drop_bit (8 * unat (x - a)) v) else mem x)"

definition copy64 :: "memory \<Rightarrow> ptr \<Rightarrow> ptr \<Rightarrow> memory" where
  "copy64 mem dst src =
     (\<lambda>x. if unat (x - dst) < 8 then mem (src + (x - dst)) else mem x)"

definition fast_memset :: "memory \<Rightarrow> ptr \<Rightarrow> u64 \<Rightarrow> u64 \<Rightarrow> memory" where
  "fast_memset mem dst value n =
     fold (\<lambda>i m. write64 m (dst + 8 * of_nat i) value) [0..<unat n] mem"

definition fast_memcpy :: "memory \<Rightarrow> ptr \<Rightarrow> ptr \<Rightarrow> u64 \<Rightarrow> memory" where
  "fast_memcpy mem dst src n =
     fold (\<lambda>i m. copy64 m (dst + 8 * of_nat i) (src + 8 * of_nat i)) [0..<unat (n div 8)] mem"

definition fast_memmove :: "memory \<Rightarrow> ptr \<Rightarrow> ptr \<Rightarrow> u64 \<Rightarrow> memory" where
  "fast_memmove mem dst src n =
     (if dst < src then fast_memcpy mem dst src n
      else fold (\<lambda>i m. copy64 m (dst + 8 * of_nat i) (src + 8 * of_nat i))
             (rev [0..<unat (n div 8)]) mem)"

fun memcmp_loop :: "memory \<Rightarrow> ptr \<Rightarrow> ptr \<Rightarrow> nat list \<Rightarrow> int" where
  "memcmp_loop mem s1 s2 [] = 0"
| "memcmp_loop mem s1 s2 (i # is) =
     (if mem (s1 + of_nat i) \<noteq> mem (s2 + of_nat i)
      then (if mem (s1 + of_nat i) > mem (s2 + of_nat i) then 1 else -1)
      else memcmp_loop mem s1 s2 is)"

definition memcmp :: "memory \<Rightarrow> ptr \<Rightarrow> ptr \<Rightarrow> u64 \<Rightarrow> int" where
  "memcmp mem s1 s2 n = memcmp_loop mem s1 s2 [0..<unat n]"

definition ulmax :: "u64 \<Rightarrow> u64 \<Rightarrow> u64" where
  "ulmax a b = (if a > b then a else b)"

lemma ulmax_max [simp]: "ulmax a b = max a b"
  by (auto simp: ulmax_def max_def)

section \<open>What they compute\<close>

lemma memset_apply: "memset mem dst v n x = (if unat (x - dst) < unat n then v else mem x)"
proof -
  have "fold (\<lambda>i m. m(dst + of_nat i := v)) [0..<k] mem x
          = (if \<exists>i<k. x = dst + of_nat i then v else mem x)" for k
    by (induction k) (auto simp: less_Suc_eq)
  then show ?thesis
    using offset_iff [of "unat n" x dst] by (simp add: memset_def less_imp_le)
qed

text \<open>
  A byte-by-byte copy in any order of indices is a copy of the original bytes as long as no read
  follows a write to the same address.
\<close>

lemma copy_byte_apply:
  "copy_byte dst src i m x = (if x = dst + of_nat i then m (src + of_nat i) else m x)"
  by (simp add: copy_byte_def)

lemma copy_fold:
  fixes mem :: memory and dst src :: ptr
  assumes "sorted_wrt (\<lambda>j i. src + of_nat i \<noteq> dst + of_nat j) is"
  shows "fold (copy_byte dst src) is mem x
           = (if \<exists>i\<in>set is. x = dst + of_nat i then mem (src + (x - dst)) else mem x)"
  using assms
proof (induction "is" arbitrary: x rule: rev_induct)
  case Nil
  then show ?case by simp
next
  case (snoc k "is")
  define m where "m = fold (copy_byte dst src) is mem"
  have IH: "m y = (if \<exists>i\<in>set is. y = dst + of_nat i then mem (src + (y - dst)) else mem y)" for y
    unfolding m_def by (rule snoc.IH) (use snoc.prems in \<open>simp add: sorted_wrt_append\<close>)
  have src_k: "m (src + of_nat k) = mem (src + of_nat k)"
    using snoc.prems by (auto simp: IH sorted_wrt_append)
  have eq: "fold (copy_byte dst src) (is @ [k]) mem = copy_byte dst src k m"
    by (simp add: m_def)
  show ?case unfolding eq by (auto simp: copy_byte_apply src_k) (auto simp: IH)
qed

lemma sorted_wrt_upt: "sorted_wrt P [0..<n] \<longleftrightarrow> (\<forall>j i. j < i \<and> i < n \<longrightarrow> P j i)"
  by (auto simp: sorted_wrt_iff_nth_less)

lemma sorted_wrt_rev_upt: "sorted_wrt P (rev [0..<n]) \<longleftrightarrow> (\<forall>j i. j < i \<and> i < n \<longrightarrow> P i j)"
  unfolding sorted_wrt_rev by (rule sorted_wrt_upt)

lemma copy_result:
  fixes mem :: memory and dst src :: ptr
  assumes "sorted_wrt (\<lambda>j i. src + of_nat i \<noteq> dst + of_nat j) is" and "set is = {0..<unat (n :: u64)}"
  shows "fold (copy_byte dst src) is mem x
           = (if unat (x - dst) < unat n then mem (src + (x - dst)) else mem x)"
  using copy_fold [OF assms(1), of mem x] offset_iff [of "unat n" x dst] assms(2)
  by (simp add: Bex_def less_imp_le)

lemma unat_plus_of_nat:
  "unat (a :: u64) + unat n \<le> 2 ^ 64 \<Longrightarrow> i < unat n \<Longrightarrow> unat (a + of_nat i) = unat a + i" for n :: u64
  by (simp add: unat_add64 unat_of_nat64)

lemma memcpy_apply:
  assumes "\<And>i j. i < unat n \<Longrightarrow> j < i \<Longrightarrow> src + of_nat i \<noteq> dst + of_nat j"
  shows "memcpy mem dst src n x = (if unat (x - dst) < unat n then mem (src + (x - dst)) else mem x)"
  unfolding memcpy_def using assms by (intro copy_result) (auto simp: sorted_wrt_upt)

lemma memmove_apply:
  assumes "unat dst + unat n \<le> 2 ^ 64" and "unat src + unat n \<le> 2 ^ 64"
  shows "memmove mem dst src n x = (if unat (x - dst) < unat n then mem (src + (x - dst)) else mem x)"
proof -
  have ne: "src + of_nat i \<noteq> dst + of_nat j"
    if "i < unat n" "j < unat n" "unat src + i \<noteq> unat dst + j" for i j
    using that unat_plus_of_nat [OF assms(2)] unat_plus_of_nat [OF assms(1)] by metis
  show ?thesis
  proof (cases "dst < src")
    case True
    then have "unat dst < unat src" by (simp add: word_less_nat_alt)
    then have "src + of_nat i \<noteq> dst + of_nat j" if "i < unat n" "j < i" for i j
      using that by (intro ne) auto
    with True show ?thesis by (simp add: memmove_def memcpy_apply)
  next
    case False
    then have "unat src \<le> unat dst" by (simp add: word_less_nat_alt)
    then have "src + of_nat i \<noteq> dst + of_nat j" if "i < j" "j < unat n" for i j
      using that by (intro ne) auto
    with False show ?thesis
      unfolding memmove_def if_not_P [OF False]
      by (intro copy_result) (auto simp: sorted_wrt_rev_upt)
  qed
qed

lemma memcmp_loop_0: "memcmp_loop mem s1 s2 is = 0 \<longleftrightarrow> (\<forall>i\<in>set is. mem (s1 + of_nat i) = mem (s2 + of_nat i))"
  by (induction "is") auto

lemma memcmp_eq_0:
  "memcmp mem s1 s2 n = 0 \<longleftrightarrow> (\<forall>i<unat n. mem (s1 + of_nat i) = mem (s2 + of_nat i))"
  by (auto simp: memcmp_def memcmp_loop_0)

text \<open>Clearing by words is clearing by bytes.\<close>

lemma write64_0_apply: "write64 mem a 0 x = (if unat (x - a) < 8 then 0 else mem x)"
  by (simp add: write64_def)

lemma word_in_block:
  fixes x dst :: u64
  assumes "8 * Suc k \<le> 2 ^ 64"
  shows "unat (x - (dst + 8 * of_nat k)) < 8 \<longleftrightarrow> 8 * k \<le> unat (x - dst) \<and> unat (x - dst) < 8 * Suc k"
proof -
  have o: "unat (8 * of_nat k :: u64) = 8 * k"
    using assms unat_of_nat64 [of "8 * k"] by simp
  have eq: "x - (dst + 8 * of_nat k) = (x - dst) - 8 * of_nat k" by (rule diff_diff_eq [symmetric])
  have "unat ((x - dst) - 8 * of_nat k) =
      (if 8 * k \<le> unat (x - dst) then unat (x - dst) - 8 * k else unat (x - dst) + 2 ^ 64 - 8 * k)"
    by (subst unat_sub_if') (simp add: o)
  then show ?thesis unfolding eq using assms by auto
qed

lemma fast_memset_0_apply:
  assumes "8 * unat n \<le> 2 ^ 64"
  shows "fast_memset mem dst 0 n x = (if unat (x - dst) < 8 * unat n then 0 else mem x)"
proof -
  have "fold (\<lambda>i m. write64 m (dst + 8 * of_nat i) 0) [0..<k] mem x
          = (if unat (x - dst) < 8 * k then 0 else mem x)" if "8 * k \<le> 2 ^ 64" for k
    using that
  proof (induction k arbitrary: x)
    case 0
    then show ?case by simp
  next
    case (Suc k)
    define m where "m = fold (\<lambda>i m. write64 m (dst + 8 * of_nat i) 0) [0..<k] mem"
    have IH: "m y = (if unat (y - dst) < 8 * k then 0 else mem y)" for y
      unfolding m_def by (rule Suc.IH) (use Suc.prems in simp)
    have eq: "fold (\<lambda>i m. write64 m (dst + 8 * of_nat i) 0) [0..<Suc k] mem
        = write64 m (dst + 8 * of_nat k) 0"
      by (simp add: m_def)
    show ?case unfolding eq unfolding write64_0_apply IH word_in_block [OF Suc.prems] by auto
  qed
  from this [OF assms] show ?thesis by (simp add: fast_memset_def)
qed

text \<open>Copying by words between two regions that do not overlap.\<close>

lemma fast_memcpy_apply:
  fixes dst src :: ptr
  assumes lim: "8 * unat (n div 8) \<le> 2 ^ 64"
    and disj: "\<And>i. i < 8 * unat (n div 8) \<Longrightarrow> 8 * unat (n div 8) \<le> unat (src + of_nat i - dst)"
  shows "fast_memcpy mem dst src n x = (if unat (x - dst) < 8 * unat (n div 8) then mem (src + (x - dst)) else mem x)"
proof -
  let ?N = "unat (n div 8)"
  have "fold (\<lambda>i m. copy64 m (dst + 8 * of_nat i) (src + 8 * of_nat i)) [0..<k] mem x
          = (if unat (x - dst) < 8 * k then mem (src + (x - dst)) else mem x)" if "k \<le> ?N" for k
    using that
  proof (induction k arbitrary: x)
    case 0
    then show ?case by simp
  next
    case (Suc k)
    define m where "m = fold (\<lambda>i m. copy64 m (dst + 8 * of_nat i) (src + 8 * of_nat i)) [0..<k] mem"
    have IH: "m y = (if unat (y - dst) < 8 * k then mem (src + (y - dst)) else mem y)" for y
      unfolding m_def by (rule Suc.IH) (use Suc.prems in simp)
    have eq: "fold (\<lambda>i m. copy64 m (dst + 8 * of_nat i) (src + 8 * of_nat i)) [0..<Suc k] mem
        = copy64 m (dst + 8 * of_nat k) (src + 8 * of_nat k)"
      by (simp add: m_def)
    have blk: "8 * Suc k \<le> 2 ^ 64"
      by (rule order_trans [OF mult_le_mono2 [OF Suc.prems] lim])
    have src: "m (src + (x - dst)) = mem (src + (x - dst))" if "unat (x - dst) < 8 * Suc k"
    proof -
      have "unat (x - dst) < 8 * ?N"
        by (rule less_le_trans [OF that mult_le_mono2 [OF Suc.prems]])
      from disj [OF this] Suc.prems show ?thesis by (simp add: IH)
    qed
    have "src + 8 * of_nat k + (x - (dst + 8 * of_nat k)) = src + (x - dst)" by simp
    then show ?case
      unfolding eq unfolding copy64_def word_in_block [OF blk] by (auto simp: src) (auto simp: IH)
  qed
  from this [of ?N] show ?thesis by (simp add: fast_memcpy_def)
qed

end
