(* ===== verification/HeapOps.thy ===== *)
theory HeapOps
  imports Prelude
begin

text \<open>
  The kernel heap as the data structures see it: \<open>operator new\<close>, \<open>operator delete\<close>,
  \<open>NewDeleteInitialised\<close> (src/kernel/src/Memory/newdelete.cpp) and \<open>kcalloc_eternal\<close>
  (src/kernel/src/Memory/kmalloc.cpp). The heap grows through the page managers, and the page managers
  keep their bookkeeping in these same data structures, so the operations are passed as a record
  rather than named. \<open>kernel_heap\<close> is the contract the data structures rely on: a block that is
  handed out is new, and a delete gives back that block only.
\<close>

record 'h heap_ops =
  kcalloc_eternal_op :: "u64 \<Rightarrow> u64 \<Rightarrow> 'h \<Rightarrow> (ptr \<times> 'h) prog"
  new_initialised :: "'h \<Rightarrow> bool"
  op_new :: "u64 \<Rightarrow> 'h \<Rightarrow> (ptr \<times> 'h) prog"
  op_delete :: "ptr \<Rightarrow> 'h \<Rightarrow> 'h prog"

text \<open>
  \<open>heap_ok h L E\<close> says that the heap is in order, with the deletable blocks \<open>L\<close> and the eternal
  blocks \<open>E\<close>; \<open>R\<close> is the region all blocks come from. A failed eternal allocation promises nothing
  about the heap it leaves, because the code returns from it with the lock held.
\<close>

locale kernel_heap =
  fixes A :: "'h heap_ops"
    and heap_ok :: "'h \<Rightarrow> ptr set \<Rightarrow> ptr set \<Rightarrow> bool"
    and R :: "ptr set"
  assumes blocks_in_region: "heap_ok h L E \<Longrightarrow> L \<union> E \<subseteq> R"
    and null_not_in_region: "nullptr \<notin> R"
    and op_new_runs: "heap_ok h L E \<Longrightarrow> 0 < sz \<Longrightarrow> sz \<le> 4096 \<Longrightarrow> op_new A sz h \<noteq> None"
    and op_new_fresh: "heap_ok h L E \<Longrightarrow> 0 < sz \<Longrightarrow> sz \<le> 4096 \<Longrightarrow> op_new A sz h = ret (p, h') \<Longrightarrow>
          (if p = nullptr then heap_ok h' L E else p \<notin> L \<union> E \<and> heap_ok h' (insert p L) E)"
    and op_delete_live: "heap_ok h L E \<Longrightarrow> p \<in> L \<Longrightarrow> new_initialised A h \<Longrightarrow>
          \<exists>h'. op_delete A p h = ret h' \<and> heap_ok h' (L - {p}) E"
    and eternal_runs: "heap_ok h L E \<Longrightarrow> \<exists>p h'. kcalloc_eternal_op A 1 sz h = ret (p, h')"
    and eternal_fresh: "heap_ok h L E \<Longrightarrow> 0 < sz \<Longrightarrow> sz \<le> 4096 \<Longrightarrow>
          kcalloc_eternal_op A 1 sz h = ret (p, h') \<Longrightarrow> p \<noteq> nullptr \<Longrightarrow>
          p \<notin> L \<union> E \<and> heap_ok h' L (insert p E)"

end
