(* ===== verification/Kmalloc.thy ===== *)
theory Kmalloc
  imports Util HeapOps
begin

unbundle bit_operations_syntax

text \<open>
  The kernel heap: the class \<open>HeapAllocator\<close>, \<open>kmalloc\<close> and its variants and the eternal
  allocator (src/kernel/src/Memory/kmalloc.cpp), and the \<open>new\<close> and \<open>delete\<close> operators on top of
  them (src/kernel/src/Memory/newdelete.cpp).

  The block headers the allocator keeps in front of each block are a store from addresses to
  headers, total as memory is; the bytes of the blocks are the memory \<open>kh_mem\<close>. The pages the heap
  starts with are an argument of the initialisation functions.

  The proofs about these definitions are in KmallocBlocks and KmallocContract.
\<close>

section \<open>HeapAllocator\<close>

record BlockHeader =
  bh_size :: u64
  bh_isFree :: bool
  bh_isStartOfChunk :: bool
  bh_next :: ptr

type_synonym headers = "ptr \<Rightarrow> BlockHeader"

abbreviation sizeof_BlockHeader :: u64 where
  "sizeof_BlockHeader \<equiv> 16"

abbreviation MIN_SIZE :: u64 where
  "MIN_SIZE \<equiv> 16"

text \<open>The size is a bit field of 62 bits.\<close>

definition bh_set_size :: "headers \<Rightarrow> ptr \<Rightarrow> u64 \<Rightarrow> headers" where
  "bh_set_size hs p v = hs(p := (hs p)\<lparr>bh_size := take_bit 62 v\<rparr>)"

definition bh_set_isFree :: "headers \<Rightarrow> ptr \<Rightarrow> bool \<Rightarrow> headers" where
  "bh_set_isFree hs p v = hs(p := (hs p)\<lparr>bh_isFree := v\<rparr>)"

definition bh_set_isStartOfChunk :: "headers \<Rightarrow> ptr \<Rightarrow> bool \<Rightarrow> headers" where
  "bh_set_isStartOfChunk hs p v = hs(p := (hs p)\<lparr>bh_isStartOfChunk := v\<rparr>)"

definition bh_set_next :: "headers \<Rightarrow> ptr \<Rightarrow> ptr \<Rightarrow> headers" where
  "bh_set_next hs p v = hs(p := (hs p)\<lparr>bh_next := v\<rparr>)"

record HeapAllocator =
  m_freeList :: ptr
  m_freeMem :: u64
  m_usedMem :: u64
  m_MetadataMem :: u64
  ha_lock :: spinlock_t
  ha_headers :: headers

definition HeapAllocator_empty :: "headers \<Rightarrow> HeapAllocator" where
  "HeapAllocator_empty hs =
     \<lparr>m_freeList = nullptr, m_freeMem = 0, m_usedMem = 0, m_MetadataMem = 0, ha_lock = False, ha_headers = hs\<rparr>"

definition HeapAllocator_sized :: "(u64 \<Rightarrow> ptr) \<Rightarrow> headers \<Rightarrow> u64 \<Rightarrow> HeapAllocator prog" where
  "HeapAllocator_sized AllocatePages hs sz =
     (let h = HeapAllocator_empty hs;
          numPages = DIV_ROUNDUP (sz + sizeof_BlockHeader) PAGE_SIZE;
          numBytes = numPages * PAGE_SIZE;
          header = AllocatePages numPages;
          h = h\<lparr>m_MetadataMem := m_MetadataMem h + sizeof_BlockHeader\<rparr>
      in if header = nullptr then stop NullDeref
         else
           let hs = bh_set_size hs header (numBytes - sizeof_BlockHeader);
               hs = bh_set_isFree hs header True;
               hs = bh_set_isStartOfChunk hs header True
           in ret (h\<lparr>ha_headers := hs, m_freeMem := m_freeMem h + bh_size (hs header), m_freeList := header\<rparr>))"

partial_function (option) place_search :: "headers \<Rightarrow> ptr \<Rightarrow> ptr \<Rightarrow> ptr \<Rightarrow> (ptr \<times> ptr) prog" where
  "place_search hs header prev cur =
     (if cur = nullptr then ret (prev, nullptr)
      else if header > prev \<and> header < cur then ret (prev, cur)
      else place_search hs header cur (bh_next (hs cur)))"

definition mergeable :: "headers \<Rightarrow> ptr \<Rightarrow> ptr \<Rightarrow> ptr \<Rightarrow> bool" where
  "mergeable hs a b checked \<longleftrightarrow> a + sizeof_BlockHeader + bh_size (hs a) = b \<and> bh_isFree (hs checked)"

definition count_merge :: "HeapAllocator \<Rightarrow> HeapAllocator" where
  "count_merge h = h\<lparr>m_freeMem := m_freeMem h + sizeof_BlockHeader,
                     m_MetadataMem := m_MetadataMem h - sizeof_BlockHeader\<rparr>"

text \<open>Merging \<open>header\<close> with the free block \<open>cur\<close> after it, or linking it in front of it.\<close>

definition merge_next :: "HeapAllocator \<Rightarrow> ptr \<Rightarrow> ptr \<Rightarrow> HeapAllocator" where
  "merge_next h header cur =
     (let hs = ha_headers h in
      if mergeable hs header cur cur then
        let hs' = bh_set_size hs header (bh_size (hs header) + (sizeof_BlockHeader + bh_size (hs cur)));
            hs' = bh_set_next hs' header (bh_next (hs' cur))
        in count_merge (h\<lparr>ha_headers := hs'\<rparr>)
      else h\<lparr>ha_headers := bh_set_next hs header cur\<rparr>)"

definition AddToFreeList :: "HeapAllocator \<Rightarrow> ptr \<Rightarrow> HeapAllocator prog" where
  "AddToFreeList h header =
     (if m_freeList h = nullptr then
        ret (h\<lparr>m_freeList := header, ha_headers := bh_set_next (ha_headers h) header nullptr\<rparr>)
      else
        bindP (place_search (ha_headers h) header nullptr (m_freeList h)) (\<lambda>(prev, cur).
          if cur \<noteq> nullptr then
            (if prev = nullptr then ret (merge_next (h\<lparr>m_freeList := header\<rparr>) header cur)
             else
               let hs = ha_headers h in
               if mergeable hs prev header prev then
                 let hs' = bh_set_size hs prev (bh_size (hs prev) + (sizeof_BlockHeader + bh_size (hs header)));
                     hs' = bh_set_next hs' prev cur
                 in ret (merge_next (count_merge (h\<lparr>ha_headers := hs'\<rparr>)) prev cur)
               else ret (merge_next (h\<lparr>ha_headers := bh_set_next hs prev header\<rparr>) header cur))
          else
            let hs = bh_set_next (ha_headers h) prev header;
                hs = bh_set_next hs header nullptr
            in if mergeable hs prev header prev then
                 let hs' = bh_set_size hs prev (bh_size (hs prev) + (sizeof_BlockHeader + bh_size (hs header)));
                     hs' = bh_set_next hs' prev nullptr
                 in ret (count_merge (h\<lparr>ha_headers := hs'\<rparr>))
               else ret (h\<lparr>ha_headers := hs\<rparr>)))"

partial_function (option) fit_search :: "headers \<Rightarrow> u64 \<Rightarrow> ptr \<Rightarrow> ptr \<Rightarrow> (ptr \<times> ptr) prog" where
  "fit_search hs sz prev cur =
     (if cur = nullptr then ret (prev, nullptr)
      else if bh_size (hs cur) \<ge> sz then ret (prev, cur)
      else fit_search hs sz cur (bh_next (hs cur)))"

definition HeapAllocator_allocate :: "HeapAllocator \<Rightarrow> u64 \<Rightarrow> (ptr \<times> HeapAllocator) prog" where
  "HeapAllocator_allocate h sz =
     (let sz = ALIGN_UP sz MIN_SIZE in
      bindP (fit_search (ha_headers h) sz nullptr (m_freeList h)) (\<lambda>(prev, cur).
        if cur = nullptr then stop (Panic ''kmalloc: out of memory'')
        else
          let h = (if prev = nullptr then h\<lparr>m_freeList := bh_next (ha_headers h cur)\<rparr>
                   else h\<lparr>ha_headers := bh_set_next (ha_headers h) prev (bh_next (ha_headers h cur))\<rparr>);
              h = h\<lparr>ha_headers := bh_set_isFree (ha_headers h) cur False\<rparr>;
              csize = bh_size (ha_headers h cur)
          in bindP
               (if csize > sz + sizeof_BlockHeader then
                  let next = cur + sizeof_BlockHeader + sz;
                      hs = bh_set_size (ha_headers h) next (csize - sz - sizeof_BlockHeader);
                      hs = bh_set_isFree hs next True;
                      hs = bh_set_size hs cur sz;
                      h = h\<lparr>ha_headers := hs, m_freeMem := m_freeMem h - sizeof_BlockHeader\<rparr>
                  in bindP (AddToFreeList h next) (\<lambda>h.
                     ret (h\<lparr>m_MetadataMem := m_MetadataMem h + sizeof_BlockHeader\<rparr>))
                else ret h)
               (\<lambda>h. ret (cur + sizeof_BlockHeader,
                          h\<lparr>m_usedMem := m_usedMem h + sz, m_freeMem := m_freeMem h - sz\<rparr>))))"

definition HeapAllocator_free :: "HeapAllocator \<Rightarrow> ptr \<Rightarrow> HeapAllocator prog" where
  "HeapAllocator_free h p =
     (let header = p - sizeof_BlockHeader in
      if header = nullptr then stop NullDeref
      else
        let h = h\<lparr>ha_headers := bh_set_isFree (ha_headers h) header True\<rparr>;
            n = bh_size (ha_headers h header);
            h = h\<lparr>m_usedMem := m_usedMem h - n, m_freeMem := m_freeMem h + n\<rparr>
        in AddToFreeList h header)"

definition getFreeMem :: "HeapAllocator \<Rightarrow> u64" where
  "getFreeMem h = m_freeMem h"

definition getUsedMem :: "HeapAllocator \<Rightarrow> u64" where
  "getUsedMem h = m_usedMem h"

definition getMetadataMem :: "HeapAllocator \<Rightarrow> u64" where
  "getMetadataMem h = m_MetadataMem h"

definition getTotalMem :: "HeapAllocator \<Rightarrow> u64" where
  "getTotalMem h = m_usedMem h + m_freeMem h + m_MetadataMem h"

definition HeapAllocator_lock :: "HeapAllocator \<Rightarrow> HeapAllocator prog" where
  "HeapAllocator_lock h = bindP (spinlock_acquire (ha_lock h)) (\<lambda>l. ret (h\<lparr>ha_lock := l\<rparr>))"

definition HeapAllocator_unlock :: "HeapAllocator \<Rightarrow> HeapAllocator" where
  "HeapAllocator_unlock h = h\<lparr>ha_lock := spinlock_release (ha_lock h)\<rparr>"

section \<open>kmalloc, kcalloc, krealloc, kfree\<close>

record kheap =
  g_heapAllocator :: HeapAllocator
  g_kmalloc_initialised :: bool
  g_NewDeleteInitialised :: bool
  g_kmalloc_eternal_initialised :: bool
  g_kmalloc_eternal_mem :: ptr
  g_kmalloc_eternal_free_mem :: u64
  g_kmalloc_eternal_used_mem :: u64
  g_kmalloc_eternal_lock :: spinlock_t
  kh_mem :: memory

definition NewDeleteInitialised :: "kheap \<Rightarrow> bool" where
  "NewDeleteInitialised s = g_NewDeleteInitialised s"

definition NewDeleteInit :: "kheap \<Rightarrow> kheap" where
  "NewDeleteInit s = s\<lparr>g_NewDeleteInitialised := True\<rparr>"

definition NewDeleteDestroy :: "kheap \<Rightarrow> kheap" where
  "NewDeleteDestroy s = s\<lparr>g_NewDeleteInitialised := False\<rparr>"

definition kmalloc_init :: "(u64 \<Rightarrow> ptr) \<Rightarrow> kheap \<Rightarrow> kheap prog" where
  "kmalloc_init AllocatePages s =
     (let s = s\<lparr>g_kmalloc_initialised := False\<rparr> in
      bindP (HeapAllocator_sized AllocatePages (ha_headers (g_heapAllocator s)) (MiB 4)) (\<lambda>h.
      let s = s\<lparr>g_heapAllocator := h, g_kmalloc_initialised := True\<rparr> in
      ret (NewDeleteInit s)))"

text \<open>The lock, one call to the allocator, the unlock.\<close>

definition with_heap :: "kheap \<Rightarrow> (HeapAllocator \<Rightarrow> ('a \<times> HeapAllocator) prog) \<Rightarrow> ('a \<times> kheap) prog" where
  "with_heap s f =
     bindP (HeapAllocator_lock (g_heapAllocator s)) (\<lambda>h.
     bindP (f h) (\<lambda>(x, h).
     ret (x, s\<lparr>g_heapAllocator := HeapAllocator_unlock h\<rparr>)))"

definition kcalloc :: "u64 \<Rightarrow> u64 \<Rightarrow> kheap \<Rightarrow> (ptr \<times> kheap) prog" where
  "kcalloc num sz s =
     (if \<not> g_kmalloc_initialised s then ret (nullptr, s)
      else
        let sz = ALIGN_UP (sz * num) MIN_SIZE in
        bindP (with_heap s (\<lambda>h. HeapAllocator_allocate h sz)) (\<lambda>(mem, s).
        if mem = nullptr then ret (nullptr, s)
        else ret (mem, s\<lparr>kh_mem := fast_memset (kh_mem s) mem 0 (sz div 8)\<rparr>)))"

definition kfree :: "ptr \<Rightarrow> kheap \<Rightarrow> kheap prog" where
  "kfree addr s =
     bindP (with_heap s (\<lambda>h. bindP (HeapAllocator_free h addr) (\<lambda>h. ret ((), h)))) (\<lambda>(_, s). ret s)"

definition kmalloc :: "u64 \<Rightarrow> kheap \<Rightarrow> (ptr \<times> kheap) prog" where
  "kmalloc sz s =
     (if sz = 0 \<or> \<not> g_kmalloc_initialised s then ret (nullptr, s)
      else with_heap s (\<lambda>h. HeapAllocator_allocate h (ALIGN_UP sz MIN_SIZE)))"

definition krealloc :: "ptr \<Rightarrow> u64 \<Rightarrow> kheap \<Rightarrow> (ptr \<times> kheap) prog" where
  "krealloc p sz s =
     (if sz = 0 then bindP (kfree p s) (\<lambda>s. ret (nullptr, s))
      else if p = nullptr then kmalloc sz s
      else
        bindP (HeapAllocator_lock (g_heapAllocator s)) (\<lambda>h.
        let header = p - sizeof_BlockHeader in
        if header = nullptr then stop NullDeref
        else
          let old_size = bh_size (ha_headers h header) in
          bindP (HeapAllocator_allocate h (ALIGN_UP sz MIN_SIZE)) (\<lambda>(ptr2, h).
          if ptr2 = nullptr then ret (nullptr, s\<lparr>g_heapAllocator := h\<rparr>)
          else
            let s = s\<lparr>kh_mem := fast_memcpy (kh_mem s) ptr2 p old_size\<rparr> in
            bindP (HeapAllocator_free h p) (\<lambda>h.
            ret (ptr2, s\<lparr>g_heapAllocator := HeapAllocator_unlock h\<rparr>)))))"

section \<open>The eternal allocator\<close>

definition kmalloc_eternal_init :: "(u64 \<Rightarrow> ptr) \<Rightarrow> kheap \<Rightarrow> kheap" where
  "kmalloc_eternal_init AllocatePages s =
     (let s = s\<lparr>g_kmalloc_eternal_initialised := False\<rparr>;
          pages = AllocatePages 512
      in if pages = nullptr then s
         else s\<lparr>g_kmalloc_eternal_mem := pages,
                g_kmalloc_eternal_free_mem := 512 * PAGE_SIZE,
                g_kmalloc_eternal_used_mem := 0,
                g_kmalloc_eternal_lock := False,
                g_kmalloc_eternal_initialised := True\<rparr>)"

definition kmalloc_eternal :: "u64 \<Rightarrow> kheap \<Rightarrow> (ptr \<times> kheap) prog" where
  "kmalloc_eternal sz s =
     (let sz = ALIGN_UP sz 8 in
      bindP (spinlock_acquire (g_kmalloc_eternal_lock s)) (\<lambda>l.
      let s = s\<lparr>g_kmalloc_eternal_lock := l\<rparr> in
      if \<not> g_kmalloc_eternal_initialised s \<or> sz > g_kmalloc_eternal_free_mem s then ret (nullptr, s)
      else
        let mem = g_kmalloc_eternal_mem s in
        ret (mem,
          s\<lparr>g_kmalloc_eternal_used_mem := g_kmalloc_eternal_used_mem s + sz,
            g_kmalloc_eternal_free_mem := g_kmalloc_eternal_free_mem s - sz,
            g_kmalloc_eternal_mem := g_kmalloc_eternal_mem s + sz,
            g_kmalloc_eternal_lock := spinlock_release (g_kmalloc_eternal_lock s)\<rparr>)))"

definition kcalloc_eternal :: "u64 \<Rightarrow> u64 \<Rightarrow> kheap \<Rightarrow> (ptr \<times> kheap) prog" where
  "kcalloc_eternal num sz s =
     (let sz = ALIGN_UP (sz * num) 8 in
      bindP (spinlock_acquire (g_kmalloc_eternal_lock s)) (\<lambda>l.
      let s = s\<lparr>g_kmalloc_eternal_lock := l\<rparr> in
      if \<not> g_kmalloc_eternal_initialised s \<or> sz > g_kmalloc_eternal_free_mem s then ret (nullptr, s)
      else
        let mem = g_kmalloc_eternal_mem s;
            s = s\<lparr>g_kmalloc_eternal_used_mem := g_kmalloc_eternal_used_mem s + sz,
                  g_kmalloc_eternal_free_mem := g_kmalloc_eternal_free_mem s - sz,
                  g_kmalloc_eternal_mem := g_kmalloc_eternal_mem s + sz,
                  g_kmalloc_eternal_lock := spinlock_release (g_kmalloc_eternal_lock s)\<rparr>
        in ret (mem, s\<lparr>kh_mem := fast_memset (kh_mem s) mem 0 (sz div 8)\<rparr>)))"

section \<open>operator new and operator delete\<close>

definition operator_new :: "u64 \<Rightarrow> kheap \<Rightarrow> (ptr \<times> kheap) prog" where
  "operator_new sz s =
     (if NewDeleteInitialised s then kcalloc (DIV_ROUNDUP sz 8) 8 s
      else stop (Panic ''operator new attempted when unavailable.''))"

definition operator_delete :: "ptr \<Rightarrow> kheap \<Rightarrow> kheap prog" where
  "operator_delete p s = (if NewDeleteInitialised s then kfree p s else ret s)"

text \<open>The array forms and the sized forms have the same bodies.\<close>

definition operator_new_array :: "u64 \<Rightarrow> kheap \<Rightarrow> (ptr \<times> kheap) prog" where
  "operator_new_array sz s =
     (if NewDeleteInitialised s then kcalloc (DIV_ROUNDUP sz 8) 8 s
      else stop (Panic ''operator new[] attempted when unavailable.''))"

definition operator_delete_array :: "ptr \<Rightarrow> kheap \<Rightarrow> kheap prog" where
  "operator_delete_array p s = (if NewDeleteInitialised s then kfree p s else ret s)"

definition kernel_ops :: "kheap heap_ops" where
  "kernel_ops = \<lparr>kcalloc_eternal_op = kcalloc_eternal, new_initialised = NewDeleteInitialised,
                 op_new = operator_new, op_delete = operator_delete\<rparr>"

end
