(* ===== verification/KmallocBlocks.thy ===== *)
theory KmallocBlocks
  imports Kmalloc
begin

unbundle bit_operations_syntax

text \<open>
  The allocator of Kmalloc as operations on a sequence of blocks. \<open>heap_rel h a bs\<close> says that the
  headers of \<open>h\<close> tile the chunk at address \<open>a\<close> with the blocks \<open>bs\<close>, that the free list links exactly
  the free ones in address order, that no two free blocks are adjacent, and that the counters add up
  to the size of the chunk. \<open>allocate\<close> is first fit with splitting on that sequence, and
  \<open>free\<close> is release with coalescing on both sides; both always return on a well-formed heap.
\<close>

section \<open>Blocks\<close>

text \<open>
  A chunk as a sequence of blocks: the size of each and whether it is free. A block takes the 16 bytes
  of its header and its size. \<open>tiles\<close> says that the headers describe the sequence from address \<open>a\<close>
  on, \<open>faddrs\<close> lists the addresses of the free blocks, and \<open>lseg\<close> that \<open>next\<close> pointers chain a list
  of headers.
\<close>

type_synonym blocks = "(u64 \<times> bool) list"

fun span :: "blocks \<Rightarrow> nat" where
  "span [] = 0"
| "span ((n, f) # bs) = 16 + unat n + span bs"

definition bend :: "ptr \<Rightarrow> u64 \<Rightarrow> ptr" where
  "bend a n = a + 16 + n"

fun tiles :: "headers \<Rightarrow> ptr \<Rightarrow> blocks \<Rightarrow> bool" where
  "tiles hs a [] \<longleftrightarrow> True"
| "tiles hs a ((n, f) # bs) \<longleftrightarrow> bh_size (hs a) = n \<and> bh_isFree (hs a) = f \<and> tiles hs (bend a n) bs"

fun starts :: "ptr \<Rightarrow> blocks \<Rightarrow> ptr list" where
  "starts a [] = []"
| "starts a ((n, f) # bs) = a # starts (bend a n) bs"

fun faddrs :: "ptr \<Rightarrow> blocks \<Rightarrow> ptr list" where
  "faddrs a [] = []"
| "faddrs a ((n, f) # bs) = (if f then [a] else []) @ faddrs (bend a n) bs"

fun lseg :: "headers \<Rightarrow> ptr \<Rightarrow> ptr list \<Rightarrow> ptr \<Rightarrow> bool" where
  "lseg hs p [] q \<longleftrightarrow> p = q"
| "lseg hs p (x # xs) q \<longleftrightarrow> p = x \<and> lseg hs (bh_next (hs x)) xs q"

definition eaddr :: "ptr \<Rightarrow> blocks \<Rightarrow> ptr" where
  "eaddr a bs = a + of_nat (span bs)"

definition fits_at :: "ptr \<Rightarrow> blocks \<Rightarrow> bool" where
  "fits_at a bs \<longleftrightarrow> a \<noteq> nullptr \<and> unat a + span bs < 2 ^ 64 \<and> span bs < 2 ^ 62"

named_theorems block_simps \<open>how the block functions act on sequences\<close>

lemma eaddr_simps [block_simps]: "eaddr a [] = a" "eaddr a ((n, f) # bs) = eaddr (bend a n) bs"
  by (simp_all add: eaddr_def bend_def algebra_simps)

lemma span_append [block_simps]: "span (xs @ ys) = span xs + span ys"
  by (induction xs rule: span.induct) auto

lemma eaddr_append [block_simps]: "eaddr a (xs @ ys) = eaddr (eaddr a xs) ys"
  by (simp add: eaddr_def span_append algebra_simps)

lemma tiles_append [block_simps]: "tiles hs a (xs @ ys) \<longleftrightarrow> tiles hs a xs \<and> tiles hs (eaddr a xs) ys"
  by (induction hs a xs rule: tiles.induct) (auto simp: eaddr_simps)

lemma starts_append [block_simps]: "starts a (xs @ ys) = starts a xs @ starts (eaddr a xs) ys"
  by (induction a xs rule: starts.induct) (auto simp: eaddr_simps)

lemma faddrs_append [block_simps]: "faddrs a (xs @ ys) = faddrs a xs @ faddrs (eaddr a xs) ys"
  by (induction a xs rule: faddrs.induct) (auto simp: eaddr_simps)

lemma lseg_append [block_simps]: "lseg hs p (xs @ ys) q \<longleftrightarrow> (\<exists>r. lseg hs p xs r \<and> lseg hs r ys q)"
  by (induction hs p xs q rule: lseg.induct) auto

lemma faddrs_subset: "set (faddrs a bs) \<subseteq> set (starts a bs)"
  by (induction a bs rule: starts.induct) auto

lemma faddrs_nil: "faddrs a bs = [] \<longleftrightarrow> (\<forall>(n, f)\<in>set bs. \<not> f)"
  by (induction a bs rule: faddrs.induct) auto

lemma faddrs_used [simp]: "\<forall>(n, f)\<in>set bs. \<not> f \<Longrightarrow> faddrs a bs = []"
  by (simp add: faddrs_nil)

text \<open>Only the headers at block starts matter to \<open>tiles\<close>, and only the \<open>next\<close> fields to \<open>lseg\<close>.\<close>

lemma tiles_cong:
  "(\<And>x. x \<in> set (starts a bs) \<Longrightarrow> bh_size (hs' x) = bh_size (hs x) \<and> bh_isFree (hs' x) = bh_isFree (hs x)) \<Longrightarrow>
   tiles hs' a bs = tiles hs a bs"
  by (induction hs a bs rule: tiles.induct) auto

lemma lseg_cong:
  "(\<And>x. x \<in> set xs \<Longrightarrow> bh_next (hs' x) = bh_next (hs x)) \<Longrightarrow> lseg hs' p xs q = lseg hs p xs q"
  by (induction hs p xs q rule: lseg.induct) auto

lemma tiles_upd [block_simps]: "x \<notin> set (starts a bs) \<Longrightarrow> tiles (hs(x := v)) a bs = tiles hs a bs"
  by (rule tiles_cong) auto

lemma tiles_upd_next [block_simps]: "tiles (hs(x := (hs x)\<lparr>bh_next := v\<rparr>)) a bs = tiles hs a bs"
  by (rule tiles_cong) auto

lemma lseg_upd [block_simps]: "x \<notin> set xs \<Longrightarrow> lseg (hs(x := v)) p xs q = lseg hs p xs q"
  by (rule lseg_cong) auto

text \<open>Inside a chunk that does not wrap, addresses grow along the sequence.\<close>

lemma unat_eaddr: "unat a + span bs < 2 ^ 64 \<Longrightarrow> unat (eaddr a bs) = unat a + span bs"
  by (simp add: eaddr_def unat_add64 unat_of_nat64)

lemma unat_block_end:
  "unat a + 16 + unat n < 2 ^ 64 \<Longrightarrow> unat (bend a n) = unat a + 16 + unat n"
  by (simp add: bend_def unat_add64)

lemma bend_bend: "bend (bend a n) m = bend a (n + (16 + m))"
  by (simp add: bend_def algebra_simps)

lemma starts_bounds:
  "unat a + span bs < 2 ^ 64 \<Longrightarrow> x \<in> set (starts a bs) \<Longrightarrow> unat a \<le> unat x \<and> unat x + 16 \<le> unat a + span bs"
proof (induction a bs rule: starts.induct)
  case (2 a n f bs)
  then have "unat (bend a n) = unat a + 16 + unat n" by (intro unat_block_end) simp
  with 2 show ?case by fastforce
qed simp

lemma starts_sorted: "unat a + span bs < 2 ^ 64 \<Longrightarrow> sorted_wrt (<) (starts a bs)"
proof (induction a bs rule: starts.induct)
  case (2 a n f bs)
  then have e: "unat (bend a n) = unat a + 16 + unat n" by (intro unat_block_end) simp
  have "unat (bend a n) + span bs < 2 ^ 64" using 2(2) e by simp
  moreover from this have "a < x" if "x \<in> set (starts (bend a n) bs)" for x
    using starts_bounds [OF _ that] e by (simp add: word_less_nat_alt)
  ultimately show ?case using 2 by simp
qed simp

lemma take_bit_62: "unat v < 2 ^ 62 \<Longrightarrow> take_bit 62 (v :: u64) = v"
  by (simp add: word_unat_eq_iff unsigned_take_bit_eq take_bit_nat_eq_self)

section \<open>Searching the free list\<close>

lemma fit_search_none:
  assumes "lseg hs p xs nullptr" "nullptr \<notin> set xs" "\<forall>x\<in>set xs. bh_size (hs x) < sz"
  shows "fit_search hs sz prev p = ret (if xs = [] then prev else last xs, nullptr)"
  using assms
  by (induction xs arbitrary: prev p) (auto simp: fit_search.simps [of _ _ _ "_ :: ptr"] not_le [symmetric])

lemma fit_search_some:
  assumes "lseg hs p (xs @ [x]) q" "nullptr \<notin> set (xs @ [x])" "\<forall>y\<in>set xs. bh_size (hs y) < sz" "sz \<le> bh_size (hs x)"
  shows "fit_search hs sz prev p = ret (if xs = [] then prev else last xs, x)"
  using assms
  by (induction xs arbitrary: prev p) (auto simp: fit_search.simps [of _ _ _ "_ :: ptr"] not_le [symmetric])

lemma place_search_end:
  assumes "lseg hs p xs nullptr" "nullptr \<notin> set xs" "\<forall>x\<in>set xs. x < b"
  shows "place_search hs b prev p = ret (if xs = [] then prev else last xs, nullptr)"
  using assms
  by (induction xs arbitrary: prev p) (auto simp: place_search.simps [of _ _ _ "_ :: ptr"])

lemma place_search_before:
  assumes "lseg hs p (xs @ [y]) q" "nullptr \<notin> set (xs @ [y])" "\<forall>x\<in>set xs. x < b" "prev < b" "b < y"
  shows "place_search hs b prev p = ret (if xs = [] then prev else last xs, y)"
  using assms
  by (induction xs arbitrary: prev p) (auto simp: place_search.simps [of _ _ _ "_ :: ptr"])

section \<open>Adding a block to the free list\<close>

lemma first_free:
  assumes "\<not> (\<forall>(n, f)\<in>set bs. \<not> f)"
  obtains q1 m q2 where "bs = q1 @ (m, True) # q2" "\<forall>(n, f)\<in>set q1. \<not> f"
proof -
  obtain q1 x q2 where "bs = q1 @ x # q2" "snd x" "\<forall>y\<in>set q1. \<not> snd y"
    using split_list_first_prop [of bs snd] assms by (auto simp: split_beta)
  then show thesis using that [of q1 "fst x" q2] by (cases x) (auto simp: split_beta)
qed

lemma last_free:
  assumes "\<not> (\<forall>(n, f)\<in>set bs. \<not> f)"
  obtains p1 m p2 where "bs = p1 @ (m, True) # p2" "\<forall>(n, f)\<in>set p2. \<not> f"
proof -
  obtain p1 x p2 where "bs = p1 @ x # p2" "snd x" "\<forall>y\<in>set p2. \<not> snd y"
    using split_list_last_prop [of bs snd] assms by (auto simp: split_beta)
  then show thesis using that [of p1 "fst x" p2] by (cases x) (auto simp: split_beta)
qed

text \<open>The blocks around a freed block, merged with it when they are free.\<close>

fun join_next :: "u64 \<Rightarrow> blocks \<Rightarrow> blocks" where
  "join_next n ((m, True) # q) = (n + (16 + m), True) # q"
| "join_next n q = (n, True) # q"

fun join_prev :: "blocks \<Rightarrow> u64 \<Rightarrow> blocks \<Rightarrow> blocks" where
  "join_prev [] n q = join_next n q"
| "join_prev [(m, True)] n q = join_next (m + (16 + n)) q"
| "join_prev [(m, False)] n q = (m, False) # join_next n q"
| "join_prev (b # c # p) n q = b # join_prev (c # p) n q"

lemma join_prev_free [block_simps]: "join_prev (p @ [(m, True)]) n q = p @ join_next (m + (16 + n)) q"
  by (induction p n q rule: join_prev.induct) auto

lemma join_prev_used:
  "p = [] \<or> \<not> snd (last p) \<Longrightarrow> join_prev p n q = p @ join_next n q"
  by (induction p n q rule: join_prev.induct) auto

lemma join_next_used:
  "q = [] \<or> \<not> snd (hd q) \<Longrightarrow> join_next n q = (n, True) # q"
  by (cases "(n, q)" rule: join_next.cases) auto

lemmas bh_set_defs = bh_set_size_def bh_set_isFree_def bh_set_isStartOfChunk_def bh_set_next_def

lemma count_merge_simps [simp]:
  "ha_headers (count_merge h) = ha_headers h" "m_freeList (count_merge h) = m_freeList h"
  "ha_lock (count_merge h) = ha_lock h" "m_usedMem (count_merge h) = m_usedMem h"
  by (simp_all add: count_merge_def)

text \<open>The free list of a chunk: the addresses of its free blocks, in order.\<close>

definition heap_at :: "headers \<Rightarrow> ptr \<Rightarrow> ptr \<Rightarrow> blocks \<Rightarrow> bool" where
  "heap_at hs p a bs \<longleftrightarrow> tiles hs a bs \<and> lseg hs p (faddrs a bs) nullptr"

text \<open>Addresses of blocks on either side of a split point.\<close>

lemma starts_before:
  assumes "unat a + span (xs @ ys) < 2 ^ 64" "x \<in> set (starts a xs)"
  shows "x < eaddr a xs"
  using assms starts_bounds [of a xs x] unat_eaddr [of a xs]
  by (simp add: word_less_nat_alt span_append)

lemma starts_after:
  assumes "unat a + span (xs @ ys) < 2 ^ 64" "y \<in> set (starts (eaddr a xs) ys)"
  shows "eaddr a xs \<le> y"
  using assms starts_bounds [of "eaddr a xs" ys y] unat_eaddr [of a xs]
  by (simp add: word_le_nat_alt span_append)

lemma fits_at_pos: "fits_at a bs \<Longrightarrow> x \<in> set (starts a bs) \<Longrightarrow> x \<noteq> nullptr"
  using starts_bounds [of a bs x] by (auto simp: fits_at_def unat_eq_0)

lemma distinct_starts: "fits_at a bs \<Longrightarrow> distinct (starts a bs)"
  using starts_sorted [of a bs] by (simp add: fits_at_def strict_sorted_iff)

lemma mid_notin:
  assumes "fits_at a (p @ (n, f) # q)" "b = eaddr a p"
  shows "b \<noteq> nullptr" "b \<notin> set (starts a p)" "b \<notin> set (starts (bend b n) q)"
    "b \<notin> set (faddrs a p)" "b \<notin> set (faddrs (bend b n) q)"
    "set (starts a p) \<inter> set (starts (bend b n) q) = {}"
proof -
  have *: "distinct (starts a p @ b # starts (bend b n) q)"
    using distinct_starts [OF assms(1)] by (simp add: block_simps assms(2))
  then show "b \<notin> set (starts a p)" "b \<notin> set (starts (bend b n) q)"
    "set (starts a p) \<inter> set (starts (bend b n) q) = {}" by auto
  then show "b \<notin> set (faddrs a p)" "b \<notin> set (faddrs (bend b n) q)"
    using faddrs_subset by blast+
  show "b \<noteq> nullptr"
    using fits_at_pos [OF assms(1), of b] by (simp add: block_simps assms(2))
qed

lemma fits_at_tail:
  assumes "fits_at a (p @ (n, f) # q)"
  shows "fits_at (bend (eaddr a p) n) q"
proof -
  have "unat (bend (eaddr a p) n) = unat a + span p + 16 + unat n"
    using assms by (subst unat_block_end) (simp_all add: fits_at_def span_append unat_eaddr)
  then show ?thesis using assms by (auto simp: fits_at_def span_append unat_eq_0)
qed

lemma heap_at_mid:
  assumes "b = eaddr a p"
  shows "heap_at hs l a (p @ (n, True) # q) \<longleftrightarrow>
    tiles hs a p \<and> bh_size (hs b) = n \<and> bh_isFree (hs b) \<and> tiles hs (bend b n) q \<and>
    lseg hs l (faddrs a p) b \<and> lseg hs (bh_next (hs b)) (faddrs (bend b n) q) nullptr"
  by (auto simp: heap_at_def block_simps assms)

lemma mergeable_next:
  assumes fit: "fits_at a (p @ (n, True) # q1 @ (m, True) # q2)"
    and b: "b = eaddr a p" and c: "c = eaddr (bend b n) q1"
    and tiles: "tiles hs a (p @ (n, True) # q1 @ (m, True) # q2)"
  shows "mergeable hs b c c \<longleftrightarrow> q1 = []"
proof -
  have "bend b n = c \<longleftrightarrow> q1 = []"
    using mid_notin(2) [of "bend b n" q1 m True q2 c] fits_at_tail [OF fit]
    by (cases q1) (auto simp: b c block_simps)
  moreover have "bh_size (hs b) = n" "bh_isFree (hs c)"
    using tiles by (simp_all add: block_simps b c)
  ultimately show ?thesis by (simp add: mergeable_def bend_def)
qed

lemma merge_next_correct:
  fixes h :: HeapAllocator
  defines "hs \<equiv> ha_headers h"
  assumes fit: "fits_at a (p @ (n, True) # q1 @ (m, True) # q2)" and q1: "\<forall>(n, f)\<in>set q1. \<not> f"
    and b: "b = eaddr a p" and c: "c = eaddr (bend b n) q1"
    and tiles: "tiles hs a (p @ (n, True) # q1 @ (m, True) # q2)"
    and seg: "lseg hs l (faddrs a p) b" "lseg hs (bh_next (hs c)) (faddrs (bend c m) q2) nullptr"
  shows "heap_at (ha_headers (merge_next h b c)) l a (p @ join_next n (q1 @ (m, True) # q2))"
proof -
  have hsb: "bh_size (hs b) = n" "bh_isFree (hs b)" and hsc: "bh_size (hs c) = m" "bh_isFree (hs c)"
    and parts: "tiles hs a p" "tiles hs (bend b n) (q1 @ (m, True) # q2)" "tiles hs (bend c m) q2"
    using tiles by (simp_all add: block_simps b c)
  note notin = mid_notin [OF fit b]
  have mrg: "mergeable hs b c c \<longleftrightarrow> q1 = []" by (rule mergeable_next [OF fit b c tiles])
  show ?thesis
  proof (cases "q1 = []")
    case True
    have "unat (n + (16 + m)) = unat n + (16 + unat m)" "unat n + (16 + unat m) < 2 ^ 62"
      using fit True by (simp_all add: fits_at_def span_append unat_add64)
    then have sz: "take_bit 62 (n + (16 + m)) = n + (16 + m)" by (intro take_bit_62) simp
    have c': "c = bend b n" using True c by (simp add: block_simps)
    have ne: "b \<noteq> c" using notin(3) True c' by auto
    let ?hs = "hs(b := (hs b)\<lparr>bh_size := n + (16 + m), bh_next := bh_next (hs c)\<rparr>)"
    have eq: "ha_headers (merge_next h b c) = ?hs"
      using ne hsb hsc sz mrg True
      by (simp add: merge_next_def bh_set_defs hs_def [symmetric] Let_def)
    have "b \<notin> set (starts (bend c m) q2)" "b \<notin> set (faddrs (bend c m) q2)"
      using notin(3,5) True c' by auto
    with True notin parts seg hsb ne have "heap_at ?hs l a (p @ (n + (16 + m), True) # q2)"
      by (subst heap_at_mid [OF b]) (auto simp: c' bend_bend block_simps simp del: fun_upd_apply, auto)
    then show ?thesis using True by (simp add: eq)
  next
    case False
    let ?Q = "q1 @ (m, True) # q2"
    have fa: "faddrs (bend b n) ?Q = c # faddrs (bend c m) q2"
      using q1 by (simp add: block_simps c)
    have eq: "ha_headers (merge_next h b c) = hs(b := (hs b)\<lparr>bh_next := c\<rparr>)" (is "_ = ?hs")
      using mrg False by (simp add: merge_next_def bh_set_defs hs_def [symmetric])
    have "b \<noteq> c" "b \<notin> set (faddrs (bend c m) q2)"
      using notin(5) unfolding fa by auto
    with notin(4) parts(1,2) seg hsb have "heap_at ?hs l a (p @ (n, True) # ?Q)"
      by (subst heap_at_mid [OF b], unfold fa tiles_upd_next) (simp add: lseg_upd)
    then show ?thesis using False q1 by (cases q1) (auto simp: eq join_next_used)
  qed
qed

text \<open>The counters after \<open>k\<close> merges: each turns one header into free memory.\<close>

definition merged :: "nat \<Rightarrow> HeapAllocator \<Rightarrow> HeapAllocator \<Rightarrow> bool" where
  "merged k h h' \<longleftrightarrow> ha_lock h' = ha_lock h \<and> m_usedMem h' = m_usedMem h \<and>
     m_freeMem h' = m_freeMem h + 16 * of_nat k \<and> m_MetadataMem h' = m_MetadataMem h - 16 * of_nat k"

lemma merge_next_counts:
  "m_freeList (merge_next h b c) = m_freeList h"
  "merged (if mergeable (ha_headers h) b c c then 1 else 0) h (merge_next h b c)"
  by (simp_all add: merge_next_def merged_def count_merge_def Let_def)

text \<open>A block that is free but not yet in the free list.\<close>

definition loose :: "headers \<Rightarrow> ptr \<Rightarrow> ptr \<Rightarrow> blocks \<Rightarrow> u64 \<Rightarrow> blocks \<Rightarrow> bool" where
  "loose hs l a p n q \<longleftrightarrow> fits_at a (p @ (n, True) # q) \<and> tiles hs a (p @ (n, True) # q) \<and>
     lseg hs l (faddrs a p @ faddrs (bend (eaddr a p) n) q) nullptr"

lemma loose_order:
  assumes "loose hs l a p n q" "b = eaddr a p"
  shows "\<forall>x\<in>set (faddrs a p). x < b" "\<forall>y\<in>set (faddrs (bend b n) q). b < y"
    "nullptr < b" "nullptr \<notin> set (faddrs a p @ faddrs (bend b n) q)"
proof -
  have fit: "fits_at a (p @ (n, True) # q)" and lim: "unat a + span (p @ (n, True) # q) < 2 ^ 64"
    using assms(1) by (simp_all add: loose_def fits_at_def)
  show "\<forall>x\<in>set (faddrs a p). x < b"
    using starts_before [OF lim] faddrs_subset assms(2) by blast
  have "b \<le> y" if "y \<in> set (starts (bend b n) q)" for y
    using starts_after [OF lim, of y] that assms(2) by simp
  then show "\<forall>y\<in>set (faddrs (bend b n) q). b < y"
    using faddrs_subset [of "bend b n" q] mid_notin(5) [OF fit assms(2)]
    by (metis order_le_less subsetD)
  show "nullptr < b" using mid_notin(1) [OF fit assms(2)] by (simp add: word_gt_0)
  show "nullptr \<notin> set (faddrs a p @ faddrs (bend b n) q)"
    using fits_at_pos [OF fit, of nullptr] faddrs_subset [of a p] faddrs_subset [of "bend b n" q] assms(2)
    by (auto simp: block_simps)
qed

lemma bend_last: "p2 \<noteq> [] \<Longrightarrow> fits_at a (p1 @ (k, f) # p2) \<Longrightarrow> bend (eaddr a p1) k \<noteq> eaddr a (p1 @ (k, f) # p2)"
proof
  assume ne: "p2 \<noteq> []" and fit: "fits_at a (p1 @ (k, f) # p2)"
    and eq: "bend (eaddr a p1) k = eaddr a (p1 @ (k, f) # p2)"
  have "unat (bend (eaddr a p1) k) = unat a + span p1 + 16 + unat k"
    using fit by (subst unat_block_end) (simp_all add: fits_at_def span_append unat_eaddr)
  moreover have "unat (eaddr a (p1 @ (k, f) # p2)) = unat a + span (p1 @ (k, f) # p2)"
    using fit by (intro unat_eaddr) (simp add: fits_at_def)
  ultimately have "span p2 = 0" using eq by (simp add: span_append)
  with ne show False by (cases p2) auto
qed

lemma add_nothing_free:
  assumes "loose (ha_headers h) (m_freeList h) a p n q" "b = eaddr a p"
    and "faddrs a p = []" "faddrs (bend b n) q = []"
  shows "\<exists>h'. AddToFreeList h b = ret h' \<and> heap_at (ha_headers h') (m_freeList h') a (p @ (n, True) # q) \<and> merged 0 h h'"
proof -
  have "m_freeList h = nullptr" using assms by (simp add: loose_def)
  moreover have "heap_at (bh_set_next (ha_headers h) b nullptr) b a (p @ (n, True) # q)"
    using assms by (subst heap_at_mid [OF assms(2)])
      (auto simp: loose_def block_simps bh_set_next_def simp del: fun_upd_apply, auto)
  ultimately show ?thesis by (simp add: AddToFreeList_def merged_def)
qed

lemma add_first:
  assumes loose: "loose (ha_headers h) (m_freeList h) a p n (q1 @ (m, True) # q2)" and b: "b = eaddr a p"
    and pf: "faddrs a p = []" and q1: "\<forall>(n, f)\<in>set q1. \<not> f" and c: "c = eaddr (bend b n) q1"
  shows "\<exists>h'. AddToFreeList h b = ret h' \<and>
    heap_at (ha_headers h') (m_freeList h') a (p @ join_next n (q1 @ (m, True) # q2)) \<and>
    merged (if q1 = [] then 1 else 0) h h'"
proof -
  have qf: "faddrs (bend b n) (q1 @ (m, True) # q2) = c # faddrs (bend c m) q2"
    using q1 by (simp add: block_simps c)
  have seg: "lseg (ha_headers h) (m_freeList h) [c] (bh_next (ha_headers h c))"
    "lseg (ha_headers h) (bh_next (ha_headers h c)) (faddrs (bend c m) q2) nullptr"
    using loose pf qf by (auto simp: loose_def b [symmetric])
  note ord = loose_order [OF loose b, unfolded qf]
  have place: "place_search (ha_headers h) b nullptr (m_freeList h) = ret (nullptr, c)"
    using place_search_before [of "ha_headers h" "m_freeList h" "[]" c] seg ord by auto
  have mrg: "mergeable (ha_headers h) b c c \<longleftrightarrow> q1 = []"
    using loose by (intro mergeable_next [OF _ b c, where m = m and ?q2.0 = q2]) (simp_all add: loose_def)
  have "heap_at (ha_headers (merge_next (h\<lparr>m_freeList := b\<rparr>) b c)) b a (p @ join_next n (q1 @ (m, True) # q2))"
    using loose seg pf q1 by (intro merge_next_correct [OF _ q1 b c]) (simp_all add: loose_def)
  moreover have "m_freeList h \<noteq> nullptr" "c \<noteq> nullptr" using seg(1) ord(4) by auto
  then have "AddToFreeList h b = ret (merge_next (h\<lparr>m_freeList := b\<rparr>) b c)"
    by (simp add: AddToFreeList_def place)
  moreover have "merged (if q1 = [] then 1 else 0) h (merge_next (h\<lparr>m_freeList := b\<rparr>) b c)"
    using merge_next_counts(2) [of "h\<lparr>m_freeList := b\<rparr>" b c] mrg by (simp add: merged_def)
  ultimately show ?thesis
    by (intro exI [of _ "merge_next (h\<lparr>m_freeList := b\<rparr>) b c"]) (simp add: merge_next_counts(1))
qed

text \<open>With a free block \<open>d\<close> before the new one: what the search returns, and the list around it.\<close>

lemma loose_prev:
  assumes loose: "loose hs l a (p1 @ (k, True) # p2) n q" and p2: "\<forall>(n, f)\<in>set p2. \<not> f"
    and d: "d = eaddr a p1" and b: "b = eaddr a (p1 @ (k, True) # p2)"
  shows "faddrs a (p1 @ (k, True) # p2) = faddrs a p1 @ [d]" "d \<noteq> b" "d \<noteq> nullptr" "l \<noteq> nullptr"
    "lseg hs l (faddrs a p1) d" "lseg hs (bh_next (hs d)) (faddrs (bend b n) q) nullptr"
    "d \<notin> set (faddrs a p1)" "d \<notin> set (faddrs (bend b n) q)" "mergeable hs d b d \<longleftrightarrow> p2 = []"
proof -
  have fit: "fits_at a (p1 @ (k, True) # p2 @ (n, True) # q)"
    and tiles: "tiles hs a (p1 @ (k, True) # p2 @ (n, True) # q)"
    using loose by (simp_all add: loose_def)
  show pf: "faddrs a (p1 @ (k, True) # p2) = faddrs a p1 @ [d]"
    using p2 by (simp add: block_simps d)
  have qsub: "set (faddrs (bend b n) q) \<subseteq> set (starts (bend d k) (p2 @ (n, True) # q))"
    using faddrs_subset [of "bend b n" q] by (auto simp: block_simps b d)
  note notin = mid_notin [OF fit d]
  show "d \<noteq> nullptr" "d \<notin> set (faddrs a p1)" by (rule notin)+
  show "d \<noteq> b" using notin(3) by (auto simp: block_simps b d)
  show "d \<notin> set (faddrs (bend b n) q)" using notin(3) qsub by blast
  have seg: "lseg hs l (faddrs a p1 @ d # faddrs (bend b n) q) nullptr"
    using loose unfolding loose_def pf b [symmetric] by simp
  then show "lseg hs l (faddrs a p1) d" "lseg hs (bh_next (hs d)) (faddrs (bend b n) q) nullptr"
    by (auto simp: lseg_append)
  show "l \<noteq> nullptr"
    using seg loose_order(4) [OF loose b] unfolding pf by (cases "faddrs a p1") auto
  have "fits_at a (p1 @ (k, True) # p2)"
    using fit by (auto simp: fits_at_def span_append)
  then have "bend d k = b \<longleftrightarrow> p2 = []"
    using bend_last [of p2 a p1 k True] by (cases "p2 = []") (auto simp: d b block_simps)
  then show "mergeable hs d b d \<longleftrightarrow> p2 = []"
    using tiles by (simp add: mergeable_def block_simps d [symmetric] bend_def)
qed

lemma prev_merge_size:
  assumes "loose hs l a (p1 @ [(k, True)]) n q"
  shows "take_bit 62 (k + (16 + n)) = k + (16 + n)" "fits_at a (p1 @ (k + (16 + n), True) # q)"
proof -
  have "unat (k + (16 + n)) = unat k + (16 + unat n)" "unat k + (16 + unat n) < 2 ^ 62"
    using assms by (simp_all add: loose_def fits_at_def span_append unat_add64)
  then show "take_bit 62 (k + (16 + n)) = k + (16 + n)" "fits_at a (p1 @ (k + (16 + n), True) # q)"
    using assms by (auto simp: loose_def fits_at_def span_append intro!: take_bit_62)
qed

text \<open>The merge with the block before: its header grows and its link goes past the new block.\<close>

lemma prev_merge:
  assumes loose: "loose hs l a (p1 @ [(k, True)]) n q" and d: "d = eaddr a p1"
    and hs': "hs' = hs(d := (hs d)\<lparr>bh_size := k + (16 + n), bh_next := r\<rparr>)"
  shows "tiles hs' a (p1 @ (k + (16 + n), True) # q)" "lseg hs' l (faddrs a p1) d"
proof -
  define b where "b = eaddr a (p1 @ [(k, True)])"
  note prev = loose_prev [OF loose _ d b_def, simplified]
  have parts: "tiles hs a p1" "tiles hs (bend d (k + (16 + n))) q" "bh_isFree (hs d)"
    using loose by (simp_all add: loose_def block_simps d bend_bend)
  have notin: "d \<notin> set (starts a p1)" "d \<notin> set (starts (bend d (k + (16 + n))) q)"
    using mid_notin(2,3) [OF prev_merge_size(2) [OF loose] d] by auto
  show "tiles hs' a (p1 @ (k + (16 + n), True) # q)"
    using parts notin by (simp add: hs' block_simps d [symmetric])
  show "lseg hs' l (faddrs a p1) d"
    using prev by (simp add: hs' lseg_upd)
qed

lemma prev_link:
  assumes loose: "loose hs l a (p1 @ (k, True) # p2) n q" and p2: "\<forall>(n, f)\<in>set p2. \<not> f"
    and d: "d = eaddr a p1" and b: "b = eaddr a (p1 @ (k, True) # p2)"
    and hs': "hs' = hs(d := (hs d)\<lparr>bh_next := b\<rparr>)"
  shows "tiles hs' a ((p1 @ (k, True) # p2) @ (n, True) # q)" "lseg hs' l (faddrs a (p1 @ (k, True) # p2)) b"
proof -
  note prev = loose_prev [OF loose p2 d b]
  show "tiles hs' a ((p1 @ (k, True) # p2) @ (n, True) # q)"
    using loose unfolding hs' tiles_upd_next loose_def by blast
  have "lseg hs' l (faddrs a p1) d" using prev(5,7) by (simp add: hs' lseg_upd)
  then show "lseg hs' l (faddrs a (p1 @ (k, True) # p2)) b"
    unfolding prev(1) by (auto simp: lseg_append hs')
qed

lemma add_after:
  assumes loose: "loose (ha_headers h) (m_freeList h) a (p1 @ (k, True) # p2) n q"
    and p2: "\<forall>(n, f)\<in>set p2. \<not> f" and q: "\<forall>(n, f)\<in>set q. \<not> f"
    and b: "b = eaddr a (p1 @ (k, True) # p2)"
  shows "\<exists>h'. AddToFreeList h b = ret h' \<and>
    heap_at (ha_headers h') (m_freeList h') a
      (if p2 = [] then p1 @ (k + (16 + n), True) # q else p1 @ (k, True) # p2 @ (n, True) # q) \<and>
    merged (if p2 = [] then 1 else 0) h h'"
proof -
  define d where "d = eaddr a p1"
  let ?hs = "ha_headers h"
  let ?hs1 = "?hs(d := (?hs d)\<lparr>bh_next := b\<rparr>, b := (?hs b)\<lparr>bh_next := nullptr\<rparr>)"
  note prev = loose_prev [OF loose p2 d_def b]
  have place: "place_search ?hs b nullptr (m_freeList h) = ret (d, nullptr)"
    using place_search_end [of ?hs "m_freeList h" "faddrs a p1 @ [d]" b] loose_order(1,4) [OF loose b] prev q
    by (auto simp: lseg_append)
  have mrg: "mergeable ?hs1 d b d \<longleftrightarrow> p2 = []"
    using prev(2,9) by (simp add: mergeable_def)
  show ?thesis
  proof (cases "p2 = []")
    case True
    let ?hs' = "?hs(d := (?hs d)\<lparr>bh_size := k + (16 + n), bh_next := nullptr\<rparr>)"
    let ?hs2 = "?hs'(b := (?hs' b)\<lparr>bh_next := nullptr\<rparr>)"
    have loose': "loose ?hs (m_freeList h) a (p1 @ [(k, True)]) n q" using loose True by simp
    have pm: "tiles ?hs' a (p1 @ (k + (16 + n), True) # q)" "lseg ?hs' (m_freeList h) (faddrs a p1) d"
      by (rule prev_merge [OF loose' d_def refl])+
    have "b \<notin> set (faddrs a p1)" using loose_order(1) [OF loose b] unfolding prev(1) by auto
    with pm(2) have seg: "lseg ?hs2 (m_freeList h) (faddrs a p1) d" by (simp only: lseg_upd not_False_eq_True)
    have "heap_at ?hs2 (m_freeList h) a (p1 @ (k + (16 + n), True) # q)"
      unfolding heap_at_def tiles_upd_next using pm(1) seg prev(2) q
      by (auto simp: faddrs_append lseg_append d_def [symmetric] simp del: fun_upd_apply intro!: exI [of _ d]) simp
    moreover have sz: "bh_size (?hs d) = k" "bh_size (?hs b) = n"
      using loose' by (simp_all add: loose_def block_simps d_def b True)
    have "AddToFreeList h b = ret (count_merge (h\<lparr>ha_headers := ?hs2\<rparr>))"
      using prev(2,3,4) place mrg True prev_merge_size(1) [OF loose'] sz
      by (simp add: AddToFreeList_def bh_set_defs Let_def fun_upd_twist)
    ultimately show ?thesis using True by (simp add: merged_def count_merge_def)
  next
    case False
    let ?hs' = "?hs(d := (?hs d)\<lparr>bh_next := b\<rparr>)"
    have add: "AddToFreeList h b = ret (h\<lparr>ha_headers := ?hs1\<rparr>)"
      using prev(2,3,4) place mrg False by (simp add: AddToFreeList_def bh_set_defs Let_def)
    have "b \<notin> set (faddrs a (p1 @ (k, True) # p2))"
      using loose_order(1) [OF loose b] by auto
    then have "lseg ?hs1 (m_freeList h) (faddrs a (p1 @ (k, True) # p2)) b"
      using prev_link(2) [OF loose p2 d_def b refl] by (simp only: lseg_upd not_False_eq_True)
    moreover have "?hs1 = ?hs'(b := (?hs' b)\<lparr>bh_next := nullptr\<rparr>)" using prev(2) by simp
    then have "tiles ?hs1 a ((p1 @ (k, True) # p2) @ (n, True) # q)"
      using prev_link(1) [OF loose p2 d_def b refl] by (simp only: tiles_upd_next)
    ultimately have "heap_at ?hs1 (m_freeList h) a ((p1 @ (k, True) # p2) @ (n, True) # q)"
      unfolding heap_at_def faddrs_append [of _ "p1 @ (k, True) # p2"] using q by (simp add: lseg_append b [symmetric])
    with add show ?thesis using False by (simp add: merged_def)
  qed
qed

lemma add_between:
  assumes loose: "loose (ha_headers h) (m_freeList h) a (p1 @ (k, True) # p2) n (q1 @ (m, True) # q2)"
    and p2: "\<forall>(n, f)\<in>set p2. \<not> f" and q1: "\<forall>(n, f)\<in>set q1. \<not> f"
    and b: "b = eaddr a (p1 @ (k, True) # p2)"
  shows "\<exists>h'. AddToFreeList h b = ret h' \<and>
    heap_at (ha_headers h') (m_freeList h') a
      (if p2 = [] then p1 @ join_next (k + (16 + n)) (q1 @ (m, True) # q2)
       else p1 @ (k, True) # p2 @ join_next n (q1 @ (m, True) # q2)) \<and>
    merged ((if p2 = [] then 1 else 0) + (if q1 = [] then 1 else 0)) h h'"
proof -
  define d where "d = eaddr a p1"
  define c where "c = eaddr (bend b n) q1"
  let ?hs = "ha_headers h" and ?Q = "q1 @ (m, True) # q2"
  note prev = loose_prev [OF loose p2 d_def b]
  have qf: "faddrs (bend b n) ?Q = c # faddrs (bend c m) q2"
    using q1 by (simp add: block_simps c_def)
  note ord = loose_order [OF loose b, unfolded qf prev(1)]
  have seg: "bh_next (?hs d) = c" "lseg ?hs (bh_next (?hs c)) (faddrs (bend c m) q2) nullptr" "d \<noteq> c" "c \<noteq> nullptr"
    "d \<notin> set (faddrs (bend c m) q2)"
    using prev(6,8) ord(4) unfolding qf by auto
  have place: "place_search ?hs b nullptr (m_freeList h) = ret (d, c)"
    using place_search_before [of ?hs "m_freeList h" "faddrs a p1 @ [d]" c "bh_next (?hs c)" b nullptr] ord prev(5) seg
    by (auto simp: lseg_append)
  show ?thesis
  proof (cases "p2 = []")
    case True
    let ?hs' = "?hs(d := (?hs d)\<lparr>bh_size := k + (16 + n), bh_next := c\<rparr>)"
    let ?h' = "count_merge (h\<lparr>ha_headers := ?hs'\<rparr>)"
    have loose': "loose ?hs (m_freeList h) a (p1 @ [(k, True)]) n ?Q" using loose True by simp
    note size = prev_merge_size [OF loose']
    have pm: "tiles ?hs' a (p1 @ (k + (16 + n), True) # ?Q)" "lseg ?hs' (m_freeList h) (faddrs a p1) d"
      by (rule prev_merge [OF loose' d_def refl])+
    have c: "c = eaddr (bend d (k + (16 + n))) q1" by (simp add: c_def b True d_def block_simps bend_bend)
    have "heap_at (ha_headers (merge_next ?h' d c)) (m_freeList h) a (p1 @ join_next (k + (16 + n)) ?Q)"
      using size(2) pm seg by (intro merge_next_correct [OF _ q1 d_def c]) (simp_all add: lseg_upd)
    moreover have sz: "bh_size (?hs d) = k" "bh_size (?hs b) = n"
      using loose' by (simp_all add: loose_def block_simps d_def b True)
    have "AddToFreeList h b = ret (merge_next ?h' d c)"
      using prev(2,3,4,9) place True size(1) sz seg
      by (simp add: AddToFreeList_def bh_set_defs Let_def)
    moreover have "mergeable ?hs' d c c \<longleftrightarrow> q1 = []"
      by (rule mergeable_next [OF size(2) d_def c pm(1)])
    then have "merged (1 + (if q1 = [] then 1 else 0)) h (merge_next ?h' d c)"
      using merge_next_counts(2) [of ?h' d c] by (auto simp: merged_def count_merge_def algebra_simps)
    ultimately show ?thesis using True by (simp add: merge_next_counts(1))
  next
    case False
    let ?hs' = "?hs(d := (?hs d)\<lparr>bh_next := b\<rparr>)"
    let ?h' = "h\<lparr>ha_headers := ?hs'\<rparr>"
    note pl = prev_link [OF loose p2 d_def b refl]
    have fit: "fits_at a ((p1 @ (k, True) # p2) @ (n, True) # ?Q)" using loose by (simp add: loose_def)
    have "heap_at (ha_headers (merge_next ?h' b c)) (m_freeList h) a ((p1 @ (k, True) # p2) @ join_next n ?Q)"
      using fit pl seg by (intro merge_next_correct [OF _ q1 b c_def]) (simp_all add: lseg_upd)
    moreover have "AddToFreeList h b = ret (merge_next ?h' b c)"
      using prev(2,3,4,9) place False seg by (simp add: AddToFreeList_def bh_set_defs Let_def)
    moreover have "mergeable ?hs' b c c \<longleftrightarrow> q1 = []"
      by (rule mergeable_next [OF fit b c_def pl(1)])
    then have "merged (if q1 = [] then 1 else 0) h (merge_next ?h' b c)"
      using merge_next_counts(2) [of ?h' b c] by (simp add: merged_def)
    ultimately show ?thesis using False by (simp add: merge_next_counts(1))
  qed
qed

lemma join_next_first:
  "\<forall>(n, f)\<in>set q1. \<not> f \<Longrightarrow>
   length (join_next n (q1 @ (m, True) # q2)) + (if q1 = [] then 1 else 0) = length q1 + length q2 + 2"
  by (cases q1) (auto simp: join_next_used)

lemma join_prev_last:
  "\<forall>(n, f)\<in>set p2. \<not> f \<Longrightarrow> join_prev (p1 @ (k, True) # p2) n q =
    (if p2 = [] then p1 @ join_next (k + (16 + n)) q else (p1 @ (k, True) # p2) @ join_next n q)"
  by (cases p2 rule: rev_cases) (auto simp: join_prev_free join_prev_used)

lemma used_last: "\<forall>(n, f)\<in>set p. \<not> f \<Longrightarrow> p = [] \<or> \<not> snd (last p)"
  by (cases p rule: rev_cases) auto

lemma used_hd: "\<forall>(n, f)\<in>set q. \<not> f \<Longrightarrow> q = [] \<or> \<not> snd (hd q)"
  by (cases q) auto

text \<open>\<open>AddToFreeList\<close> returns, with the block joined to its free neighbours.\<close>

lemma AddToFreeList_correct:
  assumes loose: "loose (ha_headers h) (m_freeList h) a p n q" and b: "b = eaddr a p"
  shows "\<exists>h' k. AddToFreeList h b = ret h' \<and> heap_at (ha_headers h') (m_freeList h') a (join_prev p n q) \<and>
    merged k h h' \<and> k + length (join_prev p n q) = length p + 1 + length q"
proof (cases "\<forall>(n, f)\<in>set p. \<not> f")
  case p: True
  note jp = join_prev_used [OF used_last [OF p]]
  show ?thesis
  proof (cases "\<forall>(n, f)\<in>set q. \<not> f")
    case True
    with p show ?thesis
      using add_nothing_free [OF loose b] by (fastforce simp: jp join_next_used [OF used_hd [OF True]])
  next
    case False
    then obtain q1 m q2 where q: "q = q1 @ (m, True) # q2" and q1: "\<forall>(n, f)\<in>set q1. \<not> f"
      by (rule first_free)
    obtain h' where "AddToFreeList h b = ret h'" "heap_at (ha_headers h') (m_freeList h') a (join_prev p n q)"
      "merged (if q1 = [] then 1 else 0) h h'"
      using add_first [OF loose [unfolded q] b _ q1 refl] p by (auto simp: jp q)
    moreover have "(if q1 = [] then 1 else 0) + length (join_prev p n q) = length p + 1 + length q"
      using join_next_first [OF q1, of n m q2] by (simp add: jp q)
    ultimately show ?thesis by blast
  qed
next
  case False
  then obtain p1 k p2 where p: "p = p1 @ (k, True) # p2" and p2: "\<forall>(n, f)\<in>set p2. \<not> f"
    by (rule last_free)
  note jp = join_prev_last [OF p2, of p1 k n q, folded p]
  show ?thesis
  proof (cases "\<forall>(n, f)\<in>set q. \<not> f")
    case True
    note jn = join_next_used [OF used_hd [OF True]]
    obtain h' where "AddToFreeList h b = ret h'" "heap_at (ha_headers h') (m_freeList h') a (join_prev p n q)"
      "merged (if p2 = [] then 1 else 0) h h'"
      using add_after [OF loose [unfolded p] p2 True b [unfolded p]] unfolding jp jn
      by (cases "p2 = []") (auto simp: p)
    moreover have "(if p2 = [] then 1 else 0) + length (join_prev p n q) = length p + 1 + length q"
      unfolding jp jn by (simp add: p)
    ultimately show ?thesis by blast
  next
    case False
    then obtain q1 m q2 where q: "q = q1 @ (m, True) # q2" and q1: "\<forall>(n, f)\<in>set q1. \<not> f"
      by (rule first_free)
    obtain h' where "AddToFreeList h b = ret h'" "heap_at (ha_headers h') (m_freeList h') a (join_prev p n q)"
      "merged ((if p2 = [] then 1 else 0) + (if q1 = [] then 1 else 0)) h h'"
      using add_between [OF loose [unfolded p q] p2 q1 b [unfolded p]] unfolding jp
      by (cases "p2 = []") (auto simp: p q)
    moreover have "(if p2 = [] then 1 else 0) + (if q1 = [] then 1 else 0) + length (join_prev p n q) = length p + 1 + length q"
      using join_next_first [OF q1, of n m q2] join_next_first [OF q1, of "k + (16 + n)" m q2]
      unfolding jp by (auto simp: p q)
    ultimately show ?thesis by blast
  qed
qed

section \<open>The allocator as operations on the block sequence\<close>

text \<open>No two free blocks are adjacent.\<close>

definition coalesced :: "blocks \<Rightarrow> bool" where
  "coalesced = successively (\<lambda>x y. \<not> (snd x \<and> snd y))"

definition heap_rel :: "HeapAllocator \<Rightarrow> ptr \<Rightarrow> blocks \<Rightarrow> bool" where
  "heap_rel h a bs \<longleftrightarrow> fits_at a bs \<and> heap_at (ha_headers h) (m_freeList h) a bs \<and> coalesced bs \<and>
     (\<forall>(n, f)\<in>set bs. 16 dvd unat n) \<and>
     m_MetadataMem h = 16 * of_nat (length bs) \<and> getTotalMem h = of_nat (span bs)"

text \<open>First fit, and what is left of a block that is taken.\<close>

fun first_fit :: "u64 \<Rightarrow> blocks \<Rightarrow> (blocks \<times> u64 \<times> blocks) option" where
  "first_fit sz [] = None"
| "first_fit sz ((n, f) # bs) =
     (if f \<and> sz \<le> n then Some ([], n, bs)
      else map_option (\<lambda>(p, m, q). ((n, f) # p, m, q)) (first_fit sz bs))"

definition take_block :: "u64 \<Rightarrow> u64 \<Rightarrow> blocks" where
  "take_block sz n = (if n > sz + 16 then [(sz, False), (n - sz - 16, True)] else [(n, False)])"

lemma first_fit_Some:
  "first_fit sz bs = Some (p, n, q) \<Longrightarrow>
   bs = p @ (n, True) # q \<and> sz \<le> n \<and> (\<forall>(m, f)\<in>set p. f \<longrightarrow> m < sz)"
  by (induction sz bs arbitrary: p rule: first_fit.induct) (auto split: if_splits)

lemma first_fit_None: "first_fit sz bs = None \<longleftrightarrow> (\<forall>(m, f)\<in>set bs. f \<longrightarrow> m < sz)"
  by (induction sz bs rule: first_fit.induct) auto

lemma free_sizes:
  "tiles hs a bs \<Longrightarrow> \<forall>(m, f)\<in>set bs. f \<longrightarrow> m < sz \<Longrightarrow> \<forall>x\<in>set (faddrs a bs). bh_size (hs x) < sz"
  by (induction hs a bs rule: tiles.induct) auto

lemma coalesced_Nil [simp]: "coalesced []"
  by (simp add: coalesced_def)

lemma coalesced_append:
  "coalesced (xs @ ys) \<longleftrightarrow> coalesced xs \<and> coalesced ys \<and> (xs \<noteq> [] \<and> ys \<noteq> [] \<longrightarrow> \<not> (snd (last xs) \<and> snd (hd ys)))"
  by (auto simp: coalesced_def successively_append_iff)

lemma coalesced_Cons:
  "coalesced (x # ys) \<longleftrightarrow> coalesced ys \<and> (ys \<noteq> [] \<longrightarrow> \<not> (snd x \<and> snd (hd ys)))"
  by (cases ys) (auto simp: coalesced_def)

lemma coalesced_join_next:
  "coalesced q \<Longrightarrow> coalesced (join_next n q)" "join_next n q \<noteq> []" "snd (hd (join_next n q))"
  by (cases "(n, q)" rule: join_next.cases; auto simp: coalesced_Cons)+

lemma join_prev_cases:
  obtains p' m where "p = p' @ [(m, True)]" "\<And>n q. join_prev p n q = p' @ join_next (m + (16 + n)) q"
  | "p = [] \<or> \<not> snd (last p)" "\<And>n q. join_prev p n q = p @ join_next n q"
proof (cases "p = [] \<or> \<not> snd (last p)")
  case True
  then show thesis by (intro that(2) join_prev_used) simp_all
next
  case False
  then obtain p' m where "p = p' @ [(m, True)]"
    by (metis append_butlast_last_id prod.collapse)
  then show thesis by (intro that(1)) (simp_all add: join_prev_free)
qed

lemma coalesced_join_prev: "coalesced p \<Longrightarrow> coalesced q \<Longrightarrow> coalesced (join_prev p n q)"
  by (cases p rule: join_prev_cases)
    (auto simp: coalesced_append coalesced_Cons coalesced_join_next)

lemma join_next_props:
  assumes "16 + unat n + span q < 2 ^ 62"
  shows "span (join_next n q) = 16 + unat n + span q"
    "16 dvd unat n \<Longrightarrow> \<forall>(n, f)\<in>set q. 16 dvd unat n \<Longrightarrow> \<forall>(n, f)\<in>set (join_next n q). 16 dvd unat n"
  using assms by (cases "(n, q)" rule: join_next.cases; simp add: unat_add64)+

lemma join_prev_sum:
  assumes "span (p @ [(m, True)] @ (n, True) # q) < 2 ^ 62"
  shows "unat (m + (16 + n)) = unat m + (16 + unat n)" "16 + unat (m + (16 + n)) + span q < 2 ^ 62"
  using assms by (simp_all add: span_append unat_add64)

lemma span_join_prev:
  assumes "span (p @ (n, True) # q) < 2 ^ 62"
  shows "span (join_prev p n q) = span (p @ (n, True) # q)"
proof (cases p rule: join_prev_cases)
  case (1 p' m)
  then show ?thesis
    using join_prev_sum [of p' m n q] assms join_next_props(1) [of "m + (16 + n)" q] by (simp add: span_append)
next
  case 2
  then show ?thesis using assms join_next_props(1) [of n q] by (simp add: span_append)
qed

lemma dvd_join_prev:
  assumes "span (p @ (n, True) # q) < 2 ^ 62" "\<forall>(n, f)\<in>set (p @ (n, True) # q). 16 dvd unat n"
  shows "\<forall>(n, f)\<in>set (join_prev p n q). 16 dvd unat n"
proof (cases p rule: join_prev_cases)
  case (1 p' m)
  then show ?thesis
    using join_prev_sum [of p' m n q] assms join_next_props(2) [of "m + (16 + n)" q] by (simp add: ball_Un)
next
  case 2
  then show ?thesis using assms join_next_props(2) [of n q] by (simp add: ball_Un span_append)
qed

lemma lseg_upd_isFree [block_simps]: "lseg (hs(x := (hs x)\<lparr>bh_isFree := v\<rparr>)) p xs q = lseg hs p xs q"
  by (rule lseg_cong) auto

lemma HeapAllocator_free_correct:
  assumes rel: "heap_rel h a (p @ (n, False) # q)" and b: "b = eaddr a p"
  shows "\<exists>h'. HeapAllocator_free h (b + 16) = ret h' \<and> heap_rel h' a (join_prev p n q) \<and> ha_lock h' = ha_lock h"
proof -
  let ?hs = "(ha_headers h)(b := (ha_headers h b)\<lparr>bh_isFree := True\<rparr>)"
  let ?h = "h\<lparr>ha_headers := ?hs, m_usedMem := m_usedMem h - n, m_freeMem := m_freeMem h + n\<rparr>"
  have fit: "fits_at a (p @ (n, True) # q)" using rel by (simp add: heap_rel_def fits_at_def span_append)
  note notin = mid_notin [OF fit b]
  have heap: "tiles (ha_headers h) a p" "bh_size (ha_headers h b) = n" "tiles (ha_headers h) (bend b n) q"
    "lseg (ha_headers h) (m_freeList h) (faddrs a p @ faddrs (bend b n) q) nullptr"
    using rel by (simp_all add: heap_rel_def heap_at_def block_simps b)
  then have "loose ?hs (m_freeList h) a p n q"
    using fit notin(2,3) by (simp add: loose_def lseg_upd_isFree block_simps b [symmetric])
  then obtain h' k where h': "AddToFreeList ?h b = ret h'"
      "heap_at (ha_headers h') (m_freeList h') a (join_prev p n q)" "merged k ?h h'"
      "k + length (join_prev p n q) = length p + 1 + length q"
    using AddToFreeList_correct [of ?h a p n q b] b by auto
  have free: "HeapAllocator_free h (b + 16) = ret h'"
    using h'(1) heap(2) notin(1) by (simp add: HeapAllocator_free_def bh_set_isFree_def)
  have dv: "\<forall>(n, f)\<in>set (p @ (n, True) # q). 16 dvd unat n"
    using rel by (auto simp: heap_rel_def)
  have sp: "span (p @ (n, True) # q) < 2 ^ 62" using fit by (simp add: fits_at_def)
  have "(of_nat k + of_nat (length (join_prev p n q)) :: u64) = of_nat (length p + 1 + length q)"
    using arg_cong [OF h'(4), of "of_nat :: nat \<Rightarrow> u64"] by simp
  then have "(of_nat (length (join_prev p n q)) :: u64) = of_nat (length p + 1 + length q) - of_nat k"
    by (simp add: eq_diff_eq add.commute)
  then have meta: "m_MetadataMem h' = 16 * of_nat (length (join_prev p n q))"
    using h'(3) rel by (simp add: merged_def heap_rel_def right_diff_distrib)
  have "getTotalMem h' = getTotalMem h" using h'(3) by (simp add: merged_def getTotalMem_def)
  then have total: "getTotalMem h' = of_nat (span (join_prev p n q))"
    using rel span_join_prev [OF sp] by (simp add: heap_rel_def span_append)
  have coal: "coalesced (join_prev p n q)"
    using rel by (intro coalesced_join_prev) (simp_all add: heap_rel_def coalesced_append coalesced_Cons)
  have "heap_rel h' a (join_prev p n q)"
    unfolding heap_rel_def
    using fit h'(2) coal meta total span_join_prev [OF sp] dvd_join_prev [OF sp dv]
    by (simp add: fits_at_def)
  then show ?thesis using free h'(3) by (simp add: merged_def)
qed

lemma distinct_faddrs: "distinct (starts a bs) \<Longrightarrow> distinct (faddrs a bs)"
  using faddrs_subset by (induction a bs rule: starts.induct) fastforce+

text \<open>Unlinking a header from the free list.\<close>

lemma lseg_unlink:
  assumes "lseg hs l (xs @ b # ys) nullptr" "distinct (xs @ b # ys)"
  shows "xs = [] \<Longrightarrow> lseg hs (bh_next (hs b)) ys nullptr"
    and "xs \<noteq> [] \<Longrightarrow> lseg (hs(last xs := (hs (last xs))\<lparr>bh_next := bh_next (hs b)\<rparr>)) l (xs @ ys) nullptr"
proof -
  show "xs = [] \<Longrightarrow> lseg hs (bh_next (hs b)) ys nullptr" using assms(1) by simp
  assume "xs \<noteq> []"
  then obtain us d where xs: "xs = us @ [d]" by (cases xs rule: rev_cases) auto
  have "lseg hs l us d" "lseg hs (bh_next (hs b)) ys nullptr" using assms(1) by (auto simp: xs lseg_append)
  moreover have "d \<notin> set us" "d \<notin> set ys" using assms(2) by (auto simp: xs)
  ultimately show "lseg (hs(last xs := (hs (last xs))\<lparr>bh_next := bh_next (hs b)\<rparr>)) l (xs @ ys) nullptr"
    by (auto simp: xs lseg_append lseg_upd)
qed

text \<open>Cutting a block: the headers after the split describe the two parts.\<close>

lemma split_block_loose:
  assumes fit: "fits_at a (p @ (n, True) # q)" and b: "b = eaddr a p" and c: "c = bend b sz"
    and tiles: "tiles hs a (p @ (n, True) # q)"
    and seg: "lseg hs l (faddrs a p @ faddrs (bend b n) q) nullptr"
    and le: "sz \<le> n" and big: "n > sz + 16"
    and hs': "hs' = hs(b := (hs b)\<lparr>bh_size := sz, bh_isFree := False\<rparr>,
                       c := (hs c)\<lparr>bh_size := n - sz - 16, bh_isFree := True\<rparr>)"
  shows "loose hs' l a (p @ [(sz, False)]) (n - sz - 16) q" "b \<noteq> c" "unat (n - sz - 16) = unat n - unat sz - 16"
    "unat sz + 16 < unat n"
proof -
  have n: "unat n < 2 ^ 62" using fit by (simp add: fits_at_def span_append)
  have "unat sz \<le> unat n" using le by (simp add: word_le_nat_alt)
  with n have "unat (sz + 16) = unat sz + 16" by (intro trans [OF unat_add64]) simp_all
  with big show sz: "unat sz + 16 < unat n" by (simp add: word_less_nat_alt)
  have r: "n - sz - 16 = n - (sz + 16)" by (simp add: algebra_simps)
  show rem: "unat (n - sz - 16) = unat n - unat sz - 16"
    unfolding r using big \<open>unat (sz + 16) = _\<close> by (subst unat_sub64) auto
  have "span (p @ [(sz, False)] @ (n - sz - 16, True) # q) = span (p @ (n, True) # q)"
    using sz rem by (simp add: span_append)
  with fit have fit': "fits_at a ((p @ [(sz, False)]) @ (n - sz - 16, True) # q)"
    by (simp add: fits_at_def)
  have fit'': "fits_at a (p @ (sz, False) # (n - sz - 16, True) # q)" using fit' by simp
  have e: "bend c (n - sz - 16) = bend b n" by (simp add: c bend_def)
  have c': "c = eaddr a (p @ [(sz, False)])" by (simp add: c b block_simps)
  note nb = mid_notin [OF fit'' b] and nc = mid_notin [OF fit' c']
  have cp: "c \<notin> set (starts a p)" using nc(2) by (simp add: starts_append)
  show ne: "b \<noteq> c" using nb(3) by (auto simp: c)
  have bq: "b \<notin> set (starts (bend b n) q)" using nb(3) e by (auto simp: c)
  have parts: "tiles hs a p" "tiles hs (bend b n) q" using tiles by (simp_all add: block_simps b)
  have "tiles hs' a ((p @ [(sz, False)]) @ (n - sz - 16, True) # q)"
    using parts nb(2) cp bq nc(3) ne e by (simp add: hs' block_simps b [symmetric] c [symmetric])
  moreover have "lseg hs' l (faddrs a p @ faddrs (bend b n) q) nullptr"
    using seg lseg_cong [of "faddrs a p @ faddrs (bend b n) q" hs' hs] by (simp add: hs')
  ultimately show "loose hs' l a (p @ [(sz, False)]) (n - sz - 16) q"
    using fit' by (simp add: loose_def faddrs_append c' [symmetric] e)
qed

lemma dvd_ALIGN_UP: "16 dvd unat (ALIGN_UP v 16)"
proof -
  have "unat (ALIGN_UP v 16) = unat (DIV_ROUNDUP v 16) * 16 mod 2 ^ 64"
    by (simp add: ALIGN_UP_def unat_word_ariths)
  then show ?thesis by (simp add: dvd_mod)
qed

text \<open>What \<open>allocate\<close> finds, and the list after it took the block out.\<close>

definition unlinked :: "HeapAllocator \<Rightarrow> ptr \<Rightarrow> ptr \<Rightarrow> HeapAllocator" where
  "unlinked h prev b =
     (if prev = nullptr then h\<lparr>m_freeList := bh_next (ha_headers h b)\<rparr>
      else h\<lparr>ha_headers := bh_set_next (ha_headers h) prev (bh_next (ha_headers h b))\<rparr>)"

lemma fit_found:
  assumes rel: "heap_rel h a bs" and ff: "first_fit sz bs = Some (p, n, q)" and b: "b = eaddr a p"
  obtains prev where "fit_search (ha_headers h) sz nullptr (m_freeList h) = ret (prev, b)"
    "tiles (ha_headers (unlinked h prev b)) a (p @ (n, True) # q)"
    "lseg (ha_headers (unlinked h prev b)) (m_freeList (unlinked h prev b)) (faddrs a p @ faddrs (bend b n) q) nullptr"
proof -
  let ?hs = "ha_headers h" and ?pf = "faddrs a p" and ?qf = "faddrs (bend b n) q"
  have bs: "bs = p @ (n, True) # q" and le: "sz \<le> n" and small: "\<forall>(m, f)\<in>set p. f \<longrightarrow> m < sz"
    using first_fit_Some [OF ff] by auto
  have fit: "fits_at a bs" and heap: "tiles ?hs a bs" "lseg ?hs (m_freeList h) (?pf @ b # ?qf) nullptr"
    using rel by (simp_all add: heap_rel_def heap_at_def bs block_simps b)
  have dist: "distinct (?pf @ b # ?qf)"
    using distinct_faddrs [OF distinct_starts [OF fit]] by (simp add: bs block_simps b)
  have pos: "nullptr \<notin> set (?pf @ b # ?qf)"
    using fits_at_pos [OF fit] faddrs_subset [of a bs] by (auto simp: bs block_simps b)
  define prev where "prev = (if ?pf = [] then nullptr else last ?pf)"
  have null: "prev = nullptr \<longleftrightarrow> ?pf = []" using pos by (cases ?pf rule: rev_cases) (auto simp: prev_def)
  have "fit_search ?hs sz nullptr (m_freeList h) = ret (prev, b)"
    unfolding prev_def
  proof (rule fit_search_some)
    show "lseg ?hs (m_freeList h) (?pf @ [b]) (bh_next (?hs b))" using heap(2) by (auto simp: lseg_append)
    show "nullptr \<notin> set (?pf @ [b])" using pos by auto
    show "\<forall>y\<in>set ?pf. bh_size (?hs y) < sz" using heap(1) small by (intro free_sizes) (simp_all add: bs tiles_append)
    show "sz \<le> bh_size (?hs b)" using heap(1) le by (simp add: bs block_simps b)
  qed
  moreover have "tiles (ha_headers (unlinked h prev b)) a (p @ (n, True) # q)"
    using heap(1) unfolding bs by (simp add: unlinked_def bh_set_next_def tiles_upd_next)
  moreover have "lseg (ha_headers (unlinked h prev b)) (m_freeList (unlinked h prev b)) (?pf @ ?qf) nullptr"
    using lseg_unlink [OF heap(2) dist] null by (auto simp: unlinked_def bh_set_next_def prev_def)
  ultimately show thesis by (rule that)
qed

lemma unlinked_counts [simp]:
  "m_usedMem (unlinked h prev b) = m_usedMem h" "m_freeMem (unlinked h prev b) = m_freeMem h"
  "m_MetadataMem (unlinked h prev b) = m_MetadataMem h" "ha_lock (unlinked h prev b) = ha_lock h"
  by (simp_all add: unlinked_def)

lemma coalesced_take:
  assumes "coalesced (p @ (n, True) # q)"
  shows "coalesced (p @ take_block sz n @ q)" "q = [] \<or> \<not> snd (hd q)"
  using assms by (auto simp: take_block_def coalesced_append coalesced_Cons)

lemma HeapAllocator_allocate_unfold:
  assumes "fit_search (ha_headers h) (ALIGN_UP req 16) nullptr (m_freeList h) = ret (prev, b)" "b \<noteq> nullptr"
  shows "HeapAllocator_allocate h req =
    (let sz = ALIGN_UP req 16; u = unlinked h prev b; n = bh_size (ha_headers u b);
         hs = bh_set_isFree (ha_headers u) b False
     in bindP
          (if n > sz + 16 then
             let c = bend b sz
             in bindP (AddToFreeList
                  (u\<lparr>ha_headers := bh_set_size (bh_set_isFree (bh_set_size hs c (n - sz - 16)) c True) b sz,
                     m_freeMem := m_freeMem u - 16\<rparr>) c)
                  (\<lambda>h. ret (h\<lparr>m_MetadataMem := m_MetadataMem h + 16\<rparr>))
           else ret (u\<lparr>ha_headers := hs\<rparr>))
          (\<lambda>h. ret (b + 16, h\<lparr>m_usedMem := m_usedMem h + sz, m_freeMem := m_freeMem h - sz\<rparr>)))"
  using assms(2) by (simp add: HeapAllocator_allocate_def assms(1) Let_def unlinked_def bend_def bh_set_isFree_def)

lemma take_block_whole:
  assumes rel: "heap_rel h a (p @ (n, True) # q)" and b: "b = eaddr a p" and small: "\<not> n > sz + 16"
    and u: "tiles (ha_headers u) a (p @ (n, True) # q)"
      "lseg (ha_headers u) (m_freeList u) (faddrs a p @ faddrs (bend b n) q) nullptr"
    and cnt: "m_MetadataMem h' = m_MetadataMem h" "getTotalMem h' = getTotalMem h"
    and h': "ha_headers h' = bh_set_isFree (ha_headers u) b False" "m_freeList h' = m_freeList u"
  shows "heap_rel h' a (p @ take_block sz n @ q)"
proof -
  have fit: "fits_at a (p @ (n, True) # q)" using rel by (simp add: heap_rel_def)
  note notin = mid_notin(2,3) [OF fit b]
  have tk: "take_block sz n = [(n, False)]" using small by (simp add: take_block_def)
  have "heap_at (ha_headers h') (m_freeList h') a (p @ (n, False) # q)"
    using u notin by (simp add: h' heap_at_def bh_set_isFree_def lseg_upd_isFree block_simps b [symmetric])
  moreover have "fits_at a (p @ (n, False) # q)" using fit by (simp add: fits_at_def span_append)
  ultimately show ?thesis
    using rel coalesced_take(1) [of p n q sz] by (simp add: heap_rel_def tk cnt span_append ball_Un)
qed

lemma take_block_split:
  assumes rel: "heap_rel h a (p @ (n, True) # q)" and b: "b = eaddr a p" and big: "n > sz + 16" and le: "sz \<le> n"
    and dvd: "16 dvd unat sz"
    and u: "tiles (ha_headers u) a (p @ (n, True) # q)"
      "lseg (ha_headers u) (m_freeList u) (faddrs a p @ faddrs (bend b n) q) nullptr"
    and v: "ha_headers v = bh_set_size (bh_set_isFree (bh_set_size (bh_set_isFree (ha_headers u) b False)
               (bend b sz) (n - sz - 16)) (bend b sz) True) b sz" "m_freeList v = m_freeList u"
  shows "\<exists>w. AddToFreeList v (bend b sz) = ret w \<and> merged 0 v w \<and>
    (\<forall>h'. ha_headers h' = ha_headers w \<and> m_freeList h' = m_freeList w \<and>
       m_MetadataMem h' = m_MetadataMem h + 16 \<and> getTotalMem h' = getTotalMem h \<longrightarrow>
       heap_rel h' a (p @ take_block sz n @ q))"
proof -
  let ?c = "bend b sz" and ?m = "n - sz - 16" and ?hs = "ha_headers u"
  let ?hs' = "?hs(b := (?hs b)\<lparr>bh_size := sz, bh_isFree := False\<rparr>, ?c := (?hs ?c)\<lparr>bh_size := ?m, bh_isFree := True\<rparr>)"
  have fit: "fits_at a (p @ (n, True) # q)" using rel by (simp add: heap_rel_def)
  note split = split_block_loose [OF fit b refl u le big refl]
  have n: "unat n < 2 ^ 62" using fit by (simp add: fits_at_def span_append)
  have "unat sz \<le> unat n" using le by (simp add: word_le_nat_alt)
  with n split(3) have "take_bit 62 sz = sz" "take_bit 62 ?m = ?m" by (intro take_bit_62; simp)+
  then have hs: "ha_headers v = ?hs'"
    using split(2) by (auto simp: v bh_set_defs)
  have coal: "coalesced (p @ take_block sz n @ q)" "q = [] \<or> \<not> snd (hd q)"
    using rel coalesced_take [of p n q] by (simp_all add: heap_rel_def)
  have tk: "take_block sz n = [(sz, False), (?m, True)]" using big by (simp add: take_block_def)
  have jp: "join_prev (p @ [(sz, False)]) ?m q = p @ take_block sz n @ q"
    using coal(2) rel by (simp add: join_prev_used join_next_used heap_rel_def tk)
  obtain w k where w: "AddToFreeList v ?c = ret w" "merged k v w" "k + length (p @ take_block sz n @ q) = length p + 2 + length q"
    "heap_at (ha_headers w) (m_freeList w) a (p @ take_block sz n @ q)"
    using AddToFreeList_correct [of v a "p @ [(sz, False)]" ?m q ?c] split(1)
    by (auto simp: hs v(2) jp b block_simps)
  from w(3) have k: "k = 0" by (simp add: tk)
  have sp: "span (p @ take_block sz n @ q) = span (p @ (n, True) # q)"
    using split(3,4) by (simp add: tk span_append)
  have "16 dvd unat ?m" using dvd rel unfolding split(3) heap_rel_def by (simp add: dvd_diff_nat)
  then have dv: "\<forall>(n, f)\<in>set (p @ take_block sz n @ q). 16 dvd unat n"
    using rel dvd by (simp add: tk heap_rel_def ball_Un)
  have "heap_rel h' a (p @ take_block sz n @ q)"
    if "ha_headers h' = ha_headers w" "m_freeList h' = m_freeList w"
       "m_MetadataMem h' = m_MetadataMem h + 16" "getTotalMem h' = getTotalMem h" for h'
    using rel w(4) that coal(1) sp dv unfolding heap_rel_def by (simp add: fits_at_def) (simp add: tk)
  then show ?thesis using w k by blast
qed

lemma HeapAllocator_allocate_correct:
  assumes rel: "heap_rel h a bs" and sz: "sz = ALIGN_UP req 16" and ff: "first_fit sz bs = Some (p, n, q)"
  shows "\<exists>h'. HeapAllocator_allocate h req = ret (eaddr a p + 16, h') \<and>
    heap_rel h' a (p @ take_block sz n @ q) \<and> ha_lock h' = ha_lock h \<and> m_usedMem h' = m_usedMem h + sz"
proof -
  define b where "b = eaddr a p"
  have bs: "bs = p @ (n, True) # q" and le: "sz \<le> n" using first_fit_Some [OF ff] by auto
  obtain prev where found: "fit_search (ha_headers h) sz nullptr (m_freeList h) = ret (prev, b)"
    and u: "tiles (ha_headers (unlinked h prev b)) a (p @ (n, True) # q)"
    "lseg (ha_headers (unlinked h prev b)) (m_freeList (unlinked h prev b)) (faddrs a p @ faddrs (bend b n) q) nullptr"
    using fit_found [OF rel ff b_def] .
  note rel' = rel [unfolded bs]
  have "b \<noteq> nullptr" using rel' mid_notin(1) [of a p n True q b] by (simp add: heap_rel_def b_def)
  note run = HeapAllocator_allocate_unfold [OF found [unfolded sz] this, folded sz]
  have n: "bh_size (ha_headers (unlinked h prev b) b) = n" using u(1) by (simp add: block_simps b_def)
  show ?thesis
  proof (cases "n > sz + 16")
    case True
    let ?u = "unlinked h prev b"
    let ?v = "?u\<lparr>ha_headers := bh_set_size (bh_set_isFree (bh_set_size (bh_set_isFree (ha_headers ?u) b False)
                (bend b sz) (n - sz - 16)) (bend b sz) True) b sz, m_freeMem := m_freeMem ?u - 16\<rparr>"
    have "16 dvd unat sz" unfolding sz by (rule dvd_ALIGN_UP)
    from take_block_split [OF rel' b_def True le this u, of ?v] obtain w
      where w: "AddToFreeList ?v (bend b sz) = ret w" "merged 0 ?v w"
        and heap: "\<And>h'. ha_headers h' = ha_headers w \<and> m_freeList h' = m_freeList w \<and>
           m_MetadataMem h' = m_MetadataMem h + 16 \<and> getTotalMem h' = getTotalMem h \<Longrightarrow>
           heap_rel h' a (p @ take_block sz n @ q)" by auto
    let ?h' = "w\<lparr>m_MetadataMem := m_MetadataMem w + 16, m_usedMem := m_usedMem w + sz, m_freeMem := m_freeMem w - sz\<rparr>"
    have "HeapAllocator_allocate h req = ret (b + 16, ?h')"
      using True w(1) by (simp add: run Let_def n)
    moreover have "heap_rel ?h' a (p @ take_block sz n @ q)"
      using w(2) by (intro heap) (simp add: merged_def getTotalMem_def)
    ultimately show ?thesis using w(2) by (simp add: merged_def b_def)
  next
    case False
    let ?u = "unlinked h prev b"
    let ?h' = "?u\<lparr>ha_headers := bh_set_isFree (ha_headers ?u) b False, m_usedMem := m_usedMem h + sz, m_freeMem := m_freeMem h - sz\<rparr>"
    have "HeapAllocator_allocate h req = ret (b + 16, ?h')"
      using False by (simp add: run Let_def n)
    moreover have "heap_rel ?h' a (p @ take_block sz n @ q)"
      by (rule take_block_whole [OF rel' b_def False u]) (simp_all add: getTotalMem_def)
    ultimately show ?thesis by (simp add: b_def)
  qed
qed

lemma HeapAllocator_allocate_oom:
  assumes rel: "heap_rel h a bs" and ff: "first_fit (ALIGN_UP req 16) bs = None"
  shows "HeapAllocator_allocate h req = stop (Panic ''kmalloc: out of memory'')"
proof -
  have "fit_search (ha_headers h) (ALIGN_UP req 16) nullptr (m_freeList h)
      = ret (if faddrs a bs = [] then nullptr else last (faddrs a bs), nullptr)"
  proof (rule fit_search_none)
    show "lseg (ha_headers h) (m_freeList h) (faddrs a bs) nullptr"
      using rel by (simp add: heap_rel_def heap_at_def)
    show "nullptr \<notin> set (faddrs a bs)"
      using rel fits_at_pos [of a bs nullptr] faddrs_subset [of a bs] by (auto simp: heap_rel_def)
    show "\<forall>x\<in>set (faddrs a bs). bh_size (ha_headers h x) < ALIGN_UP req 16"
      using rel ff by (intro free_sizes) (simp_all add: heap_rel_def heap_at_def first_fit_None)
  qed
  then show ?thesis by (simp add: HeapAllocator_allocate_def Let_def)
qed

end
