(* ===== verification/KmallocContract.thy ===== *)
theory KmallocContract
  imports KmallocBlocks
begin

unbundle bit_operations_syntax

text \<open>
  The contract of the kernel heap, proved for \<open>kmalloc\<close> and \<open>operator new\<close>: the addresses in use are
  those after the headers of the used blocks, every allocation adds a new one and every free removes
  one. \<open>kernel\<close> interprets the interface \<open>kernel_heap\<close> on the operations of Kmalloc.
\<close>

section \<open>The kernel heap keeps its contract\<close>

text \<open>The addresses handed out: those right after the headers of the blocks in use.\<close>

fun used_addrs :: "ptr \<Rightarrow> blocks \<Rightarrow> ptr list" where
  "used_addrs a [] = []"
| "used_addrs a ((n, f) # bs) = (if f then [] else [a + 16]) @ used_addrs (bend a n) bs"

lemma used_addrs_append [block_simps]: "used_addrs a (xs @ ys) = used_addrs a xs @ used_addrs (eaddr a xs) ys"
  by (induction a xs rule: used_addrs.induct) (auto simp: eaddr_simps)

lemma used_addrs_starts: "set (used_addrs a bs) \<subseteq> (\<lambda>x. x + 16) ` set (starts a bs)"
  by (induction a bs rule: used_addrs.induct) auto

lemma used_addrs_split:
  "x \<in> set (used_addrs a bs) \<Longrightarrow> \<exists>p n q. bs = p @ (n, False) # q \<and> x = eaddr a p + 16"
proof (induction a bs rule: used_addrs.induct)
  case (2 a n f bs)
  show ?case
  proof (cases "\<not> f \<and> x = a + 16")
    case True
    then show ?thesis by (intro exI [of _ "[]"]) (simp add: eaddr_simps)
  next
    case False
    then have "x \<in> set (used_addrs (bend a n) bs)" using 2(2) by (auto split: if_splits)
    then obtain p m q where "bs = p @ (m, False) # q" "x = eaddr (bend a n) p + 16" using 2(1) by blast
    then show ?thesis by (intro exI [of _ "(n, f) # p"]) (simp add: eaddr_simps)
  qed
qed simp

lemma used_addrs_join_next: "used_addrs b (join_next n q) = used_addrs (bend b n) q"
  by (cases "(n, q)" rule: join_next.cases) (auto simp: bend_bend)

lemma used_addrs_join_prev:
  "used_addrs a (join_prev p n q) = used_addrs a p @ used_addrs (bend (eaddr a p) n) q"
  by (cases p rule: join_prev_cases) (auto simp: block_simps used_addrs_join_next bend_bend)

lemma used_addrs_take:
  "sz \<le> n \<Longrightarrow> used_addrs b (take_block sz n @ q) = (b + 16) # used_addrs (bend b n) q"
  by (auto simp: take_block_def bend_def algebra_simps)

lemma mid_unused:
  assumes "fits_at a (p @ (n, f) # q)" "b = eaddr a p"
  shows "b + 16 \<notin> set (used_addrs a p)" "b + 16 \<notin> set (used_addrs (bend b n) q)"
  using mid_notin(2,3) [OF assms] used_addrs_starts [of a p] used_addrs_starts [of "bend b n" q] by auto

definition chunk_area :: "ptr \<Rightarrow> blocks \<Rightarrow> ptr set" where
  "chunk_area a bs = {x. unat a \<le> unat x \<and> unat x < unat a + span bs}"

definition eternal_area :: "kheap \<Rightarrow> ptr set" where
  "eternal_area s =
     (if g_kmalloc_eternal_initialised s
      then {x. unat (g_kmalloc_eternal_mem s) \<le> unat x \<and>
               unat x < unat (g_kmalloc_eternal_mem s) + unat (g_kmalloc_eternal_free_mem s)}
      else {})"

text \<open>The heap with deletable blocks \<open>L\<close> and eternal blocks \<open>E\<close>, all in the region \<open>R\<close>.\<close>

definition kheap_ok :: "ptr set \<Rightarrow> kheap \<Rightarrow> ptr set \<Rightarrow> ptr set \<Rightarrow> bool" where
  "kheap_ok R s L E \<longleftrightarrow>
     nullptr \<notin> R \<and> \<not> ha_lock (g_heapAllocator s) \<and> \<not> g_kmalloc_eternal_lock s \<and>
     (if g_kmalloc_initialised s
      then \<exists>a bs. heap_rel (g_heapAllocator s) a bs \<and> (\<forall>(n, f)\<in>set bs. n \<noteq> 0) \<and> L = set (used_addrs a bs) \<and>
             chunk_area a bs \<subseteq> R \<and> chunk_area a bs \<inter> (E \<union> eternal_area s) = {}
      else L = {}) \<and>
     unat (g_kmalloc_eternal_mem s) + unat (g_kmalloc_eternal_free_mem s) < 2 ^ 64 \<and>
     eternal_area s \<subseteq> R \<and> E \<subseteq> R \<and> E \<inter> eternal_area s = {}"

lemma used_in_chunk:
  assumes "fits_at a bs" "\<forall>(n, f)\<in>set bs. n \<noteq> 0"
  shows "set (used_addrs a bs) \<subseteq> chunk_area a bs"
proof
  fix x assume "x \<in> set (used_addrs a bs)"
  then obtain p n q where bs: "bs = p @ (n, False) # q" and x: "x = eaddr a p + 16"
    using used_addrs_split by blast
  have lim: "unat a + span bs < 2 ^ 64" using assms(1) by (simp add: fits_at_def)
  have "unat n > 0" using assms(2) by (simp add: bs word_neq_0_conv [symmetric] unat_gt_0)
  moreover have "unat x = unat a + span p + 16"
    using lim unfolding x by (subst unat_add64) (simp_all add: bs span_append unat_eaddr)
  ultimately show "x \<in> chunk_area a bs" by (simp add: chunk_area_def bs span_append)
qed

lemma heap_rel_lock [simp]: "heap_rel (h\<lparr>ha_lock := l\<rparr>) a bs = heap_rel h a bs"
  by (simp add: heap_rel_def getTotalMem_def)

lemma eternal_area_upd [simp]:
  "eternal_area (s\<lparr>g_heapAllocator := h\<rparr>) = eternal_area s" "eternal_area (s\<lparr>kh_mem := m\<rparr>) = eternal_area s"
  by (simp_all add: eternal_area_def)

lemma kheap_ok_mem [simp]: "kheap_ok R (s\<lparr>kh_mem := m\<rparr>) L E = kheap_ok R s L E"
  by (simp add: kheap_ok_def)

lemma nonzero_take:
  assumes "fits_at a (p @ (n, True) # q)" "sz \<le> n" "sz \<noteq> 0" "\<forall>(n, f)\<in>set (p @ (n, True) # q). n \<noteq> 0"
  shows "\<forall>(n, f)\<in>set (p @ take_block sz n @ q). n \<noteq> 0"
proof -
  have "n - sz - 16 \<noteq> 0" if "n > sz + 16"
    using that by (simp only: diff_eq_eq) (auto simp: add.commute)
  then show ?thesis using assms by (auto simp: take_block_def ball_Un)
qed

lemma span_take:
  assumes "fits_at a (p @ (n, True) # q)" "sz \<le> n"
  shows "span (p @ take_block sz n @ q) = span (p @ (n, True) # q)"
proof (cases "n > sz + 16")
  case True
  have n: "unat n < 2 ^ 62" using assms(1) by (simp add: fits_at_def span_append)
  have "unat sz \<le> unat n" using assms(2) by (simp add: word_le_nat_alt)
  with n have e: "unat (sz + 16) = unat sz + 16" by (intro trans [OF unat_add64]) simp_all
  then have "unat (n - sz - 16) = unat n - (unat sz + 16)"
    using True unat_sub64 [of "sz + 16" n] by (simp add: diff_diff_eq)
  moreover have "unat sz + 16 < unat n" using True e by (simp add: word_less_nat_alt)
  ultimately show ?thesis using True by (simp add: take_block_def span_append)
qed (simp add: take_block_def span_append)

lemma chunk_area_span: "span bs' = span bs \<Longrightarrow> chunk_area a bs' = chunk_area a bs"
  by (simp add: chunk_area_def)

lemma with_heap_allocate:
  assumes ok: "kheap_ok R s L E" and init: "g_kmalloc_initialised s" and nz: "ALIGN_UP req 16 \<noteq> 0"
  shows "with_heap s (\<lambda>h. HeapAllocator_allocate h req) = stop (Panic ''kmalloc: out of memory'') \<or>
    (\<exists>x s'. with_heap s (\<lambda>h. HeapAllocator_allocate h req) = ret (x, s') \<and>
       x \<noteq> nullptr \<and> x \<notin> L \<union> E \<and> kheap_ok R s' (insert x L) E)"
proof -
  let ?h = "(g_heapAllocator s)\<lparr>ha_lock := True\<rparr>" and ?sz = "ALIGN_UP req 16"
  obtain a bs where rel: "heap_rel ?h a bs" and pos: "\<forall>(n, f)\<in>set bs. n \<noteq> 0" and L: "L = set (used_addrs a bs)"
    and area: "chunk_area a bs \<subseteq> R" "chunk_area a bs \<inter> (E \<union> eternal_area s) = {}"
    using ok init by (auto simp: kheap_ok_def)
  have lock: "HeapAllocator_lock (g_heapAllocator s) = ret ?h"
    using ok by (simp add: HeapAllocator_lock_def kheap_ok_def)
  show ?thesis
  proof (cases "first_fit ?sz bs")
    case None
    then show ?thesis
      using HeapAllocator_allocate_oom [OF rel] by (simp add: with_heap_def lock)
  next
    case (Some r)
    then obtain p n q where ff: "first_fit ?sz bs = Some (p, n, q)" by (cases r) auto
    have bs: "bs = p @ (n, True) # q" and le: "?sz \<le> n" using first_fit_Some [OF ff] by auto
    have fit: "fits_at a bs" using rel by (simp add: heap_rel_def)
    let ?x = "eaddr a p + 16" and ?bs = "p @ take_block ?sz n @ q"
    obtain h' where h': "HeapAllocator_allocate ?h req = ret (?x, h')" "heap_rel h' a ?bs"
      using HeapAllocator_allocate_correct [OF rel refl ff] by blast
    let ?s = "s\<lparr>g_heapAllocator := HeapAllocator_unlock h'\<rparr>"
    have pos': "\<forall>(n, f)\<in>set ?bs. n \<noteq> 0" using nonzero_take [OF fit [unfolded bs] le nz] pos bs by simp
    have L': "set (used_addrs a ?bs) = insert ?x L"
      unfolding L bs used_addrs_append [of a p] used_addrs_take [OF le] by auto
    have area': "chunk_area a ?bs = chunk_area a bs"
      by (rule chunk_area_span) (simp add: bs span_take [OF fit [unfolded bs] le])
    have x: "?x \<in> chunk_area a bs"
      using used_in_chunk [OF _ pos'] h'(2) L' area' by (auto simp: heap_rel_def)
    have "kheap_ok R ?s (insert ?x L) E"
      unfolding kheap_ok_def using ok init h'(2) pos' L' area area'
      by (auto simp: kheap_ok_def HeapAllocator_unlock_def intro!: exI [of _ a] exI [of _ ?bs])
    moreover have "?x \<notin> L" using mid_unused [OF fit [unfolded bs] refl] by (auto simp: L bs block_simps)
    moreover have "?x \<noteq> nullptr" using x area ok by (auto simp: kheap_ok_def)
    ultimately show ?thesis using h'(1) x area by (auto simp: with_heap_def lock)
  qed
qed

lemma kcalloc_cases:
  assumes ok: "kheap_ok R s L E" and nz: "ALIGN_UP (ALIGN_UP (sz * num) 16) 16 \<noteq> 0"
  obtains "kcalloc num sz s = ret (nullptr, s)"
  | "kcalloc num sz s = stop (Panic ''kmalloc: out of memory'')"
  | x s' where "kcalloc num sz s = ret (x, s')" "x \<noteq> nullptr" "x \<notin> L \<union> E" "kheap_ok R s' (insert x L) E"
proof (cases "g_kmalloc_initialised s")
  case True
  from with_heap_allocate [OF ok this nz] show thesis
  proof
    assume "with_heap s (\<lambda>h. HeapAllocator_allocate h (ALIGN_UP (sz * num) 16)) = stop (Panic ''kmalloc: out of memory'')"
    then show thesis using True by (intro that(2)) (simp add: kcalloc_def)
  next
    assume "\<exists>x s'. with_heap s (\<lambda>h. HeapAllocator_allocate h (ALIGN_UP (sz * num) 16)) = ret (x, s') \<and>
       x \<noteq> nullptr \<and> x \<notin> L \<union> E \<and> kheap_ok R s' (insert x L) E"
    then obtain x s' where "with_heap s (\<lambda>h. HeapAllocator_allocate h (ALIGN_UP (sz * num) 16)) = ret (x, s')"
       "x \<noteq> nullptr" "x \<notin> L \<union> E" "kheap_ok R s' (insert x L) E" by blast
    then show thesis using True
      by (intro that(3) [of x "s'\<lparr>kh_mem := fast_memset (kh_mem s') x 0 (ALIGN_UP (sz * num) 16 div 8)\<rparr>"])
        (simp_all add: kcalloc_def)
  qed
qed (use that(1) in \<open>simp add: kcalloc_def\<close>)

lemma operator_new_size:
  assumes "0 < sz" "sz \<le> 4096"
  shows "ALIGN_UP (ALIGN_UP (8 * DIV_ROUNDUP sz 8) 16) 16 \<noteq> 0"
proof -
  have sz: "0 < unat sz" "unat sz \<le> 4096" using assms by (simp_all add: word_less_nat_alt word_le_nat_alt)
  have d: "unat (DIV_ROUNDUP sz 8) = (unat sz + 7) div 8" using sz unat_DIV_ROUNDUP [of 8 sz] by simp
  with sz have e: "unat (8 * DIV_ROUNDUP sz 8) = 8 * ((unat sz + 7) div 8)" by (subst unat_mult64) simp_all
  let ?v = "8 * DIV_ROUNDUP sz 8"
  have v: "0 < unat ?v" "unat ?v < 8192" using e sz by simp_all
  have "unat ?v \<le> unat (ALIGN_UP ?v 16)" "unat (ALIGN_UP ?v 16) < unat ?v + 16"
    using ALIGN_UP_bounds [of 16 ?v] v by simp_all
  moreover from this v have "unat (ALIGN_UP ?v 16) \<le> unat (ALIGN_UP (ALIGN_UP ?v 16) 16)"
    using ALIGN_UP_bounds [of 16 "ALIGN_UP ?v 16"] by simp
  ultimately show ?thesis using v(1) by (auto simp: unat_eq_0 [symmetric])
qed

lemma nonzero_join_prev:
  assumes sp: "span (p @ (n, True) # q) < 2 ^ 62" and nz: "\<forall>(n, f)\<in>set (p @ (n, False) # q). n \<noteq> 0"
  shows "\<forall>(n, f)\<in>set (join_prev p n q). n \<noteq> 0"
proof -
  have step: "\<forall>(n, f)\<in>set (join_next m q). n \<noteq> 0" if "16 + unat m + span q < 2 ^ 62" "m \<noteq> 0" for m
    using that nz by (cases "(m, q)" rule: join_next.cases) (auto simp: unat_eq_0 [symmetric] unat_add64)
  show ?thesis
  proof (cases p rule: join_prev_cases)
    case (1 p' m)
    then show ?thesis
      using join_prev_sum [of p' m n q] sp nz step [of "m + (16 + n)"] by (auto simp: ball_Un unat_eq_0 [symmetric])
  next
    case 2
    then show ?thesis using step [of n] sp nz by (auto simp: ball_Un span_append)
  qed
qed

lemma kfree_ok:
  assumes ok: "kheap_ok R s L E" and x: "x \<in> L"
  shows "\<exists>s'. kfree x s = ret s' \<and> kheap_ok R s' (L - {x}) E"
proof -
  let ?h = "(g_heapAllocator s)\<lparr>ha_lock := True\<rparr>"
  have init: "g_kmalloc_initialised s" using ok x by (auto simp: kheap_ok_def)
  obtain a bs where rel: "heap_rel ?h a bs" and pos: "\<forall>(n, f)\<in>set bs. n \<noteq> 0" and L: "L = set (used_addrs a bs)"
    and area: "chunk_area a bs \<subseteq> R" "chunk_area a bs \<inter> (E \<union> eternal_area s) = {}"
    using ok init by (auto simp: kheap_ok_def)
  obtain p n q where bs: "bs = p @ (n, False) # q" and xb: "x = eaddr a p + 16"
    using used_addrs_split x L by blast
  have fit: "fits_at a bs" using rel by (simp add: heap_rel_def)
  have lock: "HeapAllocator_lock (g_heapAllocator s) = ret ?h"
    using ok by (simp add: HeapAllocator_lock_def kheap_ok_def)
  let ?bs = "join_prev p n q"
  obtain h' where h': "HeapAllocator_free ?h x = ret h'" "heap_rel h' a ?bs"
    using HeapAllocator_free_correct [OF rel [unfolded bs] refl] xb by auto
  let ?s = "s\<lparr>g_heapAllocator := HeapAllocator_unlock h'\<rparr>"
  have sp: "span (p @ (n, True) # q) < 2 ^ 62" using fit by (simp add: fits_at_def bs span_append)
  have pos': "\<forall>(n, f)\<in>set ?bs. n \<noteq> 0" using nonzero_join_prev [OF sp] pos bs by simp
  have L': "set (used_addrs a ?bs) = L - {x}"
    using mid_unused [OF fit [unfolded bs] refl] unfolding L bs used_addrs_join_prev xb by (auto simp: block_simps)
  have area': "chunk_area a ?bs = chunk_area a bs"
    by (rule chunk_area_span) (simp add: span_join_prev [OF sp] bs span_append)
  have "kheap_ok R ?s (L - {x}) E"
    unfolding kheap_ok_def using ok init h'(2) pos' L' area area'
    by (auto simp: kheap_ok_def HeapAllocator_unlock_def intro!: exI [of _ a] exI [of _ ?bs])
  then show ?thesis using h'(1) by (auto simp: kfree_def with_heap_def lock)
qed

lemma live_in_chunk:
  assumes "kheap_ok R s L E"
  shows "L \<inter> (E \<union> eternal_area s) = {}" "L \<union> E \<subseteq> R"
proof -
  have "L \<inter> (E \<union> eternal_area s) = {} \<and> L \<subseteq> R"
  proof (cases "g_kmalloc_initialised s")
    case True
    then obtain a bs where "fits_at a bs" "\<forall>(n, f)\<in>set bs. n \<noteq> 0" "L = set (used_addrs a bs)"
      "chunk_area a bs \<subseteq> R" "chunk_area a bs \<inter> (E \<union> eternal_area s) = {}"
      using assms by (auto simp: kheap_ok_def heap_rel_def)
    then show ?thesis using used_in_chunk [of a bs] by blast
  qed (use assms in \<open>simp add: kheap_ok_def\<close>)
  then show "L \<inter> (E \<union> eternal_area s) = {}" "L \<union> E \<subseteq> R"
    using assms by (auto simp: kheap_ok_def)
qed

text \<open>Taking the first \<open>sz\<close> bytes of the eternal area.\<close>

lemma eternal_take:
  assumes ok: "kheap_ok R s L E" and init: "g_kmalloc_eternal_initialised s"
    and sz: "0 < unat sz" "sz \<le> g_kmalloc_eternal_free_mem s"
    and x: "x = g_kmalloc_eternal_mem s"
    and s': "s' = s\<lparr>g_kmalloc_eternal_used_mem := u, g_kmalloc_eternal_free_mem := g_kmalloc_eternal_free_mem s - sz,
                   g_kmalloc_eternal_mem := g_kmalloc_eternal_mem s + sz, g_kmalloc_eternal_lock := False\<rparr>"
  shows "x \<notin> L \<union> E" "kheap_ok R s' L (insert x E)"
proof -
  let ?m = "g_kmalloc_eternal_mem s" and ?f = "g_kmalloc_eternal_free_mem s"
  have le: "unat sz \<le> unat ?f" using sz(2) by (simp add: word_le_nat_alt)
  have lim: "unat ?m + unat ?f < 2 ^ 64" using ok by (simp add: kheap_ok_def)
  have m': "unat (?m + sz) = unat ?m + unat sz" using le lim by (intro unat_add64) simp
  have f': "unat (?f - sz) = unat ?f - unat sz" using sz(2) by (rule unat_sub64)
  have x_in: "x \<in> eternal_area s" using init sz(1) le by (simp add: eternal_area_def x)
  have sub: "eternal_area s' \<subseteq> eternal_area s - {x}"
    using init sz(1) m' f' le by (auto simp: eternal_area_def s' x)
  show "x \<notin> L \<union> E" using live_in_chunk(1) [OF ok] x_in ok by (auto simp: kheap_ok_def)
  have lim': "unat (g_kmalloc_eternal_mem s') + unat (g_kmalloc_eternal_free_mem s') < 2 ^ 64"
    using m' f' le lim by (simp add: s')
  have sets: "eternal_area s' \<subseteq> R" "insert x E \<subseteq> R" "insert x E \<inter> eternal_area s' = {}"
    using ok sub x_in by (auto simp: kheap_ok_def)
  have chunk: "C \<inter> (insert x E \<union> eternal_area s') = {}" if "C \<inter> (E \<union> eternal_area s) = {}" for C
    using that sub x_in by blast
  have "\<exists>a bs. heap_rel (g_heapAllocator s') a bs \<and> (\<forall>(n, f)\<in>set bs. n \<noteq> 0) \<and> L = set (used_addrs a bs) \<and>
             chunk_area a bs \<subseteq> R \<and> chunk_area a bs \<inter> (insert x E \<union> eternal_area s') = {}"
    if "g_kmalloc_initialised s"
    using ok that chunk by (auto simp: kheap_ok_def s' simp del: Int_Un_distrib)
  then show "kheap_ok R s' L (insert x E)"
    unfolding kheap_ok_def using ok lim' sets by (auto simp: kheap_ok_def s')
qed

lemma kcalloc_eternal_fresh:
  assumes ok: "kheap_ok R s L E" and sz: "0 < sz" "sz \<le> 4096"
    and run: "kcalloc_eternal 1 sz s = ret (p, s')" and p: "p \<noteq> nullptr"
  shows "p \<notin> L \<union> E \<and> kheap_ok R s' L (insert p E)"
proof -
  let ?sz = "ALIGN_UP sz 8"
  let ?s = "s\<lparr>g_kmalloc_eternal_used_mem := g_kmalloc_eternal_used_mem s + ?sz,
              g_kmalloc_eternal_free_mem := g_kmalloc_eternal_free_mem s - ?sz,
              g_kmalloc_eternal_mem := g_kmalloc_eternal_mem s + ?sz, g_kmalloc_eternal_lock := False\<rparr>"
  have pos: "0 < unat ?sz"
    using sz ALIGN_UP_bounds(2) [of 8 sz] by (simp add: word_less_nat_alt word_le_nat_alt)
  have lock: "\<not> g_kmalloc_eternal_lock s" using ok by (simp add: kheap_ok_def)
  then have init: "g_kmalloc_eternal_initialised s" and fits: "\<not> ?sz > g_kmalloc_eternal_free_mem s"
    using run p by (auto simp: kcalloc_eternal_def Let_def split: if_splits)
  then have eq: "p = g_kmalloc_eternal_mem s" "s' = ?s\<lparr>kh_mem := kh_mem s'\<rparr>"
    using run lock by (auto simp: kcalloc_eternal_def Let_def)
  have "p \<notin> L \<union> E" "kheap_ok R ?s L (insert p E)"
    using eternal_take [OF ok init pos _ eq(1) refl] fits by (simp_all add: not_less)
  then show ?thesis by (subst eq(2)) (simp del: kheap.update_convs)
qed

interpretation kernel: kernel_heap kernel_ops "kheap_ok R" "R - {nullptr}" for R
proof
  fix h L E sz p h'
  assume ok: "kheap_ok R h L E"
  have "nullptr \<notin> R" using ok by (simp add: kheap_ok_def)
  then show "L \<union> E \<subseteq> R - {nullptr}" using live_in_chunk(2) [OF ok] by auto
  show "\<exists>h'. op_delete kernel_ops p h = ret h' \<and> kheap_ok R h' (L - {p}) E"
    if "p \<in> L" "new_initialised kernel_ops h"
    using that kfree_ok [OF ok, of p] by (simp add: kernel_ops_def operator_delete_def)
  show "\<exists>p h'. kcalloc_eternal_op kernel_ops 1 sz h = ret (p, h')"
    using ok by (simp add: kernel_ops_def kcalloc_eternal_def kheap_ok_def Let_def)
  show "op_new kernel_ops sz h \<noteq> None" if "0 < sz" "sz \<le> 4096"
    by (rule kcalloc_cases [OF ok operator_new_size [OF that]])
      (simp_all add: kernel_ops_def operator_new_def)
  show "if p = nullptr then kheap_ok R h' L E else p \<notin> L \<union> E \<and> kheap_ok R h' (insert p L) E"
    if "0 < sz" "sz \<le> 4096" "op_new kernel_ops sz h = ret (p, h')"
    using that(3) ok
    by (cases rule: kcalloc_cases [OF ok operator_new_size [OF that(1,2)]])
      (auto simp: kernel_ops_def operator_new_def split: if_splits)
  show "p \<notin> L \<union> E \<and> kheap_ok R h' L (insert p E)"
    if "0 < sz" "sz \<le> 4096" "kcalloc_eternal_op kernel_ops 1 sz h = ret (p, h')" "p \<noteq> nullptr"
    using that by (intro kcalloc_eternal_fresh [OF ok]) (simp_all add: kernel_ops_def)
qed simp

section \<open>A heap to start from\<close>

lemma MiB_4: "MiB 4 = 4194304"
  by (simp add: MiB_def KiB_def)

text \<open>\<open>HeapAllocator(MiB(4))\<close> on fresh pages. The constructor does not write the \<open>next\<close> field of its
  first header, so the pages must read as zero there.\<close>

lemma HeapAllocator_sized_rel:
  assumes "header = AllocatePages 1025" "header \<noteq> nullptr" "unat header + 4198400 < 2 ^ 64"
    and "bh_next (hs header) = nullptr"
  shows "\<exists>h. HeapAllocator_sized AllocatePages hs (MiB 4) = ret h \<and> heap_rel h header [(4198384, True)] \<and> \<not> ha_lock h"
proof -
  have "DIV_ROUNDUP (MiB 4 + 16) 4096 = 1025" by (simp add: DIV_ROUNDUP_def MiB_4)
  moreover have "take_bit 62 (4198384 :: u64) = 4198384" by (rule take_bit_62) simp
  moreover have "heap_at (hs(header := (hs header)\<lparr>bh_size := 4198384, bh_isFree := True, bh_isStartOfChunk := True\<rparr>))
      header header [(4198384, True)]"
    using assms(4) by (simp add: heap_at_def)
  ultimately show ?thesis
    using assms
    by (simp add: HeapAllocator_sized_def HeapAllocator_empty_def Let_def bh_set_defs heap_rel_def fits_at_def
        coalesced_Cons getTotalMem_def)
qed

text \<open>A concrete one: 1025 zeroed pages at 1 MiB.\<close>

definition zero_headers :: headers where
  "zero_headers = (\<lambda>_. \<lparr>bh_size = 0, bh_isFree = False, bh_isStartOfChunk = False, bh_next = nullptr\<rparr>)"

definition boot_heap :: HeapAllocator where
  "boot_heap = (case HeapAllocator_sized (\<lambda>_. 0x100000) zero_headers (MiB 4) of Some (Inr h) \<Rightarrow> h)"

lemma boot_heap_rel: "heap_rel boot_heap 0x100000 [(4198384, True)]" "\<not> ha_lock boot_heap"
  using HeapAllocator_sized_rel [of "0x100000" "\<lambda>_. 0x100000" zero_headers]
  by (auto simp: boot_heap_def zero_headers_def ret_def)

section \<open>Properties\<close>

text \<open>C1. \<open>HeapAllocator::allocate\<close> is first fit: on a well-formed heap it takes the first free block
  large enough for the rounded-up request, returns the address after its header, gives back the rest of
  the block when more than a header is left, and leaves a well-formed heap; it panics exactly when no
  free block is large enough.\<close>

theorem allocate_first_fit:
  assumes "heap_rel h a bs"
  shows "case first_fit (ALIGN_UP req 16) bs of
      None \<Rightarrow> HeapAllocator_allocate h req = stop (Panic ''kmalloc: out of memory'')
    | Some (p, n, q) \<Rightarrow> \<exists>h'. HeapAllocator_allocate h req = ret (eaddr a p + 16, h') \<and>
        heap_rel h' a (p @ take_block (ALIGN_UP req 16) n @ q)"
  using HeapAllocator_allocate_correct [OF assms refl, of req] HeapAllocator_allocate_oom [OF assms, of req]
  by (auto split: option.splits)

theorem allocate_first_fit_witness:
  "\<exists>h'. HeapAllocator_allocate boot_heap 100 = ret (0x100010, h') \<and>
     heap_rel h' 0x100000 [(112, False), (4198256, True)]"
  using allocate_first_fit [OF boot_heap_rel(1), of 100]
  by (simp add: ALIGN_UP_def DIV_ROUNDUP_def eaddr_simps take_block_def)

text \<open>C18. \<open>HeapAllocator::free\<close> puts the block back and merges it with the free blocks on both sides,
  so that no two free blocks are ever adjacent; it always returns on a well-formed heap.\<close>

theorem free_coalesces:
  assumes "heap_rel h a (p @ (n, False) # q)"
  shows "\<exists>h'. HeapAllocator_free h (eaddr a p + 16) = ret h' \<and> heap_rel h' a (join_prev p n q)"
  using HeapAllocator_free_correct [OF assms refl] by blast

theorem free_coalesces_witness:
  "\<exists>h h'. HeapAllocator_free h 0x100010 = ret h' \<and> heap_rel h' 0x100000 [(4198384, True)]"
proof -
  obtain h where "heap_rel h 0x100000 ([] @ (112, False) # [(4198256, True)])"
    using HeapAllocator_allocate_correct [OF boot_heap_rel(1) refl, of 100]
    by (auto simp: ALIGN_UP_def DIV_ROUNDUP_def eaddr_simps take_block_def)
  from free_coalesces [OF this] show ?thesis by (auto simp: eaddr_simps)
qed

lemma blocks_apart:
  assumes fit: "fits_at a bs" and bs: "bs = p @ (n, f) # q" "bs = p' @ (n', f') # q'"
    and lt: "length p < length p'" and i: "i < unat n" and j: "j < unat n'"
  shows "eaddr a p + 16 + of_nat i \<noteq> eaddr a p' + 16 + of_nat j"
proof -
  have "p @ (n, f) # q = p' @ (n', f') # q'" using bs by simp
  then obtain us where "p' = p @ us" "us @ (n', f') # q' = (n, f) # q"
    using lt by (auto simp: append_eq_append_conv2)
  then obtain r where p': "p' = p @ (n, f) # r" using lt by (cases us) auto
  have lim: "unat a + span bs < 2 ^ 64" using fit by (simp add: fits_at_def)
  have "unat (eaddr a p + (16 + of_nat i)) = unat a + span p + (16 + i)"
    using lim i by (subst unat_add64; simp add: unat_add64 unat_of_nat64 unat_eaddr bs(1) span_append)
  moreover have "unat (eaddr a p' + (16 + of_nat j)) = unat a + span p' + (16 + j)"
    using lim j by (subst unat_add64; simp add: unat_add64 unat_of_nat64 unat_eaddr bs(2) span_append)
  ultimately have "unat (eaddr a p + (16 + of_nat i)) \<noteq> unat (eaddr a p' + (16 + of_nat j))"
    using i by (simp add: p' span_append)
  then have "eaddr a p + (16 + of_nat i) \<noteq> eaddr a p' + (16 + of_nat j)" by (rule contrapos_nn) (erule arg_cong)
  then show ?thesis unfolding add.assoc .
qed

text \<open>C19. An allocation never overlaps a block that is in use: no byte of the requested size at the
  returned address is a byte of another live block.\<close>

theorem allocate_disjoint:
  assumes rel: "heap_rel h a bs" and run: "HeapAllocator_allocate h req = ret (x, h')"
    and req: "unat req + 15 < 2 ^ 64" and live: "bs = p @ (n, False) # q"
    and i: "i < unat req" and j: "j < unat n"
  shows "x + of_nat i \<noteq> eaddr a p + 16 + of_nat j"
proof -
  let ?sz = "ALIGN_UP req 16"
  obtain p' m q' where ff: "first_fit ?sz bs = Some (p', m, q')"
    using HeapAllocator_allocate_oom [OF rel, of req] run by (cases "first_fit ?sz bs") auto
  then have x: "x = eaddr a p' + 16" and bs': "bs = p' @ (m, True) # q'" and le: "?sz \<le> m"
    using HeapAllocator_allocate_correct [OF rel refl ff] run first_fit_Some [OF ff] by auto
  have fit: "fits_at a bs" using rel by (simp add: heap_rel_def)
  have i': "i < unat m"
    using i le ALIGN_UP_bounds(2) [of 16 req] req by (simp add: word_le_nat_alt)
  have "length p \<noteq> length p'" using live bs' by auto
  then show ?thesis
    using blocks_apart [OF fit live bs' _ j i'] blocks_apart [OF fit bs' live _ i' j] x
    by (cases "length p < length p'") auto
qed

theorem allocate_disjoint_witness:
  "\<exists>h h1 h2. HeapAllocator_allocate boot_heap 100 = ret (0x100010, h1) \<and>
     HeapAllocator_allocate h1 40 = ret (h, h2) \<and> h + of_nat 39 \<noteq> (0x100010 + of_nat 111 :: ptr)"
proof -
  obtain h1 where h1: "HeapAllocator_allocate boot_heap 100 = ret (0x100010, h1)"
    "heap_rel h1 0x100000 ([] @ (112, False) # [(4198256, True)])"
    using HeapAllocator_allocate_correct [OF boot_heap_rel(1) refl, of 100]
    by (auto simp: ALIGN_UP_def DIV_ROUNDUP_def eaddr_simps take_block_def)
  obtain x h2 where h2: "HeapAllocator_allocate h1 40 = ret (x, h2)"
    using HeapAllocator_allocate_correct [OF h1(2) refl, of 40]
    by (auto simp: ALIGN_UP_def DIV_ROUNDUP_def)
  have "x + of_nat 39 \<noteq> eaddr 0x100000 [] + 16 + of_nat 111"
    by (rule allocate_disjoint [OF h1(2) h2 _ refl]) simp_all
  then show ?thesis using h1(1) h2 by (simp add: eaddr_simps)
qed

lemma coalesced_ends:
  assumes "coalesced (p @ (n, True) # q)"
  shows "p = [] \<or> \<not> snd (last p)" "q = [] \<or> \<not> snd (hd q)"
  using assms by (auto simp: coalesced_append coalesced_Cons)

text \<open>C20. Freeing what was just allocated restores the sequence of blocks: splitting and coalescing
  are inverse to each other.\<close>

theorem allocate_free_roundtrip:
  assumes rel: "heap_rel h a bs" and run: "HeapAllocator_allocate h req = ret (x, h1)"
  shows "\<exists>h2. HeapAllocator_free h1 x = ret h2 \<and> heap_rel h2 a bs"
proof -
  let ?sz = "ALIGN_UP req 16"
  obtain p n q where ff: "first_fit ?sz bs = Some (p, n, q)"
    using HeapAllocator_allocate_oom [OF rel, of req] run by (cases "first_fit ?sz bs") auto
  then have x: "x = eaddr a p + 16" and bs: "bs = p @ (n, True) # q"
    and rel1: "heap_rel h1 a (p @ take_block ?sz n @ q)"
    using HeapAllocator_allocate_correct [OF rel refl ff] run first_fit_Some [OF ff] by auto
  have ends: "p = [] \<or> \<not> snd (last p)" "q = [] \<or> \<not> snd (hd q)"
    using coalesced_ends [of p n q] rel by (simp_all add: heap_rel_def bs)
  show ?thesis
  proof (cases "n > ?sz + 16")
    case True
    have "heap_rel h1 a (p @ (?sz, False) # (n - ?sz - 16, True) # q)"
      using rel1 True by (simp add: take_block_def)
    from HeapAllocator_free_correct [OF this refl] show ?thesis
      using ends by (auto simp: x bs join_prev_used)
  next
    case False
    have "heap_rel h1 a (p @ (n, False) # q)" using rel1 False by (simp add: take_block_def)
    from HeapAllocator_free_correct [OF this refl] show ?thesis
      using ends by (auto simp: x bs join_prev_used join_next_used)
  qed
qed

theorem allocate_free_roundtrip_witness:
  "\<exists>h1 h2. HeapAllocator_allocate boot_heap 100 = ret (0x100010, h1) \<and>
     HeapAllocator_free h1 0x100010 = ret h2 \<and> heap_rel h2 0x100000 [(4198384, True)]"
proof -
  obtain h1 where h1: "HeapAllocator_allocate boot_heap 100 = ret (0x100010, h1)"
    using HeapAllocator_allocate_correct [OF boot_heap_rel(1) refl, of 100]
    by (auto simp: ALIGN_UP_def DIV_ROUNDUP_def eaddr_simps)
  from allocate_free_roundtrip [OF boot_heap_rel(1) h1] h1 show ?thesis by blast
qed

end
