(* ===== verification/Bitmap.thy ===== *)
theory Bitmap
  imports Prelude
begin

unbundle bit_operations_syntax

text \<open>
  The \<open>Bitmap\<close> class (src/kernel/src/Data-structures/Bitmap.cpp): a bit array over a byte buffer
  that somebody else owns. A \<open>Bitmap\<close> record holds the size in bytes and the buffer's address; the
  bytes live in the memory that each operation is given. \<open>bit_store\<close> is the contract its
  clients (the node pools, the physical page allocator) rely on, and the class is shown to keep it.
\<close>

section \<open>The class\<close>

record Bitmap =
  m_Size :: u64
  m_Buffer :: ptr

definition Bitmap_empty :: Bitmap where
  "Bitmap_empty = \<lparr>m_Size = 0, m_Buffer = nullptr\<rparr>"

definition Bitmap_make :: "ptr \<Rightarrow> u64 \<Rightarrow> Bitmap" where
  "Bitmap_make buffer sz = \<lparr>m_Size = sz, m_Buffer = buffer\<rparr>"

definition Bitmap_destroy :: "Bitmap \<Rightarrow> Bitmap" where
  "Bitmap_destroy b = b\<lparr>m_Size := 0, m_Buffer := nullptr\<rparr>"

definition bitIndexer :: "u64 \<Rightarrow> u8" where
  "bitIndexer index = (let bitIndex = (ucast (index AND 7) :: u8) in drop_bit (unat bitIndex) 0x80)"

definition Bitmap_get :: "memory \<Rightarrow> Bitmap \<Rightarrow> u64 \<Rightarrow> bool" where
  "Bitmap_get mem b index =
     (let byteIndex = drop_bit 3 index in
      if byteIndex \<ge> m_Size b then False
      else if (mem (m_Buffer b + byteIndex) AND bitIndexer index) > 0 then True
      else False)"

definition Bitmap_Set :: "memory \<Rightarrow> Bitmap \<Rightarrow> u64 \<Rightarrow> bool \<Rightarrow> memory" where
  "Bitmap_Set mem b index value =
     (let byteIndex = drop_bit 3 index in
      if byteIndex \<ge> m_Size b then mem
      else if value
      then mem(m_Buffer b + byteIndex := mem (m_Buffer b + byteIndex) OR bitIndexer index)
      else mem(m_Buffer b + byteIndex := mem (m_Buffer b + byteIndex) AND NOT (bitIndexer index)))"

definition Bitmap_SetSize :: "Bitmap \<Rightarrow> u64 \<Rightarrow> Bitmap" where
  "Bitmap_SetSize b sz = b\<lparr>m_Size := sz\<rparr>"

definition Bitmap_SetBuffer :: "Bitmap \<Rightarrow> ptr \<Rightarrow> Bitmap" where
  "Bitmap_SetBuffer b buffer = b\<lparr>m_Buffer := buffer\<rparr>"

definition Bitmap_GetSize :: "Bitmap \<Rightarrow> u64" where
  "Bitmap_GetSize b = m_Size b"

definition Bitmap_GetBuffer :: "Bitmap \<Rightarrow> ptr" where
  "Bitmap_GetBuffer b = m_Buffer b"

lemma Bitmap_Set_fields [simp]:
  "Bitmap_SetBuffer (Bitmap_SetSize b sz) buffer = \<lparr>m_Size = sz, m_Buffer = buffer\<rparr>"
  "Bitmap_SetSize (Bitmap_SetBuffer b buffer) sz = \<lparr>m_Size = sz, m_Buffer = buffer\<rparr>"
  by (cases b; simp add: Bitmap_SetSize_def Bitmap_SetBuffer_def)+

section \<open>What a bit store promises\<close>

text \<open>
  A client of a bitmap only needs to know what a read returns after a write, and that indices past
  the end read as clear and are never written. \<open>in_range\<close> says which indices the store holds.
\<close>

locale bit_store =
  fixes get :: "'s \<Rightarrow> u64 \<Rightarrow> bool"
    and put :: "'s \<Rightarrow> u64 \<Rightarrow> bool \<Rightarrow> 's"
    and in_range :: "u64 \<Rightarrow> bool"
  assumes get_put: "in_range i \<Longrightarrow> get (put s i v) j \<longleftrightarrow> (if j = i then v else get s j)"
    and get_outside: "\<not> in_range i \<Longrightarrow> \<not> get s i"
    and put_outside: "\<not> in_range i \<Longrightarrow> put s i v = s"
begin

lemma get_put_same: "get (put s i v) i \<longleftrightarrow> in_range i \<and> v"
  by (cases "in_range i") (auto simp: get_put put_outside get_outside)

lemma get_put_other: "j \<noteq> i \<Longrightarrow> get (put s i v) j \<longleftrightarrow> get s j"
  by (cases "in_range i") (auto simp: get_put put_outside)

text \<open>The set bits among the first \<open>n\<close> indices, after setting or clearing one of them.\<close>

lemma used_put_True:
  assumes "in_range (of_nat i)" "i < n" "n \<le> 2 ^ 64"
  shows "{k. k < n \<and> get (put s (of_nat i) True) (of_nat k)} = insert i {k. k < n \<and> get s (of_nat k)}"
proof -
  have "(of_nat k :: u64) = of_nat i \<longleftrightarrow> k = i" if "k < n" for k
    using that assms by (intro of_nat64_inj) simp_all
  then show ?thesis using assms by (auto simp: get_put)
qed

lemma used_put_False:
  assumes "in_range (of_nat i)" "i < n" "n \<le> 2 ^ 64"
  shows "{k. k < n \<and> get (put s (of_nat i) False) (of_nat k)} = {k. k < n \<and> get s (of_nat k)} - {i}"
proof -
  have "(of_nat k :: u64) = of_nat i \<longleftrightarrow> k = i" if "k < n" for k
    using that assms by (intro of_nat64_inj) simp_all
  then show ?thesis using assms by (auto simp: get_put)
qed

end

section \<open>The class keeps the contract\<close>

text \<open>The bit an index names inside its byte, counted down from the byte's top bit.\<close>

definition bitpos :: "u64 \<Rightarrow> nat" where
  "bitpos i = 7 - unat (i AND 7)"

lemma and_7_le: "unat (i AND 7) \<le> 7" for i :: u64
  using word_and_le1 [of i 7] by (simp add: word_le_nat_alt)

lemma bitpos_less: "bitpos i < 8"
  by (simp add: bitpos_def)

lemma unat_ucast_and_7: "unat (ucast (i AND 7) :: u8) = unat (i AND 7)" for i :: u64
  using and_7_le [of i] by (simp add: unsigned_ucast_eq take_bit_nat_eq_self)

lemma bitIndexer_eq: "bitIndexer i = 2 ^ bitpos i"
proof -
  have *: "drop_bit n (0x80 :: u8) = 2 ^ (7 - n)" if "n \<le> 7" for n
  proof -
    from that have "n \<in> {0, 1, 2, 3, 4, 5, 6, 7}" by auto
    then show ?thesis by auto
  qed
  show ?thesis
    unfolding bitIndexer_def Let_def unat_ucast_and_7 bitpos_def by (rule *) (rule and_7_le)
qed

lemma and_single_bit_pos: "0 < w AND 2 ^ n \<longleftrightarrow> bit w n" for w :: u8
proof -
  have "w AND 2 ^ n \<noteq> 0 \<longleftrightarrow> bit w n"
    by (simp add: bit_iff_and_push_bit_not_eq_0)
  then show ?thesis by (simp add: word_gt_0)
qed

lemma Bitmap_get_bit:
  "Bitmap_get mem b i \<longleftrightarrow>
     drop_bit 3 i < m_Size b \<and> bit (mem (m_Buffer b + drop_bit 3 i)) (bitpos i)"
  by (auto simp: Bitmap_get_def Let_def bitIndexer_eq and_single_bit_pos not_le)

lemma Bitmap_Set_byte:
  "drop_bit 3 i < m_Size b \<Longrightarrow>
   Bitmap_Set mem b i v =
     mem(m_Buffer b + drop_bit 3 i :=
       (if v then set_bit (bitpos i) else unset_bit (bitpos i)) (mem (m_Buffer b + drop_bit 3 i)))"
  by (auto simp: Bitmap_Set_def Let_def bitIndexer_eq set_bit_eq_or unset_bit_eq_and_not fun_eq_iff)

lemma same_bit_same_index:
  fixes i j :: u64
  assumes "drop_bit 3 i = drop_bit 3 j" and "bitpos i = bitpos j"
  shows "i = j"
proof -
  have "unat (i AND 7) = unat (j AND 7)"
    using assms(2) and_7_le [of i] and_7_le [of j] by (simp add: bitpos_def)
  then have "i AND 7 = j AND 7" by (simp add: word_unat_eq_iff)
  moreover have "x AND 7 = take_bit 3 x" for x :: u64
    by (simp add: take_bit_eq_mask mask_numeral)
  ultimately show ?thesis using assms(1) by (metis bits_ident)
qed

lemma Bitmap_get_Set:
  assumes "drop_bit 3 i < m_Size b"
  shows "Bitmap_get (Bitmap_Set mem b i v) b j \<longleftrightarrow> (if j = i then v else Bitmap_get mem b j)"
proof (cases "drop_bit 3 j = drop_bit 3 i")
  case True
  then have "bitpos j = bitpos i \<longleftrightarrow> j = i" by (auto dest: same_bit_same_index)
  with True assms bitpos_less [of i] show ?thesis
    by (auto simp: Bitmap_get_bit Bitmap_Set_byte bit_simps)
next
  case False
  with assms show ?thesis by (auto simp: Bitmap_get_bit Bitmap_Set_byte)
qed

text \<open>A bitmap writes nothing outside its buffer.\<close>

lemma Bitmap_Set_frame:
  "(\<And>k. k < m_Size b \<Longrightarrow> a \<noteq> m_Buffer b + k) \<Longrightarrow> Bitmap_Set mem b i v a = mem a"
  by (auto simp: Bitmap_Set_def Let_def not_le)

lemma Bitmap_get_cong:
  "(\<And>k. k < m_Size b \<Longrightarrow> mem (m_Buffer b + k) = mem' (m_Buffer b + k)) \<Longrightarrow>
   Bitmap_get mem b i = Bitmap_get mem' b i"
  by (auto simp: Bitmap_get_bit)

interpretation bitmap: bit_store
  "\<lambda>mem. Bitmap_get mem b" "\<lambda>mem. Bitmap_Set mem b" "\<lambda>i. drop_bit 3 i < m_Size b"
  for b
proof
  show "Bitmap_get (Bitmap_Set mem b i v) b j \<longleftrightarrow> (if j = i then v else Bitmap_get mem b j)"
    if "drop_bit 3 i < m_Size b" for i mem v j
    using that by (rule Bitmap_get_Set)
qed (auto simp: Bitmap_get_def Bitmap_Set_def Let_def not_less)

text \<open>The indices below \<open>n\<close> whose bit is set.\<close>

definition used_slots :: "memory \<Rightarrow> Bitmap \<Rightarrow> nat \<Rightarrow> nat set" where
  "used_slots mem b n = {k. k < n \<and> Bitmap_get mem b (of_nat k)}"

lemmas used_slots_Set_True = bitmap.used_put_True [folded used_slots_def]
lemmas used_slots_Set_False = bitmap.used_put_False [folded used_slots_def]

lemma finite_used_slots [simp]: "finite (used_slots mem b n)"
  by (simp add: used_slots_def)

lemma used_slots_le: "card (used_slots mem b n) \<le> n"
proof -
  have "used_slots mem b n \<subseteq> {..<n}" by (auto simp: used_slots_def)
  then have "card (used_slots mem b n) \<le> card {..<n}" by (rule card_mono [rotated]) simp
  then show ?thesis by simp
qed

lemma unat_byteIndex: "unat (drop_bit 3 (i :: u64)) = unat i div 8"
  by (simp add: unat_drop_bit_eq flip: drop_bit_eq_div) (simp add: drop_bit_eq_div)

lemma slot_in_range: "i < 8 * unat (m_Size b) \<Longrightarrow> drop_bit 3 (of_nat i) < m_Size b"
proof -
  assume i: "i < 8 * unat (m_Size b)"
  have "unat (drop_bit 3 (of_nat i :: u64)) = unat (of_nat i :: u64) div 8"
    by (rule unat_byteIndex)
  also have "\<dots> \<le> i div 8"
    by (simp add: unat_of_nat take_bit_eq_mod div_le_mono)
  also have "\<dots> < unat (m_Size b)" using i by auto
  finally show ?thesis by (simp add: word_less_nat_alt)
qed

end
