(* ===== verification/NodePool.thy ===== *)
theory NodePool
  imports Bitmap Util
begin

unbundle bit_operations_syntax

text \<open>
  The static node pools the kernel allocates from before its heap exists. \<open>AVLTree\<close> and
  \<open>LinkedList\<close> (src/kernel/src/Data-structures) each hold the same pool of 128 nodes, tracked by
  a bitmap; a pool is a record here, and the size of a node is a parameter. The pool of page objects
  (src/kernel/src/Memory/PageObject.cpp) has 64 slots and its own loops.

  \<open>slot_pool\<close> is the contract of such a pool, over the set of addresses it has handed out: an
  allocation returns a fresh slot until the capacity is reached, and then the null pointer; a free
  gives one slot back.
\<close>

section \<open>The pools of AVLTree and LinkedList\<close>

abbreviation POOL_SIZE :: nat where
  "POOL_SIZE \<equiv> 128"

record node_pool =
  nodePool :: ptr
  nodePool_UsedCount :: u64
  nodePool_BitmapData :: ptr
  nodePool_Bitmap :: Bitmap
  nodePoolHasBeenInitialised :: bool
  nodePool_mem :: memory

definition NodePool_Init :: "node_pool \<Rightarrow> node_pool" where
  "NodePool_Init p =
     (let p = p\<lparr>nodePool_UsedCount := 0\<rparr>;
          p = p\<lparr>nodePool_mem := memset (nodePool_mem p) (nodePool_BitmapData p) 0 (of_nat (POOL_SIZE div 8))\<rparr>;
          p = p\<lparr>nodePool_Bitmap := Bitmap_SetSize (nodePool_Bitmap p) (of_nat POOL_SIZE)\<rparr>;
          p = p\<lparr>nodePool_Bitmap := Bitmap_SetBuffer (nodePool_Bitmap p) (nodePool_BitmapData p)\<rparr>
      in p\<lparr>nodePoolHasBeenInitialised := True\<rparr>)"

definition NodePool_Destroy :: "node_pool \<Rightarrow> node_pool" where
  "NodePool_Destroy p =
     p\<lparr>nodePool_Bitmap := Bitmap_destroy (nodePool_Bitmap p), nodePoolHasBeenInitialised := False\<rparr>"

definition node_at :: "u64 \<Rightarrow> node_pool \<Rightarrow> nat \<Rightarrow> ptr" where
  "node_at sizeof p i = nodePool p + of_nat i * sizeof"

definition NodePool_AllocateNode :: "u64 \<Rightarrow> node_pool \<Rightarrow> ptr \<times> node_pool" where
  "NodePool_AllocateNode sizeof p =
     (if nodePool_UsedCount p = of_nat (POOL_SIZE - 1) then (nullptr, p)
      else case find (\<lambda>i. \<not> Bitmap_get (nodePool_mem p) (nodePool_Bitmap p) (of_nat i)) [0..<POOL_SIZE] of
        Some i \<Rightarrow>
          (node_at sizeof p i,
           p\<lparr>nodePool_mem := Bitmap_Set (nodePool_mem p) (nodePool_Bitmap p) (of_nat i) True,
             nodePool_UsedCount := nodePool_UsedCount p + 1\<rparr>)
      | None \<Rightarrow> (nullptr, p))"

definition NodePool_FreeNode :: "u64 \<Rightarrow> node_pool \<Rightarrow> ptr \<Rightarrow> bool \<times> node_pool" where
  "NodePool_FreeNode sizeof p node =
     (case find (\<lambda>i. node = node_at sizeof p i) [0..<POOL_SIZE] of
        Some i \<Rightarrow>
          (True,
           p\<lparr>nodePool_mem := Bitmap_Set (nodePool_mem p) (nodePool_Bitmap p) (of_nat i) False,
             nodePool_UsedCount := nodePool_UsedCount p - 1\<rparr>)
      | None \<Rightarrow> (False, p))"

definition NodePool_HasBeenInitialised :: "node_pool \<Rightarrow> bool" where
  "NodePool_HasBeenInitialised p = nodePoolHasBeenInitialised p"

definition NodePool_IsInPool :: "u64 \<Rightarrow> node_pool \<Rightarrow> ptr \<Rightarrow> bool" where
  "NodePool_IsInPool sizeof p obj \<longleftrightarrow>
     obj \<ge> nodePool p \<and> obj < nodePool p + of_nat POOL_SIZE * sizeof"

section \<open>What a slot pool promises\<close>

locale slot_pool =
  fixes alloc :: "'p \<Rightarrow> ptr \<times> 'p"
    and free :: "'p \<Rightarrow> ptr \<Rightarrow> 'p"
    and live :: "'p \<Rightarrow> ptr set"
    and inv :: "'p \<Rightarrow> bool"
    and capacity :: nat
  assumes finite_live: "inv p \<Longrightarrow> finite (live p)"
    and live_le: "inv p \<Longrightarrow> card (live p) \<le> capacity"
    and alloc_full: "inv p \<Longrightarrow> card (live p) = capacity \<Longrightarrow> alloc p = (nullptr, p)"
    and alloc_fresh: "inv p \<Longrightarrow> card (live p) < capacity \<Longrightarrow> alloc p = (a, q) \<Longrightarrow>
          a \<noteq> nullptr \<and> a \<notin> live p \<and> live q = insert a (live p) \<and> inv q"
    and free_live: "inv p \<Longrightarrow> a \<in> live p \<Longrightarrow> inv (free p a) \<and> live (free p a) = live p - {a}"
begin

lemma alloc_inv: "inv p \<Longrightarrow> inv (snd (alloc p))"
proof (cases "card (live p) < capacity")
  case True
  then show "inv p \<Longrightarrow> inv (snd (alloc p))"
    using alloc_fresh [of p "fst (alloc p)" "snd (alloc p)"] by simp
next
  case False
  then show "inv p \<Longrightarrow> inv (snd (alloc p))"
    using alloc_full [of p] live_le [of p] by simp
qed

lemma alloc_null_iff: "inv p \<Longrightarrow> fst (alloc p) = nullptr \<longleftrightarrow> card (live p) = capacity"
  using alloc_fresh [of p "fst (alloc p)" "snd (alloc p)"] alloc_full [of p] live_le [of p]
  by (cases "card (live p) < capacity") auto

lemma alloc_free:
  assumes "inv p" "alloc p = (a, q)" "a \<noteq> nullptr"
  shows "inv (free q a) \<and> live (free q a) = live p"
proof -
  from assms have "card (live p) < capacity"
    using alloc_null_iff [of p] live_le [of p] by (simp add: le_less)
  with assms have "a \<notin> live p" "live q = insert a (live p)" "inv q"
    using alloc_fresh by blast+
  then show ?thesis using free_live [of q a] by auto
qed

text \<open>\<open>n\<close> allocations in a row.\<close>

primrec alloc_many :: "nat \<Rightarrow> 'p \<Rightarrow> ptr list \<times> 'p" where
  "alloc_many 0 p = ([], p)"
| "alloc_many (Suc n) p = (let (a, q) = alloc p; (as, r) = alloc_many n q in (a # as, r))"

lemma alloc_many_distinct:
  assumes "inv p" "card (live p) + n \<le> capacity" "alloc_many n p = (as, q)"
  shows "inv q \<and> distinct as \<and> nullptr \<notin> set as \<and> set as \<inter> live p = {} \<and> live q = live p \<union> set as"
  using assms
proof (induction n arbitrary: p as)
  case 0
  then show ?case by simp
next
  case (Suc n)
  obtain a p' where a: "alloc p = (a, p')" by (cases "alloc p")
  obtain as' where as: "alloc_many n p' = (as', q)" "as = a # as'"
    using Suc.prems(3) a by (auto split: prod.splits)
  have fresh: "a \<noteq> nullptr" "a \<notin> live p" "live p' = insert a (live p)" "inv p'"
    using alloc_fresh [OF Suc.prems(1) _ a] Suc.prems(2) by auto
  then have "card (live p') + n \<le> capacity"
    using Suc.prems(2) finite_live [OF Suc.prems(1)] by simp
  from Suc.IH [OF fresh(4) this as(1)] show ?case using fresh as(2) by auto
qed

end

section \<open>The 128-slot pools keep the contract\<close>

definition pool_used :: "node_pool \<Rightarrow> nat set" where
  "pool_used p = used_slots (nodePool_mem p) (nodePool_Bitmap p) POOL_SIZE"

definition pool_live :: "u64 \<Rightarrow> node_pool \<Rightarrow> ptr set" where
  "pool_live sizeof p = node_at sizeof p ` pool_used p"

text \<open>
  A pool in working order: initialised, its nodes at non-null addresses that do not wrap, and the
  used count equal to the number of set bits. One slot is always left unused, because the code gives
  up when the count reaches 127.
\<close>

definition pool_inv :: "u64 \<Rightarrow> node_pool \<Rightarrow> bool" where
  "pool_inv sizeof p \<longleftrightarrow>
     nodePoolHasBeenInitialised p \<and>
     nodePool_Bitmap p = \<lparr>m_Size = of_nat POOL_SIZE, m_Buffer = nodePool_BitmapData p\<rparr> \<and>
     nodePool p \<noteq> nullptr \<and> sizeof \<noteq> 0 \<and> unat (nodePool p) + POOL_SIZE * unat sizeof < 2 ^ 64 \<and>
     nodePool_UsedCount p = of_nat (card (pool_used p)) \<and> card (pool_used p) \<le> POOL_SIZE - 1"

lemma unat_node_at:
  assumes "pool_inv sizeof p" "i < POOL_SIZE"
  shows "unat (node_at sizeof p i) = unat (nodePool p) + i * unat sizeof"
proof -
  have "unat (nodePool p) + i * unat sizeof \<le> unat (nodePool p) + POOL_SIZE * unat sizeof"
    using assms(2) by simp
  also have "\<dots> < 2 ^ 64" using assms(1) by (simp add: pool_inv_def)
  finally have *: "unat (nodePool p) + i * unat sizeof < 2 ^ 64" .
  have i: "unat (of_nat i :: u64) = i" using assms(2) by (intro unat_of_nat64) simp
  from * i have "unat (of_nat i * sizeof) = i * unat sizeof"
    by (subst unat_mult64) simp_all
  with * show ?thesis unfolding node_at_def by (subst unat_add64) simp_all
qed

lemma node_at_inj: "pool_inv sizeof p \<Longrightarrow> inj_on (node_at sizeof p) {..<POOL_SIZE}"
proof (rule inj_onI)
  fix i j assume inv: "pool_inv sizeof p" and ij: "i \<in> {..<POOL_SIZE}" "j \<in> {..<POOL_SIZE}"
    and eq: "node_at sizeof p i = node_at sizeof p j"
  have "unat (nodePool p) + i * unat sizeof = unat (nodePool p) + j * unat sizeof"
    using unat_node_at [OF inv, of i] unat_node_at [OF inv, of j] ij eq by auto
  moreover have "unat sizeof \<noteq> 0" using inv by (simp add: pool_inv_def unat_eq_0)
  ultimately show "i = j" by simp
qed

lemma node_at_nonnull: "pool_inv sizeof p \<Longrightarrow> i < POOL_SIZE \<Longrightarrow> node_at sizeof p i \<noteq> nullptr"
  using unat_node_at [of sizeof p i] by (auto simp: pool_inv_def unat_eq_0)

lemma pool_used_subset: "pool_used p \<subseteq> {..<POOL_SIZE}"
  by (auto simp: pool_used_def used_slots_def)

lemma card_pool_live: "pool_inv sizeof p \<Longrightarrow> card (pool_live sizeof p) = card (pool_used p)"
  unfolding pool_live_def by (intro card_image inj_on_subset [OF node_at_inj pool_used_subset])

lemma pool_in_range: "pool_inv sizeof p \<Longrightarrow> i < POOL_SIZE \<Longrightarrow> drop_bit 3 (of_nat i) < m_Size (nodePool_Bitmap p)"
  by (rule slot_in_range) (simp add: pool_inv_def)

text \<open>What one allocation and one free do to the used slots.\<close>

lemma pool_inv_update:
  assumes "pool_inv sizeof p" "U = used_slots m (nodePool_Bitmap p) POOL_SIZE" "card U \<le> POOL_SIZE - 1"
  shows "pool_inv sizeof (p\<lparr>nodePool_mem := m, nodePool_UsedCount := of_nat (card U)\<rparr>)"
  using assms by (simp add: pool_inv_def pool_used_def)

lemma NodePool_AllocateNode_cases:
  assumes inv: "pool_inv sizeof p" and lt: "card (pool_used p) < POOL_SIZE - 1"
  obtains i where "i < POOL_SIZE" "i \<notin> pool_used p" "\<forall>j<i. j \<in> pool_used p"
    "NodePool_AllocateNode sizeof p =
       (node_at sizeof p i,
        p\<lparr>nodePool_mem := Bitmap_Set (nodePool_mem p) (nodePool_Bitmap p) (of_nat i) True,
          nodePool_UsedCount := nodePool_UsedCount p + 1\<rparr>)"
proof -
  let ?free = "\<lambda>i. \<not> Bitmap_get (nodePool_mem p) (nodePool_Bitmap p) (of_nat i)"
  have n: "nodePool_UsedCount p \<noteq> of_nat (POOL_SIZE - 1)"
    using inv lt by (subst word_unat_eq_iff) (simp add: pool_inv_def unat_of_nat64)
  have "find ?free [0..<POOL_SIZE] \<noteq> None"
  proof
    assume "find ?free [0..<POOL_SIZE] = None"
    then have "pool_used p = {..<POOL_SIZE}"
      by (auto simp: find_None_iff pool_used_def used_slots_def)
    with lt show False by simp
  qed
  then obtain i where i: "find ?free [0..<POOL_SIZE] = Some i" by blast
  then have "i < POOL_SIZE \<and> ?free i \<and> (\<forall>j<i. \<not> ?free j)"
    by (auto simp: find_Some_iff)
  then show thesis using n i
    by (intro that [of i]) (simp_all add: NodePool_AllocateNode_def pool_used_def used_slots_def)
qed

lemma NodePool_FreeNode_slot:
  assumes inv: "pool_inv sizeof p" and i: "i < POOL_SIZE"
  shows "NodePool_FreeNode sizeof p (node_at sizeof p i) =
      (True, p\<lparr>nodePool_mem := Bitmap_Set (nodePool_mem p) (nodePool_Bitmap p) (of_nat i) False,
               nodePool_UsedCount := nodePool_UsedCount p - 1\<rparr>)"
proof -
  have "find (\<lambda>k. node_at sizeof p i = node_at sizeof p k) [0..<POOL_SIZE] = Some i"
    unfolding find_Some_iff using i inj_onD [OF node_at_inj [OF inv], of i]
    by (intro exI [of _ i]) fastforce
  then show ?thesis by (simp add: NodePool_FreeNode_def)
qed

lemma NodePool_AllocateNode_fresh:
  assumes inv: "pool_inv sizeof p" and lt: "card (pool_used p) < POOL_SIZE - 1"
    and eq: "NodePool_AllocateNode sizeof p = (a, q)"
  shows "a \<noteq> nullptr \<and> a \<notin> pool_live sizeof p \<and>
      pool_live sizeof q = insert a (pool_live sizeof p) \<and> pool_inv sizeof q"
proof -
  obtain i where i: "i < POOL_SIZE" "i \<notin> pool_used p"
    and a: "a = node_at sizeof p i"
    and q: "q = p\<lparr>nodePool_mem := Bitmap_Set (nodePool_mem p) (nodePool_Bitmap p) (of_nat i) True,
          nodePool_UsedCount := nodePool_UsedCount p + 1\<rparr>"
    using NodePool_AllocateNode_cases [OF inv lt] eq by auto
  have used: "pool_used q = insert i (pool_used p)"
    unfolding q pool_used_def using used_slots_Set_True [of i] pool_in_range [OF inv i(1)] i(1) by simp
  have fin: "finite (pool_used p)" by (simp add: pool_used_def)
  have "pool_inv sizeof q"
    using inv lt i(2) fin used by (simp add: pool_inv_def) (simp add: q)
  moreover have "a \<notin> pool_live sizeof p"
    using i node_at_inj [OF inv] pool_used_subset [of p]
    by (auto simp: a pool_live_def inj_on_def)
  moreover have "node_at sizeof q = node_at sizeof p" by (rule ext) (simp add: node_at_def q)
  ultimately show ?thesis
    using node_at_nonnull [OF inv i(1)] by (simp add: pool_live_def used a)
qed

lemma NodePool_FreeNode_live:
  assumes inv: "pool_inv sizeof p" and "a \<in> pool_live sizeof p"
    and eq: "q = snd (NodePool_FreeNode sizeof p a)"
  shows "pool_inv sizeof q \<and> pool_live sizeof q = pool_live sizeof p - {a}"
proof -
  from assms(2) obtain i where i: "i \<in> pool_used p" and a: "a = node_at sizeof p i"
    by (auto simp: pool_live_def)
  have lt: "i < POOL_SIZE" using i pool_used_subset by blast
  have q: "q = p\<lparr>nodePool_mem := Bitmap_Set (nodePool_mem p) (nodePool_Bitmap p) (of_nat i) False,
               nodePool_UsedCount := nodePool_UsedCount p - 1\<rparr>"
    by (simp add: eq a NodePool_FreeNode_slot [OF inv lt])
  have used: "pool_used q = pool_used p - {i}"
    unfolding q pool_used_def using used_slots_Set_False [of i] pool_in_range [OF inv lt] lt by simp
  have "card (pool_used p) > 0" using i by (auto simp: card_gt_0_iff pool_used_def)
  then have "pool_inv sizeof q"
    using inv i used by (simp add: pool_inv_def of_nat_diff) (simp add: q le_diff_conv)
  moreover have "node_at sizeof q = node_at sizeof p" by (rule ext) (simp add: node_at_def q)
  moreover have "node_at sizeof p ` (pool_used p - {i}) = node_at sizeof p ` pool_used p - {a}"
    using i lt node_at_inj [OF inv] pool_used_subset [of p] by (auto simp: a inj_on_def)
  ultimately show ?thesis by (simp add: pool_live_def used)
qed

text \<open>The pool of AVL tree nodes (40 bytes each) and of linked list nodes (24 bytes each).\<close>

interpretation node_pool: slot_pool "NodePool_AllocateNode sizeof"
  "\<lambda>p a. snd (NodePool_FreeNode sizeof p a)" "pool_live sizeof" "pool_inv sizeof" "POOL_SIZE - 1"
  for sizeof
proof
  fix p :: node_pool assume inv: "pool_inv sizeof p"
  show "finite (pool_live sizeof p)"
    by (simp add: pool_live_def pool_used_def)
  show "card (pool_live sizeof p) \<le> POOL_SIZE - 1"
    using inv by (simp add: card_pool_live) (simp add: pool_inv_def)
  show "NodePool_AllocateNode sizeof p = (nullptr, p)" if "card (pool_live sizeof p) = POOL_SIZE - 1"
    using that inv by (simp add: card_pool_live) (simp add: pool_inv_def NodePool_AllocateNode_def)
  show "a \<noteq> nullptr \<and> a \<notin> pool_live sizeof p \<and> pool_live sizeof q = insert a (pool_live sizeof p) \<and> pool_inv sizeof q"
    if "card (pool_live sizeof p) < POOL_SIZE - 1" "NodePool_AllocateNode sizeof p = (a, q)" for a q
    using that inv by (intro NodePool_AllocateNode_fresh) (simp_all add: card_pool_live)
  show "pool_inv sizeof (snd (NodePool_FreeNode sizeof p a)) \<and>
      pool_live sizeof (snd (NodePool_FreeNode sizeof p a)) = pool_live sizeof p - {a}"
    if "a \<in> pool_live sizeof p" for a
    using that inv by (intro NodePool_FreeNode_live refl)
qed

text \<open>A freshly initialised pool is empty and in working order.\<close>

lemma NodePool_Init_used: "pool_used (NodePool_Init p) = {}"
proof -
  have "\<not> Bitmap_get (memset m a 0 16) \<lparr>m_Size = 128, m_Buffer = a\<rparr> (of_nat k)" if "k < POOL_SIZE" for m a k
  proof -
    have "unat (drop_bit 3 (of_nat k :: u64)) = k div 8"
      using that by (simp add: unat_byteIndex unat_of_nat64 del: of_nat_numeral)
    then have "unat (drop_bit 3 (of_nat k :: u64)) < 16" using that by linarith
    then show ?thesis
      by (simp add: Bitmap_get_def memset_apply word_less_nat_alt)
  qed
  then show ?thesis
    by (simp add: NodePool_Init_def Let_def pool_used_def used_slots_def)
qed

lemma NodePool_Init_inv:
  assumes "nodePool p \<noteq> nullptr" "sizeof \<noteq> 0" "unat (nodePool p) + POOL_SIZE * unat sizeof < 2 ^ 64"
  shows "pool_inv sizeof (NodePool_Init p)" "pool_live sizeof (NodePool_Init p) = {}"
proof -
  show "pool_live sizeof (NodePool_Init p) = {}"
    by (simp add: pool_live_def NodePool_Init_used)
  have "nodePool_Bitmap (NodePool_Init p) =
      \<lparr>m_Size = of_nat POOL_SIZE, m_Buffer = nodePool_BitmapData (NodePool_Init p)\<rparr>"
    by (simp add: NodePool_Init_def Let_def)
  moreover have "nodePool (NodePool_Init p) = nodePool p" "nodePool_UsedCount (NodePool_Init p) = 0"
    "nodePoolHasBeenInitialised (NodePool_Init p)"
    by (simp_all add: NodePool_Init_def Let_def)
  ultimately show "pool_inv sizeof (NodePool_Init p)"
    using assms by (simp add: pool_inv_def NodePool_Init_used)
qed

end
