(* ===== verification/LinkedList.thy ===== *)
theory LinkedList
  imports NodePool HeapOps
begin

text \<open>
  The doubly linked list of src/kernel/src/Data-structures/LinkedList.cpp and the two classes of
  LinkedList.hpp built on it. Nodes live in an explicit store from addresses to nodes, and a freed
  node leaves the store, so following a stale pointer is a fault of the model. Loops that follow
  \<open>next\<close> pointers are partial functions: on a cyclic list they never return.

  The proofs about these definitions are in LinkedListCorrect.
\<close>

section \<open>Nodes and the store\<close>

record Node =
  previous :: ptr
  data :: u64
  "next" :: ptr

type_synonym node_store = "ptr \<rightharpoonup> Node"

definition Node_eq :: "Node \<Rightarrow> Node \<Rightarrow> bool" where
  "Node_eq left right \<longleftrightarrow> data left = data right \<and> next left = next right \<and> previous left = previous right"

definition node_get :: "node_store \<Rightarrow> ptr \<Rightarrow> Node prog" where
  "node_get m p =
     (if p = nullptr then stop NullDeref
      else case m p of None \<Rightarrow> stop (Dangling p) | Some n \<Rightarrow> ret n)"

definition node_update :: "node_store \<Rightarrow> ptr \<Rightarrow> (Node \<Rightarrow> Node) \<Rightarrow> node_store prog" where
  "node_update m p f = bindP (node_get m p) (\<lambda>n. ret (m(p \<mapsto> f n)))"

abbreviation set_next :: "node_store \<Rightarrow> ptr \<Rightarrow> ptr \<Rightarrow> node_store prog" where
  "set_next m p q \<equiv> node_update m p (\<lambda>n. n\<lparr>next := q\<rparr>)"

abbreviation set_previous :: "node_store \<Rightarrow> ptr \<Rightarrow> ptr \<Rightarrow> node_store prog" where
  "set_previous m p q \<equiv> node_update m p (\<lambda>n. n\<lparr>previous := q\<rparr>)"

record 'h list_state =
  ll_nodes :: node_store
  ll_pool :: node_pool
  ll_heap :: 'h

abbreviation sizeof_Node :: u64 where
  "sizeof_Node \<equiv> 24"

definition LL_NodePool_Init :: "'h list_state \<Rightarrow> 'h list_state" where
  "LL_NodePool_Init s = s\<lparr>ll_pool := NodePool_Init (ll_pool s)\<rparr>"

definition LL_NodePool_Destroy :: "'h list_state \<Rightarrow> 'h list_state" where
  "LL_NodePool_Destroy s = s\<lparr>ll_pool := NodePool_Destroy (ll_pool s)\<rparr>"

definition LL_NodePool_AllocateNode :: "'h list_state \<Rightarrow> ptr \<times> 'h list_state" where
  "LL_NodePool_AllocateNode s =
     (let (node, p) = NodePool_AllocateNode sizeof_Node (ll_pool s) in (node, s\<lparr>ll_pool := p\<rparr>))"

definition LL_NodePool_FreeNode :: "'h list_state \<Rightarrow> ptr \<Rightarrow> bool \<times> 'h list_state" where
  "LL_NodePool_FreeNode s node =
     (let (ok, p) = NodePool_FreeNode sizeof_Node (ll_pool s) node in
      (ok, s\<lparr>ll_pool := p, ll_nodes := (if ok then (ll_nodes s)(node := None) else ll_nodes s)\<rparr>))"

definition LL_NodePool_HasBeenInitialised :: "'h list_state \<Rightarrow> bool" where
  "LL_NodePool_HasBeenInitialised s = NodePool_HasBeenInitialised (ll_pool s)"

definition LL_NodePool_IsInPool :: "'h list_state \<Rightarrow> ptr \<Rightarrow> bool" where
  "LL_NodePool_IsInPool s obj = NodePool_IsInPool sizeof_Node (ll_pool s) obj"

section \<open>The functions of LinkedList.cpp\<close>

partial_function (option) length_loop :: "node_store \<Rightarrow> ptr \<Rightarrow> u64 \<Rightarrow> u64 prog" where
  "length_loop m current count =
     bindP (node_get m current) (\<lambda>n.
       let count = count + 1 in
       if next n = nullptr then ret count else length_loop m (next n) count)"

definition length_ll :: "node_store \<Rightarrow> ptr \<Rightarrow> u64 prog" where
  "length_ll m head = (if head = nullptr then ret 0 else length_loop m head 0)"

definition newNode :: "'h heap_ops \<Rightarrow> 'h list_state \<Rightarrow> u64 \<Rightarrow> bool \<Rightarrow> (ptr \<times> 'h list_state) prog" where
  "newNode A s d eternal =
     bindP
       (if eternal then
          bindP (kcalloc_eternal_op A 1 sizeof_Node (ll_heap s)) (\<lambda>(node, h). ret (node, s\<lparr>ll_heap := h\<rparr>))
        else if new_initialised A (ll_heap s) then
          bindP (op_new A sizeof_Node (ll_heap s)) (\<lambda>(node, h). ret (node, s\<lparr>ll_heap := h\<rparr>))
        else ret (LL_NodePool_AllocateNode s))
       (\<lambda>(node, s).
          if node = nullptr then ret (nullptr, s)
          else ret (node, s\<lparr>ll_nodes := (ll_nodes s)(node \<mapsto> \<lparr>previous = nullptr, data = d, next = nullptr\<rparr>)\<rparr>))"

partial_function (option) last_loop :: "node_store \<Rightarrow> ptr \<Rightarrow> ptr prog" where
  "last_loop m current =
     bindP (node_get m current) (\<lambda>n.
       if next n = nullptr then ret current else last_loop m (next n))"

text \<open>The head is a reference parameter: the operations return its new value first.\<close>

definition insertNode :: "'h heap_ops \<Rightarrow> 'h list_state \<Rightarrow> ptr \<Rightarrow> u64 \<Rightarrow> bool \<Rightarrow> (ptr \<times> 'h list_state) prog" where
  "insertNode A s head d eternal =
     (if head = nullptr then newNode A s d eternal
      else bindP (last_loop (ll_nodes s) head) (\<lambda>current.
        bindP (newNode A s d eternal) (\<lambda>(node, s).
        bindP (set_next (ll_nodes s) current node) (\<lambda>m.
        bindP (set_previous m node current) (\<lambda>m.
        ret (head, s\<lparr>ll_nodes := m\<rparr>))))))"

partial_function (option) findNode :: "node_store \<Rightarrow> ptr \<Rightarrow> u64 \<Rightarrow> ptr prog" where
  "findNode m current d =
     (if current = nullptr then ret nullptr
      else bindP (node_get m current) (\<lambda>n.
        if data n = d then ret current else findNode m (next n) d))"

text \<open>The end of both \<open>deleteNode\<close> overloads: a node goes back to the pool or to the heap, or is
  left alone when it is in neither.\<close>

definition releaseNode :: "'h heap_ops \<Rightarrow> 'h list_state \<Rightarrow> ptr \<Rightarrow> 'h list_state prog" where
  "releaseNode A s node =
     (if LL_NodePool_IsInPool s node then ret (snd (LL_NodePool_FreeNode s node))
      else if new_initialised A (ll_heap s) then
        bindP (op_delete A node (ll_heap s)) (\<lambda>h.
        ret (s\<lparr>ll_heap := h, ll_nodes := (ll_nodes s)(node := None)\<rparr>))
      else ret s)"

partial_function (option) delete_search :: "node_store \<Rightarrow> ptr \<Rightarrow> u64 \<Rightarrow> ptr option prog" where
  "delete_search m temp d =
     bindP (node_get m temp) (\<lambda>n.
       if data n = d then ret (Some temp)
       else if next n = nullptr then ret None
       else delete_search m (next n) d)"

definition unlinkNode :: "node_store \<Rightarrow> ptr \<Rightarrow> node_store prog" where
  "unlinkNode m temp =
     bindP (node_get m temp) (\<lambda>n.
     bindP (if next n \<noteq> nullptr then set_previous m (next n) (previous n) else ret m) (\<lambda>m.
     bindP (node_get m temp) (\<lambda>n.
     if previous n \<noteq> nullptr then set_next m (previous n) (next n) else ret m)))"

definition deleteNode :: "'h heap_ops \<Rightarrow> 'h list_state \<Rightarrow> ptr \<Rightarrow> u64 \<Rightarrow> (ptr \<times> 'h list_state) prog" where
  "deleteNode A s head d =
     bindP (if head \<noteq> nullptr then bindP (node_get (ll_nodes s) head) (\<lambda>n. ret (data n = d)) else ret False)
     (\<lambda>at_head.
        if at_head then
          bindP (node_get (ll_nodes s) head) (\<lambda>temp.
          let head' = next temp in
          bindP (if head' \<noteq> nullptr then
                   bindP (set_previous (ll_nodes s) head' nullptr) (\<lambda>m.
                   bindP (node_get m head') (\<lambda>hd.
                   if next hd \<noteq> nullptr then set_previous m (next hd) head' else ret m))
                 else ret (ll_nodes s)) (\<lambda>m.
          bindP (releaseNode A (s\<lparr>ll_nodes := m\<rparr>) head) (\<lambda>s.
          ret (head', s))))
        else
          bindP (delete_search (ll_nodes s) head d) (\<lambda>found.
          case found of
            None \<Rightarrow> ret (head, s)
          | Some temp \<Rightarrow>
              bindP (unlinkNode (ll_nodes s) temp) (\<lambda>m.
              bindP (releaseNode A (s\<lparr>ll_nodes := m\<rparr>) temp) (\<lambda>s.
              ret (head, s)))))"

definition deleteNode_node :: "'h heap_ops \<Rightarrow> 'h list_state \<Rightarrow> ptr \<Rightarrow> ptr \<Rightarrow> (ptr \<times> 'h list_state) prog" where
  "deleteNode_node A s head node =
     (if node = nullptr \<or> head = nullptr then ret (head, s)
      else bindP (unlinkNode (ll_nodes s) node) (\<lambda>m.
        bindP (if head = node then bindP (node_get m node) (\<lambda>n. ret (next n)) else ret head) (\<lambda>head.
        bindP (releaseNode A (s\<lparr>ll_nodes := m\<rparr>) node) (\<lambda>s.
        ret (head, s)))))"

section \<open>SimpleLinkedList\<close>

text \<open>
  The elements are pointers, kept as the data of the nodes. \<open>insert\<close> compares against the address of
  its own parameter, which is therefore an argument here.
\<close>

record SimpleLinkedList =
  sl_count :: u64
  sl_start :: ptr
  sl_eternal :: bool

definition SimpleLinkedList_make :: "bool \<Rightarrow> SimpleLinkedList" where
  "SimpleLinkedList_make eternal = \<lparr>sl_count = 0, sl_start = nullptr, sl_eternal = eternal\<rparr>"

definition SimpleLinkedList_insert ::
  "'h heap_ops \<Rightarrow> ptr \<Rightarrow> SimpleLinkedList \<Rightarrow> 'h list_state \<Rightarrow> ptr \<Rightarrow> (SimpleLinkedList \<times> 'h list_state) prog" where
  "SimpleLinkedList_insert A addr_obj l s obj =
     bindP (findNode (ll_nodes s) (sl_start l) addr_obj) (\<lambda>found.
       if found \<noteq> nullptr then ret (l, s)
       else bindP (insertNode A s (sl_start l) obj (sl_eternal l)) (\<lambda>(start, s).
         ret (l\<lparr>sl_start := start, sl_count := sl_count l + 1\<rparr>, s)))"

primrec get_loop :: "nat \<Rightarrow> node_store \<Rightarrow> ptr \<Rightarrow> ptr prog" where
  "get_loop 0 m temp = ret temp"
| "get_loop (Suc i) m temp =
     (if temp = nullptr then ret nullptr
      else bindP (node_get m temp) (\<lambda>n. get_loop i m (next n)))"

definition SimpleLinkedList_get :: "SimpleLinkedList \<Rightarrow> node_store \<Rightarrow> u64 \<Rightarrow> ptr prog" where
  "SimpleLinkedList_get l m index =
     (if index \<ge> sl_count l then ret nullptr
      else bindP (get_loop (unat index) m (sl_start l)) (\<lambda>temp.
        if temp = nullptr then ret nullptr
        else bindP (node_get m temp) (\<lambda>n. ret (data n))))"

primrec getIndex_loop :: "nat \<Rightarrow> u64 \<Rightarrow> node_store \<Rightarrow> ptr \<Rightarrow> ptr \<Rightarrow> u64 prog" where
  "getIndex_loop 0 i m obj temp = ret UINT64_MAX"
| "getIndex_loop (Suc k) i m obj temp =
     (if temp = nullptr then ret UINT64_MAX
      else bindP (node_get m temp) (\<lambda>n.
        if data n = obj then ret i else getIndex_loop k (i + 1) m obj (next n)))"

definition SimpleLinkedList_getIndex :: "SimpleLinkedList \<Rightarrow> node_store \<Rightarrow> ptr \<Rightarrow> u64 prog" where
  "SimpleLinkedList_getIndex l m obj = getIndex_loop (unat (sl_count l)) 0 m obj (sl_start l)"

definition SimpleLinkedList_remove_index ::
  "'h heap_ops \<Rightarrow> SimpleLinkedList \<Rightarrow> 'h list_state \<Rightarrow> u64 \<Rightarrow> (SimpleLinkedList \<times> 'h list_state) prog" where
  "SimpleLinkedList_remove_index A l s index =
     (if sl_eternal l then stop (Panic ''Eternal SimpleLinkedList node was deleted!'')
      else
        bindP (SimpleLinkedList_get l (ll_nodes s) index) (\<lambda>obj.
        bindP (deleteNode A s (sl_start l) obj) (\<lambda>(start, s).
        ret (l\<lparr>sl_start := start, sl_count := sl_count l - 1\<rparr>, s))))"

definition SimpleLinkedList_remove ::
  "'h heap_ops \<Rightarrow> SimpleLinkedList \<Rightarrow> 'h list_state \<Rightarrow> ptr \<Rightarrow> (SimpleLinkedList \<times> 'h list_state) prog" where
  "SimpleLinkedList_remove A l s obj =
     (if sl_eternal l then stop (Panic ''Eternal SimpleLinkedList node was deleted!'')
      else
        bindP (deleteNode A s (sl_start l) obj) (\<lambda>(start, s).
        ret (l\<lparr>sl_start := start, sl_count := sl_count l - 1\<rparr>, s)))"

partial_function (option) SimpleLinkedList_destroy_loop ::
  "'h heap_ops \<Rightarrow> u64 \<Rightarrow> SimpleLinkedList \<Rightarrow> 'h list_state \<Rightarrow> (SimpleLinkedList \<times> 'h list_state) prog" where
  "SimpleLinkedList_destroy_loop A i l s =
     (if i < sl_count l then
        bindP (SimpleLinkedList_remove_index A l s i) (\<lambda>r.
        SimpleLinkedList_destroy_loop A (i + 1) (fst r) (snd r))
      else ret (l, s))"

definition SimpleLinkedList_destroy ::
  "'h heap_ops \<Rightarrow> SimpleLinkedList \<Rightarrow> 'h list_state \<Rightarrow> (SimpleLinkedList \<times> 'h list_state) prog" where
  "SimpleLinkedList_destroy A l s =
     (if sl_eternal l then stop (Panic ''Eternal SimpleLinkedList was deleted!'')
      else SimpleLinkedList_destroy_loop A 0 l s)"

definition SimpleLinkedList_rotateLeft :: "SimpleLinkedList \<Rightarrow> node_store \<Rightarrow> (SimpleLinkedList \<times> node_store) prog" where
  "SimpleLinkedList_rotateLeft l m =
     (if sl_count l < 2 then ret (l, m)
      else if sl_start l = nullptr then stop (AssertFailed ''end != nullptr'')
      else
        bindP (last_loop m (sl_start l)) (\<lambda>end.
        bindP (set_next m end (sl_start l)) (\<lambda>m.
        bindP (set_previous m (sl_start l) end) (\<lambda>m.
        bindP (node_get m (sl_start l)) (\<lambda>n.
        let l = l\<lparr>sl_start := next n\<rparr> in
        bindP (set_previous m (sl_start l) nullptr) (\<lambda>m.
        bindP (node_get m end) (\<lambda>e.
        bindP (set_next m (next e) nullptr) (\<lambda>m.
        ret (l, m)))))))))"

definition SimpleLinkedList_rotateRight :: "SimpleLinkedList \<Rightarrow> node_store \<Rightarrow> (SimpleLinkedList \<times> node_store) prog" where
  "SimpleLinkedList_rotateRight l m =
     (if sl_count l < 2 then ret (l, m)
      else if sl_start l = nullptr then stop (AssertFailed ''end != nullptr'')
      else
        bindP (last_loop m (sl_start l)) (\<lambda>end.
        bindP (set_previous m (sl_start l) end) (\<lambda>m.
        bindP (set_next m end (sl_start l)) (\<lambda>m.
        bindP (set_previous m end nullptr) (\<lambda>m.
        ret (l\<lparr>sl_start := end\<rparr>, m))))))"

definition SimpleLinkedList_getHead :: "SimpleLinkedList \<Rightarrow> node_store \<Rightarrow> ptr prog" where
  "SimpleLinkedList_getHead l m =
     (if sl_start l = nullptr then ret nullptr
      else bindP (node_get m (sl_start l)) (\<lambda>n. ret (data n)))"

definition SimpleLinkedList_getCount :: "SimpleLinkedList \<Rightarrow> u64" where
  "SimpleLinkedList_getCount l = sl_count l"

section \<open>LockableLinkedList\<close>

text \<open>The list with a spinlock that only its users take; the operations pass through.\<close>

record LockableLinkedList =
  lk_list :: SimpleLinkedList
  lk_lock :: spinlock_t

definition LockableLinkedList_make :: "bool \<Rightarrow> LockableLinkedList" where
  "LockableLinkedList_make eternal = \<lparr>lk_list = SimpleLinkedList_make eternal, lk_lock = False\<rparr>"

definition LockableLinkedList_destroy ::
  "'h heap_ops \<Rightarrow> LockableLinkedList \<Rightarrow> 'h list_state \<Rightarrow> (LockableLinkedList \<times> 'h list_state) prog" where
  "LockableLinkedList_destroy A l s =
     bindP (spinlock_acquire (lk_lock l)) (\<lambda>k.
     bindP (SimpleLinkedList_destroy A (lk_list l) s) (\<lambda>(sl, s).
     ret (l\<lparr>lk_list := sl, lk_lock := spinlock_release k\<rparr>, s)))"

definition LockableLinkedList_insert ::
  "'h heap_ops \<Rightarrow> ptr \<Rightarrow> LockableLinkedList \<Rightarrow> 'h list_state \<Rightarrow> ptr \<Rightarrow> (LockableLinkedList \<times> 'h list_state) prog" where
  "LockableLinkedList_insert A addr_obj l s obj =
     bindP (SimpleLinkedList_insert A addr_obj (lk_list l) s obj) (\<lambda>(sl, s). ret (l\<lparr>lk_list := sl\<rparr>, s))"

definition LockableLinkedList_get :: "LockableLinkedList \<Rightarrow> node_store \<Rightarrow> u64 \<Rightarrow> ptr prog" where
  "LockableLinkedList_get l m index = SimpleLinkedList_get (lk_list l) m index"

definition LockableLinkedList_getIndex :: "LockableLinkedList \<Rightarrow> node_store \<Rightarrow> ptr \<Rightarrow> u64 prog" where
  "LockableLinkedList_getIndex l m obj = SimpleLinkedList_getIndex (lk_list l) m obj"

definition LockableLinkedList_remove_index ::
  "'h heap_ops \<Rightarrow> LockableLinkedList \<Rightarrow> 'h list_state \<Rightarrow> u64 \<Rightarrow> (LockableLinkedList \<times> 'h list_state) prog" where
  "LockableLinkedList_remove_index A l s index =
     bindP (SimpleLinkedList_remove_index A (lk_list l) s index) (\<lambda>(sl, s). ret (l\<lparr>lk_list := sl\<rparr>, s))"

definition LockableLinkedList_remove ::
  "'h heap_ops \<Rightarrow> LockableLinkedList \<Rightarrow> 'h list_state \<Rightarrow> ptr \<Rightarrow> (LockableLinkedList \<times> 'h list_state) prog" where
  "LockableLinkedList_remove A l s obj =
     bindP (SimpleLinkedList_remove A (lk_list l) s obj) (\<lambda>(sl, s). ret (l\<lparr>lk_list := sl\<rparr>, s))"

definition LockableLinkedList_rotateLeft :: "LockableLinkedList \<Rightarrow> node_store \<Rightarrow> (LockableLinkedList \<times> node_store) prog" where
  "LockableLinkedList_rotateLeft l m =
     bindP (SimpleLinkedList_rotateLeft (lk_list l) m) (\<lambda>(sl, m). ret (l\<lparr>lk_list := sl\<rparr>, m))"

definition LockableLinkedList_rotateRight :: "LockableLinkedList \<Rightarrow> node_store \<Rightarrow> (LockableLinkedList \<times> node_store) prog" where
  "LockableLinkedList_rotateRight l m =
     bindP (SimpleLinkedList_rotateRight (lk_list l) m) (\<lambda>(sl, m). ret (l\<lparr>lk_list := sl\<rparr>, m))"

definition LockableLinkedList_getHead :: "LockableLinkedList \<Rightarrow> node_store \<Rightarrow> ptr prog" where
  "LockableLinkedList_getHead l m = SimpleLinkedList_getHead (lk_list l) m"

definition LockableLinkedList_getCount :: "LockableLinkedList \<Rightarrow> u64" where
  "LockableLinkedList_getCount l = SimpleLinkedList_getCount (lk_list l)"

definition LockableLinkedList_lock :: "LockableLinkedList \<Rightarrow> LockableLinkedList prog" where
  "LockableLinkedList_lock l = bindP (spinlock_acquire (lk_lock l)) (\<lambda>k. ret (l\<lparr>lk_lock := k\<rparr>))"

definition LockableLinkedList_unlock :: "LockableLinkedList \<Rightarrow> LockableLinkedList" where
  "LockableLinkedList_unlock l = l\<lparr>lk_lock := spinlock_release (lk_lock l)\<rparr>"

end
