(* ===== verification/LinkedListCorrect.thy ===== *)
theory LinkedListCorrect
  imports LinkedList KmallocContract
begin

text \<open>
  The linked list operations act on the sequence of addresses and data their nodes hold.
  \<open>dseg m pv h xs e\<close> says that from \<open>h\<close>, whose predecessor is \<open>pv\<close>, the nodes \<open>xs\<close> are linked in both
  directions up to the pointer \<open>e\<close>; a well-formed list ends in the null pointer and repeats no address.
  Allocation and release rest on the heap contract \<open>kernel_heap\<close>, so they hold for any heap that keeps
  it and, through the interpretation of KmallocContract, for the kernel's own.
\<close>

section \<open>Linked nodes\<close>

type_synonym cells = "(ptr \<times> u64) list"

primrec dseg :: "node_store \<Rightarrow> ptr \<Rightarrow> ptr \<Rightarrow> cells \<Rightarrow> ptr \<Rightarrow> bool" where
  "dseg m pv h [] e \<longleftrightarrow> h = e"
| "dseg m pv h (x # xs) e \<longleftrightarrow>
     h = fst x \<and> h \<noteq> nullptr \<and> (\<exists>n. m h = Some n \<and> previous n = pv \<and> data n = snd x \<and> dseg m h (next n) xs e)"

definition lastp :: "ptr \<Rightarrow> cells \<Rightarrow> ptr" where
  "lastp pv xs = (if xs = [] then pv else fst (last xs))"

definition addrs :: "cells \<Rightarrow> ptr set" where
  "addrs xs = fst ` set xs"

definition wf_list :: "node_store \<Rightarrow> ptr \<Rightarrow> cells \<Rightarrow> bool" where
  "wf_list m h xs \<longleftrightarrow> dseg m nullptr h xs nullptr \<and> distinct (map fst xs)"

named_theorems list_simps \<open>equations of list segments\<close>

lemma lastp_simps [list_simps]: "lastp pv [] = pv" "lastp pv (x # xs) = lastp (fst x) xs"
  "lastp pv (xs @ [x]) = fst x"
  by (auto simp: lastp_def)

lemma addrs_simps [list_simps]: "addrs [] = {}" "addrs (x # xs) = insert (fst x) (addrs xs)"
  "addrs (xs @ ys) = addrs xs \<union> addrs ys"
  by (auto simp: addrs_def)

lemma distinct_addrs [list_simps]:
  "distinct (map fst (x # xs)) \<longleftrightarrow> fst x \<notin> addrs xs \<and> distinct (map fst xs)"
  "distinct (map fst (xs @ ys)) \<longleftrightarrow> distinct (map fst xs) \<and> distinct (map fst ys) \<and> addrs xs \<inter> addrs ys = {}"
  by (auto simp: addrs_def)

lemma dseg_append [list_simps]:
  "dseg m pv h (xs @ ys) e \<longleftrightarrow> (\<exists>k. dseg m pv h xs k \<and> dseg m (lastp pv xs) k ys e)"
  by (induction xs arbitrary: pv h) (auto simp: lastp_simps)

lemma dseg_cong: "(\<And>a. a \<in> addrs xs \<Longrightarrow> m' a = m a) \<Longrightarrow> dseg m' pv h xs e = dseg m pv h xs e"
  by (induction xs arbitrary: pv h) (auto simp: addrs_simps)

lemma dseg_upd [list_simps]: "a \<notin> addrs xs \<Longrightarrow> dseg (m(a := v)) pv h xs e = dseg m pv h xs e"
  by (rule dseg_cong) auto

lemma dseg_dom: "dseg m pv h xs e \<Longrightarrow> addrs xs \<subseteq> dom m \<and> nullptr \<notin> addrs xs"
  by (induction xs arbitrary: pv h) (auto simp: addrs_simps)

lemma node_get_Some [simp]: "p \<noteq> nullptr \<Longrightarrow> m p = Some n \<Longrightarrow> node_get m p = ret n"
  by (simp add: node_get_def)

lemma node_update_Some [simp]: "p \<noteq> nullptr \<Longrightarrow> m p = Some n \<Longrightarrow> node_update m p f = ret (m(p \<mapsto> f n))"
  by (simp add: node_update_def)

section \<open>Reading a list\<close>

lemma length_loop_dseg:
  "dseg m pv h xs nullptr \<Longrightarrow> xs \<noteq> [] \<Longrightarrow> length_loop m h c = ret (c + of_nat (length xs))"
proof (induction xs arbitrary: pv h c)
  case (Cons x xs)
  then show ?case by (cases xs) (auto simp: length_loop.simps [of m "fst x"] Let_def algebra_simps)
qed simp

lemma last_loop_dseg:
  "dseg m pv h xs nullptr \<Longrightarrow> xs \<noteq> [] \<Longrightarrow> last_loop m h = ret (fst (last xs))"
proof (induction xs arbitrary: pv h)
  case (Cons x xs)
  then show ?case by (cases xs) (auto simp: last_loop.simps [of m "fst x"])
qed simp

lemma findNode_dseg:
  "dseg m pv h xs nullptr \<Longrightarrow>
   findNode m h d = ret (case find (\<lambda>x. snd x = d) xs of None \<Rightarrow> nullptr | Some x \<Rightarrow> fst x)"
  by (induction xs arbitrary: pv h) (auto simp: findNode.simps [of m])

lemma delete_search_dseg:
  "dseg m pv h xs nullptr \<Longrightarrow> xs \<noteq> [] \<Longrightarrow>
   delete_search m h d = ret (map_option fst (find (\<lambda>x. snd x = d) xs))"
proof (induction xs arbitrary: pv h)
  case (Cons x xs)
  then show ?case by (cases xs) (auto simp: delete_search.simps [of m "fst x"])
qed simp

text \<open>The segments around one node of a list.\<close>

lemma dseg_mid:
  assumes "dseg m pv h (us @ (a, d) # vs) e"
  obtains n where "m a = Some n" "data n = d" "previous n = lastp pv us" "a \<noteq> nullptr"
    "dseg m pv h us a" "dseg m a (next n) vs e"
  using assms by (auto simp: dseg_append)

lemma next_first: "dseg m pv h xs nullptr \<Longrightarrow> h = nullptr \<longleftrightarrow> xs = []"
  by (cases xs) auto

text \<open>Redirecting the last link of a segment, and the back link of the first node of one.\<close>

lemma dseg_set_last:
  assumes "dseg m pv h us e" "us \<noteq> []" "distinct (map fst us)"
  shows "\<exists>n. m (lastp pv us) = Some n \<and> lastp pv us \<noteq> nullptr \<and> dseg (m(lastp pv us \<mapsto> n\<lparr>next := e'\<rparr>)) pv h us e'"
proof -
  obtain ws x where us: "us = ws @ [x]" using assms(2) by (cases us rule: rev_cases) auto
  then obtain n where "m (fst x) = Some n" "previous n = lastp pv ws" "data n = snd x" "fst x \<noteq> nullptr"
    "dseg m pv h ws (fst x)"
    using assms(1) by (auto simp: dseg_append)
  moreover have "fst x \<notin> addrs ws" using assms(3) by (auto simp: us addrs_def)
  ultimately show ?thesis by (auto simp: us list_simps)
qed

lemma dseg_set_first:
  assumes "dseg m pv h (x # xs) e" "fst x \<notin> addrs xs"
  shows "\<exists>n. m h = Some n \<and> h \<noteq> nullptr \<and> dseg (m(h \<mapsto> n\<lparr>previous := pv'\<rparr>)) pv' h (x # xs) e"
  using assms by (auto simp: dseg_upd)

section \<open>Unlinking a node\<close>

lemma lastp_null: "dseg m nullptr h us e \<Longrightarrow> lastp nullptr us = nullptr \<longleftrightarrow> us = []"
  using dseg_dom [of m nullptr h us e] by (cases us rule: rev_cases) (auto simp: list_simps)

lemma lastp_in: "us \<noteq> [] \<Longrightarrow> lastp pv us \<in> addrs us"
  by (cases us rule: rev_cases) (auto simp: list_simps)

text \<open>The back link of the node after a gap.\<close>

lemma relink_next:
  assumes "dseg m a k vs nullptr" "distinct (map fst vs)"
  shows "\<exists>m'. (if k \<noteq> nullptr then set_previous m k pv else ret m) = ret m' \<and> dseg m' pv k vs nullptr \<and>
    dom m' = dom m \<and> (\<forall>x. x \<notin> addrs vs \<longrightarrow> m' x = m x)"
proof (cases vs)
  case Nil
  then show ?thesis using assms by auto
next
  case (Cons v ws)
  have "fst v \<notin> addrs ws" using assms(2) by (simp add: Cons addrs_def)
  with dseg_set_first [of m a k v ws nullptr pv] assms(1) obtain n where
    "m k = Some n" "k \<noteq> nullptr" "dseg (m(k \<mapsto> n\<lparr>previous := pv\<rparr>)) pv k vs nullptr" by (auto simp: Cons)
  moreover have "k \<in> addrs vs" using assms(1) by (simp add: Cons addrs_simps)
  ultimately show ?thesis by auto
qed

lemma relink_previous:
  assumes "dseg m nullptr h us a" "distinct (map fst us)" "p = lastp nullptr us"
  shows "\<exists>m'. (if p \<noteq> nullptr then set_next m p k else ret m) = ret m' \<and>
    dseg m' nullptr (if us = [] then k else h) us k \<and> dom m' = dom m \<and> (\<forall>x. x \<notin> addrs us \<longrightarrow> m' x = m x)"
proof (cases "us = []")
  case True
  then show ?thesis using assms by (simp add: list_simps)
next
  case False
  obtain n where "m p = Some n" "p \<noteq> nullptr" "dseg (m(p \<mapsto> n\<lparr>next := k\<rparr>)) nullptr h us k"
    using dseg_set_last [OF assms(1) False assms(2), of k] assms(3) by auto
  moreover have "p \<in> addrs us" using lastp_in [OF False] assms(3) by simp
  ultimately show ?thesis using False by auto
qed

lemma unlinkNode_correct:
  assumes "wf_list m h (us @ (a, d) # vs)"
  obtains m' n where "unlinkNode m a = ret m'" "m a = Some n" "m' a = Some n"
    "dseg m' nullptr (if us = [] then next n else h) (us @ vs) nullptr" "dom m' = dom m"
    "\<forall>x. x \<notin> addrs (us @ vs) \<longrightarrow> m' x = m x"
proof -
  have dist: "distinct (map fst us)" "distinct (map fst vs)" "addrs us \<inter> addrs vs = {}" "a \<notin> addrs us" "a \<notin> addrs vs"
    using assms by (auto simp: wf_list_def addrs_def)
  obtain n where n: "m a = Some n" "previous n = lastp nullptr us" "a \<noteq> nullptr"
    and segs: "dseg m nullptr h us a" "dseg m a (next n) vs nullptr"
    using assms dseg_mid unfolding wf_list_def by blast
  obtain m1 where m1: "(if next n \<noteq> nullptr then set_previous m (next n) (previous n) else ret m) = ret m1"
    "dseg m1 (previous n) (next n) vs nullptr" "dom m1 = dom m" "\<forall>x. x \<notin> addrs vs \<longrightarrow> m1 x = m x"
    using relink_next [OF segs(2) dist(2), of "previous n"] by blast
  have m1a: "m1 a = Some n" using m1(4) dist(5) n(1) by simp
  have "dseg m1 nullptr h us a"
    using segs(1) dseg_cong [of us m1 m] m1(4) dist(3) by (metis IntI emptyE)
  then obtain m2 where m2: "(if previous n \<noteq> nullptr then set_next m1 (previous n) (next n) else ret m1) = ret m2"
    "dseg m2 nullptr (if us = [] then next n else h) us (next n)" "dom m2 = dom m1" "\<forall>x. x \<notin> addrs us \<longrightarrow> m2 x = m1 x"
    using relink_previous [OF _ dist(1) n(2), of m1 h a "next n"] by blast
  have "dseg m2 (previous n) (next n) vs nullptr"
    using m1(2) dseg_cong [of vs m2 m1] m2(4) dist(3) by (metis IntI emptyE)
  then have "dseg m2 nullptr (if us = [] then next n else h) (us @ vs) nullptr"
    using m2(2) n(2) by (auto simp: dseg_append)
  moreover have "unlinkNode m a = ret m2"
    unfolding unlinkNode_def using n m1(1) m1a m2(1) by simp
  moreover have "m2 a = Some n" using m2(4) dist(4) m1a by simp
  ultimately show thesis
    using n(1) m1(3,4) m2(3,4) by (intro that [of m2 n]) (auto simp: addrs_simps)
qed

text \<open>What \<open>deleteNode\<close> does to the links when the head goes: the new head loses its back link, and the
  one after it is written the back link it already has.\<close>

lemma relink_head:
  assumes seg: "dseg m a k vs nullptr" and dist: "distinct (map fst vs)"
  shows "\<exists>m'. (if k \<noteq> nullptr then
                 bindP (set_previous m k nullptr) (\<lambda>m.
                 bindP (node_get m k) (\<lambda>hd. if next hd \<noteq> nullptr then set_previous m (next hd) k else ret m))
               else ret m) = ret m' \<and>
    dseg m' nullptr k vs nullptr \<and> dom m' = dom m \<and> (\<forall>x. x \<notin> addrs vs \<longrightarrow> m' x = m x)"
proof (cases vs)
  case Nil
  then show ?thesis using seg by auto
next
  case (Cons v ws)
  obtain m1 where m1: "set_previous m k nullptr = ret m1" "dseg m1 nullptr k vs nullptr" "dom m1 = dom m"
    "\<forall>x. x \<notin> addrs vs \<longrightarrow> m1 x = m x" and k: "k \<noteq> nullptr"
    using relink_next [OF seg dist, of nullptr] next_first [OF seg] Cons by auto
  obtain n where n: "m1 k = Some n" and rest: "dseg m1 k (next n) ws nullptr"
    using m1(2) by (auto simp: Cons)
  have "(if next n \<noteq> nullptr then set_previous m1 (next n) k else ret m1) = ret m1"
  proof (cases ws)
    case (Cons w zs)
    then obtain n2 where "m1 (next n) = Some n2" "previous n2 = k" "next n \<noteq> nullptr" using rest by auto
    moreover from this(2) have "n2\<lparr>previous := k\<rparr> = n2" by (cases n2) simp
    ultimately show ?thesis by (simp add: fun_upd_idem)
  qed (use rest in simp)
  then show ?thesis using m1 n k by simp
qed

section \<open>Allocating and releasing nodes\<close>

text \<open>
  Every node in the store is a slot of the pool or a block of the heap, and the pool is not in the
  region the heap allocates from.
\<close>

definition list_ok :: "('h \<Rightarrow> ptr set \<Rightarrow> ptr set \<Rightarrow> bool) \<Rightarrow> ptr set \<Rightarrow> 'h list_state \<Rightarrow> ptr set \<Rightarrow> ptr set \<Rightarrow> bool" where
  "list_ok heap_ok R s L E \<longleftrightarrow>
     heap_ok (ll_heap s) L E \<and> pool_inv sizeof_Node (ll_pool s) \<and>
     (\<forall>p. LL_NodePool_IsInPool s p \<longrightarrow> p \<notin> R) \<and>
     dom (ll_nodes s) \<subseteq> pool_live sizeof_Node (ll_pool s) \<union> L \<union> E"

lemma list_ok_nodes: "dom m = dom (ll_nodes s) \<Longrightarrow>
   list_ok heap_ok R (s\<lparr>ll_nodes := m\<rparr>) L E = list_ok heap_ok R s L E"
  by (simp add: list_ok_def LL_NodePool_IsInPool_def)

lemma pool_live_in_pool:
  assumes "pool_inv sizeof p" "x \<in> pool_live sizeof p"
  shows "NodePool_IsInPool sizeof p x"
proof -
  obtain i where i: "i < POOL_SIZE" "x = node_at sizeof p i"
    using assms(2) pool_used_subset by (auto simp: pool_live_def)
  have pos: "0 < unat sizeof" using assms(1) by (simp add: pool_inv_def word_neq_0_conv [symmetric] unat_gt_0)
  have lim: "unat (nodePool p) + 128 * unat sizeof < 2 ^ 64" using assms(1) by (simp add: pool_inv_def)
  then have "unat (128 * sizeof) = 128 * unat sizeof" by (intro trans [OF unat_mult64]) simp_all
  with lim have e: "unat (nodePool p + 128 * sizeof) = unat (nodePool p) + 128 * unat sizeof"
    by (intro trans [OF unat_add64]) simp_all
  have "i * unat sizeof < 128 * unat sizeof" using i(1) pos by simp
  then show ?thesis
    using unat_node_at [OF assms(1) i(1)] e i(2)
    by (simp add: NodePool_IsInPool_def word_le_nat_alt word_less_nat_alt)
qed

lemma pool_range_update:
  assumes "NodePool_AllocateNode sizeof p = (a, q)"
  shows "NodePool_IsInPool sizeof q x = NodePool_IsInPool sizeof p x"
  using assms by (auto simp: NodePool_AllocateNode_def NodePool_IsInPool_def split: if_splits option.splits)

lemma pool_range_free: "NodePool_IsInPool sizeof (snd (NodePool_FreeNode sizeof p a)) x = NodePool_IsInPool sizeof p x"
  by (auto simp: NodePool_FreeNode_def NodePool_IsInPool_def split: option.splits)

abbreviation fresh_node :: "u64 \<Rightarrow> Node" where
  "fresh_node d \<equiv> \<lparr>previous = nullptr, data = d, next = nullptr\<rparr>"

text \<open>What a pool slot gives.\<close>

lemma pool_alloc_ok:
  assumes ok: "list_ok heap_ok R s L E" and reg: "L \<union> E \<subseteq> R"
    and run: "LL_NodePool_AllocateNode s = (p, s')"
  shows "ll_nodes s' = ll_nodes s" "p = nullptr \<Longrightarrow> list_ok heap_ok R s' L E"
    "p \<noteq> nullptr \<Longrightarrow> p \<notin> dom (ll_nodes s) \<and> list_ok heap_ok R (s'\<lparr>ll_nodes := (ll_nodes s)(p \<mapsto> n)\<rparr>) L E"
proof -
  obtain q where q: "NodePool_AllocateNode sizeof_Node (ll_pool s) = (p, q)" "s' = s\<lparr>ll_pool := q\<rparr>"
    using run by (auto simp: LL_NodePool_AllocateNode_def split: prod.splits)
  have inv: "pool_inv sizeof_Node (ll_pool s)" using ok by (simp add: list_ok_def)
  show "ll_nodes s' = ll_nodes s" by (simp add: q)
  note range = pool_range_update [OF q(1)]
  show "list_ok heap_ok R s' L E" if "p = nullptr"
  proof -
    have "card (pool_live sizeof_Node (ll_pool s)) = POOL_SIZE - 1"
      using node_pool.alloc_null_iff [OF inv] q(1) that by simp
    then have "q = ll_pool s" using node_pool.alloc_full [OF inv] q(1) by simp
    then show ?thesis using ok by (simp add: q)
  qed
  show "p \<notin> dom (ll_nodes s) \<and> list_ok heap_ok R (s'\<lparr>ll_nodes := (ll_nodes s)(p \<mapsto> n)\<rparr>) L E" if "p \<noteq> nullptr"
  proof -
    have "card (pool_live sizeof_Node (ll_pool s)) < POOL_SIZE - 1"
      using node_pool.alloc_null_iff [OF inv] node_pool.live_le [OF inv] q(1) that by (simp add: le_less)
    then have fresh: "p \<notin> pool_live sizeof_Node (ll_pool s)"
      "pool_live sizeof_Node q = insert p (pool_live sizeof_Node (ll_pool s))" "pool_inv sizeof_Node q"
      using node_pool.alloc_fresh [OF inv _ q(1)] by blast+
    have "NodePool_IsInPool sizeof_Node q p" using pool_live_in_pool [OF fresh(3)] fresh(2) by simp
    then have "p \<notin> R" using ok range by (simp add: list_ok_def LL_NodePool_IsInPool_def)
    then show ?thesis
      using ok fresh reg range by (auto simp: list_ok_def q LL_NodePool_IsInPool_def)
  qed
qed

context kernel_heap
begin

lemma heap_alloc_ok:
  assumes ok: "list_ok heap_ok R s L E" and heap: "p \<notin> L \<union> E" "heap_ok h L' E'"
    "L' \<union> E' = insert p (L \<union> E)"
  shows "p \<notin> dom (ll_nodes s) \<and> list_ok heap_ok R (s\<lparr>ll_heap := h, ll_nodes := (ll_nodes s)(p \<mapsto> n)\<rparr>) L' E'"
proof -
  have "p \<in> R" using blocks_in_region [OF heap(2)] heap(3) by auto
  then have "p \<notin> pool_live sizeof_Node (ll_pool s)"
    using ok pool_live_in_pool by (auto simp: list_ok_def LL_NodePool_IsInPool_def)
  then show ?thesis using ok heap by (auto simp: list_ok_def LL_NodePool_IsInPool_def)
qed

lemma newNode_runs: "list_ok heap_ok R s L E \<Longrightarrow> newNode A s d eternal \<noteq> None"
proof -
  assume "list_ok heap_ok R s L E"
  then have ok: "heap_ok (ll_heap s) L E" by (simp add: list_ok_def)
  obtain p h where "kcalloc_eternal_op A 1 sizeof_Node (ll_heap s) = ret (p, h)" using eternal_runs [OF ok] by blast
  then show ?thesis
    using op_new_runs [OF ok, of sizeof_Node]
    by (cases "op_new A sizeof_Node (ll_heap s)" rule: prog_cases; cases "LL_NodePool_AllocateNode s")
      (auto simp: newNode_def prog_simps split: prod.splits)
qed

lemma newNode_ok:
  assumes ok: "list_ok heap_ok R s L E" and run: "newNode A s d eternal = ret (p, s')" and p: "p \<noteq> nullptr"
  shows "p \<notin> dom (ll_nodes s) \<and> ll_nodes s' = (ll_nodes s)(p \<mapsto> fresh_node d) \<and> (\<exists>L' E'. list_ok heap_ok R s' L' E')"
proof -
  have heap: "heap_ok (ll_heap s) L E" using ok by (simp add: list_ok_def)
  have reg: "L \<union> E \<subseteq> R" by (rule blocks_in_region [OF heap])
  have sz: "0 < sizeof_Node" "sizeof_Node \<le> 4096" by (simp_all add: word_le_nat_alt)
  consider (eternal) h where "kcalloc_eternal_op A 1 sizeof_Node (ll_heap s) = ret (p, h)"
      "s' = s\<lparr>ll_heap := h, ll_nodes := (ll_nodes s)(p \<mapsto> fresh_node d)\<rparr>"
    | (new) h where "op_new A sizeof_Node (ll_heap s) = ret (p, h)"
      "s' = s\<lparr>ll_heap := h, ll_nodes := (ll_nodes s)(p \<mapsto> fresh_node d)\<rparr>"
    | (pool) t where "LL_NodePool_AllocateNode s = (p, t)" "s' = t\<lparr>ll_nodes := (ll_nodes t)(p \<mapsto> fresh_node d)\<rparr>"
    using run p by (auto simp: newNode_def prog_elims split: if_splits prod.splits)
  then show ?thesis
  proof cases
    case eternal
    then have "p \<notin> L \<union> E" "heap_ok h L (insert p E)" using eternal_fresh [OF heap sz] p by auto
    from heap_alloc_ok [OF ok this] eternal(2) show ?thesis by auto
  next
    case new
    then have "p \<notin> L \<union> E" "heap_ok h (insert p L) E" using op_new_fresh [OF heap sz] p by auto
    from heap_alloc_ok [OF ok this] new(2) show ?thesis by auto
  next
    case pool
    then show ?thesis using pool_alloc_ok [OF ok reg pool(1)] p by auto
  qed
qed

lemma releaseNode_ok:
  assumes ok: "list_ok heap_ok R s L E" and a: "a \<in> pool_live sizeof_Node (ll_pool s) \<union> L"
    and nd: "a \<in> L \<Longrightarrow> new_initialised A (ll_heap s)"
  shows "\<exists>s'. releaseNode A s a = ret s' \<and> ll_nodes s' = (ll_nodes s)(a := None) \<and> list_ok heap_ok R s' (L - {a}) E"
proof (cases "a \<in> L")
  case True
  have heap: "heap_ok (ll_heap s) L E" using ok by (simp add: list_ok_def)
  have "a \<in> R" using blocks_in_region [OF heap] True by auto
  then have "\<not> LL_NodePool_IsInPool s a" using ok by (auto simp: list_ok_def)
  moreover obtain h where "op_delete A a (ll_heap s) = ret h" "heap_ok h (L - {a}) E"
    using op_delete_live [OF heap True nd [OF True]] by blast
  ultimately show ?thesis
    using nd [OF True] ok by (auto simp: releaseNode_def list_ok_def LL_NodePool_IsInPool_def)
next
  case False
  then have live: "a \<in> pool_live sizeof_Node (ll_pool s)" using a by simp
  have inv: "pool_inv sizeof_Node (ll_pool s)" using ok by (simp add: list_ok_def)
  obtain q where q: "NodePool_FreeNode sizeof_Node (ll_pool s) a = (True, q)"
    using live NodePool_FreeNode_slot [OF inv] pool_used_subset by (fastforce simp: pool_live_def)
  have inpool: "LL_NodePool_IsInPool s a"
    using pool_live_in_pool [OF inv live] by (simp add: LL_NodePool_IsInPool_def)
  moreover have "pool_inv sizeof_Node q" "pool_live sizeof_Node q = pool_live sizeof_Node (ll_pool s) - {a}"
    using node_pool.free_live [OF inv live] q by simp_all
  moreover have "NodePool_IsInPool sizeof_Node q x = NodePool_IsInPool sizeof_Node (ll_pool s) x" for x
    using pool_range_free [of sizeof_Node "ll_pool s" a x] q by simp
  ultimately show ?thesis
    using ok q False
    by (auto simp: releaseNode_def LL_NodePool_FreeNode_def list_ok_def LL_NodePool_IsInPool_def)
qed

text \<open>Appending at the end of a list.\<close>

lemma insertNode_ok:
  assumes ok: "list_ok heap_ok R s L E" and wf: "wf_list (ll_nodes s) h xs"
    and run: "insertNode A s h d eternal = ret (h', s')" and h': "h' \<noteq> nullptr"
  shows "\<exists>a. a \<notin> dom (ll_nodes s) \<and> wf_list (ll_nodes s') h' (xs @ [(a, d)]) \<and>
    (\<forall>x. x \<noteq> a \<and> x \<notin> addrs xs \<longrightarrow> ll_nodes s' x = ll_nodes s x) \<and> (\<exists>L' E'. list_ok heap_ok R s' L' E')"
proof (cases "xs = []")
  case True
  then have "h = nullptr" using wf by (simp add: wf_list_def)
  then have "newNode A s d eternal = ret (h', s')" using run by (simp add: insertNode_def)
  from newNode_ok [OF ok this h'] h' True show ?thesis
    by (intro exI [of _ h']) (auto simp: wf_list_def)
next
  case False
  let ?l = "fst (last xs)"
  have seg: "dseg (ll_nodes s) nullptr h xs nullptr" and dist: "distinct (map fst xs)"
    using wf by (simp_all add: wf_list_def)
  have hn: "h \<noteq> nullptr" using next_first [OF seg] False by simp
  obtain p t where t: "newNode A s d eternal = ret (p, t)"
    and rest: "bindP (set_next (ll_nodes t) ?l p) (\<lambda>m. bindP (set_previous m p ?l) (\<lambda>m. ret (h, t\<lparr>ll_nodes := m\<rparr>))) = ret (h', s')"
    using run hn last_loop_dseg [OF seg False] by (auto simp: insertNode_def prog_elims split: prod.splits)
  have p: "p \<noteq> nullptr"
    using rest by (auto simp: node_update_def node_get_def prog_elims)
  from newNode_ok [OF ok t p] obtain L' E' where
    fresh: "p \<notin> dom (ll_nodes s)" and nodes: "ll_nodes t = (ll_nodes s)(p \<mapsto> fresh_node d)"
    and ok': "list_ok heap_ok R t L' E'" by blast
  have pnot: "p \<notin> addrs xs" using fresh dseg_dom [OF seg] by auto
  have "dseg (ll_nodes t) nullptr h xs nullptr" using seg pnot by (simp add: nodes dseg_upd)
  then obtain n where n: "ll_nodes t ?l = Some n" "?l \<noteq> nullptr"
    and seg': "dseg ((ll_nodes t)(?l \<mapsto> n\<lparr>next := p\<rparr>)) nullptr h xs p"
    using dseg_set_last [of "ll_nodes t" nullptr h xs nullptr p] dist False by (auto simp: lastp_def)
  have lin: "?l \<in> addrs xs" using False by (auto simp: addrs_def)
  let ?m = "(ll_nodes t)(?l \<mapsto> n\<lparr>next := p\<rparr>, p \<mapsto> (fresh_node d)\<lparr>previous := ?l\<rparr>)"
  have ne: "p \<noteq> ?l" using pnot lin by auto
  have res: "h' = h" "s' = t\<lparr>ll_nodes := ?m\<rparr>"
    using rest n p ne by (simp_all add: nodes)
  have nodes': "ll_nodes s' = ?m" by (simp add: res)
  have "dom ?m = dom (ll_nodes t)" using n(1) nodes by auto
  then have "list_ok heap_ok R s' L' E'" using ok' list_ok_nodes [of ?m t] by (simp add: res)
  moreover have "wf_list (ll_nodes s') h' (xs @ [(p, d)])"
    using seg' pnot p dist False unfolding nodes' res(1)
    by (auto simp: wf_list_def dseg_append dseg_upd lastp_def addrs_def)
  moreover have "\<forall>x. x \<noteq> p \<and> x \<notin> addrs xs \<longrightarrow> ll_nodes s' x = ll_nodes s x"
    using lin unfolding nodes' by (auto simp: nodes)
  ultimately show ?thesis by (intro exI [of _ p] conjI exI [of _ L'] exI [of _ E'] fresh)
qed

text \<open>Deleting the node at address \<open>a\<close>.\<close>

lemma unlink_release_ok:
  assumes ok: "list_ok heap_ok R s L E" and wf: "wf_list (ll_nodes s) h (us @ (a, d) # vs)"
    and a: "a \<in> pool_live sizeof_Node (ll_pool s) \<union> L" "a \<in> L \<Longrightarrow> new_initialised A (ll_heap s)"
  obtains m n s' where "unlinkNode (ll_nodes s) a = ret m" "m a = Some n" "a \<noteq> nullptr"
    "releaseNode A (s\<lparr>ll_nodes := m\<rparr>) a = ret s'"
    "wf_list (ll_nodes s') (if us = [] then next n else h) (us @ vs)" "list_ok heap_ok R s' (L - {a}) E"
    "\<forall>x. x \<noteq> a \<and> x \<notin> addrs (us @ vs) \<longrightarrow> ll_nodes s' x = ll_nodes s x" "ll_nodes s' a = None"
proof -
  obtain m n where
    m: "unlinkNode (ll_nodes s) a = ret m" "ll_nodes s a = Some n" "m a = Some n"
    "dseg m nullptr (if us = [] then next n else h) (us @ vs) nullptr" "dom m = dom (ll_nodes s)"
    "\<forall>x. x \<notin> addrs (us @ vs) \<longrightarrow> m x = ll_nodes s x"
    using unlinkNode_correct [OF wf] .
  have ok': "list_ok heap_ok R (s\<lparr>ll_nodes := m\<rparr>) L E" using ok list_ok_nodes [OF m(5)] by simp
  obtain s' where s': "releaseNode A (s\<lparr>ll_nodes := m\<rparr>) a = ret s'" "ll_nodes s' = m(a := None)"
    "list_ok heap_ok R s' (L - {a}) E"
    using releaseNode_ok [OF ok', of a] a by auto
  have dist: "a \<notin> addrs (us @ vs)" "distinct (map fst (us @ vs))" using wf by (auto simp: wf_list_def addrs_def)
  have "a \<noteq> nullptr" using wf dseg_mid unfolding wf_list_def by blast
  moreover have "wf_list (ll_nodes s') (if us = [] then next n else h) (us @ vs)"
    using m(4) dist by (simp add: wf_list_def s'(2) dseg_upd)
  moreover have "\<forall>x. x \<noteq> a \<and> x \<notin> addrs (us @ vs) \<longrightarrow> ll_nodes s' x = ll_nodes s x" using m(6) by (simp add: s'(2))
  ultimately show thesis using m(1,3) s' by (intro that [of m n s']) simp_all
qed

lemma deleteNode_node_ok:
  assumes ok: "list_ok heap_ok R s L E" and wf: "wf_list (ll_nodes s) h (us @ (a, d) # vs)"
    and a: "a \<in> pool_live sizeof_Node (ll_pool s) \<union> L" "a \<in> L \<Longrightarrow> new_initialised A (ll_heap s)"
  shows "\<exists>h' s'. deleteNode_node A s h a = ret (h', s') \<and> wf_list (ll_nodes s') h' (us @ vs) \<and>
    list_ok heap_ok R s' (L - {a}) E \<and> ll_nodes s' a = None \<and>
    (\<forall>x. x \<noteq> a \<and> x \<notin> addrs (us @ vs) \<longrightarrow> ll_nodes s' x = ll_nodes s x)"
proof -
  obtain m n s' where
    m: "unlinkNode (ll_nodes s) a = ret m" "m a = Some n" "a \<noteq> nullptr"
    "releaseNode A (s\<lparr>ll_nodes := m\<rparr>) a = ret s'"
    and res: "wf_list (ll_nodes s') (if us = [] then next n else h) (us @ vs)" "list_ok heap_ok R s' (L - {a}) E"
    "\<forall>x. x \<noteq> a \<and> x \<notin> addrs (us @ vs) \<longrightarrow> ll_nodes s' x = ll_nodes s x" "ll_nodes s' a = None"
    using unlink_release_ok [OF ok wf a] .
  have seg: "dseg (ll_nodes s) nullptr h (us @ (a, d) # vs) nullptr" using wf by (simp add: wf_list_def)
  have "h \<noteq> nullptr" using next_first [OF seg] by simp
  moreover have "h = a \<longleftrightarrow> us = []"
    using seg wf by (cases us) (auto simp: wf_list_def)
  ultimately show ?thesis using m res by (auto simp: deleteNode_node_def)
qed

text \<open>Deleting by data: the first node that holds it goes.\<close>

lemma deleteNode_ok:
  assumes ok: "list_ok heap_ok R s L E" and wf: "wf_list (ll_nodes s) h (us @ (a, d) # vs)"
    and a: "a \<in> pool_live sizeof_Node (ll_pool s) \<union> L" "a \<in> L \<Longrightarrow> new_initialised A (ll_heap s)"
    and first: "d \<notin> snd ` set us"
  shows "\<exists>h' s'. deleteNode A s h d = ret (h', s') \<and> wf_list (ll_nodes s') h' (us @ vs) \<and>
    list_ok heap_ok R s' (L - {a}) E \<and> ll_nodes s' a = None \<and>
    (\<forall>x. x \<noteq> a \<and> x \<notin> addrs (us @ vs) \<longrightarrow> ll_nodes s' x = ll_nodes s x)"
proof -
  have seg: "dseg (ll_nodes s) nullptr h (us @ (a, d) # vs) nullptr"
    and dist: "distinct (map fst (us @ (a, d) # vs))" using wf by (simp_all add: wf_list_def)
  have hn: "h \<noteq> nullptr" using next_first [OF seg] by simp
  show ?thesis
  proof (cases us)
    case Nil
    then obtain n where n: "h = a" "ll_nodes s a = Some n" "data n = d" "dseg (ll_nodes s) a (next n) vs nullptr"
      using seg by auto
    have dist': "distinct (map fst vs)" "a \<notin> addrs vs" using dist by (auto simp: Nil addrs_def)
    obtain m where m: "(if next n \<noteq> nullptr then
                 bindP (set_previous (ll_nodes s) (next n) nullptr) (\<lambda>m.
                 bindP (node_get m (next n)) (\<lambda>hd. if next hd \<noteq> nullptr then set_previous m (next hd) (next n) else ret m))
               else ret (ll_nodes s)) = ret m"
      "dseg m nullptr (next n) vs nullptr" "dom m = dom (ll_nodes s)" "\<forall>x. x \<notin> addrs vs \<longrightarrow> m x = ll_nodes s x"
      using relink_head [OF n(4) dist'(1)] by blast
    have ok': "list_ok heap_ok R (s\<lparr>ll_nodes := m\<rparr>) L E" using ok list_ok_nodes [OF m(3)] by simp
    obtain s' where s': "releaseNode A (s\<lparr>ll_nodes := m\<rparr>) a = ret s'" "ll_nodes s' = m(a := None)"
      "list_ok heap_ok R s' (L - {a}) E"
      using releaseNode_ok [OF ok', of a] a by auto
    have "wf_list (ll_nodes s') (next n) vs" using m(2) dist' by (simp add: wf_list_def s'(2) dseg_upd)
    moreover have "deleteNode A s h d = ret (next n, s')"
      unfolding deleteNode_def using hn n(1-3) m(1) s'(1) by simp
    ultimately show ?thesis using s'(2,3) m(4) by (simp add: Nil)
  next
    case (Cons u us')
    obtain m n s' where
      m: "unlinkNode (ll_nodes s) a = ret m" "m a = Some n" "a \<noteq> nullptr"
      "releaseNode A (s\<lparr>ll_nodes := m\<rparr>) a = ret s'"
      and res: "wf_list (ll_nodes s') (if us = [] then next n else h) (us @ vs)" "list_ok heap_ok R s' (L - {a}) E"
      "\<forall>x. x \<noteq> a \<and> x \<notin> addrs (us @ vs) \<longrightarrow> ll_nodes s' x = ll_nodes s x" "ll_nodes s' a = None"
      using unlink_release_ok [OF ok wf a] .
    have "find (\<lambda>x. snd x = d) (us @ (a, d) # vs) = Some (a, d)"
      using first by (induction us) auto
    then have search: "delete_search (ll_nodes s) h d = ret (Some a)"
      using delete_search_dseg [OF seg, of d] by simp
    obtain nh where nh: "ll_nodes s h = Some nh" "data nh \<noteq> d" using seg first by (auto simp: Cons)
    have "deleteNode A s h d = ret (h, s')"
      unfolding deleteNode_def using hn nh search m by simp
    then show ?thesis using res Cons by simp
  qed
qed

end

section \<open>The operations that only read or relink\<close>

lemma get_loop_dseg:
  "dseg m pv h xs nullptr \<Longrightarrow> i \<le> length xs \<Longrightarrow>
   get_loop i m h = ret (if i < length xs then fst (xs ! i) else nullptr)"
proof (induction i arbitrary: pv h xs)
  case 0
  then show ?case by (cases xs) auto
next
  case (Suc i)
  then show ?case by (cases xs) auto
qed

lemma find_map_Suc: "find P (map Suc xs) = map_option Suc (find (P \<circ> Suc) xs)"
  by (induction xs) auto

lemma getIndex_loop_dseg:
  "dseg m pv h xs nullptr \<Longrightarrow>
   getIndex_loop (length xs) i m obj h =
     ret (case find (\<lambda>j. snd (xs ! j) = obj) [0..<length xs] of None \<Rightarrow> UINT64_MAX | Some j \<Rightarrow> i + of_nat j)"
proof (induction xs arbitrary: pv h i)
  case (Cons x xs)
  have "[0..<length (x # xs)] = 0 # map Suc [0..<length xs]" by (simp add: map_Suc_upt upt_conv_Cons del: upt_Suc)
  then show ?case using Cons by (auto simp: find_map_Suc comp_def split: option.splits)
qed simp

lemma dseg_last_next:
  "dseg m pv h us e \<Longrightarrow> us \<noteq> [] \<Longrightarrow> \<exists>n. m (lastp pv us) = Some n \<and> next n = e \<and> lastp pv us \<noteq> nullptr"
  by (cases us rule: rev_cases) (auto simp: list_simps)

lemma rotateLeft_ok:
  assumes wf: "wf_list m (sl_start l) (x # y # zs)" and cnt: "2 \<le> sl_count l"
  shows "\<exists>m'. SimpleLinkedList_rotateLeft l m = ret (l\<lparr>sl_start := fst y\<rparr>, m') \<and>
    wf_list m' (fst y) (y # zs @ [x])"
proof -
  let ?ys = "y # zs" and ?a = "fst x" and ?b = "fst y"
  define e where "e = lastp ?a ?ys"
  have seg: "dseg m nullptr (sl_start l) (x # ?ys) nullptr" and dist: "distinct (map fst ?ys)" "?a \<notin> addrs ?ys" "?b \<notin> addrs zs"
    using wf by (auto simp: wf_list_def addrs_def)
  then obtain na where a: "sl_start l = ?a" "?a \<noteq> nullptr" "m ?a = Some na" "data na = snd x" "next na = ?b"
    and ys: "dseg m ?a ?b ?ys nullptr" by auto
  have e_in: "e \<in> addrs ?ys" unfolding e_def by (rule lastp_in) simp
  then have ea: "e \<noteq> ?a" using dist(2) by auto
  obtain ne where e: "m e = Some ne" "e \<noteq> nullptr" and seg1: "dseg (m(e \<mapsto> ne\<lparr>next := ?a\<rparr>)) ?a ?b ?ys ?a"
    using dseg_set_last [OF ys _ dist(1), of ?a] e_def by auto
  define m2 where "m2 = m(e \<mapsto> ne\<lparr>next := ?a\<rparr>, ?a \<mapsto> na\<lparr>previous := e\<rparr>)"
  have "dseg m2 ?a ?b ?ys ?a" using seg1 dist(2) unfolding m2_def by (simp only: dseg_upd not_False_eq_True)
  then obtain nb where b: "m2 ?b = Some nb" "?b \<noteq> nullptr" and seg3: "dseg (m2(?b \<mapsto> nb\<lparr>previous := nullptr\<rparr>)) nullptr ?b ?ys ?a"
    using dseg_set_first [of m2 ?a ?b y zs ?a nullptr] dist(3) by auto
  define m3 where "m3 = m2(?b \<mapsto> nb\<lparr>previous := nullptr\<rparr>)"
  have ba: "?b \<noteq> ?a" using dist(2) by (auto simp: addrs_simps)
  have e': "lastp nullptr ?ys = e" by (simp add: e_def lastp_def)
  obtain ne3 where e3: "m3 e = Some ne3" "next ne3 = ?a"
    using dseg_last_next [OF seg3 [folded m3_def]] e' by auto
  have a3: "m3 ?a = Some (na\<lparr>previous := e\<rparr>)" using ba ea by (simp add: m3_def m2_def)
  define m4 where "m4 = m3(?a \<mapsto> na\<lparr>previous := e, next := nullptr\<rparr>)"
  have "last (x # ?ys) = last ?ys" by simp
  then have last: "last_loop m ?a = ret e" using last_loop_dseg [OF seg] a(1) by (simp add: e_def lastp_def)
  have "\<not> sl_count l < 2" using cnt by (simp add: not_less)
  moreover have "set_next m e ?a = ret (m(e \<mapsto> ne\<lparr>next := ?a\<rparr>))" using e by simp
  moreover have "set_previous (m(e \<mapsto> ne\<lparr>next := ?a\<rparr>)) ?a e = ret m2" using a(2,3) ea by (simp add: m2_def)
  moreover have "node_get m2 ?a = ret (na\<lparr>previous := e\<rparr>)" using a(2) by (simp add: m2_def)
  moreover have "set_previous m2 ?b nullptr = ret m3" using b by (simp add: m3_def)
  moreover have "node_get m3 e = ret ne3" using e3 e(2) by simp
  moreover have "set_next m3 ?a nullptr = ret m4" using a3 a(2) by (simp add: m4_def)
  ultimately have run: "SimpleLinkedList_rotateLeft l m = ret (l\<lparr>sl_start := ?b\<rparr>, m4)"
    using a(1,2,5) e3(2) last by (simp add: SimpleLinkedList_rotateLeft_def)
  have "dseg m4 nullptr ?b ?ys ?a" using seg3 dist(2) unfolding m4_def m3_def by (simp only: dseg_upd not_False_eq_True)
  moreover have "dseg m4 (lastp nullptr ?ys) ?a [x] nullptr"
    unfolding e' using a(2,4) by (simp add: m4_def)
  ultimately have "dseg m4 nullptr ?b (?ys @ [x]) nullptr"
    unfolding dseg_append [of _ _ _ ?ys] by blast
  moreover have "distinct (map fst (?ys @ [x]))" using dist by (auto simp: addrs_def)
  ultimately show ?thesis using run by (simp add: wf_list_def)
qed

text \<open>On nodes that only lead to each other, counting never ends.\<close>

lemma length_loop_closed:
  assumes closed: "\<And>p. p \<in> S \<Longrightarrow> \<exists>n. m p = Some n \<and> p \<noteq> nullptr \<and> next n \<noteq> nullptr \<and> next n \<in> S" and a: "a \<in> S"
  shows "length_loop m a c = None"
proof (cases "length_loop m a c")
  case (Some y)
  have "m = m \<longrightarrow> a \<notin> S"
  proof (rule length_loop.raw_induct [of "\<lambda>m' a c y. m' = m \<longrightarrow> a \<notin> S", OF _ Some])
    fix f :: "node_store \<Rightarrow> ptr \<Rightarrow> u64 \<Rightarrow> u64 prog" and m' a c y
    assume IH: "\<And>m' a c y. f m' a c = Some y \<Longrightarrow> m' = m \<longrightarrow> a \<notin> S"
      and run: "bindP (node_get m' a) (\<lambda>n. let count = c + 1 in if next n = nullptr then ret count else f m' (next n) count) = Some y"
    show "m' = m \<longrightarrow> a \<notin> S"
    proof (intro impI notI)
      assume "m' = m" "a \<in> S"
      then obtain n where "m a = Some n" "a \<noteq> nullptr" "next n \<noteq> nullptr" "next n \<in> S" using closed by blast
      with run IH [of m "next n" "c + 1" y] \<open>m' = m\<close> show False by simp
    qed
  qed
  then show ?thesis using a by simp
qed

lemma dseg_next_in:
  assumes "dseg m pv h xs e" "p \<in> addrs xs"
  shows "\<exists>n. m p = Some n \<and> (next n \<in> addrs xs \<or> p = lastp pv xs)"
  using assms
proof (induction xs arbitrary: pv h)
  case (Cons x xs)
  then obtain n where n: "m (fst x) = Some n" "dseg m (fst x) (next n) xs e" by auto
  show ?case
  proof (cases "p = fst x")
    case True
    then show ?thesis using n by (cases xs) (auto simp: list_simps)
  next
    case False
    then have "p \<in> addrs xs" using Cons.prems(2) by (simp add: addrs_simps)
    from Cons.IH [OF n(2) this] show ?thesis by (auto simp: list_simps)
  qed
qed (simp add: addrs_simps)

text \<open>\<open>rotateRight\<close> links the last node in front of the first without unlinking it from the one before.\<close>

lemma rotateRight_closed:
  assumes wf: "wf_list m (sl_start l) (x # y # zs)" and cnt: "2 \<le> sl_count l"
  shows "\<exists>m'. SimpleLinkedList_rotateRight l m = ret (l\<lparr>sl_start := fst (last (y # zs))\<rparr>, m') \<and>
    (\<forall>p\<in>addrs (x # y # zs). \<exists>n. m' p = Some n \<and> p \<noteq> nullptr \<and> next n \<noteq> nullptr \<and> next n \<in> addrs (x # y # zs))"
proof -
  let ?xs = "x # y # zs" and ?a = "fst x" and ?e = "fst (last (y # zs))"
  have seg: "dseg m nullptr ?a ?xs nullptr" and a: "sl_start l = ?a" "?a \<noteq> nullptr"
    using wf by (auto simp: wf_list_def)
  note dom = dseg_dom [OF seg]
  have "?e \<in> addrs (y # zs)" using lastp_in [of "y # zs" nullptr] by (simp add: lastp_def)
  moreover have "?a \<notin> addrs (y # zs)" using wf by (auto simp: wf_list_def addrs_def)
  ultimately have ea: "?e \<noteq> ?a" "?e \<in> addrs ?xs" by (auto simp: addrs_simps)
  have "?a \<in> dom m" "?e \<in> dom m" "?e \<noteq> nullptr" using dom ea(2) by (auto simp: addrs_simps simp del: last.simps)
  then obtain na ne where n: "m ?a = Some na" "m ?e = Some ne" "?e \<noteq> nullptr" by blast
  define m' where "m' = m(?a \<mapsto> na\<lparr>previous := ?e\<rparr>, ?e \<mapsto> ne\<lparr>next := ?a, previous := nullptr\<rparr>)"
  have last: "last_loop m ?a = ret ?e" using last_loop_dseg [OF seg] by simp
  have "\<not> sl_count l < 2" using cnt by (simp add: not_less)
  then have "SimpleLinkedList_rotateRight l m = ret (l\<lparr>sl_start := ?e\<rparr>, m')"
    unfolding SimpleLinkedList_rotateRight_def a(1) last using a(2) n ea(1) by (simp add: m'_def)
  moreover have "\<exists>n. m' p = Some n \<and> p \<noteq> nullptr \<and> next n \<noteq> nullptr \<and> next n \<in> addrs ?xs" if p: "p \<in> addrs ?xs" for p
  proof (cases "p = ?e")
    case True
    then show ?thesis using a n by (simp add: m'_def addrs_simps)
  next
    case False
    then obtain k where "m p = Some k" "next k \<in> addrs ?xs"
      using dseg_next_in [OF seg p] by (auto simp: lastp_def)
    then show ?thesis using False p dom n by (cases "p = ?a") (auto simp: m'_def)
  qed
  ultimately show ?thesis by blast
qed

section \<open>A list to start from\<close>

text \<open>The state at boot: no nodes, an initialised pool at 2 MiB, and the heap not yet set up.\<close>

definition boot_kheap :: kheap where
  "boot_kheap = \<lparr>g_heapAllocator = HeapAllocator_empty zero_headers, g_kmalloc_initialised = False,
     g_NewDeleteInitialised = False, g_kmalloc_eternal_initialised = False, g_kmalloc_eternal_mem = nullptr,
     g_kmalloc_eternal_free_mem = 0, g_kmalloc_eternal_used_mem = 0, g_kmalloc_eternal_lock = False,
     kh_mem = (\<lambda>_. 0)\<rparr>"

definition boot_pool :: node_pool where
  "boot_pool = NodePool_Init \<lparr>nodePool = 0x200000, nodePool_UsedCount = 0, nodePool_BitmapData = 0x300000,
     nodePool_Bitmap = Bitmap_empty, nodePoolHasBeenInitialised = False, nodePool_mem = (\<lambda>_. 0)\<rparr>"

definition boot_list :: "kheap list_state" where
  "boot_list = \<lparr>ll_nodes = Map.empty, ll_pool = boot_pool, ll_heap = boot_kheap\<rparr>"

lemma boot_pool_ok: "pool_inv sizeof_Node boot_pool" "pool_live sizeof_Node boot_pool = {}"
  unfolding boot_pool_def by (rule NodePool_Init_inv; simp)+

lemma boot_kheap_ok: "kheap_ok {} boot_kheap {} {}"
  by (simp add: kheap_ok_def boot_kheap_def HeapAllocator_empty_def eternal_area_def)

lemma boot_list_ok: "list_ok (kheap_ok {}) ({} - {nullptr}) boot_list {} {}"
  using boot_pool_ok(1) boot_kheap_ok by (simp add: list_ok_def boot_list_def)

text \<open>From it, an insertion takes a node from the pool.\<close>

lemma boot_insert:
  obtains a s where "insertNode kernel_ops boot_list nullptr d False = ret (a, s)" "a \<noteq> nullptr"
proof -
  obtain p t where pt: "LL_NodePool_AllocateNode boot_list = (p, t)" by (cases "LL_NodePool_AllocateNode boot_list")
  have "p = fst (NodePool_AllocateNode sizeof_Node boot_pool)"
    using pt by (auto simp: LL_NodePool_AllocateNode_def boot_list_def split: prod.splits)
  then have "p \<noteq> nullptr"
    using node_pool.alloc_null_iff [OF boot_pool_ok(1)] boot_pool_ok(2) by simp
  then show thesis
    using pt that by (simp add: insertNode_def newNode_def kernel_ops_def NewDeleteInitialised_def boot_list_def boot_kheap_def)
qed

section \<open>Properties\<close>

text \<open>C2. \<open>insertNode\<close> appends: on a well-formed list it returns a head from which the old nodes
  follow in order and then one new node with the data, at an address no node had before; every node
  outside the list is untouched, and the store and allocators stay in order.\<close>

theorem insertNode_appends:
  assumes "list_ok (kheap_ok R) (R - {nullptr}) s L E" and "wf_list (ll_nodes s) h xs"
    and "insertNode kernel_ops s h d eternal = ret (h', s')" and "h' \<noteq> nullptr"
  shows "\<exists>a. a \<notin> dom (ll_nodes s) \<and> wf_list (ll_nodes s') h' (xs @ [(a, d)]) \<and>
    (\<forall>x. x \<noteq> a \<and> x \<notin> addrs xs \<longrightarrow> ll_nodes s' x = ll_nodes s x) \<and>
    (\<exists>L' E'. list_ok (kheap_ok R) (R - {nullptr}) s' L' E')"
  by (rule kernel.insertNode_ok [OF assms])

theorem insertNode_appends_witness:
  "\<exists>a s'. insertNode kernel_ops boot_list nullptr 7 False = ret (a, s') \<and> wf_list (ll_nodes s') a [(a, 7)]"
proof -
  obtain a s where run: "insertNode kernel_ops boot_list nullptr 7 False = ret (a, s)" "a \<noteq> nullptr"
    by (rule boot_insert)
  have "wf_list (ll_nodes boot_list) nullptr []" by (simp add: wf_list_def)
  from insertNode_appends [OF boot_list_ok this run] obtain b where "wf_list (ll_nodes s) a [(b, 7)]" by auto
  moreover from this have "a = b" by (simp add: wf_list_def)
  ultimately show ?thesis using run(1) by blast
qed

text \<open>C21. \<open>deleteNode\<close> by data removes exactly the first node that holds the data: the nodes before and
  after it follow each other, the node leaves the store, and nothing outside the list changes. It always
  returns when the node came from the pool or from a heap that is up.\<close>

theorem deleteNode_removes_first:
  assumes "list_ok (kheap_ok R) (R - {nullptr}) s L E" and "wf_list (ll_nodes s) h (us @ (a, d) # vs)"
    and "a \<in> pool_live sizeof_Node (ll_pool s) \<union> L" and "a \<in> L \<Longrightarrow> new_initialised kernel_ops (ll_heap s)"
    and "d \<notin> snd ` set us"
  shows "\<exists>h' s'. deleteNode kernel_ops s h d = ret (h', s') \<and> wf_list (ll_nodes s') h' (us @ vs) \<and>
    list_ok (kheap_ok R) (R - {nullptr}) s' (L - {a}) E \<and> ll_nodes s' a = None \<and>
    (\<forall>x. x \<noteq> a \<and> x \<notin> addrs (us @ vs) \<longrightarrow> ll_nodes s' x = ll_nodes s x)"
  by (rule kernel.deleteNode_ok [OF assms])

theorem deleteNode_removes_first_witness:
  "\<exists>s h h' s'. wf_list (ll_nodes s) h [(h, 7)] \<and> deleteNode kernel_ops s h 7 = ret (h', s') \<and>
     wf_list (ll_nodes s') h' [] \<and> ll_nodes s' h = None"
proof -
  obtain p t where pt: "LL_NodePool_AllocateNode boot_list = (p, t)" by (cases "LL_NodePool_AllocateNode boot_list")
  let ?s = "t\<lparr>ll_nodes := (ll_nodes boot_list)(p \<mapsto> fresh_node 7)\<rparr>"
  obtain q where q: "NodePool_AllocateNode sizeof_Node boot_pool = (p, q)" "t = boot_list\<lparr>ll_pool := q\<rparr>"
    using pt by (auto simp: LL_NodePool_AllocateNode_def boot_list_def split: prod.splits)
  have live: "p \<noteq> nullptr" "p \<in> pool_live sizeof_Node q"
    using node_pool.alloc_fresh [OF boot_pool_ok(1) _ q(1)] boot_pool_ok(2) by simp_all
  have ok: "list_ok (kheap_ok {}) ({} - {nullptr}) ?s {} {}"
    using pool_alloc_ok(3) [OF boot_list_ok _ pt] live(1) by auto
  have wf: "wf_list (ll_nodes ?s) p ([] @ (p, 7) # [])" using live(1) by (simp add: wf_list_def)
  have "p \<in> pool_live sizeof_Node (ll_pool ?s) \<union> {}" using live(2) by (simp add: q(2))
  then obtain h' s' where "deleteNode kernel_ops ?s p 7 = ret (h', s')" "wf_list (ll_nodes s') h' []" "ll_nodes s' p = None"
    using deleteNode_removes_first [OF ok wf] by auto
  then show ?thesis using wf unfolding append_Nil by blast
qed

text \<open>\<open>rotateLeft\<close> moves the first node of a list of two or more to its end and keeps the rest in
  order.\<close>

lemma rotateLeft_rotates:
  assumes "wf_list m (sl_start l) (x # y # zs)" and "2 \<le> sl_count l"
  shows "\<exists>m'. SimpleLinkedList_rotateLeft l m = ret (l\<lparr>sl_start := fst y\<rparr>, m') \<and>
    wf_list m' (fst y) (rotate1 (x # y # zs))"
  using rotateLeft_ok [OF assms] by simp

definition two_nodes :: node_store where
  "two_nodes = [8 \<mapsto> \<lparr>previous = nullptr, data = 1, next = 16\<rparr>, 16 \<mapsto> \<lparr>previous = 8, data = 2, next = nullptr\<rparr>]"

lemma two_nodes_wf: "wf_list two_nodes 8 [(8, 1), (16, 2)]"
  by (simp add: wf_list_def two_nodes_def)

text \<open>C29. \<open>rotateRight\<close> does not rotate: on every list of two or more nodes it leaves a cycle behind, on
  which counting the nodes from the new start never returns.\<close>

theorem rotateRight_cycle:
  assumes "wf_list m (sl_start l) (x # y # zs)" and "2 \<le> sl_count l"
  shows "\<exists>l' m'. SimpleLinkedList_rotateRight l m = ret (l', m') \<and> length_ll m' (sl_start l') = None"
proof -
  let ?e = "fst (last (y # zs))"
  obtain m' where m': "SimpleLinkedList_rotateRight l m = ret (l\<lparr>sl_start := ?e\<rparr>, m')"
    and closed: "\<forall>p\<in>addrs (x # y # zs). \<exists>n. m' p = Some n \<and> p \<noteq> nullptr \<and> next n \<noteq> nullptr \<and> next n \<in> addrs (x # y # zs)"
    using rotateRight_closed [OF assms] by blast
  have e: "?e \<in> addrs (x # y # zs)" using lastp_in [of "y # zs" nullptr] by (auto simp: lastp_def addrs_simps)
  have "length_loop m' ?e 0 = None"
    by (rule length_loop_closed [of "addrs (x # y # zs)"]) (use closed e in blast)+
  then show ?thesis using m' closed e by (auto simp: length_ll_def)
qed

theorem rotateRight_cycle_witness:
  "\<exists>l' m'. SimpleLinkedList_rotateRight \<lparr>sl_count = 2, sl_start = 8, sl_eternal = False\<rparr> two_nodes = ret (l', m') \<and>
     length_ll m' (sl_start l') = None"
  using rotateRight_cycle [of two_nodes "\<lparr>sl_count = 2, sl_start = 8, sl_eternal = False\<rparr>" "(8, 1)" "(16, 2)" "[]"]
    two_nodes_wf by simp

end
