(* ===== verification/AVLTree.thy ===== *)
theory AVLTree
  imports NodePool HeapOps
begin

text \<open>
  The AVL tree of src/kernel/src/Data-structures/AVLTree.cpp. A tree is a datatype whose nodes carry
  their address; no operation shares or ties nodes, so the pointers of the code are subtrees here. A
  rotation has two views: the tree from the node it returns, and the tree from the old root pointer,
  which is what is left when the caller drops the result, as \<open>deleteNode\<close> does. Nodes come from the
  pool or from the heap, whose state is threaded through.
\<close>

section \<open>Nodes\<close>

datatype avl = Null | Node (avl_addr: ptr) (avl_key: u64) (avl_extraData: u64) (avl_left: avl) (avl_right: avl) (avl_h: u64)

record 'h avl_state =
  av_pool :: node_pool
  av_heap :: 'h

abbreviation sizeof_AVLNode :: u64 where
  "sizeof_AVLNode \<equiv> 40"

definition avl_height :: "avl \<Rightarrow> u64" where
  "avl_height root = (case root of Null \<Rightarrow> 0 | Node _ _ _ _ _ h \<Rightarrow> h)"

definition avl_newNode :: "'h heap_ops \<Rightarrow> 'h avl_state \<Rightarrow> u64 \<Rightarrow> u64 \<Rightarrow> (avl \<times> 'h avl_state) prog" where
  "avl_newNode A s k e =
     bindP
       (if new_initialised A (av_heap s) then
          bindP (op_new A sizeof_AVLNode (av_heap s)) (\<lambda>(node, h). ret (node, s\<lparr>av_heap := h\<rparr>))
        else
          (let (node, p) = NodePool_AllocateNode sizeof_AVLNode (av_pool s) in ret (node, s\<lparr>av_pool := p\<rparr>)))
       (\<lambda>(node, s). if node = nullptr then ret (Null, s) else ret (Node node k e Null Null 1, s))"

section \<open>Rotations\<close>

text \<open>The result is the returned root and the tree seen from the old root.\<close>

fun rightRotate :: "avl \<Rightarrow> (avl \<times> avl) prog" where
  "rightRotate (Node a k e (Node xa xk xe xl T2 xh) r h) =
     (let root = Node a k e T2 r (ulmax (avl_height T2) (avl_height r) + 1);
          x = Node xa xk xe xl root (ulmax (avl_height xl) (avl_height root) + 1)
      in ret (x, root))"
| "rightRotate _ = stop NullDeref"

fun leftRotate :: "avl \<Rightarrow> (avl \<times> avl) prog" where
  "leftRotate (Node a k e l (Node ya yk ye T2 yr yh) h) =
     (let root = Node a k e l T2 (ulmax (avl_height l) (avl_height T2) + 1);
          y = Node ya yk ye root yr (ulmax (avl_height root) (avl_height yr) + 1)
      in ret (y, root))"
| "leftRotate _ = stop NullDeref"

definition getBalance :: "avl \<Rightarrow> int" where
  "getBalance n = (case n of Null \<Rightarrow> 0 | Node _ _ _ l r _ \<Rightarrow> sint (avl_height l - avl_height r))"

definition key_of :: "avl \<Rightarrow> u64 prog" where
  "key_of n = (case n of Null \<Rightarrow> stop NullDeref | Node _ k _ _ _ _ \<Rightarrow> ret k)"

text \<open>\<open>c1 && c2\<close> where \<open>c2\<close> reads the key of a child.\<close>

definition and_key :: "bool \<Rightarrow> avl \<Rightarrow> (u64 \<Rightarrow> bool) \<Rightarrow> bool prog" where
  "and_key c n p = (if c then bindP (key_of n) (\<lambda>k. ret (p k)) else ret False)"

section \<open>Insertion\<close>

text \<open>Steps 2 and 3 of \<open>insert\<close>, on the node whose subtrees are in place.\<close>

definition insert_rebalance :: "u64 \<Rightarrow> ptr \<Rightarrow> u64 \<Rightarrow> u64 \<Rightarrow> avl \<Rightarrow> avl \<Rightarrow> avl prog" where
  "insert_rebalance k a rk e l r =
     (let root = Node a rk e l r (1 + ulmax (avl_height l) (avl_height r));
          balance = getBalance root in
      bindP (and_key (balance > 1) l (\<lambda>lk. k < lk)) (\<lambda>left_left.
      if left_left then bindP (rightRotate root) (\<lambda>(x, _). ret x)
      else bindP (and_key (balance < - 1) r (\<lambda>rk. k > rk)) (\<lambda>right_right.
      if right_right then bindP (leftRotate root) (\<lambda>(y, _). ret y)
      else bindP (and_key (balance > 1) l (\<lambda>lk. k > lk)) (\<lambda>left_right.
      if left_right then
        bindP (leftRotate l) (\<lambda>(l', _).
        bindP (rightRotate (Node a rk e l' r (1 + ulmax (avl_height l) (avl_height r)))) (\<lambda>(x, _). ret x))
      else bindP (and_key (balance < - 1) r (\<lambda>rk. k < rk)) (\<lambda>right_left.
      if right_left then bindP (leftRotate root) (\<lambda>(y, _). ret y)
      else ret root)))))"

fun avl_insert :: "'h heap_ops \<Rightarrow> 'h avl_state \<Rightarrow> avl \<Rightarrow> u64 \<Rightarrow> u64 \<Rightarrow> (avl \<times> 'h avl_state) prog" where
  "avl_insert A s Null k d = avl_newNode A s k d"
| "avl_insert A s (Node a rk e l r h) k d =
     (if k < rk then
        bindP (avl_insert A s l k d) (\<lambda>(l, s). bindP (insert_rebalance k a rk e l r) (\<lambda>t. ret (t, s)))
      else if k > rk then
        bindP (avl_insert A s r k d) (\<lambda>(r, s). bindP (insert_rebalance k a rk e l r) (\<lambda>t. ret (t, s)))
      else ret (Node a rk e l r h, s))"

section \<open>Lookup\<close>

fun avl_findNode :: "avl \<Rightarrow> u64 \<Rightarrow> avl" where
  "avl_findNode Null k = Null"
| "avl_findNode (Node a rk e l r h) k =
     (if rk = k then Node a rk e l r h
      else if r \<noteq> Null \<and> rk < k then avl_findNode r k
      else if l \<noteq> Null \<and> rk > k then avl_findNode l k
      else Null)"

fun findNodeOrHigher :: "avl \<Rightarrow> u64 \<Rightarrow> avl" where
  "findNodeOrHigher Null k = Null"
| "findNodeOrHigher (Node a rk e l r h) k =
     (let root = Node a rk e l r h; temp = avl_findNode root k in
      if temp \<noteq> Null then temp
      else if rk \<ge> k then
        (let node = findNodeOrHigher l k in if node = Null then root else node)
      else findNodeOrHigher r k)"

fun minValueNode :: "avl \<Rightarrow> avl prog" where
  "minValueNode Null = stop NullDeref"
| "minValueNode (Node a k e l r h) = (if l \<noteq> Null then minValueNode l else ret (Node a k e l r h))"

fun getParent :: "avl \<Rightarrow> u64 \<Rightarrow> avl" where
  "getParent Null k = Null"
| "getParent (Node a rk e l r h) k =
     (case (l, r) of
        (Node _ lk _ _ _ _, Node _ rk' _ _ _ _) \<Rightarrow>
          if lk = k \<or> rk' = k then Node a rk e l r h
          else if rk < k then getParent r k
          else if rk > k then getParent l k
          else Null
      | _ \<Rightarrow> Null)"

section \<open>Deletion\<close>

definition avl_release :: "'h heap_ops \<Rightarrow> 'h avl_state \<Rightarrow> ptr \<Rightarrow> 'h avl_state prog" where
  "avl_release A s node =
     (if NodePool_IsInPool sizeof_AVLNode (av_pool s) node
      then ret (s\<lparr>av_pool := snd (NodePool_FreeNode sizeof_AVLNode (av_pool s) node)\<rparr>)
      else if new_initialised A (av_heap s)
      then bindP (op_delete A node (av_heap s)) (\<lambda>h. ret (s\<lparr>av_heap := h\<rparr>))
      else ret s)"

text \<open>
  Steps 2 and 3 of \<open>deleteNode\<close>. The roots the rotations return are dropped, so what remains is the
  tree from the old pointer; each condition reads the node again.
\<close>

definition dropped :: "(avl \<Rightarrow> (avl \<times> avl) prog) \<Rightarrow> avl \<Rightarrow> avl prog" where
  "dropped rot t = bindP (rot t) (\<lambda>(_, old). ret old)"

definition drop_left :: "avl \<Rightarrow> avl prog" where
  "drop_left t = (case t of Null \<Rightarrow> stop NullDeref
     | Node a k e l r h \<Rightarrow> bindP (dropped leftRotate l) (\<lambda>l. ret (Node a k e l r h)))"

definition drop_right :: "avl \<Rightarrow> avl prog" where
  "drop_right t = (case t of Null \<Rightarrow> stop NullDeref
     | Node a k e l r h \<Rightarrow> bindP (dropped rightRotate r) (\<lambda>r. ret (Node a k e l r h)))"

definition delete_rebalance :: "avl \<Rightarrow> avl prog" where
  "delete_rebalance t =
     (case t of Null \<Rightarrow> ret Null
      | Node a k e l r _ \<Rightarrow>
        let t = Node a k e l r (1 + ulmax (avl_height l) (avl_height r));
            balance = getBalance t in
        bindP (if balance > 1 \<and> getBalance (avl_left t) \<ge> 0 then dropped rightRotate t else ret t) (\<lambda>t.
        bindP (if balance > 1 \<and> getBalance (avl_left t) < 0
               then bindP (drop_left t) (dropped rightRotate) else ret t) (\<lambda>t.
        bindP (if balance < - 1 \<and> getBalance (avl_right t) \<le> 0 then dropped leftRotate t else ret t) (\<lambda>t.
        if balance < - 1 \<and> getBalance (avl_right t) > 0
        then bindP (drop_right t) (dropped leftRotate) else ret t))))"

fun avl_deleteNode :: "'h heap_ops \<Rightarrow> 'h avl_state \<Rightarrow> avl \<Rightarrow> u64 \<Rightarrow> (avl \<times> 'h avl_state) prog" where
  "avl_deleteNode A s Null k = ret (Null, s)"
| "avl_deleteNode A s (Node a rk e l r h) k =
     bindP
       (if k < rk then
          bindP (avl_deleteNode A s l k) (\<lambda>(l, s). ret (Node a rk e l r h, s))
        else if k > rk then
          bindP (avl_deleteNode A s r k) (\<lambda>(r, s). ret (Node a rk e l r h, s))
        else if l = Null then bindP (avl_release A s a) (\<lambda>s. ret (r, s))
        else if r = Null then bindP (avl_release A s a) (\<lambda>s. ret (l, s))
        else
          bindP (bindP (minValueNode r) key_of) (\<lambda>tk.
          bindP (avl_deleteNode A s r tk) (\<lambda>(r, s). ret (Node a tk e l r h, s))))
       (\<lambda>(t, s). bindP (delete_rebalance t) (\<lambda>t. ret (t, s)))"

end
