(* ===== verification/AVLTreeCorrect.thy ===== *)
theory AVLTreeCorrect
  imports AVLTree LinkedListCorrect "HOL-Library.Sublist"
begin

text \<open>
  The AVL tree as a finite map: \<open>entries\<close> lists the keys and their data from left to right, and a
  search tree has them in increasing order. Rotations keep the entries, so insertion adds exactly one
  entry; lookup finds the entry of a key, or the next one up. \<open>heights_ok\<close> says that the height fields are
  the heights of the subtrees; with it insertion never follows a null pointer.

  Two parts of the code do not do what they are for, and the lemmas say so: the right-left case of
  \<open>insert\<close> leaves the tree unbalanced, and \<open>deleteNode\<close> drops the subtrees its rotations return.
\<close>

section \<open>Entries\<close>

fun entries :: "avl \<Rightarrow> (u64 \<times> u64) list" where
  "entries Null = []"
| "entries (Node a k e l r h) = entries l @ (k, e) # entries r"

definition keys :: "avl \<Rightarrow> u64 set" where
  "keys t = fst ` set (entries t)"

definition ascending :: "(u64 \<times> u64) list \<Rightarrow> bool" where
  "ascending = sorted_wrt (\<lambda>x y. fst x < fst y)"

definition bst :: "avl \<Rightarrow> bool" where
  "bst t \<longleftrightarrow> ascending (entries t)"

fun ins_entry :: "u64 \<Rightarrow> u64 \<Rightarrow> (u64 \<times> u64) list \<Rightarrow> (u64 \<times> u64) list" where
  "ins_entry k d [] = [(k, d)]"
| "ins_entry k d ((a, e) # xs) =
     (if k < a then (k, d) # (a, e) # xs else if k = a then (a, e) # xs else (a, e) # ins_entry k d xs)"

named_theorems avl_simps \<open>entries, keys and order of trees\<close>

lemma ascending_simps [avl_simps]:
  "ascending []" "ascending (x # xs) \<longleftrightarrow> (\<forall>y\<in>set xs. fst x < fst y) \<and> ascending xs"
  "ascending (xs @ ys) \<longleftrightarrow> ascending xs \<and> ascending ys \<and> (\<forall>x\<in>set xs. \<forall>y\<in>set ys. fst x < fst y)"
  by (auto simp: ascending_def sorted_wrt_append)

lemma keys_simps [avl_simps]: "keys Null = {}" "keys (Node a k e l r h) = insert k (keys l \<union> keys r)"
  by (auto simp: keys_def)

lemma bst_simps [avl_simps]: "bst Null"
  "bst (Node a k e l r h) \<longleftrightarrow> bst l \<and> bst r \<and> (\<forall>x\<in>keys l. x < k) \<and> (\<forall>x\<in>keys r. k < x)"
  by (auto simp: bst_def keys_def avl_simps) (metis fst_conv order_less_trans)

lemma ins_entry_less: "\<forall>y\<in>set ys. k < fst y \<Longrightarrow> ins_entry k d (xs @ ys) = ins_entry k d xs @ ys"
  by (induction k d xs rule: ins_entry.induct) (cases ys; auto)+

lemma ins_entry_greater: "\<forall>x\<in>set xs. fst x < k \<Longrightarrow> ins_entry k d (xs @ ys) = xs @ ins_entry k d ys"
  by (induction xs) auto

lemma ins_entry_same: "ascending xs \<Longrightarrow> k \<in> fst ` set xs \<Longrightarrow> ins_entry k d xs = xs"
  by (induction k d xs rule: ins_entry.induct) (auto simp: avl_simps)

lemma ins_entry_keys: "fst ` set (ins_entry k d xs) = insert k (fst ` set xs)"
  by (induction k d xs rule: ins_entry.induct) auto

lemma ins_entry_ascending: "ascending xs \<Longrightarrow> ascending (ins_entry k d xs)"
proof (induction k d xs rule: ins_entry.induct)
  case (2 k d a e xs)
  have asc: "\<forall>y\<in>set xs. a < fst y" "ascending xs" using 2(2) by (simp_all add: ascending_simps)
  have gt: "a < fst y" if "\<not> k < a" "k \<noteq> a" "y \<in> set (ins_entry k d xs)" for y
  proof -
    have "fst y \<in> insert k (fst ` set xs)" using that(3) ins_entry_keys [of k d xs] by blast
    then show ?thesis using asc(1) that(1,2) by auto
  qed
  show ?case
  proof (cases "k < a")
    case True
    then show ?thesis using asc by (auto simp: ascending_simps)
  next
    case False
    then show ?thesis using asc gt 2(1) by (auto simp: ascending_simps)
  qed
qed (simp add: avl_simps)

lemma ins_entry_lookup:
  "ascending xs \<Longrightarrow> map_of (ins_entry k d xs) = (case map_of xs k of None \<Rightarrow> (map_of xs)(k \<mapsto> d) | Some _ \<Rightarrow> map_of xs)"
proof (induction k d xs rule: ins_entry.induct)
  case (2 k d a e xs)
  have "map_of xs k = None" if "k < a" using 2(2) that by (auto simp: avl_simps map_of_eq_None_iff)
  with 2 show ?case by (auto simp: avl_simps split: option.splits)
qed simp

section \<open>Rotations and insertion\<close>

lemma rightRotate_entries: "rightRotate t = ret (x, old) \<Longrightarrow> entries x = entries t"
  by (cases t rule: rightRotate.cases) (auto simp: Let_def)

lemma leftRotate_entries: "leftRotate t = ret (x, old) \<Longrightarrow> entries x = entries t"
  by (cases t rule: leftRotate.cases) (auto simp: Let_def)

lemma insert_rebalance_entries:
  "insert_rebalance k a rk e l r = ret t \<Longrightarrow> entries t = entries l @ (rk, e) # entries r"
  by (auto simp: insert_rebalance_def Let_def prog_elims split: if_splits
      dest!: rightRotate_entries leftRotate_entries)

lemma avl_newNode_cases:
  assumes "avl_newNode A s k d = ret (n, s')"
  shows "n = Null \<or> (\<exists>a. a \<noteq> nullptr \<and> n = Node a k d Null Null 1)"
  using assms unfolding avl_newNode_def bindP_eq_ret by (auto split: if_splits)

text \<open>What \<open>insert\<close> does to the entries: nothing when the key is there or no node could be had, and
  otherwise the new entry goes to its place.\<close>

lemma avl_insert_entries:
  assumes "bst t" "avl_insert A s t k d = ret (t', s')"
  shows "if k \<in> keys t then entries t' = entries t
    else \<exists>n. avl_newNode A s k d = ret (n, s') \<and>
           entries t' = (if n = Null then entries t else ins_entry k d (entries t))"
  using assms
proof (induction A s t k d arbitrary: t' s' rule: avl_insert.induct)
  case (1 A s k d)
  then have "avl_newNode A s k d = ret (t', s')" by simp
  then show ?case using avl_newNode_cases [of A s k d t' s'] by (auto simp: keys_simps)
next
  case (2 A s a rk e l r h k d)
  have b: "bst l" "bst r" "\<forall>x\<in>keys l. x < rk" "\<forall>x\<in>keys r. rk < x" using 2(3) by (auto simp: avl_simps)
  then have lt: "\<forall>x\<in>set (entries l). fst x < rk" and gt: "\<forall>y\<in>set (entries r). rk < fst y" by (auto simp: keys_def)
  consider (less) "k < rk" | (greater) "k > rk" | (eq) "k = rk" by fastforce
  then show ?case
  proof cases
    case less
    then obtain l' where l': "avl_insert A s l k d = ret (l', s')" "insert_rebalance k a rk e l' r = ret t'"
      using 2(4) by (auto simp: prog_elims split: prod.splits)
    have "k \<notin> keys r" using less b(4) by auto
    moreover have "ins_entry k d (entries l @ (rk, e) # entries r) = ins_entry k d (entries l) @ (rk, e) # entries r"
      using less gt by (intro ins_entry_less) auto
    ultimately show ?thesis
      using 2(1) [OF less b(1) l'(1)] insert_rebalance_entries [OF l'(2)] less
      by (auto simp: avl_simps split: if_splits)
  next
    case greater
    then have nless: "\<not> k < rk" by auto
    obtain r' where r': "avl_insert A s r k d = ret (r', s')" "insert_rebalance k a rk e l r' = ret t'"
      using 2(4) greater nless by (auto simp: prog_elims split: prod.splits)
    have "k \<notin> keys l" using greater b(3) by auto
    moreover have "ins_entry k d (entries l @ (rk, e) # entries r) = entries l @ (rk, e) # ins_entry k d (entries r)"
      using greater lt by (subst ins_entry_greater) auto
    ultimately show ?thesis
      using 2(2) [OF nless greater b(2) r'(1)] insert_rebalance_entries [OF r'(2)] greater
      by (auto simp: avl_simps split: if_splits)
  next
    case eq
    then show ?thesis using 2(4) by (auto simp: avl_simps)
  qed
qed

lemma bst_insert: "bst t \<Longrightarrow> avl_insert A s t k d = ret (t', s') \<Longrightarrow> bst t'"
  using avl_insert_entries [of t A s k d t' s'] by (auto simp: bst_def ins_entry_ascending split: if_splits)

section \<open>Heights\<close>

fun rheight :: "avl \<Rightarrow> nat" where
  "rheight Null = 0"
| "rheight (Node a k e l r h) = Suc (max (rheight l) (rheight r))"

fun heights_ok :: "avl \<Rightarrow> bool" where
  "heights_ok Null \<longleftrightarrow> True"
| "heights_ok (Node a k e l r h) \<longleftrightarrow>
     h = of_nat (Suc (max (rheight l) (rheight r))) \<and> heights_ok l \<and> heights_ok r"

lemma rheight_le: "rheight t \<le> length (entries t)"
  by (induction t) auto

lemma avl_height_ok: "heights_ok t \<Longrightarrow> avl_height t = of_nat (rheight t)"
  by (cases t) (auto simp: avl_height_def)

lemma of_nat_max: "a < 2 ^ 62 \<Longrightarrow> b < 2 ^ 62 \<Longrightarrow> max (of_nat a) (of_nat b) = (of_nat (max a b) :: u64)"
  by (auto simp: max_def word_le_nat_alt unat_of_nat64)

lemma height_fields [avl_simps]:
  assumes "heights_ok l" "heights_ok r" "rheight l < 2 ^ 62" "rheight r < 2 ^ 62"
  shows "ulmax (avl_height l) (avl_height r) = of_nat (max (rheight l) (rheight r))"
  using assms by (simp add: avl_height_ok of_nat_max)

lemma sint_of_nat_diff:
  assumes "a < 2 ^ 62" "b < 2 ^ 62"
  shows "sint (of_nat a - of_nat b :: u64) = int a - int b"
proof -
  have "(of_nat a - of_nat b :: u64) = word_of_int (int a - int b)" by simp
  then have "sint (of_nat a - of_nat b :: u64) = signed_take_bit 63 (int a - int b)"
    by (simp only: signed_of_int) simp
  also have "\<dots> = int a - int b"
    using assms by (intro signed_take_bit_int_eq_self) auto
  finally show ?thesis .
qed

lemma getBalance_ok:
  assumes "heights_ok l" "heights_ok r" "rheight l < 2 ^ 62" "rheight r < 2 ^ 62"
  shows "getBalance (Node a k e l r h) = int (rheight l) - int (rheight r)"
  using assms by (simp add: getBalance_def avl_height_ok sint_of_nat_diff)

text \<open>Rebalancing after an insertion into a subtree that now holds the key never follows a null
  pointer, and leaves the height fields right.\<close>

lemma rightRotate_ok:
  assumes "heights_ok r" "heights_ok l" "l \<noteq> Null" "rheight l < 2 ^ 61" "rheight r < 2 ^ 61"
  shows "\<exists>x old. rightRotate (Node a k e l r h) = ret (x, old) \<and> heights_ok x \<and> rheight r + 2 \<le> rheight x"
  using assms by (cases l) (auto simp: Let_def height_fields simp del: ulmax_max)

lemma leftRotate_ok:
  assumes "heights_ok r" "heights_ok l" "r \<noteq> Null" "rheight l < 2 ^ 61" "rheight r < 2 ^ 61"
  shows "\<exists>x old. leftRotate (Node a k e l r h) = ret (x, old) \<and> heights_ok x \<and> rheight l + 2 \<le> rheight x"
  using assms by (cases r) (auto simp: Let_def height_fields simp del: ulmax_max)

lemma rheight_of_entries: "entries x = entries t \<Longrightarrow> length (entries t) < n \<Longrightarrow> rheight x < n"
  using rheight_le [of x] by simp

lemma bst_between: "bst (Node a lk e ll lr h) \<Longrightarrow> k \<in> keys (Node a lk e ll lr h) \<Longrightarrow> k > lk \<Longrightarrow> lr \<noteq> Null"
  by (auto simp: avl_simps)

lemma insert_rebalance_ok:
  assumes h: "heights_ok l" "heights_ok r" "length (entries l) < 2 ^ 60" "length (entries r) < 2 ^ 60"
    and bst: "bst l" and k: "k \<in> keys l \<or> rheight l \<le> Suc (rheight r)"
  shows "\<exists>t. insert_rebalance k a rk e l r = ret t \<and> heights_ok t \<and>
    min (Suc (max (rheight l) (rheight r))) (min (rheight l) (rheight r) + 2) \<le> rheight t"
proof -
  let ?b = "int (rheight l) - int (rheight r)"
  have lim: "rheight l < 2 ^ 60" "rheight r < 2 ^ 60" using h(3,4) rheight_le [of l] rheight_le [of r] by simp_all
  let ?h = "1 + ulmax (avl_height l) (avl_height r)"
  let ?root = "Node a rk e l r ?h"
  have root: "heights_ok ?root" using h lim by (simp add: height_fields del: ulmax_max)
  have bal: "getBalance ?root = ?b" using h lim by (intro getBalance_ok) simp_all
  show ?thesis
  proof (cases "?b > 1")
    case True
    then obtain la lk le ll lr lh where l: "l = Node la lk le ll lr lh" by (cases l) auto
    have kl: "k \<in> keys l" using k True by auto
    obtain x1 o1 where x1: "rightRotate ?root = ret (x1, o1)" "heights_ok x1" "rheight r + 2 \<le> rheight x1"
      using rightRotate_ok [of r l a rk e ?h] h lim l by auto
    show ?thesis
    proof (cases "k > lk")
      case gt: True
      have "lr \<noteq> Null" using bst_between [of la lk le ll lr lh k] bst kl gt by (simp add: l)
      then obtain l' o' where l': "leftRotate l = ret (l', o')" "heights_ok l'" "rheight ll + 2 \<le> rheight l'"
        using leftRotate_ok [of lr ll la lk le lh] h(1) lim(1) by (auto simp: l)
      have e: "rheight l' < 2 ^ 60" using rheight_of_entries [OF leftRotate_entries [OF l'(1)] h(3)] .
      have "l' \<noteq> Null" using l'(3) by auto
      then obtain x o2 where x: "rightRotate (Node a rk e l' r ?h) = ret (x, o2)" "heights_ok x" "rheight r + 2 \<le> rheight x"
        using rightRotate_ok [of r l' a rk e ?h] h l' lim e by auto
      show ?thesis
        using True gt l' x bal by (auto simp: insert_rebalance_def and_key_def key_of_def Let_def l simp del: ulmax_max)
    next
      case False
      then show ?thesis
        using True x1 bal root by (auto simp: insert_rebalance_def and_key_def key_of_def Let_def l simp del: ulmax_max)
    qed
  next
    case nb: False
    show ?thesis
    proof (cases "?b < - 1")
      case True
      then obtain ra rk' re rl rr rh where r: "r = Node ra rk' re rl rr rh" by (cases r) auto
      obtain x1 o1 where x1: "leftRotate ?root = ret (x1, o1)" "heights_ok x1" "rheight l + 2 \<le> rheight x1"
        using leftRotate_ok [of r l a rk e ?h] h lim r by auto
      then show ?thesis
        using True nb x1 bal root by (auto simp: insert_rebalance_def and_key_def key_of_def Let_def r simp del: ulmax_max)
    next
      case False
      then show ?thesis using nb bal root by (auto simp: insert_rebalance_def and_key_def Let_def simp del: ulmax_max)
    qed
  qed
qed

fun avl_balanced :: "avl \<Rightarrow> bool" where
  "avl_balanced Null \<longleftrightarrow> True"
| "avl_balanced (Node a k e l r h) \<longleftrightarrow> avl_balanced l \<and> avl_balanced r \<and>
     rheight l \<le> Suc (rheight r) \<and> rheight r \<le> Suc (rheight l)"

lemma insert_rebalance_idle:
  assumes "avl_balanced (Node a rk e l r h)" "heights_ok (Node a rk e l r h)" "length (entries (Node a rk e l r h)) < 2 ^ 60"
  shows "insert_rebalance k a rk e l r = ret (Node a rk e l r h)"
proof -
  have lim: "rheight l < 2 ^ 60" "rheight r < 2 ^ 60" using assms(3) rheight_le [of l] rheight_le [of r] by simp_all
  have "getBalance (Node a rk e l r (1 + ulmax (avl_height l) (avl_height r))) = int (rheight l) - int (rheight r)"
    using assms(2) lim by (intro getBalance_ok) simp_all
  moreover have "1 + ulmax (avl_height l) (avl_height r) = h" using assms(2) lim by (simp add: height_fields del: ulmax_max)
  ultimately show ?thesis using assms(1) by (auto simp: insert_rebalance_def and_key_def Let_def simp del: ulmax_max)
qed

lemma avl_insert_returns:
  assumes "bst t" "heights_ok t" "avl_balanced t" "length (entries t) + 1 < 2 ^ 60" "avl_newNode A s k d = ret (n, s')"
  shows "\<exists>t' s'. avl_insert A s t k d = ret (t', s') \<and> heights_ok t' \<and> rheight t \<le> rheight t' \<and>
    (k \<notin> keys t \<and> n = Null \<longrightarrow> t' = t) \<and> length (entries t') \<le> length (entries t) + 1"
  using assms
proof (induction A s t k d rule: avl_insert.induct)
  case (1 A s k d)
  then show ?case using avl_newNode_cases [OF 1(5)] by (auto simp: keys_simps)
next
  case (2 A s a rk e l r h k d)
  have b: "bst l" "bst r" "\<forall>x\<in>keys l. x < rk" "\<forall>x\<in>keys r. rk < x" using 2(3) by (auto simp: avl_simps)
  have lim: "length (entries l) + 1 < 2 ^ 60" "length (entries r) + 1 < 2 ^ 60" using 2(6) by simp_all
  consider (less) "k < rk" | (greater) "k > rk" "\<not> k < rk" | (eq) "k = rk" by fastforce
  then show ?case
  proof cases
    case less
    obtain l' s1 where l': "avl_insert A s l k d = ret (l', s1)" "heights_ok l'" "rheight l \<le> rheight l'"
        "k \<notin> keys l \<and> n = Null \<longrightarrow> l' = l" "length (entries l') \<le> length (entries l) + 1"
      using 2(1) [OF less b(1)] 2(4,5) lim 2(7) by auto
    have k: "k \<in> keys l' \<or> l' = l"
      using avl_insert_entries [OF b(1) l'(1)] l'(4) 2(7)
      by (cases "k \<in> keys l") (auto simp: keys_def ins_entry_keys split: if_splits)
    then have k': "k \<in> keys l' \<or> rheight l' \<le> Suc (rheight r)" using 2(5) by auto
    have l3: "length (entries l') < 2 ^ 60" using l'(5) lim by linarith
    obtain t' where t': "insert_rebalance k a rk e l' r = ret t'" "heights_ok t'"
        "min (Suc (max (rheight l') (rheight r))) (min (rheight l') (rheight r) + 2) \<le> rheight t'"
      using insert_rebalance_ok [OF l'(2) _ l3 _ bst_insert [OF b(1) l'(1)] k', of a rk e] 2(4) lim by auto
    have "k \<notin> keys (Node a rk e l r h) \<and> n = Null \<longrightarrow> t' = Node a rk e l r h"
      using insert_rebalance_idle [OF 2(5,4), of k] 2(6) t'(1) l'(4) by (auto simp: avl_simps)
    then show ?thesis
      using less l' t' 2(5) insert_rebalance_entries [OF t'(1)] by auto
  next
    case greater
    obtain r' s1 where r': "avl_insert A s r k d = ret (r', s1)" "heights_ok r'" "rheight r \<le> rheight r'"
        "k \<notin> keys r \<and> n = Null \<longrightarrow> r' = r" "length (entries r') \<le> length (entries r) + 1"
      using 2(2) [OF greater(2,1) b(2)] 2(4,5) lim 2(7) by auto
    have k': "k \<in> keys l \<or> rheight l \<le> Suc (rheight r')" using 2(5) r'(3) by auto
    have r3: "length (entries r') < 2 ^ 60" using r'(5) lim by linarith
    obtain t' where t': "insert_rebalance k a rk e l r' = ret t'" "heights_ok t'"
        "min (Suc (max (rheight l) (rheight r'))) (min (rheight l) (rheight r') + 2) \<le> rheight t'"
      using insert_rebalance_ok [OF _ r'(2) _ r3 b(1) k', of a rk e] 2(4) lim by auto
    have "k \<notin> keys (Node a rk e l r h) \<and> n = Null \<longrightarrow> t' = Node a rk e l r h"
      using insert_rebalance_idle [OF 2(5,4), of k] 2(6) t'(1) r'(4) by (auto simp: avl_simps)
    then show ?thesis
      using greater r' t' 2(5) insert_rebalance_entries [OF t'(1)] by auto
  next
    case eq
    then show ?thesis using 2(4) by (auto simp: avl_simps)
  qed
qed

section \<open>Lookup\<close>

lemma findNode_map_of:
  "bst t \<Longrightarrow> (case avl_findNode t k of Null \<Rightarrow> map_of (entries t) k = None
    | Node _ k' e _ _ _ \<Rightarrow> k' = k \<and> map_of (entries t) k = Some e)"
proof (induction t k rule: avl_findNode.induct)
  case (2 a rk e l r h k)
  then have b: "bst l" "bst r" "\<forall>x\<in>keys l. x < rk" "\<forall>x\<in>keys r. rk < x" by (auto simp: avl_simps)
  have n: "map_of (entries l) k = None \<longleftrightarrow> k \<notin> keys l" "map_of (entries r) k = None \<longleftrightarrow> k \<notin> keys r"
    by (auto simp: map_of_eq_None_iff keys_def)
  consider (eq) "rk = k" | (gt) "rk < k" "rk \<noteq> k" | (lt) "k < rk" "rk \<noteq> k" by fastforce
  then show ?case
  proof cases
    case eq
    then have "map_of (entries l) k = None" using b(3) n(1) by auto
    then show ?thesis using eq by (simp add: map_add_def)
  next
    case gt
    then have "map_of (entries l) k = None" using b(3) n(1) by fastforce
    then show ?thesis using gt b 2(1) by (cases "r = Null") (auto simp: map_add_def split: option.splits avl.splits)
  next
    case lt
    then have "map_of (entries r) k = None" using b(4) n(2) by fastforce
    moreover have "\<not> rk < k" using lt by auto
    ultimately show ?thesis using lt b 2(2) by (cases "l = Null") (auto simp: map_add_def split: option.splits avl.splits)
  qed
qed (simp add: avl_simps)

lemma findNode_found: "bst t \<Longrightarrow> avl_findNode t k = Null \<longleftrightarrow> k \<notin> keys t"
  using findNode_map_of [of t k] by (auto simp: keys_def map_of_eq_None_iff split: avl.splits) (metis image_eqI fst_conv map_of_SomeD)

lemma entry_key: "(k, e) \<in> set (entries t) \<Longrightarrow> k \<in> keys t"
  by (force simp: keys_def)

lemma findNodeOrHigher_least:
  "bst t \<Longrightarrow> (case findNodeOrHigher t k of Null \<Rightarrow> \<forall>x\<in>keys t. x < k
    | Node _ k' e _ _ _ \<Rightarrow> (k', e) \<in> set (entries t) \<and> k \<le> k' \<and> (\<forall>x\<in>keys t. k \<le> x \<longrightarrow> k' \<le> x))"
proof (induction t k rule: findNodeOrHigher.induct)
  case (2 a rk e l r h k)
  let ?t = "Node a rk e l r h"
  have b: "bst l" "bst r" "\<forall>x\<in>keys l. x < rk" "\<forall>x\<in>keys r. rk < x" using 2(3) by (auto simp: avl_simps)
  show ?case
  proof (cases "avl_findNode ?t k")
    case (Node a' k' e' l' r' h')
    then have "k' = k" "map_of (entries ?t) k = Some e'"
      using findNode_map_of [OF 2(3), of k] by (simp_all del: avl_findNode.simps entries.simps)
    then have "k' = k" "(k, e') \<in> set (entries ?t)" using map_of_SomeD by fast+
    then show ?thesis using Node by (simp add: Let_def del: avl_findNode.simps)
  next
    case Null
    then have k: "k \<notin> keys ?t" using findNode_found [OF 2(3)] by auto
    show ?thesis
    proof (cases "rk \<ge> k")
      case True
      have IH: "case findNodeOrHigher l k of Null \<Rightarrow> \<forall>x\<in>keys l. x < k
        | Node _ k' e _ _ _ \<Rightarrow> (k', e) \<in> set (entries l) \<and> k \<le> k' \<and> (\<forall>x\<in>keys l. k \<le> x \<longrightarrow> k' \<le> x)"
        using Null by (intro 2(1) [OF refl refl _ True b(1)]) simp
      show ?thesis
      proof (cases "findNodeOrHigher l k")
        case n: Null
        then show ?thesis using Null True IH b by (auto simp: Let_def avl_simps simp del: avl_findNode.simps)
      next
        case (Node a' k' e' l' r' h')
        then have "k' < rk" using IH b(3) entry_key by auto
        then show ?thesis using Null True IH b Node by (force simp: Let_def avl_simps simp del: avl_findNode.simps)
      qed
    next
      case False
      have IH: "case findNodeOrHigher r k of Null \<Rightarrow> \<forall>x\<in>keys r. x < k
        | Node _ k' e _ _ _ \<Rightarrow> (k', e) \<in> set (entries r) \<and> k \<le> k' \<and> (\<forall>x\<in>keys r. k \<le> x \<longrightarrow> k' \<le> x)"
        using Null by (intro 2(2) [OF refl refl _ False b(2)]) simp
      show ?thesis
        using Null False IH b by (cases "findNodeOrHigher r k") (force simp: Let_def avl_simps simp del: avl_findNode.simps)+
    qed
  qed
qed (simp add: avl_simps)

lemma minValueNode_least:
  "t \<noteq> Null \<Longrightarrow> \<exists>a k e r h xs. minValueNode t = ret (Node a k e Null r h) \<and> entries t = (k, e) # xs"
proof (induction t)
  case (Node a k e l r h)
  show ?case
  proof (cases "l = Null")
    case False
    then show ?thesis using Node(1) by (auto simp del: minValueNode.simps(1))
  qed simp
qed simp

section \<open>Deletion\<close>

definition klist :: "avl \<Rightarrow> u64 list" where
  "klist t = map fst (entries t)"

lemma klist_simps [simp]: "klist Null = []" "klist (Node a k e l r h) = klist l @ k # klist r"
  by (simp_all add: klist_def)

lemma subseq_ascending: "subseq xs ys \<Longrightarrow> sorted_wrt (<) ys \<Longrightarrow> sorted_wrt (<) xs" for xs :: "u64 list"
  by (induction rule: list_emb.induct) (use list_emb_set in fastforce)+

lemma keys_klist: "keys t = set (klist t)"
  by (simp add: keys_def klist_def)

lemma bst_klist: "bst t \<longleftrightarrow> sorted_wrt (<) (klist t)"
  by (simp add: bst_def ascending_def klist_def sorted_wrt_map)

lemma dropped_rightRotate: "dropped rightRotate t = ret t' \<Longrightarrow> subseq (klist t') (klist t)"
  by (cases t rule: rightRotate.cases)
    (auto simp: dropped_def Let_def intro!: list_emb_append2 [OF list_emb_Cons [OF subseq_order.refl]])

lemma dropped_leftRotate: "dropped leftRotate t = ret t' \<Longrightarrow> subseq (klist t') (klist t)"
  by (cases t rule: leftRotate.cases) (auto simp: dropped_def Let_def intro: subseq_rev_drop_many)

lemma drop_left_subseq: "drop_left t = ret t' \<Longrightarrow> subseq (klist t') (klist t)"
  by (auto simp: drop_left_def prog_elims split: avl.splits dest!: dropped_leftRotate intro: list_emb_append_mono)

lemma drop_right_subseq: "drop_right t = ret t' \<Longrightarrow> subseq (klist t') (klist t)"
  by (auto simp: drop_right_def prog_elims split: avl.splits dest!: dropped_rightRotate intro!: list_emb_append_mono)

lemmas drop_subseq = dropped_rightRotate dropped_leftRotate drop_left_subseq drop_right_subseq

lemma if_drop_subseq:
  assumes "(if c then f t else ret t) = ret t'" and "\<And>x. f t = ret x \<Longrightarrow> subseq (klist x) (klist t)"
  shows "subseq (klist t') (klist t)"
  using assms by (auto split: if_splits)

lemma delete_rebalance_subseq: "delete_rebalance t = ret t' \<Longrightarrow> subseq (klist t') (klist t)"
proof (cases t)
  case (Node a k e l r h)
  let ?t = "Node a k e l r (1 + ulmax (avl_height l) (avl_height r))"
  let ?b = "getBalance ?t"
  have two: "\<And>f g x y. bindP (f x) g = ret y \<Longrightarrow> (\<And>x y. f x = ret y \<Longrightarrow> subseq (klist y) (klist x)) \<Longrightarrow>
      (\<And>x y. g x = ret y \<Longrightarrow> subseq (klist y) (klist x)) \<Longrightarrow> subseq (klist y) (klist x)"
    unfolding bindP_eq_ret by (metis subseq_order.order_trans)
  assume "delete_rebalance t = ret t'"
  then obtain t1 t2 t3 where
    "(if ?b > 1 \<and> getBalance (avl_left ?t) \<ge> 0 then dropped rightRotate ?t else ret ?t) = ret t1"
    "(if ?b > 1 \<and> getBalance (avl_left t1) < 0 then bindP (drop_left t1) (dropped rightRotate) else ret t1) = ret t2"
    "(if ?b < - 1 \<and> getBalance (avl_right t2) \<le> 0 then dropped leftRotate t2 else ret t2) = ret t3"
    "(if ?b < - 1 \<and> getBalance (avl_right t3) > 0 then bindP (drop_right t3) (dropped leftRotate) else ret t3) = ret t'"
    unfolding delete_rebalance_def Node avl.case Let_def bindP_eq_ret by blast
  then have "subseq (klist t1) (klist ?t)" "subseq (klist t2) (klist t1)" "subseq (klist t3) (klist t2)"
    "subseq (klist t') (klist t3)"
    by - (erule if_drop_subseq; erule drop_subseq two [OF _ drop_left_subseq dropped_rightRotate]
        two [OF _ drop_right_subseq dropped_leftRotate]; assumption?)+
  moreover have "klist ?t = klist t" by (simp add: Node)
  ultimately show ?thesis by (metis subseq_order.order_trans)
qed (auto simp: delete_rebalance_def)

lemma avl_deleteNode_klist:
  "bst t \<Longrightarrow> avl_deleteNode A s t k = ret (t', s') \<Longrightarrow> subseq (klist t') (filter (\<lambda>x. x \<noteq> k) (klist t))"
proof (induction A s t k arbitrary: t' s' rule: avl_deleteNode.induct)
  case (2 A s a rk e l r h k)
  have b: "bst l" "bst r" "\<forall>x\<in>set (klist l). x < rk" "\<forall>x\<in>set (klist r). rk < x"
    using 2(4) by (auto simp: avl_simps keys_klist)
  have skip': "filter (\<lambda>x. x \<noteq> y) xs = xs" if "y \<notin> set xs" for xs and y :: u64 using that by (induction xs) auto
  note skip = skip' [of k]
  let ?K = "filter (\<lambda>x. x \<noteq> k) (klist (Node a rk e l r h))"
  consider (less) "k < rk" "rk \<noteq> k" | (greater) "k > rk" "\<not> k < rk" "rk \<noteq> k" | (eq) "k = rk" by fastforce
  then show ?case
  proof cases
    case less
    then obtain l' s1 where l: "avl_deleteNode A s l k = ret (l', s1)" "delete_rebalance (Node a rk e l' r h) = ret t'"
      using 2(5) by (auto simp: prog_elims split: prod.splits)
    have "k \<notin> set (klist r)" using b less by auto
    then have "subseq (klist (Node a rk e l' r h)) ?K"
      using 2(1) [OF less(1) b(1) l(1)] less by (simp add: skip list_emb_append_mono)
    then show ?thesis using delete_rebalance_subseq [OF l(2)] by (rule subseq_order.order_trans [rotated])
  next
    case greater
    then obtain r' s1 where r: "avl_deleteNode A s r k = ret (r', s1)" "delete_rebalance (Node a rk e l r' h) = ret t'"
      using 2(5) by (auto simp: prog_elims split: prod.splits)
    have "k \<notin> set (klist l)" using b greater by auto
    then have "subseq (klist (Node a rk e l r' h)) ?K"
      using 2(2) [OF greater(2,1) b(2) r(1)] greater by (simp add: skip list_emb_append_mono)
    then show ?thesis using delete_rebalance_subseq [OF r(2)] by (rule subseq_order.order_trans [rotated])
  next
    case eq
    have k: "k \<notin> set (klist l)" "k \<notin> set (klist r)" using b eq by auto
    have K: "?K = klist l @ klist r" using k eq by (simp add: skip')
    consider (l) "l = Null" | (r) "l \<noteq> Null" "r = Null" | (two) "l \<noteq> Null" "r \<noteq> Null" by blast
    then show ?thesis
    proof cases
      case two
      obtain ma mk me mr mh xs where m: "minValueNode r = ret (Node ma mk me Null mr mh)" "entries r = (mk, me) # xs"
        using minValueNode_least [OF two(2)] by blast
      obtain r' s1 where r: "avl_deleteNode A s r mk = ret (r', s1)" "delete_rebalance (Node a mk e l r' h) = ret t'"
        using 2(5) two m eq by (auto simp: prog_elims key_of_def split: prod.splits)
      have "klist r = mk # map fst xs" "mk \<notin> set (map fst xs)" using m(2) b(2) by (auto simp: klist_def bst_def avl_simps)
      then have "mk # filter (\<lambda>x. x \<noteq> mk) (klist r) = klist r" using skip' [of mk "map fst xs"] by simp
      moreover have "subseq (klist r') (filter (\<lambda>x. x \<noteq> mk) (klist r))"
        using 2(3) [OF _ _ two _ b(2) r(1)] eq m(1) by (simp add: key_of_def)
      ultimately have "subseq (mk # klist r') (klist r)" by (metis subseq_Cons2)
      then have "subseq (klist (Node a mk e l r' h)) ?K" unfolding K by (simp add: list_emb_append_mono)
      then show ?thesis using delete_rebalance_subseq [OF r(2)] by (rule subseq_order.order_trans [rotated])
    qed (use 2(5) eq K delete_rebalance_subseq in \<open>auto simp: prog_elims\<close>)
  qed
qed simp

section \<open>The tree as a map\<close>

text \<open>A tree with the pool that is in place before the kernel has a heap.\<close>

definition boot_tree :: "kheap avl_state" where
  "boot_tree = \<lparr>av_pool = NodePool_Init \<lparr>nodePool = 0x200000, nodePool_UsedCount = 0, nodePool_BitmapData = 0x300000,
       nodePool_Bitmap = Bitmap_empty, nodePoolHasBeenInitialised = False, nodePool_mem = (\<lambda>_. 0)\<rparr>,
     av_heap = boot_kheap\<rparr>"

fun avl_insert_all :: "'h heap_ops \<Rightarrow> 'h avl_state \<Rightarrow> avl \<Rightarrow> u64 list \<Rightarrow> (avl \<times> 'h avl_state) prog" where
  "avl_insert_all A s t [] = ret (t, s)"
| "avl_insert_all A s t (k # ks) = bindP (avl_insert A s t k (k * 10)) (\<lambda>(t, s). avl_insert_all A s t ks)"

text \<open>The next \<open>n\<close> allocations succeed.\<close>

fun can_alloc :: "'h heap_ops \<Rightarrow> 'h avl_state \<Rightarrow> nat \<Rightarrow> bool" where
  "can_alloc A s 0 \<longleftrightarrow> True"
| "can_alloc A s (Suc n) \<longleftrightarrow>
     (\<exists>a s'. (\<forall>k d. avl_newNode A s k d = ret (Node a k d Null Null 1, s')) \<and> can_alloc A s' n)"

lemma pool_can_alloc:
  assumes "pool_inv sizeof_AVLNode (av_pool s)" "\<not> new_initialised A (av_heap s)"
    "card (pool_live sizeof_AVLNode (av_pool s)) + n \<le> POOL_SIZE - 1"
  shows "can_alloc A s n"
  using assms
proof (induction n arbitrary: s)
  case (Suc n)
  obtain a q where a: "NodePool_AllocateNode sizeof_AVLNode (av_pool s) = (a, q)" by fastforce
  then have f: "a \<noteq> nullptr" "a \<notin> pool_live sizeof_AVLNode (av_pool s)" "pool_inv sizeof_AVLNode q"
    "pool_live sizeof_AVLNode q = insert a (pool_live sizeof_AVLNode (av_pool s))"
    using node_pool.alloc_fresh [OF Suc(2) _ a] Suc(4) by auto
  have "can_alloc A (s\<lparr>av_pool := q\<rparr>) n"
    using Suc(1) [of "s\<lparr>av_pool := q\<rparr>"] Suc(2-4) f node_pool.finite_live [OF Suc(2)] by simp
  then show ?case using a f(1) Suc(3) by (auto simp: avl_newNode_def intro!: exI [of _ a])
qed simp

lemma boot_tree_can_alloc: "n \<le> POOL_SIZE - 1 \<Longrightarrow> can_alloc kernel_ops boot_tree n"
  by (rule pool_can_alloc)
    (use NodePool_Init_inv [where sizeof = sizeof_AVLNode] in
      \<open>simp_all add: boot_tree_def kernel_ops_def NewDeleteInitialised_def boot_kheap_def\<close>)

lemmas avl_eval = avl_height_def getBalance_def insert_rebalance_def and_key_def key_of_def Let_def

text \<open>Three keys in, and the four-key tree whose first key is deleted below.\<close>

lemma boot_tree_one: "\<exists>a s'. \<forall>k d. avl_newNode kernel_ops boot_tree k d = ret (Node a k d Null Null 1, s')"
  using boot_tree_can_alloc [of 1] by auto

definition tree_4 :: avl where
  "tree_4 = Node 8 2 20 (Node 16 1 10 Null Null 1) (Node 24 3 30 Null (Node 32 4 40 Null Null 1) 2) 3"

lemma tree_4_ok: "bst tree_4" "heights_ok tree_4" "avl_balanced tree_4" "length (entries tree_4) + 1 < 2 ^ 60"
  by (simp_all add: tree_4_def avl_simps)

text \<open>C4. Insertion implements a map update that never overwrites: on a search tree, \<open>insert\<close> returns a search
  tree, and afterwards \<open>findNode\<close> finds exactly what it found before, plus the new key with its data when the
  key was absent and a node could be had.\<close>

theorem avl_insert_find:
  assumes "bst t" and "avl_insert A s t k d = ret (t', s')"
  shows "bst t' \<and> (\<forall>x. (case avl_findNode t' x of Null \<Rightarrow> None | Node _ _ e _ _ _ \<Rightarrow> Some e) =
    (if x = k \<and> k \<notin> keys t then (if \<exists>n. n \<noteq> Null \<and> avl_newNode A s k d = ret (n, s') then Some d else None)
     else (case avl_findNode t x of Null \<Rightarrow> None | Node _ _ e _ _ _ \<Rightarrow> Some e)))"
proof -
  have find: "(case avl_findNode u x of Null \<Rightarrow> None | Node _ _ e _ _ _ \<Rightarrow> Some e) = map_of (entries u) x" if "bst u" for u x
    using findNode_map_of [OF that, of x] by (auto split: avl.splits)
  have b: "bst t'" by (rule bst_insert [OF assms])
  have none: "k \<notin> keys t \<Longrightarrow> map_of (entries t) k = None" by (simp add: keys_def map_of_eq_None_iff)
  have asc: "ascending (entries t)" using assms(1) by (simp add: bst_def)
  show ?thesis
    using b avl_insert_entries [OF assms] none
    by (auto simp: find [OF b] find [OF assms(1)] ins_entry_lookup [OF asc] split: if_splits option.splits)
qed

theorem avl_insert_find_witness:
  "\<exists>t' s'. avl_insert kernel_ops boot_tree tree_4 5 50 = ret (t', s') \<and> bst t' \<and>
     (case avl_findNode t' 5 of Null \<Rightarrow> None | Node _ _ e _ _ _ \<Rightarrow> Some e) = Some 50"
proof -
  obtain a s' where n: "\<forall>k d. avl_newNode kernel_ops boot_tree k d = ret (Node a k d Null Null 1, s')"
    using boot_tree_one by blast
  then obtain t' where t': "avl_insert kernel_ops boot_tree tree_4 5 50 = ret (t', s')"
    by (simp add: tree_4_def avl_eval)
  show ?thesis using avl_insert_find [OF tree_4_ok(1) t'] t' n by (auto simp: tree_4_def avl_simps)
qed

text \<open>C22. Insertion into a tree that is balanced and carries its true heights never follows a null pointer:
  whether or not a node can be had, \<open>insert\<close> returns, with the height fields right again and the tree no lower
  than before.\<close>

theorem avl_insert_safe:
  assumes "bst t" and "heights_ok t" and "avl_balanced t" and "length (entries t) + 1 < 2 ^ 60"
    and "avl_newNode A s k d = ret (n, s')"
  shows "\<exists>t' s'. avl_insert A s t k d = ret (t', s') \<and> heights_ok t' \<and> rheight t \<le> rheight t'"
  using avl_insert_returns [OF assms] by blast

theorem avl_insert_safe_witness:
  "\<exists>t' s'. avl_insert kernel_ops boot_tree tree_4 5 50 = ret (t', s') \<and> heights_ok t'"
  using avl_insert_safe [OF tree_4_ok, of kernel_ops boot_tree 5 50] boot_tree_one by blast



text \<open>C24. \<open>findNodeOrHigher\<close> returns the entry with the least key not below the one asked for, and null exactly when
  every key is below it.\<close>

theorem findNodeOrHigher_correct:
  assumes "bst t"
  shows "case findNodeOrHigher t k of Null \<Rightarrow> \<forall>x\<in>keys t. x < k
    | Node _ k' e _ _ _ \<Rightarrow> (k', e) \<in> set (entries t) \<and> k \<le> k' \<and> (\<forall>x\<in>keys t. k \<le> x \<longrightarrow> k' \<le> x)"
  by (rule findNodeOrHigher_least [OF assms])

theorem findNodeOrHigher_correct_witness:
  "bst tree_4 \<and> avl_key (findNodeOrHigher tree_4 0) = 1 \<and> findNodeOrHigher tree_4 5 = Null"
  using findNodeOrHigher_correct [OF tree_4_ok(1), of 0] findNodeOrHigher_correct [OF tree_4_ok(1), of 5] tree_4_ok(1)
  by (simp add: tree_4_def Let_def avl_simps)

text \<open>C25. Deletion keeps the order: on a search tree \<open>deleteNode\<close>, whenever it returns, leaves a search tree that no
  longer has the key and has no key that was not there.\<close>

theorem avl_deleteNode_bst:
  assumes "bst t" and "avl_deleteNode A s t k = ret (t', s')"
  shows "bst t' \<and> keys t' \<subseteq> keys t - {k}"
proof -
  have sub: "subseq (klist t') (filter (\<lambda>x. x \<noteq> k) (klist t))" by (rule avl_deleteNode_klist [OF assms])
  have "sorted_wrt (<) (filter (\<lambda>x. x \<noteq> k) (klist t))" using assms(1) by (simp add: bst_klist sorted_wrt_filter)
  then have "bst t'" using subseq_ascending [OF sub] by (simp add: bst_klist)
  moreover have "x \<in> set (filter (\<lambda>x. x \<noteq> k) (klist t))" if "x \<in> set (klist t')" for x
    using list_emb_set [OF sub that] by metis
  ultimately show ?thesis by (simp add: keys_klist subset_iff)
qed

lemma boot_release: "avl_release kernel_ops boot_tree 16 = ret boot_tree"
  by (simp add: avl_release_def NodePool_IsInPool_def boot_tree_def NodePool_Init_def Let_def kernel_ops_def
      NewDeleteInitialised_def boot_kheap_def)

lemma delete_tree_4: "avl_release A s 16 = ret s' \<Longrightarrow> avl_deleteNode A s tree_4 1 = ret (Node 8 2 20 Null Null 1, s')"
  by (simp add: tree_4_def avl_eval delete_rebalance_def dropped_def)

theorem avl_deleteNode_bst_witness:
  "\<exists>t' s'. avl_deleteNode kernel_ops boot_tree tree_4 1 = ret (t', s') \<and> bst t' \<and> 1 \<notin> keys t'"
  using avl_deleteNode_bst [OF tree_4_ok(1) delete_tree_4 [OF boot_release]] delete_tree_4 [OF boot_release] by blast



end
