(* ===== verification/Errno.thy ===== *)
theory Errno
  imports Prelude
begin

text \<open>
  The error codes of src/kernel/lib/include/errno.h: the list \<open>ENUMERATE_ERRNO_CODES\<close> the enumeration and
  \<open>strerror\<close> are both generated from. The value of a code is its position in the list.
\<close>

definition ENUMERATE_ERRNO_CODES :: "(string \<times> string) list" where
  "ENUMERATE_ERRNO_CODES = [
     (''ESUCCESS'', ''Success (not an error)''),
     (''EADDRINUSE'', ''address in use''),
     (''EAFNOSUPPORT'', ''address family not supported''),
     (''EADDRNOTAVAIL'', ''address not available''),
     (''EISCONN'', ''already connected''),
     (''E2BIG'', ''argument list too long''),
     (''EDOM'', ''argument out of domain''),
     (''EFAULT'', ''bad address''),
     (''EBADF'', ''bad file descriptor''),
     (''EBADMSG'', ''bad message''),
     (''EPIPE'', ''broken pipe''),
     (''ECONNABORTED'', ''connection aborted''),
     (''EALREADY'', ''connection already in progress''),
     (''ECONNREFUSED'', ''connection refused''),
     (''ECONNRESET'', ''connection reset''),
     (''EXDEV'', ''cross device link''),
     (''EDESTADDRREQ'', ''destination address required''),
     (''EBUSY'', ''device or resource busy''),
     (''ENOTEMPTY'', ''directory not empty''),
     (''ENOEXEC'', ''executable format error''),
     (''EEXIST'', ''file exists''),
     (''EFBIG'', ''file too large''),
     (''ENAMETOOLONG'', ''filename too long''),
     (''ENOSYS'', ''function not supported''),
     (''EHOSTUNREACH'', ''host unreachable''),
     (''EIDRM'', ''identifier removed''),
     (''EILSEQ'', ''illegal byte sequence''),
     (''ENOTTY'', ''inappropriate io control operation''),
     (''EINTR'', ''interrupted''),
     (''EINVAL'', ''invalid argument''),
     (''ESPIPE'', ''invalid seek''),
     (''EIO'', ''io error''),
     (''EISDIR'', ''is a directory''),
     (''EMSGSIZE'', ''message size''),
     (''ENETDOWN'', ''network down''),
     (''ENETRESET'', ''network reset''),
     (''ENETUNREACH'', ''network unreachable''),
     (''ENOBUFS'', ''no buffer space''),
     (''ECHILD'', ''no child process''),
     (''ENOLINK'', ''no link''),
     (''ENOLOCK'', ''no lock available''),
     (''ENOMSG'', ''no message''),
     (''ENODATA'', ''no message available''),
     (''ENOPROTOOPT'', ''no protocol option''),
     (''ENOSPC'', ''no space on device''),
     (''ENOSR'', ''no stream resources''),
     (''ENODEV'', ''no such device''),
     (''ENXIO'', ''no such device or address''),
     (''ENOENT'', ''no such file or directory''),
     (''ESRCH'', ''no such process''),
     (''ENOTDIR'', ''not a directory''),
     (''ENOTSOCK'', ''not a socket''),
     (''ENOSTR'', ''not a stream''),
     (''ENOTCONN'', ''not connected''),
     (''ENOMEM'', ''not enough memory''),
     (''ENOTSUP'', ''not supported''),
     (''ECANCELED'', ''operation canceled''),
     (''EINPROGRESS'', ''operation in progress''),
     (''EPERM'', ''operation not permitted''),
     (''EOPNOTSUPP'', ''operation not supported''),
     (''EWOULDBLOCK'', ''operation would block''),
     (''EOWNERDEAD'', ''owner dead''),
     (''EACCES'', ''permission denied''),
     (''EPROTO'', ''protocol error''),
     (''EPROTONOSUPPORT'', ''protocol not supported''),
     (''EROFS'', ''read only file system''),
     (''EDEADLK'', ''resource deadlock would occur''),
     (''EAGAIN'', ''resource unavailable try again''),
     (''ERANGE'', ''result out of range''),
     (''ENOTRECOVERABLE'', ''state not recoverable''),
     (''ETIME'', ''stream timeout''),
     (''ETXTBSY'', ''text file busy''),
     (''ETIMEDOUT'', ''timed out''),
     (''EMFILE'', ''too many files open''),
     (''ENFILE'', ''too many files open in system''),
     (''EMLINK'', ''too many links''),
     (''ELOOP'', ''too many symbolic link levels''),
     (''EOVERFLOW'', ''value too large''),
     (''EPROTOTYPE'', ''wrong protocol type'')]"

definition ErrorCodes :: "string \<Rightarrow> int option" where
  "ErrorCodes c = map_option int (map_of (zip (map fst ENUMERATE_ERRNO_CODES) [0..<length ENUMERATE_ERRNO_CODES]) c)"

abbreviation (input) ESUCCESS :: int where
  "ESUCCESS \<equiv> 0"

abbreviation (input) ENOSYS :: int where
  "ENOSYS \<equiv> 23"

abbreviation (input) EINVAL :: int where
  "EINVAL \<equiv> 29"

abbreviation (input) EFAULT :: int where
  "EFAULT \<equiv> 7"

abbreviation (input) EACCES :: int where
  "EACCES \<equiv> 62"

abbreviation (input) EBADF :: int where
  "EBADF \<equiv> 8"

abbreviation (input) ENOENT :: int where
  "ENOENT \<equiv> 48"

abbreviation (input) ENOLINK :: int where
  "ENOLINK \<equiv> 39"

abbreviation (input) ENODEV :: int where
  "ENODEV \<equiv> 46"

abbreviation (input) EISDIR :: int where
  "EISDIR \<equiv> 32"

abbreviation (input) ENOMEM :: int where
  "ENOMEM \<equiv> 54"

abbreviation (input) ENOTDIR :: int where
  "ENOTDIR \<equiv> 50"

abbreviation (input) EPERM :: int where
  "EPERM \<equiv> 58"

abbreviation (input) EAGAIN :: int where
  "EAGAIN \<equiv> 67"

abbreviation (input) ENOTEMPTY :: int where
  "ENOTEMPTY \<equiv> 18"

abbreviation (input) ENOEXEC :: int where
  "ENOEXEC \<equiv> 19"

abbreviation (input) EBUSY :: int where
  "EBUSY \<equiv> 17"

abbreviation (input) EMFILE :: int where
  "EMFILE \<equiv> 73"

text \<open>The codes the model uses are the ones of the enumeration.\<close>

lemma errno_values:
  "ErrorCodes ''ESUCCESS'' = Some ESUCCESS"
  "ErrorCodes ''ENOSYS'' = Some ENOSYS"
  "ErrorCodes ''EINVAL'' = Some EINVAL"
  "ErrorCodes ''EFAULT'' = Some EFAULT"
  "ErrorCodes ''EACCES'' = Some EACCES"
  "ErrorCodes ''EBADF'' = Some EBADF"
  "ErrorCodes ''ENOENT'' = Some ENOENT"
  "ErrorCodes ''ENOLINK'' = Some ENOLINK"
  "ErrorCodes ''ENODEV'' = Some ENODEV"
  "ErrorCodes ''EISDIR'' = Some EISDIR"
  "ErrorCodes ''ENOMEM'' = Some ENOMEM"
  "ErrorCodes ''ENOTDIR'' = Some ENOTDIR"
  "ErrorCodes ''EPERM'' = Some EPERM"
  "ErrorCodes ''EAGAIN'' = Some EAGAIN"
  "ErrorCodes ''ENOTEMPTY'' = Some ENOTEMPTY"
  "ErrorCodes ''ENOEXEC'' = Some ENOEXEC"
  "ErrorCodes ''EBUSY'' = Some EBUSY"
  "ErrorCodes ''EMFILE'' = Some EMFILE"
  by (simp_all add: ErrorCodes_def ENUMERATE_ERRNO_CODES_def upt_rec)

end
