(* ===== verification/CString.thy ===== *)
theory CString
  imports Errno Util
begin

unbundle bit_operations_syntax

text \<open>
  The C library the kernel and the programs are linked with: src/kernel/lib/src/string.c, stdlib.c and math.c, and
  string.c, stdlib.c, inttypes.c and ctype.c of src/Userland/Libraries/LibC/src. A string is an address in
  byte memory; \<open>char\<close> is signed, so comparisons and digits read a byte with \<open>sint\<close>. A scan for the terminating
  zero may run forever. Signed arithmetic that leaves its type is undefined in C and stops with a fault.
\<close>

section \<open>string.c\<close>

partial_function (option) strlen_loop :: "memory \<Rightarrow> ptr \<Rightarrow> u64 \<Rightarrow> u64 prog" where
  "strlen_loop mem str len =
     (if mem (str + len) \<noteq> 0 then strlen_loop mem str (len + 1) else ret len)"

definition strlen :: "memory \<Rightarrow> ptr \<Rightarrow> u64 prog" where
  "strlen mem str = strlen_loop mem str 0"

partial_function (option) strcpy_loop :: "memory \<Rightarrow> ptr \<Rightarrow> ptr \<Rightarrow> u64 \<Rightarrow> memory prog" where
  "strcpy_loop mem dst src i =
     (let mem = mem(dst + i := mem (src + i)) in
      if mem (src + i) = 0 then ret mem else strcpy_loop mem dst src (i + 1))"

definition strcpy :: "memory \<Rightarrow> ptr \<Rightarrow> ptr \<Rightarrow> (ptr \<times> memory) prog" where
  "strcpy mem dst src =
     (if dst = nullptr \<or> src = nullptr then ret (dst, mem)
      else bindP (strcpy_loop mem dst src 0) (\<lambda>mem. ret (dst, mem)))"

primrec strncpy_loop :: "nat \<Rightarrow> memory \<Rightarrow> ptr \<Rightarrow> ptr \<Rightarrow> u64 \<Rightarrow> memory" where
  "strncpy_loop 0 mem dst src i = mem"
| "strncpy_loop (Suc n) mem dst src i =
     (let mem = mem(dst + i := mem (src + i)) in
      if mem (src + i) = 0 then mem else strncpy_loop n mem dst src (i + 1))"

definition strncpy :: "memory \<Rightarrow> ptr \<Rightarrow> ptr \<Rightarrow> u64 \<Rightarrow> ptr \<times> memory" where
  "strncpy mem dst src n =
     (if dst = nullptr \<or> src = nullptr then (nullptr, mem)
      else (dst, strncpy_loop (unat n) mem dst src 0))"

partial_function (option) strcmp_loop :: "memory \<Rightarrow> ptr \<Rightarrow> ptr \<Rightarrow> u64 \<Rightarrow> int prog" where
  "strcmp_loop mem str1 str2 i =
     (if mem (str1 + i) \<noteq> mem (str2 + i)
      then ret (if sint (mem (str1 + i)) > sint (mem (str2 + i)) then 1 else - 1)
      else if mem (str1 + i) = 0 then ret 0
      else strcmp_loop mem str1 str2 (i + 1))"

definition strcmp :: "memory \<Rightarrow> ptr \<Rightarrow> ptr \<Rightarrow> int prog" where
  "strcmp mem str1 str2 = strcmp_loop mem str1 str2 0"

primrec strncmp_loop :: "nat \<Rightarrow> memory \<Rightarrow> ptr \<Rightarrow> ptr \<Rightarrow> u64 \<Rightarrow> int" where
  "strncmp_loop 0 mem str1 str2 i = 0"
| "strncmp_loop (Suc n) mem str1 str2 i =
     (if mem (str1 + i) \<noteq> mem (str2 + i)
      then (if sint (mem (str1 + i)) > sint (mem (str2 + i)) then 1 else - 1)
      else strncmp_loop n mem str1 str2 (i + 1))"

definition strncmp :: "memory \<Rightarrow> ptr \<Rightarrow> ptr \<Rightarrow> u64 \<Rightarrow> int" where
  "strncmp mem str1 str2 n = strncmp_loop (unat n) mem str1 str2 0"

partial_function (option) strchr_loop :: "memory \<Rightarrow> ptr \<Rightarrow> u8 \<Rightarrow> u64 \<Rightarrow> ptr prog" where
  "strchr_loop mem str c i =
     (if mem (str + i) = 0 then ret nullptr
      else if mem (str + i) = c then ret (str + i)
      else strchr_loop mem str c (i + 1))"

definition strchr :: "memory \<Rightarrow> ptr \<Rightarrow> u32 \<Rightarrow> ptr prog" where
  "strchr mem str character =
     (if str = nullptr then ret str else strchr_loop mem str (ucast character) 0)"

partial_function (option) strrchr_loop :: "memory \<Rightarrow> ptr \<Rightarrow> u8 \<Rightarrow> u64 \<Rightarrow> u64 \<Rightarrow> bool \<Rightarrow> ptr prog" where
  "strrchr_loop mem str c i last_i found =
     (if mem (str + i) = 0 then ret (if found then str + last_i else nullptr)
      else if mem (str + i) = c then strrchr_loop mem str c (i + 1) i True
      else strrchr_loop mem str c (i + 1) last_i found)"

definition strrchr :: "memory \<Rightarrow> ptr \<Rightarrow> u32 \<Rightarrow> ptr prog" where
  "strrchr mem str character =
     (if str = nullptr then ret nullptr else strrchr_loop mem str (ucast character) 0 0 False)"

definition strerror :: "int \<Rightarrow> string" where
  "strerror errnum =
     (if 0 \<le> errnum \<and> nat errnum < length ENUMERATE_ERRNO_CODES
      then snd (ENUMERATE_ERRNO_CODES ! nat errnum) else ''Unknown error'')"

text \<open>Concatenation, in the library of the programs only.\<close>

partial_function (option) strcat_copy :: "memory \<Rightarrow> ptr \<Rightarrow> ptr \<Rightarrow> u64 \<Rightarrow> u64 \<Rightarrow> memory prog" where
  "strcat_copy mem dest src i j =
     (let mem = mem(dest + i := mem (src + j)) in
      if mem (src + j) = 0 then ret mem else strcat_copy mem dest src (i + 1) (j + 1))"

definition strcat :: "memory \<Rightarrow> ptr \<Rightarrow> ptr \<Rightarrow> (ptr \<times> memory) prog" where
  "strcat mem dest src =
     (if dest = nullptr \<or> src = nullptr then ret (dest, mem)
      else bindP (strlen_loop mem dest 0) (\<lambda>i.
           bindP (strcat_copy mem dest src i 0) (\<lambda>mem. ret (dest, mem))))"

primrec strncat_copy :: "nat \<Rightarrow> memory \<Rightarrow> ptr \<Rightarrow> ptr \<Rightarrow> u64 \<Rightarrow> u64 \<Rightarrow> memory" where
  "strncat_copy 0 mem dest src i j = mem"
| "strncat_copy (Suc n) mem dest src i j =
     (let mem = mem(dest + i := mem (src + j)) in
      if mem (src + j) = 0 then mem else strncat_copy n mem dest src (i + 1) (j + 1))"

definition strncat :: "memory \<Rightarrow> ptr \<Rightarrow> ptr \<Rightarrow> u64 \<Rightarrow> (ptr \<times> memory) prog" where
  "strncat mem dest src num =
     (if dest = nullptr \<or> src = nullptr then ret (dest, mem)
      else bindP (strlen_loop mem dest 0) (\<lambda>i. ret (dest, strncat_copy (unat num) mem dest src i 0)))"

section \<open>stdlib.c\<close>

text \<open>A signed value of the given width.\<close>

definition checked :: "nat \<Rightarrow> int \<Rightarrow> int prog" where
  "checked w v = (if - (2 ^ (w - 1)) \<le> v \<and> v < 2 ^ (w - 1) then ret v else stop (Undefined ''signed overflow''))"

text \<open>The digit loop of \<open>atoi\<close> (width 32) and \<open>atol\<close> (width 64); the index is an \<open>int\<close>.\<close>

partial_function (option) ato_loop :: "nat \<Rightarrow> memory \<Rightarrow> ptr \<Rightarrow> int \<Rightarrow> int \<Rightarrow> int prog" where
  "ato_loop w mem str i value =
     (if mem (str + word_of_int i) = 0 then ret value
      else bindP (checked w (value + (sint (mem (str + word_of_int i)) - 48))) (\<lambda>value.
           bindP (checked w (value * 10)) (\<lambda>value.
           bindP (checked 32 (i + 1)) (\<lambda>i. ato_loop w mem str i value))))"

definition atoi :: "memory \<Rightarrow> ptr \<Rightarrow> int prog" where
  "atoi mem str =
     (let is_negative = (mem str = 45) in
      bindP (ato_loop 32 mem str (if is_negative then 1 else 0) 0) (\<lambda>value.
      if is_negative then checked 32 (value * - 1) else ret value))"

definition atol :: "memory \<Rightarrow> ptr \<Rightarrow> int prog" where
  "atol mem str =
     (let is_negative = (mem str = 45) in
      bindP (ato_loop 64 mem str (if is_negative then 1 else 0) 0) (\<lambda>value.
      if is_negative then checked 64 (value * - 1) else ret value))"

text \<open>The kernel's \<open>strtol\<close> and \<open>strtoul\<close> take the string only.\<close>

definition kernel_strtol :: "memory \<Rightarrow> ptr \<Rightarrow> int prog" where
  "kernel_strtol mem str = atol mem str"

partial_function (option) kernel_strtoul_loop :: "memory \<Rightarrow> ptr \<Rightarrow> int \<Rightarrow> u64 \<Rightarrow> u64 prog" where
  "kernel_strtoul_loop mem str i value =
     (if mem (str + word_of_int i) = 0 then ret value
      else let value = value + word_of_int (sint (mem (str + word_of_int i)) - 48);
               value = value * 10
           in bindP (checked 32 (i + 1)) (\<lambda>i. kernel_strtoul_loop mem str i value))"

definition kernel_strtoul :: "memory \<Rightarrow> ptr \<Rightarrow> u64 prog" where
  "kernel_strtoul mem str = kernel_strtoul_loop mem str 0 0"

record rand_state =
  rseed :: u32
  rand_x :: u32
  rand_y :: u32
  rand_z :: u32
  rand_w :: u32

definition rand_init :: rand_state where
  "rand_init = \<lparr>rseed = 1, rand_x = 123456789, rand_y = 362436069, rand_z = 521288629, rand_w = 88675123\<rparr>"

definition srand :: "u32 \<Rightarrow> rand_state \<Rightarrow> rand_state" where
  "srand s r = r\<lparr>rseed := s\<rparr>"

definition rand :: "rand_state \<Rightarrow> u32 \<times> rand_state" where
  "rand r =
     (let x = rand_x r * (23786259 - rseed r);
          t = x XOR (push_bit 11 x);
          w = rand_w r XOR (drop_bit 19 (rand_w r)) XOR t XOR (drop_bit 8 t)
      in (w, r\<lparr>rand_x := rand_y r, rand_y := rand_z r, rand_z := rand_w r, rand_w := w\<rparr>))"

text \<open>
  The digits that \<open>strtol\<close>, \<open>strtoul\<close>, \<open>strtoimax\<close> and \<open>strtoumax\<close> accept in each base. All four run the same
  chain of conditions.
\<close>

definition digit_value :: "int \<Rightarrow> u8 \<Rightarrow> int option" where
  "digit_value base c =
     (if base = 16 \<and> 97 \<le> sint c \<and> sint c \<le> 102 then Some (sint c - 97 + 10)
      else if base = 16 \<and> 65 \<le> sint c \<and> sint c \<le> 70 then Some (sint c - 65 + 10)
      else if base = 16 \<and> 48 \<le> sint c \<and> sint c \<le> 57 then Some (sint c - 48)
      else if base = 10 \<and> 48 \<le> sint c \<and> sint c \<le> 57 then Some (sint c - 48)
      else if base = 8 \<and> 48 \<le> sint c \<and> sint c \<le> 55 then Some (sint c - 48)
      else if base = 2 \<and> 48 \<le> sint c \<and> sint c \<le> 49 then Some (sint c - 48)
      else None)"

text \<open>The result carries what is stored through \<open>endptr\<close>, if anything.\<close>

partial_function (option) strtol_loop :: "memory \<Rightarrow> ptr \<Rightarrow> int \<Rightarrow> int \<Rightarrow> int \<Rightarrow> (int \<times> ptr option) prog" where
  "strtol_loop mem str base i value =
     (if mem (str + word_of_int i) = 0 then ret (value, None)
      else case digit_value base (mem (str + word_of_int i)) of
        None \<Rightarrow> ret (value, Some (str + word_of_int i))
      | Some d \<Rightarrow>
          bindP (checked 64 (value * base)) (\<lambda>value.
          bindP (checked 64 (value + d)) (\<lambda>value.
          bindP (checked 32 (i + 1)) (\<lambda>i. strtol_loop mem str base i value))))"

definition strtol :: "memory \<Rightarrow> ptr \<Rightarrow> int \<Rightarrow> (int \<times> ptr option) prog" where
  "strtol mem str base =
     (let is_negative = (mem str = 45) in
      bindP (strtol_loop mem str base (if is_negative then 1 else 0) 0) (\<lambda>(value, endptr).
      if is_negative then bindP (checked 64 (value * - 1)) (\<lambda>value. ret (value, endptr)) else ret (value, endptr)))"

definition strtoll :: "memory \<Rightarrow> ptr \<Rightarrow> int \<Rightarrow> (int \<times> ptr option) prog" where
  "strtoll mem str base = strtol mem str base"

definition strtoimax :: "memory \<Rightarrow> ptr \<Rightarrow> int \<Rightarrow> (int \<times> ptr option) prog" where
  "strtoimax mem str base =
     (let is_negative = (mem str = 45) in
      bindP (strtol_loop mem str base (if is_negative then 1 else 0) 0) (\<lambda>(value, endptr).
      if is_negative then bindP (checked 64 (value * - 1)) (\<lambda>value. ret (value, endptr)) else ret (value, endptr)))"

partial_function (option) strtoul_loop :: "memory \<Rightarrow> ptr \<Rightarrow> int \<Rightarrow> int \<Rightarrow> u64 \<Rightarrow> (u64 \<times> ptr option) prog" where
  "strtoul_loop mem str base i value =
     (if mem (str + word_of_int i) = 0 then ret (value, None)
      else case digit_value base (mem (str + word_of_int i)) of
        None \<Rightarrow> ret (value, Some (str + word_of_int i))
      | Some d \<Rightarrow>
          let value = value * word_of_int base; value = value + word_of_int d
          in bindP (checked 32 (i + 1)) (\<lambda>i. strtoul_loop mem str base i value))"

definition strtoul :: "memory \<Rightarrow> ptr \<Rightarrow> int \<Rightarrow> (u64 \<times> ptr option) prog" where
  "strtoul mem str base = strtoul_loop mem str base 0 0"

definition strtoull :: "memory \<Rightarrow> ptr \<Rightarrow> int \<Rightarrow> (u64 \<times> ptr option) prog" where
  "strtoull mem str base = strtoul mem str base"

definition strtoumax :: "memory \<Rightarrow> ptr \<Rightarrow> int \<Rightarrow> (u64 \<times> ptr option) prog" where
  "strtoumax mem str base = strtoul_loop mem str base 0 0"

section \<open>math.c\<close>

definition math_max :: "int \<Rightarrow> int \<Rightarrow> int" where
  "math_max a b = (if a > b then a else b)"

definition umax :: "u32 \<Rightarrow> u32 \<Rightarrow> u32" where
  "umax a b = (if a > b then a else b)"

definition math_min :: "int \<Rightarrow> int \<Rightarrow> int" where
  "math_min a b = (if a < b then a else b)"

definition umin :: "u32 \<Rightarrow> u32 \<Rightarrow> u32" where
  "umin a b = (if a < b then a else b)"

definition ulmin :: "u64 \<Rightarrow> u64 \<Rightarrow> u64" where
  "ulmin a b = (if a < b then a else b)"

definition math_abs :: "nat \<Rightarrow> int \<Rightarrow> int prog" where
  "math_abs w n = (if n < 0 then checked w (n * - 1) else ret n)"

section \<open>ctype.c\<close>

definition islower :: "int \<Rightarrow> bool" where
  "islower c \<longleftrightarrow> 97 \<le> c \<and> c \<le> 122"

definition isupper :: "int \<Rightarrow> bool" where
  "isupper c \<longleftrightarrow> 65 \<le> c \<and> c \<le> 90"

definition isalpha :: "int \<Rightarrow> bool" where
  "isalpha c \<longleftrightarrow> islower c \<or> isupper c"

definition isdigit :: "int \<Rightarrow> bool" where
  "isdigit c \<longleftrightarrow> 48 \<le> c \<and> c \<le> 57"

definition isalnum :: "int \<Rightarrow> bool" where
  "isalnum c \<longleftrightarrow> isalpha c \<or> isdigit c"

definition isblank :: "int \<Rightarrow> bool" where
  "isblank c \<longleftrightarrow> c = 32 \<or> c = 9"

definition iscntrl :: "int \<Rightarrow> bool" where
  "iscntrl c \<longleftrightarrow> c < 32 \<or> c = 127"

definition isgraph :: "int \<Rightarrow> bool" where
  "isgraph c \<longleftrightarrow> 33 \<le> c \<and> c \<le> 126"

definition isprint :: "int \<Rightarrow> bool" where
  "isprint c \<longleftrightarrow> 32 \<le> c \<and> c \<le> 126"

definition isspace :: "int \<Rightarrow> bool" where
  "isspace c \<longleftrightarrow> c = 32 \<or> c = 9 \<or> c = 10 \<or> c = 11 \<or> c = 12 \<or> c = 13"

definition ispunct :: "int \<Rightarrow> bool" where
  "ispunct c \<longleftrightarrow> isprint c \<and> \<not> isalnum c \<and> \<not> isspace c"

definition isxdigit :: "int \<Rightarrow> bool" where
  "isxdigit c \<longleftrightarrow> isdigit c \<or> (97 \<le> c \<and> c \<le> 102) \<or> (65 \<le> c \<and> c \<le> 70)"

definition tolower :: "int \<Rightarrow> int" where
  "tolower c = (if isupper c then c - 65 + 97 else c)"

definition toupper :: "int \<Rightarrow> int" where
  "toupper c = (if islower c then c - 97 + 65 else c)"

end
