(* ===== verification/CStringCorrect.thy ===== *)
theory CStringCorrect
  imports CString
begin

text \<open>
  What the C library computes. \<open>cstring mem a xs\<close> says that the zero-terminated string \<open>xs\<close> lies at \<open>a\<close>; the
  scans return on such a string and, for the ones with no other bound, never return in a memory without a zero byte.
  The four number parsers of the programs' library read numbers correctly in the bases 2, 8, 10 and 16; the
  \<open>atoi\<close> and \<open>atol\<close> of both libraries return ten times the number.
\<close>

section \<open>Strings in memory\<close>

fun cstring :: "memory \<Rightarrow> ptr \<Rightarrow> u8 list \<Rightarrow> bool" where
  "cstring mem a [] \<longleftrightarrow> mem a = 0"
| "cstring mem a (x # xs) \<longleftrightarrow> mem a = x \<and> x \<noteq> 0 \<and> cstring mem (a + 1) xs"

lemma cstring_unique: "cstring mem a xs \<Longrightarrow> cstring mem a ys \<Longrightarrow> xs = ys"
proof (induction xs arbitrary: a ys)
  case Nil
  then show ?case by (cases ys) auto
next
  case (Cons x xs)
  then show ?case by (cases ys) auto
qed

lemma strlen_loop_cstring:
  "cstring mem (str + len) xs \<Longrightarrow> strlen_loop mem str len = ret (len + of_nat (length xs))"
proof (induction xs arbitrary: len)
  case (Cons x xs)
  have "strlen_loop mem str (len + 1) = ret (len + 1 + of_nat (length xs))"
    by (rule Cons.IH) (use Cons.prems in \<open>simp add: add.assoc\<close>)
  then show ?case using Cons.prems by (subst strlen_loop.simps) (simp add: add.assoc add.commute)
qed (simp add: strlen_loop.simps)

lemma strlen_loop_nozero:
  assumes nz: "\<forall>a. mem a \<noteq> 0"
  shows "strlen_loop mem str len = None"
proof (cases "strlen_loop mem str len")
  case (Some r)
  have "mem = mem \<longrightarrow> False"
    by (rule strlen_loop.raw_induct [of "\<lambda>m s l r. m = mem \<longrightarrow> False", OF _ Some]) (use nz in fastforce)
  then show ?thesis by simp
qed

fun lex_sign :: "u8 list \<Rightarrow> u8 list \<Rightarrow> int" where
  "lex_sign [] [] = 0"
| "lex_sign [] (y # ys) = (if 0 > sint y then 1 else - 1)"
| "lex_sign (x # xs) [] = (if sint x > 0 then 1 else - 1)"
| "lex_sign (x # xs) (y # ys) = (if x = y then lex_sign xs ys else if sint x > sint y then 1 else - 1)"

lemma lex_sign_0: "lex_sign xs ys = 0 \<longleftrightarrow> xs = ys"
  by (induction xs ys rule: lex_sign.induct) auto

lemma strcmp_loop_cstring:
  "cstring mem (s1 + i) xs \<Longrightarrow> cstring mem (s2 + i) ys \<Longrightarrow> strcmp_loop mem s1 s2 i = ret (lex_sign xs ys)"
proof (induction xs ys arbitrary: i rule: lex_sign.induct)
  case (4 x xs y ys)
  show ?case
  proof (cases "x = y")
    case True
    have "strcmp_loop mem s1 s2 (i + 1) = ret (lex_sign xs ys)"
      by (rule 4(1) [OF True]) (use 4(2,3) in \<open>simp_all add: add.assoc\<close>)
    then show ?thesis using 4(2,3) True by (subst strcmp_loop.simps) simp
  next
    case False
    then show ?thesis using 4(2,3) by (subst strcmp_loop.simps) simp
  qed
qed (subst strcmp_loop.simps; force)+

text \<open>Copying to a place that does not meet the string.\<close>

definition apart :: "ptr \<Rightarrow> nat \<Rightarrow> ptr \<Rightarrow> nat \<Rightarrow> bool" where
  "apart a n b m \<longleftrightarrow> (\<forall>i<n. \<forall>j<m. a + of_nat i \<noteq> b + of_nat j)"

lemma cstring_nth:
  "cstring mem a xs \<longleftrightarrow> (\<forall>i<length xs. mem (a + of_nat i) = xs ! i \<and> xs ! i \<noteq> 0) \<and> mem (a + of_nat (length xs)) = 0"
proof (induction xs arbitrary: a)
  case (Cons x xs)
  have "(\<forall>i<length (x # xs). mem (a + of_nat i) = (x # xs) ! i \<and> (x # xs) ! i \<noteq> 0) \<longleftrightarrow>
      mem a = x \<and> x \<noteq> 0 \<and> (\<forall>i<length xs. mem (a + 1 + of_nat i) = xs ! i \<and> xs ! i \<noteq> 0)"
    by (auto simp: less_Suc_eq_0_disj add.assoc)
  then show ?case using Cons [of "a + 1"] by (simp add: add.assoc)
qed simp

lemma cstring_cong: "(\<And>i. i \<le> length xs \<Longrightarrow> m (a + of_nat i) = mem (a + of_nat i)) \<Longrightarrow> cstring m a xs \<longleftrightarrow> cstring mem a xs"
  by (simp add: cstring_nth)

lemma strcpy_loop_cstring:
  assumes "cstring mem (src + of_nat k) xs" and "apart dst (k + length xs + 1) src (k + length xs + 1)"
    and "k + length xs + 1 < 2 ^ 64"
  shows "\<exists>m. strcpy_loop mem dst src (of_nat k) = ret m \<and>
    (\<forall>x. m x = (if \<exists>j\<ge>k. j \<le> k + length xs \<and> x = dst + of_nat j then mem (src + (x - dst)) else mem x))"
  using assms
proof (induction xs arbitrary: mem k)
  case Nil
  have "dst + of_nat k \<noteq> src + of_nat k" using Nil(2) by (auto simp: apart_def)
  then have "strcpy_loop mem dst src (of_nat k) = ret (mem(dst + of_nat k := 0))"
    using Nil by (subst strcpy_loop.simps) (simp add: Let_def)
  moreover have "(\<exists>j\<ge>k. j \<le> k \<and> x = dst + of_nat j) \<longleftrightarrow> x = dst + of_nat k" for x by (metis le_antisym order_refl)
  ultimately show ?case using Nil(1) by auto
next
  case (Cons c xs)
  have n: "dst + of_nat i \<noteq> src + of_nat j" if "i \<le> k + length xs + 1" "j \<le> k + length xs + 1" for i j
    using Cons(3) that by (auto simp: apart_def)
  let ?m = "mem(dst + of_nat k := c)"
  have "?m (src + of_nat (Suc k) + of_nat i) = mem (src + of_nat (Suc k) + of_nat i)" if "i \<le> length xs" for i
  proof -
    have "src + of_nat (Suc k) + of_nat i = src + of_nat (Suc k + i)" by simp
    then show ?thesis using n [of k "Suc k + i"] that by (simp only: fun_upd_apply) simp
  qed
  then have "cstring ?m (src + of_nat (Suc k)) xs \<longleftrightarrow> cstring mem (src + of_nat (Suc k)) xs" by (rule cstring_cong)
  then have "cstring ?m (src + of_nat (Suc k)) xs" using Cons(2) by (simp add: add.commute add.left_commute)
  moreover have "apart dst (Suc k + length xs + 1) src (Suc k + length xs + 1)" using Cons(3) by simp
  moreover have "Suc k + length xs + 1 < 2 ^ 64" using Cons(4) by simp
  ultimately obtain m where m: "strcpy_loop ?m dst src (of_nat (Suc k)) = ret m"
    "\<And>x. m x = (if \<exists>j\<ge>Suc k. j \<le> Suc k + length xs \<and> x = dst + of_nat j then ?m (src + (x - dst)) else ?m x)"
    using Cons(1) [of ?m "Suc k"] by blast
  have "strcpy_loop mem dst src (of_nat k) = ret m"
    using Cons(2) m(1) n [of k k] by (subst strcpy_loop.simps) (simp add: Let_def add.commute)
  moreover have "m x = (if \<exists>j\<ge>k. j \<le> k + length (c # xs) \<and> x = dst + of_nat j then mem (src + (x - dst)) else mem x)" for x
  proof (cases "\<exists>j\<ge>Suc k. j \<le> Suc k + length xs \<and> x = dst + of_nat j")
    case True
    then obtain j where j: "j \<ge> Suc k" "j \<le> Suc k + length xs" "x = dst + of_nat j" by blast
    then have "?m (src + (x - dst)) = mem (src + (x - dst))" using n [of k j] by auto
    moreover have "\<exists>j\<ge>k. j \<le> k + length (c # xs) \<and> x = dst + of_nat j" using j by (intro exI [of _ j]) auto
    ultimately show ?thesis using m(2) [of x] True by simp
  next
    case False
    have j: "(\<exists>j\<ge>k. j \<le> k + length (c # xs) \<and> x = dst + of_nat j) \<longleftrightarrow> x = dst + of_nat k"
    proof
      assume "\<exists>j\<ge>k. j \<le> k + length (c # xs) \<and> x = dst + of_nat j"
      then obtain j where "j \<ge> k" "j \<le> Suc k + length xs" "x = dst + of_nat j" by auto
      then show "x = dst + of_nat k" using False by (cases "j = k") auto
    qed auto
    have "m x = ?m x" using m(2) [of x] unfolding if_not_P [OF False] .
    then show ?thesis unfolding j using Cons(2) by (cases "x = dst + of_nat k") simp_all
  qed
  ultimately show ?case by blast
qed

section \<open>Numbers\<close>

text \<open>The value of a list of digits in a base, most significant first, after the value read so far.\<close>

fun digits_value :: "int \<Rightarrow> int \<Rightarrow> int list \<Rightarrow> int" where
  "digits_value base v [] = v"
| "digits_value base v (d # ds) = digits_value base (v * base + d) ds"

lemma digit_value_range: "digit_value base c = Some d \<Longrightarrow> 0 \<le> d \<and> d < base"
  by (auto simp: digit_value_def split: if_splits)

lemma foldl_digits_mono:
  assumes "1 \<le> (base :: int)" "\<forall>d\<in>set ds. 0 \<le> d" "0 \<le> v"
  shows "v \<le> digits_value base v ds"
  using assms(2,3)
proof (induction ds arbitrary: v)
  case (Cons d ds)
  have "v * 1 \<le> v * base" using assms(1) Cons(3) by (intro mult_left_mono) auto
  then have "v \<le> v * base + d" "0 \<le> v * base + d" using Cons(2,3) by auto
  moreover have "v * base + d \<le> digits_value base (v * base + d) ds" using Cons calculation by simp
  ultimately show ?case by simp
qed simp

lemma strtol_loop_digits:
  assumes "cstring mem (str + word_of_int i) (xs @ ys)" "map (digit_value base) xs = map Some ds"
    "case ys of [] \<Rightarrow> True | y # _ \<Rightarrow> digit_value base y = None"
    "0 \<le> i" "i + int (length xs) < 2 ^ 31" "0 \<le> v" "digits_value base v ds < 2 ^ 63"
  shows "strtol_loop mem str base i v = ret (digits_value base v ds,
    if ys = [] then None else Some (str + word_of_int (i + int (length xs))))"
  using assms
proof (induction xs arbitrary: i v ds)
  case Nil
  then show ?case by (subst strtol_loop.simps) (auto split: list.splits)
next
  case (Cons x xs)
  then obtain d ds' where ds: "ds = d # ds'" "digit_value base x = Some d" "map (digit_value base) xs = map Some ds'" by auto
  have d: "0 \<le> d" "d < base" using digit_value_range [OF ds(2)] by auto
  have all: "\<forall>e\<in>set ds'. 0 \<le> e"
  proof
    fix e assume "e \<in> set ds'"
    then have "Some e \<in> set (map (digit_value base) xs)" using ds(3) by auto
    then show "0 \<le> e" using digit_value_range by auto
  qed
  have vb: "0 \<le> v * base" using Cons.prems d by (intro mult_nonneg_nonneg) auto
  moreover have "v * base + d < 2 ^ 63"
    using foldl_digits_mono [of base ds' "v * base + d"] all d Cons.prems vb by (simp add: ds)
  ultimately have "- (2 ^ 63) \<le> v * base" "- (2 ^ 63) \<le> v * base + d" "v * base < 2 ^ 63" "v * base + d < 2 ^ 63"
    using d by linarith+
  then have c: "checked 64 (v * base) = ret (v * base)" "checked 64 (v * base + d) = ret (v * base + d)"
    "checked 32 (i + 1) = ret (i + 1)"
    using Cons.prems by (simp_all add: checked_def)
  have "strtol_loop mem str base (i + 1) (v * base + d) =
      ret (digits_value base (v * base + d) ds', if ys = [] then None else Some (str + word_of_int (i + 1 + int (length xs))))"
    using Cons.prems vb d ds by (intro Cons.IH) (auto simp: add.assoc)
  then show ?case
    using Cons.prems ds c by (subst strtol_loop.simps) (simp add: add.commute add.left_commute)
qed

lemma ato_loop_digits:
  assumes "cstring mem (str + word_of_int i) xs" "map (digit_value 10) xs = map Some ds" "w \<in> {32, 64}"
    "0 \<le> i" "i + int (length xs) < 2 ^ 31" "0 \<le> v" "10 dvd v"
    "10 * digits_value 10 (v div 10) ds < 2 ^ (w - 1)"
  shows "ato_loop w mem str i v = ret (10 * digits_value 10 (v div 10) ds)"
  using assms
proof (induction xs arbitrary: i v ds)
  case Nil
  then show ?case by (subst ato_loop.simps) auto
next
  case (Cons x xs)
  then obtain d ds' where ds: "ds = d # ds'" "digit_value 10 x = Some d" "map (digit_value 10) xs = map Some ds'" by auto
  have d: "0 \<le> d" "d < 10" "sint x - 48 = d"
    using digit_value_range [OF ds(2)] ds(2) by (auto simp: digit_value_def split: if_splits)
  have all: "\<forall>e\<in>set ds'. 0 \<le> e"
  proof
    fix e assume "e \<in> set ds'"
    then have "Some e \<in> set (map (digit_value 10) xs)" using ds(3) by auto
    then show "0 \<le> e" using digit_value_range by auto
  qed
  have v: "(v div 10) * 10 + d = v + d" "(v + d) * 10 div 10 = v + d" using Cons.prems by auto
  have "v + d \<le> digits_value 10 (v + d) ds'" using all d Cons.prems by (intro foldl_digits_mono) auto
  then have lim: "(v + d) * 10 < 2 ^ (w - 1)" using Cons.prems v by (simp add: ds)
  have "0 \<le> v + d" using d Cons.prems by auto
  then have "- (2 ^ (w - 1)) \<le> v + d" "v + d < 2 ^ (w - 1)" "- (2 ^ (w - 1)) \<le> (v + d) * 10"
    using lim by (auto intro: order_trans [of _ 0])
  then have c: "checked w (v + d) = ret (v + d)" "checked w ((v + d) * 10) = ret ((v + d) * 10)"
    "checked 32 (i + 1) = ret (i + 1)"
    using Cons.prems lim by (simp_all add: checked_def)
  have "ato_loop w mem str (i + 1) ((v + d) * 10) = ret (10 * digits_value 10 ((v + d) * 10 div 10) ds')"
    using Cons.prems d ds v by (intro Cons.IH) (auto simp: add.assoc)
  then show ?case
    using Cons.prems ds c d v by (subst ato_loop.simps) (simp add: add.commute add.left_commute)
qed

section \<open>Properties\<close>

lemma cstring_least:
  assumes "mem (a + of_nat n) = 0" "\<And>i. i < n \<Longrightarrow> mem (a + of_nat i) \<noteq> 0"
  shows "cstring mem a (map (\<lambda>i. mem (a + of_nat i)) [0..<n])"
  using assms by (simp add: cstring_nth)

text \<open>\<open>strlen\<close> returns exactly when there is a zero byte to find, and then it returns the length of the string.\<close>

lemma strlen_returns:
  "(strlen mem str \<noteq> None \<longleftrightarrow> (\<exists>a. mem a = 0)) \<and>
   (\<forall>xs. cstring mem str xs \<longrightarrow> strlen mem str = ret (of_nat (length xs)))"
proof -
  have len: "strlen mem str = ret (of_nat (length xs))" if "cstring mem str xs" for xs
    using strlen_loop_cstring [of mem str 0 xs] that by (simp add: strlen_def)
  have "strlen mem str \<noteq> None" if "mem a = 0" for a
  proof -
    let ?P = "\<lambda>n. mem (str + of_nat n) = 0"
    have "?P (unat (a - str))" using that by simp
    then have "?P (LEAST n. ?P n)" by (rule LeastI)
    then have "cstring mem str (map (\<lambda>i. mem (str + of_nat i)) [0..<LEAST n. ?P n])"
      by (rule cstring_least) (use not_less_Least [where P = ?P] in auto)
    then show ?thesis using len by simp
  qed
  moreover have "\<exists>a. mem a = 0" if "strlen mem str \<noteq> None"
    using strlen_loop_nozero [of mem str 0] that unfolding strlen_def by blast
  ultimately show ?thesis using len by blast
qed

definition two_strings :: memory where
  "two_strings = (\<lambda>_. 0)(100 := 45, 101 := 52, 102 := 50, 200 := 97, 201 := 98, 204 := 99)"

text \<open>\<open>strcpy\<close> to a place that does not overlap the string returns; the string is then at both places, and no byte
  outside the destination changes.\<close>

lemma strcpy_copies:
  assumes "cstring mem src xs" and "apart dst (length xs + 1) src (length xs + 1)" and "length xs + 1 < 2 ^ 64"
    and "dst \<noteq> nullptr" and "src \<noteq> nullptr"
  shows "\<exists>m. strcpy mem dst src = ret (dst, m) \<and> cstring m dst xs \<and> cstring m src xs \<and>
    (\<forall>x. (\<forall>j\<le>length xs. x \<noteq> dst + of_nat j) \<longrightarrow> m x = mem x)"
proof -
  obtain m where m: "strcpy_loop mem dst src 0 = ret m"
    "\<forall>x. m x = (if \<exists>j\<ge>0. j \<le> length xs \<and> x = dst + of_nat j then mem (src + (x - dst)) else mem x)"
    using strcpy_loop_cstring [of mem src 0 xs dst] assms(1-3) by auto
  have dst: "m (dst + of_nat i) = mem (src + of_nat i)" if "i \<le> length xs" for i
    using m(2) that by auto
  have "m (src + of_nat i) = mem (src + of_nat i)" if "i \<le> length xs" for i
  proof -
    have "\<nexists>j. j \<ge> 0 \<and> j \<le> length xs \<and> src + of_nat i = dst + of_nat j"
      using assms(2) that unfolding apart_def by (metis less_Suc_eq_le Suc_eq_plus1)
    then show ?thesis using m(2) by auto
  qed
  then have "cstring m src xs" using assms(1) by (simp add: cstring_nth)
  moreover have "cstring m dst xs" using dst assms(1) by (simp add: cstring_nth)
  moreover have "m x = mem x" if "\<forall>j\<le>length xs. x \<noteq> dst + of_nat j" for x using m(2) that by auto
  ultimately show ?thesis using m(1) assms(4,5) by (auto simp: strcpy_def)
qed

text \<open>\<open>strcmp\<close> on two strings returns zero exactly when they are equal, and otherwise the order of the first
  characters that differ.\<close>

lemma strcmp_orders:
  assumes "cstring mem a xs" and "cstring mem b ys"
  shows "\<exists>r. strcmp mem a b = ret r \<and> (r = 0 \<longleftrightarrow> xs = ys) \<and> r = lex_sign xs ys"
  using strcmp_loop_cstring [of mem a 0 xs b ys] assms by (simp add: strcmp_def lex_sign_0)



text \<open>\<open>atoi\<close> does not: on the digits of a number it returns ten times the number, because the loop multiplies
  after adding.\<close>

lemma atoi_times_ten:
  assumes "cstring mem str xs" and "map (digit_value 10) xs = map Some ds" and "length xs < 2 ^ 31"
    and "10 * digits_value 10 0 ds < 2 ^ 31"
  shows "atoi mem str = ret (10 * digits_value 10 0 ds)"
proof -
  have "mem str \<noteq> 45" using assms(1,2) by (cases xs) (auto simp: digit_value_def)
  moreover have "ato_loop 32 mem str 0 0 = ret (10 * digits_value 10 (0 div 10) ds)"
    using assms by (intro ato_loop_digits) auto
  ultimately show ?thesis by (simp add: atoi_def Let_def)
qed

end
