(* ===== verification/PhysicalMemory.thy ===== *)
theory PhysicalMemory
  imports Bitmap Util
begin

unbundle bit_operations_syntax

text \<open>
  Physical memory: the memory map of src/kernel/src/Memory/Memory.cpp and the page frame allocator of
  src/kernel/src/Memory/PhysicalPageFrameAllocator.cpp. The allocator keeps one bit per frame, set while the frame is
  used or reserved, a cached index \<open>m_nextFree\<close> and three byte counts; the bitmap's bytes are the field
  \<open>pf_mem\<close>. Once fully initialised it takes a lock for the bitmap and one for the rest of its state.
\<close>

section \<open>Memory map\<close>

record MemoryMapEntry =
  mm_Address :: u64
  mm_length :: u64
  mm_type :: u64

abbreviation (input) FROSTYOS_MEMORY_FREE :: u64 where
  "FROSTYOS_MEMORY_FREE \<equiv> 0"

text \<open>The global \<open>g_memorySizeBytes\<close> is the argument and the second result.\<close>

definition GetMemorySize :: "u64 \<Rightarrow> MemoryMapEntry list \<Rightarrow> u64 \<times> u64" where
  "GetMemorySize g_memorySizeBytes MemoryMap =
     (if g_memorySizeBytes > 0 then (g_memorySizeBytes, g_memorySizeBytes)
      else let endLastFree =
             fold (\<lambda>entry endLastFree.
                 if mm_type entry = FROSTYOS_MEMORY_FREE
                 then (if mm_Address entry + mm_length entry > endLastFree then mm_Address entry + mm_length entry
                       else endLastFree)
                 else endLastFree) MemoryMap 0
           in (endLastFree, endLastFree))"

fun UpdateMemorySize_loop :: "u64 \<Rightarrow> nat \<Rightarrow> MemoryMapEntry list \<Rightarrow> nat \<times> u64" where
  "UpdateMemorySize_loop g 0 MemoryMap = (0, g)"
| "UpdateMemorySize_loop g (Suc i) MemoryMap =
     (let entry = MemoryMap ! i in
      if mm_type entry = FROSTYOS_MEMORY_FREE then (Suc i, mm_Address entry + mm_length entry)
      else UpdateMemorySize_loop g i MemoryMap)"

definition UpdateMemorySize :: "u64 \<Rightarrow> MemoryMapEntry list \<Rightarrow> nat \<times> u64" where
  "UpdateMemorySize g_memorySizeBytes MemoryMap =
     (if g_memorySizeBytes > 0 then (length MemoryMap, g_memorySizeBytes)
      else UpdateMemorySize_loop g_memorySizeBytes (length MemoryMap) MemoryMap)"

section \<open>The allocator\<close>

record PPFA =
  m_Bitmap :: Bitmap
  m_FreeMem :: u64
  m_ReservedMem :: u64
  m_UsedMem :: u64
  m_MemSize :: u64
  m_nextFree :: u64
  m_fullyInitialised :: bool
  m_BitmapLock :: spinlock_t
  m_globalLock :: spinlock_t
  pf_mem :: memory

definition PPFA_make :: "memory \<Rightarrow> PPFA" where
  "PPFA_make mem = \<lparr>m_Bitmap = Bitmap_empty, m_FreeMem = 0, m_ReservedMem = 0, m_UsedMem = 0, m_MemSize = 0,
     m_nextFree = UINT64_MAX, m_fullyInitialised = False, m_BitmapLock = False, m_globalLock = False, pf_mem = mem\<rparr>"

definition page_bit :: "PPFA \<Rightarrow> u64 \<Rightarrow> bool" where
  "page_bit a i = Bitmap_get (pf_mem a) (m_Bitmap a) i"

definition set_page_bit :: "u64 \<Rightarrow> bool \<Rightarrow> PPFA \<Rightarrow> PPFA" where
  "set_page_bit i v a = a\<lparr>pf_mem := Bitmap_Set (pf_mem a) (m_Bitmap a) i v\<rparr>"

definition acquire_bitmap :: "PPFA \<Rightarrow> PPFA prog" where
  "acquire_bitmap a =
     (if m_fullyInitialised a then bindP (spinlock_acquire (m_BitmapLock a)) (\<lambda>l. ret (a\<lparr>m_BitmapLock := l\<rparr>)) else ret a)"

definition release_bitmap :: "PPFA \<Rightarrow> PPFA" where
  "release_bitmap a =
     (if m_fullyInitialised a then a\<lparr>m_BitmapLock := spinlock_release (m_BitmapLock a)\<rparr> else a)"

definition acquire_global :: "PPFA \<Rightarrow> PPFA prog" where
  "acquire_global a =
     (if m_fullyInitialised a then bindP (spinlock_acquire (m_globalLock a)) (\<lambda>l. ret (a\<lparr>m_globalLock := l\<rparr>)) else ret a)"

definition release_global :: "PPFA \<Rightarrow> PPFA" where
  "release_global a =
     (if m_fullyInitialised a then a\<lparr>m_globalLock := spinlock_release (m_globalLock a)\<rparr> else a)"

text \<open>A loop \<open>for (j = 0; j < length; j += PAGE_SIZE)\<close> over the pages of an entry; the bits of the pages that
  satisfy \<open>p\<close> are set to \<open>v\<close>. It does not end when \<open>j\<close> wraps around below \<open>length\<close>.\<close>

partial_function (option) set_pages_loop :: "(u64 \<Rightarrow> bool) \<Rightarrow> bool \<Rightarrow> u64 \<Rightarrow> u64 \<Rightarrow> u64 \<Rightarrow> PPFA \<Rightarrow> PPFA prog" where
  "set_pages_loop p v addr len j a =
     (if j < len
      then set_pages_loop p v addr len (j + PAGE_SIZE) (if p (addr + j) then set_page_bit ((addr + j) div PAGE_SIZE) v a else a)
      else ret a)"

definition EarlyInit_entry :: "MemoryMapEntry \<Rightarrow> PPFA \<Rightarrow> PPFA prog" where
  "EarlyInit_entry entry a =
     (if mm_type entry = FROSTYOS_MEMORY_FREE then
        let a = a\<lparr>m_FreeMem := m_FreeMem a + mm_length entry\<rparr> in
        if mm_length entry > PAGE_SIZE
        then set_pages_loop (\<lambda>_. True) False (mm_Address entry) (mm_length entry) 0 a
        else ret (set_page_bit (mm_Address entry div PAGE_SIZE) False a)
      else
        let a = a\<lparr>m_ReservedMem := m_ReservedMem a + mm_length entry\<rparr>;
            len = ALIGN_UP (mm_length entry) PAGE_SIZE in
        if len > PAGE_SIZE
        then set_pages_loop (\<lambda>_. True) True (mm_Address entry) len 0 a
        else ret (set_page_bit (mm_Address entry div PAGE_SIZE) True a))"

primrec for_entries :: "(MemoryMapEntry \<Rightarrow> PPFA \<Rightarrow> PPFA prog) \<Rightarrow> MemoryMapEntry list \<Rightarrow> PPFA \<Rightarrow> PPFA prog" where
  "for_entries f [] a = ret a"
| "for_entries f (e # es) a = bindP (f e a) (for_entries f es)"

definition reserve_page_0 :: "PPFA \<Rightarrow> PPFA" where
  "reserve_page_0 a =
     (if \<not> page_bit a 0 then set_page_bit 0 True (a\<lparr>m_ReservedMem := m_ReservedMem a + PAGE_SIZE\<rparr>) else a)"

definition EarlyInit :: "ptr \<Rightarrow> MemoryMapEntry list \<Rightarrow> u64 \<Rightarrow> PPFA \<Rightarrow> PPFA prog" where
  "EarlyInit g_EarlyBitmap MemoryMap MemorySize a =
     (let a = a\<lparr>m_fullyInitialised := False, m_MemSize := MemorySize\<rparr>;
          a = (if m_MemSize a > GiB 4 then a\<lparr>m_MemSize := GiB 4\<rparr> else a);
          a = a\<lparr>m_FreeMem := 0, m_ReservedMem := 0, m_UsedMem := 0, m_nextFree := UINT64_MAX\<rparr>;
          BitmapSize = DIV_ROUNDUP (m_MemSize a) (PAGE_SIZE * 8);
          a = a\<lparr>m_Bitmap := Bitmap_SetBuffer (Bitmap_SetSize (m_Bitmap a) BitmapSize) g_EarlyBitmap\<rparr>;
          a = a\<lparr>pf_mem := memset (pf_mem a) (Bitmap_GetBuffer (m_Bitmap a)) 0xFF BitmapSize\<rparr>
      in bindP (for_entries EarlyInit_entry MemoryMap a) (\<lambda>a. ret (reserve_page_0 a)))"

section \<open>Pages\<close>

definition page_index :: "ptr \<Rightarrow> u64" where
  "page_index page = drop_bit 12 page"

definition ReservePage :: "ptr \<Rightarrow> PPFA \<Rightarrow> PPFA prog" where
  "ReservePage page a =
     bindP (acquire_bitmap a) (\<lambda>a.
     if page_bit a (page_index page) then ret (release_bitmap a)
     else let a = release_bitmap (set_page_bit (page_index page) True a) in
       bindP (acquire_global a) (\<lambda>a.
       let a = a\<lparr>m_FreeMem := m_FreeMem a - 4096, m_ReservedMem := m_ReservedMem a + 4096\<rparr>;
           a = (if m_nextFree a = page_index page then a\<lparr>m_nextFree := UINT64_MAX\<rparr> else a)
       in ret (release_global a)))"

definition UnreservePage :: "ptr \<Rightarrow> PPFA \<Rightarrow> PPFA prog" where
  "UnreservePage page a =
     bindP (acquire_bitmap a) (\<lambda>a.
     if \<not> page_bit a (page_index page) then ret (release_bitmap a)
     else let a = release_bitmap (set_page_bit (page_index page) False a) in
       bindP (acquire_global a) (\<lambda>a.
       let a = a\<lparr>m_FreeMem := m_FreeMem a + 4096, m_ReservedMem := m_ReservedMem a - 4096, m_nextFree := page_index page\<rparr>
       in ret (release_global a)))"

definition FreePage :: "ptr \<Rightarrow> PPFA \<Rightarrow> PPFA prog" where
  "FreePage page a =
     bindP (acquire_bitmap a) (\<lambda>a.
     if \<not> page_bit a (page_index page) then ret (release_bitmap a)
     else let a = release_bitmap (set_page_bit (page_index page) False a) in
       bindP (acquire_global a) (\<lambda>a.
       let a = a\<lparr>m_FreeMem := m_FreeMem a + 4096, m_UsedMem := m_UsedMem a - 4096, m_nextFree := page_index page\<rparr>
       in ret (release_global a)))"

definition LockPage :: "ptr \<Rightarrow> PPFA \<Rightarrow> PPFA prog" where
  "LockPage page a =
     bindP (acquire_bitmap a) (\<lambda>a.
     if page_bit a (page_index page) then ret (release_bitmap a)
     else let a = release_bitmap (set_page_bit (page_index page) True a) in
       bindP (acquire_global a) (\<lambda>a.
       let a = a\<lparr>m_FreeMem := m_FreeMem a - 4096, m_UsedMem := m_UsedMem a + 4096\<rparr>
       in ret (release_global a)))"

definition UnlockPage :: "ptr \<Rightarrow> PPFA \<Rightarrow> PPFA prog" where
  "UnlockPage page a =
     bindP (acquire_bitmap a) (\<lambda>a.
     if \<not> page_bit a (page_index page) then ret (release_bitmap a)
     else let a = release_bitmap (set_page_bit (page_index page) False a) in
       bindP (acquire_global a) (\<lambda>a.
       let a = a\<lparr>m_FreeMem := m_FreeMem a + 4096, m_UsedMem := m_UsedMem a - 4096\<rparr>
       in ret (release_global a)))"

text \<open>The loops \<open>for (i = 0; i < count; i++) f(i * 4096 + start)\<close>.\<close>

primrec for_pages :: "(ptr \<Rightarrow> PPFA \<Rightarrow> PPFA prog) \<Rightarrow> ptr \<Rightarrow> nat list \<Rightarrow> PPFA \<Rightarrow> PPFA prog" where
  "for_pages f start [] a = ret a"
| "for_pages f start (i # is) a = bindP (f (of_nat i * 4096 + start) a) (for_pages f start is)"

definition ReservePages :: "ptr \<Rightarrow> u64 \<Rightarrow> PPFA \<Rightarrow> PPFA prog" where
  "ReservePages start count a = for_pages ReservePage start [0..<unat count] a"

definition UnreservePages :: "ptr \<Rightarrow> u64 \<Rightarrow> PPFA \<Rightarrow> PPFA prog" where
  "UnreservePages start count a = for_pages UnreservePage start [0..<unat count] a"

definition FreePages :: "ptr \<Rightarrow> u64 \<Rightarrow> PPFA \<Rightarrow> PPFA prog" where
  "FreePages start count a = for_pages FreePage start [0..<unat count] a"

definition LockPages :: "ptr \<Rightarrow> u64 \<Rightarrow> PPFA \<Rightarrow> PPFA prog" where
  "LockPages start count a = for_pages LockPage start [0..<unat count] a"

definition UnlockPages :: "ptr \<Rightarrow> u64 \<Rightarrow> PPFA \<Rightarrow> PPFA prog" where
  "UnlockPages start count a = for_pages UnlockPage start [0..<unat count] a"

section \<open>Search\<close>

definition bitmap_bits :: "PPFA \<Rightarrow> u64" where
  "bitmap_bits a = push_bit 3 (Bitmap_GetSize (m_Bitmap a))"

partial_function (option) FindFreePage_loop :: "PPFA \<Rightarrow> u64 \<Rightarrow> (u64 \<times> PPFA) prog" where
  "FindFreePage_loop a i =
     (if i < bitmap_bits a then
        (if \<not> page_bit a i then
           let a = (if i + 1 < bitmap_bits a \<and> \<not> page_bit a (i + 1) then a\<lparr>m_nextFree := i + 1\<rparr> else a)
           in ret (i, a)
         else FindFreePage_loop a (i + 1))
      else ret (UINT64_MAX, a))"

definition FindFreePage :: "PPFA \<Rightarrow> (u64 \<times> PPFA) prog" where
  "FindFreePage a =
     bindP (acquire_bitmap a) (\<lambda>a. bindP (acquire_global a) (\<lambda>a.
     bindP
       (if m_nextFree a \<noteq> UINT64_MAX then
          let i = m_nextFree a in
          if i + 1 < bitmap_bits a \<and> \<not> page_bit a (i + 1) then ret (i, a\<lparr>m_nextFree := i + 1\<rparr>)
          else ret (i, a\<lparr>m_nextFree := UINT64_MAX\<rparr>)
        else FindFreePage_loop a 0)
       (\<lambda>(i, a). ret (i, release_bitmap (release_global a)))))"

text \<open>The inner loop of \<open>FindFreePages\<close>: whether the run is free, and where the scan stopped.\<close>

partial_function (option) run_loop :: "PPFA \<Rightarrow> u64 \<Rightarrow> u64 \<Rightarrow> u64 \<Rightarrow> (bool \<times> u64) prog" where
  "run_loop a i count nxt =
     (if nxt \<le> count then
        (if page_bit a (i + nxt) then ret (False, nxt)
         else if count \<le> nxt then ret (True, nxt)
         else run_loop a i count (nxt + 1))
      else ret (True, nxt))"

partial_function (option) FindFreePages_loop :: "PPFA \<Rightarrow> u64 \<Rightarrow> u64 \<Rightarrow> (u64 \<times> PPFA) prog" where
  "FindFreePages_loop a count i =
     (if i < bitmap_bits a then
        (if \<not> page_bit a i then
           (if count = 1 then
              ret (i * 8, if m_nextFree a = i then a\<lparr>m_nextFree := UINT64_MAX\<rparr> else a)
            else
              bindP (run_loop a i count 1) (\<lambda>(found, nxt).
              if found then
                ret (i, if m_nextFree a \<ge> i \<and> i + count > m_nextFree a then a\<lparr>m_nextFree := UINT64_MAX\<rparr> else a)
              else FindFreePages_loop a count (i + nxt)))
         else FindFreePages_loop a count (i + 1))
      else ret (UINT64_MAX, a))"

definition FindFreePages :: "u64 \<Rightarrow> PPFA \<Rightarrow> (u64 \<times> PPFA) prog" where
  "FindFreePages count a =
     bindP (acquire_bitmap a) (\<lambda>a. bindP (acquire_global a) (\<lambda>a.
     if count = 0 then ret (UINT64_MAX, a)
     else bindP (FindFreePages_loop a count 0) (\<lambda>(i, a). ret (i, release_bitmap (release_global a)))))"

section \<open>Allocation\<close>

definition AllocatePage :: "PPFA \<Rightarrow> (ptr \<times> PPFA) prog" where
  "AllocatePage a =
     bindP (FindFreePage a) (\<lambda>(index, a).
     if index = UINT64_MAX then stop (Panic ''OUT OF MEMORY. No physical pages are available.'')
     else bindP (LockPage (index * 4096) a) (\<lambda>a. ret (index * 4096, a)))"

definition AllocatePages :: "u64 \<Rightarrow> PPFA \<Rightarrow> (ptr \<times> PPFA) prog" where
  "AllocatePages count a =
     bindP (FindFreePages count a) (\<lambda>(index, a).
     if index = UINT64_MAX then ret (nullptr, a)
     else bindP (LockPages (index * 4096) count a) (\<lambda>a. ret (index * 4096, a)))"

definition FullInit_entry :: "MemoryMapEntry \<Rightarrow> PPFA \<Rightarrow> PPFA prog" where
  "FullInit_entry entry a =
     (if mm_Address entry + mm_length entry \<le> GiB 4 then ret a
      else if mm_type entry = FROSTYOS_MEMORY_FREE then
        let a = a\<lparr>m_FreeMem := m_FreeMem a + mm_length entry\<rparr> in
        if mm_length entry > PAGE_SIZE
        then set_pages_loop (\<lambda>p. \<not> p < GiB 4) False (mm_Address entry) (mm_length entry) 0 a
        else ret (if \<not> mm_Address entry < GiB 4 then set_page_bit (mm_Address entry div PAGE_SIZE) False a else a)
      else
        let a = a\<lparr>m_ReservedMem := m_ReservedMem a + mm_length entry\<rparr>;
            len = ALIGN_UP (mm_length entry) PAGE_SIZE;
            addr = ALIGN_DOWN (mm_Address entry) PAGE_SIZE in
        if len > 4096
        then set_pages_loop (\<lambda>p. \<not> p < GiB 4) True addr len 0 a
        else ret (if \<not> addr < GiB 4 then set_page_bit (addr div PAGE_SIZE) True a else a))"

definition FullInit :: "ptr \<Rightarrow> (ptr \<Rightarrow> ptr) \<Rightarrow> MemoryMapEntry list \<Rightarrow> u64 \<Rightarrow> PPFA \<Rightarrow> PPFA prog" where
  "FullInit g_EarlyBitmap to_HHDM MemoryMap MemorySize a =
     (let a = a\<lparr>m_MemSize := MemorySize\<rparr> in
      if m_MemSize a \<le> GiB 4 then ret a
      else
        let BitmapSize = DIV_ROUNDUP (m_MemSize a) (PAGE_SIZE * 8) in
        bindP (AllocatePages (DIV_ROUNDUP BitmapSize PAGE_SIZE) a) (\<lambda>(BitmapAddress, a).
        if BitmapAddress = nullptr then stop (AssertFailed ''BitmapAddress != nullptr'')
        else
          let a = a\<lparr>m_Bitmap := Bitmap_SetBuffer (Bitmap_SetSize (m_Bitmap a) BitmapSize) (to_HHDM BitmapAddress)\<rparr>;
              a = a\<lparr>pf_mem := memset (pf_mem a) (Bitmap_GetBuffer (m_Bitmap a)) 0xFF BitmapSize\<rparr>;
              a = a\<lparr>pf_mem := memcpy (pf_mem a) (Bitmap_GetBuffer (m_Bitmap a)) g_EarlyBitmap (KiB 128)\<rparr>
          in bindP (for_entries FullInit_entry MemoryMap a) (\<lambda>a.
             let a = reserve_page_0 a
             in ret (a\<lparr>m_nextFree := UINT64_MAX, m_fullyInitialised := True, m_BitmapLock := False, m_globalLock := False\<rparr>))))"

end
