(* ===== verification/PageTables.thy ===== *)
theory PageTables
  imports PhysicalMemory
begin

unbundle bit_operations_syntax

text \<open>
  The four-level page tables of src/kernel/src/arch/x86_64/Memory/PageMapIndexer.cpp and the class \<open>PageTable\<close> of
  src/kernel/src/Memory/PageTable.cpp over them. An entry is the 64-bit word the bit-field structures of
  PageTables.hpp describe. The memory of the tables is a function from the (virtual) address of an entry to the
  entry; tables are reached through the higher half direct map (HHDM). The state also holds the frame
  allocator that new tables come from. Flushing the translation buffer changes nothing here.
\<close>

section \<open>Entries\<close>

definition Present :: "u64 \<Rightarrow> bool" where
  "Present e = bit e 0"

definition PageSize :: "u64 \<Rightarrow> bool" where
  "PageSize e = bit e 7"

definition Address :: "u64 \<Rightarrow> u64" where
  "Address e = take_bit 40 (drop_bit 12 e)"

definition Address_Large :: "u64 \<Rightarrow> u64" where
  "Address_Large e = take_bit 31 (drop_bit 21 e)"

definition set_Present :: "bool \<Rightarrow> u64 \<Rightarrow> u64" where
  "set_Present v e = (if v then set_bit 0 e else unset_bit 0 e)"

definition set_Address :: "u64 \<Rightarrow> u64 \<Rightarrow> u64" where
  "set_Address v e = (e AND NOT (push_bit 12 (mask 40))) OR push_bit 12 (take_bit 40 v)"

definition set_Address_Large :: "u64 \<Rightarrow> u64 \<Rightarrow> u64" where
  "set_Address_Large v e = (e AND NOT (push_bit 21 (mask 31))) OR push_bit 21 (take_bit 31 v)"

definition set_PageSize :: "u64 \<Rightarrow> u64" where
  "set_PageSize e = set_bit 7 e"

section \<open>State\<close>

record paging =
  pt_mem :: "ptr \<Rightarrow> u64"
  g_PPFA :: PPFA
  g_kernel_physical :: ptr
  g_kernel_virtual :: ptr
  g_kernel_length :: u64
  g_HHDM_start :: ptr
  K_PML4_Array :: ptr

definition x86_64_to_HHDM :: "paging \<Rightarrow> ptr \<Rightarrow> ptr" where
  "x86_64_to_HHDM s physaddr =
     (if physaddr < 0x1000 then nullptr
      else if physaddr > GiB 512 - 1 then physaddr
      else physaddr + g_HHDM_start s)"

definition x86_64_SetKernelAddress :: "ptr \<Rightarrow> ptr \<Rightarrow> u64 \<Rightarrow> paging \<Rightarrow> paging" where
  "x86_64_SetKernelAddress kernel_virtual kernel_physical len s =
     s\<lparr>g_kernel_physical := kernel_physical, g_kernel_virtual := kernel_virtual, g_kernel_length := len\<rparr>"

definition x86_64_SetHHDMStart :: "ptr \<Rightarrow> paging \<Rightarrow> paging" where
  "x86_64_SetHHDMStart virtualaddr s = s\<lparr>g_HHDM_start := virtualaddr\<rparr>"

definition x86_64_GetHHDMStart :: "paging \<Rightarrow> ptr" where
  "x86_64_GetHHDMStart s = g_HHDM_start s"

text \<open>Element \<open>i\<close> of the table at \<open>t\<close>.\<close>

definition pt_read :: "paging \<Rightarrow> ptr \<Rightarrow> u64 \<Rightarrow> u64 prog" where
  "pt_read s t i = (if t = nullptr then stop NullDeref else ret (pt_mem s (t + 8 * i)))"

definition pt_write :: "ptr \<Rightarrow> u64 \<Rightarrow> u64 \<Rightarrow> paging \<Rightarrow> paging prog" where
  "pt_write t i e s = (if t = nullptr then stop NullDeref else ret (s\<lparr>pt_mem := (pt_mem s)(t + 8 * i := e)\<rparr>))"

definition pt_clear :: "ptr \<Rightarrow> nat \<Rightarrow> paging \<Rightarrow> paging prog" where
  "pt_clear t n s = (if t = nullptr then stop NullDeref
     else ret (s\<lparr>pt_mem := (\<lambda>a. if unat (a - t) < n then 0 else pt_mem s a)\<rparr>))"

text \<open>The table an entry points to, and the index fields of an address.\<close>

definition table_of :: "paging \<Rightarrow> u64 \<Rightarrow> ptr" where
  "table_of s e = x86_64_to_HHDM s (push_bit 12 (Address e))"

definition PT_i :: "u64 \<Rightarrow> u64" where
  "PT_i v = drop_bit 12 (v AND 0x0000001FF000)"

definition PD_i :: "u64 \<Rightarrow> u64" where
  "PD_i v = drop_bit 21 (v AND 0x00003FE00000)"

definition PDP_i :: "u64 \<Rightarrow> u64" where
  "PDP_i v = drop_bit 30 (v AND 0x007FC0000000)"

definition PML4_i :: "u64 \<Rightarrow> u64" where
  "PML4_i v = drop_bit 39 (v AND 0xFF8000000000)"

section \<open>Translation\<close>

definition x86_64_get_physaddr :: "paging \<Rightarrow> ptr \<Rightarrow> ptr \<Rightarrow> ptr prog" where
  "x86_64_get_physaddr s PML4Array v =
     (if v \<ge> g_kernel_virtual s \<and> g_kernel_virtual s + g_kernel_length s > v
      then ret (v - g_kernel_virtual s + g_kernel_physical s)
      else if v \<ge> g_HHDM_start s \<and> g_HHDM_start s + GiB 4 > v
      then ret (v - g_HHDM_start s)
      else
        let offset = v AND 0xFFF in
        bindP (pt_read s PML4Array (PML4_i v)) (\<lambda>PML4.
        if \<not> Present PML4 then ret nullptr else
        bindP (pt_read s (table_of s PML4) (PDP_i v)) (\<lambda>PML3.
        if \<not> Present PML3 then ret nullptr else
        bindP (pt_read s (table_of s PML3) (PD_i v)) (\<lambda>PML2.
        if \<not> Present PML2 then ret nullptr else
        if PageSize PML2 then ret (push_bit 21 (Address_Large PML2) OR push_bit 12 (PT_i v) OR offset) else
        bindP (pt_read s (table_of s PML2) (PT_i v)) (\<lambda>PML1.
        if \<not> Present PML1 then ret nullptr
        else ret (push_bit 12 (Address PML1) OR offset))))))"

section \<open>Mapping\<close>

definition table_flags :: "u32 \<Rightarrow> u64" where
  "table_flags flags = ucast (flags AND 0x0FFF) OR push_bit 36 (ucast (flags AND 0x07FF0000))"

definition leaf_flags :: "u32 \<Rightarrow> u64" where
  "leaf_flags flags = ucast (flags AND 0x0FFF) OR push_bit 36 (ucast (flags AND 0x0FFF0000))"

definition pt_AllocatePage :: "paging \<Rightarrow> (ptr \<times> paging) prog" where
  "pt_AllocatePage s = bindP (AllocatePage (g_PPFA s)) (\<lambda>(p, a). ret (p, s\<lparr>g_PPFA := a\<rparr>))"

definition pt_FreePage :: "ptr \<Rightarrow> paging \<Rightarrow> paging prog" where
  "pt_FreePage p s = bindP (FreePage p (g_PPFA s)) (\<lambda>a. ret (s\<lparr>g_PPFA := a\<rparr>))"

text \<open>
  One level of the descent of the mapping functions: the entry is created with a new, cleared table when it is
  not present, and otherwise gets the flags added. The entry the descent continues from is the one read, or
  the one created.
\<close>

definition map_level :: "ptr \<Rightarrow> u64 \<Rightarrow> u32 \<Rightarrow> paging \<Rightarrow> (u64 \<times> paging) prog" where
  "map_level t i flags s =
     bindP (pt_read s t i) (\<lambda>e.
     if \<not> Present e then
       let e = set_Present True (table_flags flags) in
       bindP (pt_AllocatePage s) (\<lambda>(p, s).
       let e = set_Address (drop_bit 12 p) e in
       bindP (pt_clear (table_of s e) 4096 s) (\<lambda>s.
       bindP (pt_write t i e s) (\<lambda>s. ret (e, s))))
     else
       bindP (pt_write t i (e OR table_flags flags) s) (\<lambda>s. ret (e, s)))"

definition x86_64_map_page_noflush :: "ptr \<Rightarrow> ptr \<Rightarrow> ptr \<Rightarrow> u32 \<Rightarrow> paging \<Rightarrow> paging prog" where
  "x86_64_map_page_noflush PML4Array physaddr virtualaddr flags s =
     (let physical_addr = physaddr AND NOT 0xFFF; v = virtualaddr AND NOT 0xFFF in
      bindP (map_level PML4Array (PML4_i v) flags s) (\<lambda>(PML4, s).
      bindP (map_level (table_of s PML4) (PDP_i v) flags s) (\<lambda>(PML3, s).
      bindP (map_level (table_of s PML3) (PD_i v) flags s) (\<lambda>(PML2, s).
      if PageSize PML2 then ret s
      else
        let PML1 = set_Address (drop_bit 12 physical_addr) (leaf_flags flags)
        in pt_write (table_of s PML2) (PT_i v) PML1 s))))"

definition x86_64_map_page :: "ptr \<Rightarrow> ptr \<Rightarrow> ptr \<Rightarrow> u32 \<Rightarrow> paging \<Rightarrow> paging prog" where
  "x86_64_map_page PML4Array physaddr virtualaddr flags s = x86_64_map_page_noflush PML4Array physaddr virtualaddr flags s"

primrec identity_map_loop :: "nat list \<Rightarrow> ptr \<Rightarrow> ptr \<Rightarrow> u32 \<Rightarrow> paging \<Rightarrow> paging prog" where
  "identity_map_loop [] PML4Array real_phys flags s = ret s"
| "identity_map_loop (i # is) PML4Array real_phys flags s =
     bindP (x86_64_map_page PML4Array (real_phys + of_nat i * 4096) (real_phys + of_nat i * 4096) flags s)
       (identity_map_loop is PML4Array real_phys flags)"

definition x86_64_identity_map :: "ptr \<Rightarrow> ptr \<Rightarrow> u64 \<Rightarrow> u32 \<Rightarrow> paging \<Rightarrow> paging prog" where
  "x86_64_identity_map PML4Array start_phys len flags s =
     (let len = len - len mod 4096;
          real_phys = start_phys - start_phys mod 4096;
          len = len div 4096
      in identity_map_loop [0..<unat len] PML4Array real_phys flags s)"

definition x86_64_map_large_page_noflush :: "ptr \<Rightarrow> ptr \<Rightarrow> ptr \<Rightarrow> u32 \<Rightarrow> paging \<Rightarrow> paging prog" where
  "x86_64_map_large_page_noflush PML4Array physaddr virtualaddr flags s =
     (let physical_addr = physaddr AND NOT 0x1FFFFF; v = virtualaddr AND NOT 0x1FFFFF in
      bindP (map_level PML4Array (PML4_i v) flags s) (\<lambda>(PML4, s).
      bindP (map_level (table_of s PML4) (PDP_i v) flags s) (\<lambda>(PML3, s).
      let temp = ucast (flags AND 0x1FFF) OR push_bit 36 (ucast (flags AND 0x0FFF0000));
          PML2 = set_PageSize (set_Address_Large (drop_bit 21 physical_addr) temp)
      in pt_write (table_of s PML3) (PD_i v) PML2 s)))"

definition x86_64_map_large_page :: "ptr \<Rightarrow> ptr \<Rightarrow> ptr \<Rightarrow> u32 \<Rightarrow> paging \<Rightarrow> paging prog" where
  "x86_64_map_large_page PML4Array physaddr virtualaddr flags s =
     x86_64_map_large_page_noflush PML4Array physaddr virtualaddr flags s"

section \<open>Unmapping\<close>

text \<open>The scan of one table and the release of the entry that points to it. The table's HHDM address is what is
  passed to the frame allocator.\<close>

definition group_used :: "paging \<Rightarrow> ptr \<Rightarrow> bool" where
  "group_used s grp = list_ex (\<lambda>i. Present (pt_mem s (grp + 8 * of_nat i))) [0..<512]"

definition release_group :: "ptr \<Rightarrow> ptr \<Rightarrow> u64 \<Rightarrow> paging \<Rightarrow> paging prog" where
  "release_group grp t i s =
     (if grp = nullptr then stop NullDeref
      else if \<not> group_used s grp then
        bindP (pt_FreePage grp s) (\<lambda>s. bindP (pt_read s t i) (\<lambda>e. pt_write t i (set_Present False e) s))
      else ret s)"

definition x86_64_unmap_page_noflush :: "ptr \<Rightarrow> ptr \<Rightarrow> paging \<Rightarrow> paging prog" where
  "x86_64_unmap_page_noflush PML4Array virtualaddr s =
     (let v = virtualaddr AND NOT 0xFFF in
      bindP (pt_read s PML4Array (PML4_i v)) (\<lambda>PML4.
      if \<not> Present PML4 then ret s else
      let t3 = table_of s PML4 in
      bindP (pt_read s t3 (PDP_i v)) (\<lambda>PML3.
      if \<not> Present PML3 then ret s else
      let t2 = table_of s PML3 in
      bindP (pt_read s t2 (PD_i v)) (\<lambda>PML2.
      if \<not> Present PML2 \<or> PageSize PML2 then ret s else
      let t1 = table_of s PML2 in
      bindP (pt_write t1 (PT_i v) 0 s) (\<lambda>s.
      bindP (pt_read s t2 (PD_i v)) (\<lambda>PML2.
      bindP (release_group (table_of s PML2) t2 (PD_i v) s) (\<lambda>s.
      bindP (pt_read s t3 (PDP_i v)) (\<lambda>PML3.
      bindP (release_group (table_of s PML3) t3 (PDP_i v) s) (\<lambda>s.
      bindP (pt_read s PML4Array (PML4_i v)) (\<lambda>PML4.
      release_group (table_of s PML4) PML4Array (PML4_i v) s))))))))))"

definition x86_64_unmap_page :: "ptr \<Rightarrow> ptr \<Rightarrow> paging \<Rightarrow> paging prog" where
  "x86_64_unmap_page PML4Array virtualaddr s = x86_64_unmap_page_noflush PML4Array virtualaddr s"

definition x86_64_unmap_large_page_noflush :: "ptr \<Rightarrow> ptr \<Rightarrow> paging \<Rightarrow> paging prog" where
  "x86_64_unmap_large_page_noflush PML4Array virtualaddr s =
     (let v = virtualaddr AND NOT 0x1FFFFF in
      bindP (pt_read s PML4Array (PML4_i v)) (\<lambda>PML4.
      if \<not> Present PML4 then ret s else
      let t3 = table_of s PML4 in
      bindP (pt_read s t3 (PDP_i v)) (\<lambda>PML3.
      if \<not> Present PML3 then ret s else
      let t2 = table_of s PML3 in
      bindP (pt_write t2 (PD_i v) 0 s) (\<lambda>s.
      bindP (pt_read s t3 (PDP_i v)) (\<lambda>PML3.
      bindP (release_group (table_of s PML3) t3 (PDP_i v) s) (\<lambda>s.
      bindP (pt_read s PML4Array (PML4_i v)) (\<lambda>PML4.
      release_group (table_of s PML4) t3 (PDP_i v) s)))))))"

definition x86_64_unmap_large_page :: "ptr \<Rightarrow> ptr \<Rightarrow> paging \<Rightarrow> paging prog" where
  "x86_64_unmap_large_page PML4Array virtualaddr s = x86_64_unmap_large_page_noflush PML4Array virtualaddr s"

section \<open>Changing flags\<close>

text \<open>One level of the descent of the remapping functions; None when the entry is not present.\<close>

definition remap_level :: "ptr \<Rightarrow> u64 \<Rightarrow> u32 \<Rightarrow> paging \<Rightarrow> (u64 option \<times> paging) prog" where
  "remap_level t i flags s =
     bindP (pt_read s t i) (\<lambda>e.
     if \<not> Present e then ret (None, s)
     else bindP (pt_write t i (e OR table_flags flags) s) (\<lambda>s. ret (Some e, s)))"

definition x86_64_remap_page_noflush :: "ptr \<Rightarrow> ptr \<Rightarrow> u32 \<Rightarrow> paging \<Rightarrow> paging prog" where
  "x86_64_remap_page_noflush PML4Array virtualaddr flags s =
     (let v = virtualaddr AND NOT 0xFFF in
      bindP (remap_level PML4Array (PML4_i v) flags s) (\<lambda>(r, s). case r of None \<Rightarrow> ret s | Some PML4 \<Rightarrow>
      bindP (remap_level (table_of s PML4) (PDP_i v) flags s) (\<lambda>(r, s). case r of None \<Rightarrow> ret s | Some PML3 \<Rightarrow>
      bindP (remap_level (table_of s PML3) (PD_i v) flags s) (\<lambda>(r, s). case r of None \<Rightarrow> ret s | Some PML2 \<Rightarrow>
      if PageSize PML2 then ret s
      else
        bindP (pt_read s (table_of s PML2) (PT_i v)) (\<lambda>PML1.
        let temp = leaf_flags flags OR (push_bit 12 (Address PML1) AND 0x000FFFFFFFFFF000)
        in pt_write (table_of s PML2) (PT_i v) temp s)))))"

definition x86_64_remap_page :: "ptr \<Rightarrow> ptr \<Rightarrow> u32 \<Rightarrow> paging \<Rightarrow> paging prog" where
  "x86_64_remap_page PML4Array virtualaddr flags s = x86_64_remap_page_noflush PML4Array virtualaddr flags s"

definition x86_64_remap_large_page :: "ptr \<Rightarrow> ptr \<Rightarrow> u32 \<Rightarrow> paging \<Rightarrow> paging prog" where
  "x86_64_remap_large_page PML4Array virtualaddr flags s = x86_64_remap_page_noflush PML4Array virtualaddr flags s"

definition x86_64_remap_large_page_noflush :: "ptr \<Rightarrow> ptr \<Rightarrow> u32 \<Rightarrow> paging \<Rightarrow> paging prog" where
  "x86_64_remap_large_page_noflush PML4Array virtualaddr flags s =
     (let v = virtualaddr AND NOT 0x1FFFFF in
      bindP (remap_level PML4Array (PML4_i v) flags s) (\<lambda>(r, s). case r of None \<Rightarrow> ret s | Some PML4 \<Rightarrow>
      bindP (remap_level (table_of s PML4) (PDP_i v) flags s) (\<lambda>(r, s). case r of None \<Rightarrow> ret s | Some PML3 \<Rightarrow>
      bindP (pt_read s (table_of s PML3) (PD_i v)) (\<lambda>PML2.
      let temp = leaf_flags flags OR (push_bit 12 (Address PML2) AND 0x000FFFFFFFFFF000)
      in pt_write (table_of s PML3) (PD_i v) temp s))))"

section \<open>The PageTable class\<close>

datatype PagePermissions = READ | WRITE | READ_WRITE | EXECUTE | READ_EXECUTE

record PageTable =
  m_root_table :: ptr
  m_mode :: bool

definition DecodePageFlags :: "PageTable \<Rightarrow> PagePermissions \<Rightarrow> u32" where
  "DecodePageFlags pt perms =
     (let page_perms = (if m_mode pt then 1 OR 4 else 1) in
      case perms of
        READ \<Rightarrow> page_perms OR 0x8000000
      | WRITE \<Rightarrow> page_perms OR 0x8000002
      | READ_WRITE \<Rightarrow> page_perms OR 0x8000002
      | EXECUTE \<Rightarrow> page_perms
      | READ_EXECUTE \<Rightarrow> page_perms)"

text \<open>\<open>sizeof(Level4Group) >> 3\<close> bytes are cleared: 512 of the 4096.\<close>

definition x86_64_InitUserTable :: "ptr \<Rightarrow> paging \<Rightarrow> paging prog" where
  "x86_64_InitUserTable PML4 s =
     bindP (pt_clear PML4 (unat (drop_bit 3 (4096 :: u64))) s) (\<lambda>s.
     bindP (pt_read s (K_PML4_Array s) 511) (\<lambda>e.
     bindP (pt_write PML4 511 e s) (\<lambda>s.
     let HHDM_PML4_offset = drop_bit 39 (x86_64_GetHHDMStart s AND 0x0000ff8000000000) in
     bindP (pt_read s (K_PML4_Array s) HHDM_PML4_offset) (\<lambda>e.
     pt_write PML4 HHDM_PML4_offset e s))))"

text \<open>The constructor; \<open>has_pm\<close> says that a page manager was given.\<close>

definition PageTable_make :: "bool \<Rightarrow> bool \<Rightarrow> paging \<Rightarrow> (PageTable \<times> paging) prog" where
  "PageTable_make mode has_pm s =
     (if mode \<and> has_pm then
        bindP (pt_AllocatePage s) (\<lambda>(p, s).
        let root = x86_64_to_HHDM s p in
        bindP (x86_64_InitUserTable root s) (\<lambda>s. ret (\<lparr>m_root_table = root, m_mode = mode\<rparr>, s)))
      else ret (\<lparr>m_root_table = K_PML4_Array s, m_mode = mode\<rparr>, s))"

definition PageTable_MapPage :: "PageTable \<Rightarrow> ptr \<Rightarrow> ptr \<Rightarrow> PagePermissions \<Rightarrow> paging \<Rightarrow> paging prog" where
  "PageTable_MapPage pt physical_addr virtual_addr perms s =
     x86_64_map_page_noflush (m_root_table pt) physical_addr virtual_addr (DecodePageFlags pt perms) s"

definition PageTable_RemapPage :: "PageTable \<Rightarrow> ptr \<Rightarrow> PagePermissions \<Rightarrow> paging \<Rightarrow> paging prog" where
  "PageTable_RemapPage pt virtual_addr perms s =
     x86_64_remap_page_noflush (m_root_table pt) virtual_addr (DecodePageFlags pt perms) s"

definition PageTable_UnmapPage :: "PageTable \<Rightarrow> ptr \<Rightarrow> paging \<Rightarrow> paging prog" where
  "PageTable_UnmapPage pt virtual_addr s = x86_64_unmap_page_noflush (m_root_table pt) virtual_addr s"

definition PageTable_GetPhysicalAddress :: "PageTable \<Rightarrow> ptr \<Rightarrow> paging \<Rightarrow> ptr prog" where
  "PageTable_GetPhysicalAddress pt virtual_addr s = x86_64_get_physaddr s (m_root_table pt) virtual_addr"

definition PageTable_GetRootTable :: "PageTable \<Rightarrow> ptr" where
  "PageTable_GetRootTable pt = m_root_table pt"

definition PageTable_GetRootTablePhysical :: "PageTable \<Rightarrow> paging \<Rightarrow> ptr prog" where
  "PageTable_GetRootTablePhysical pt s = PageTable_GetPhysicalAddress pt (m_root_table pt) s"

end
