(* ===== verification/PhysicalMemoryCorrect.thy ===== *)
theory PhysicalMemoryCorrect
  imports PhysicalMemory
begin

unbundle bit_operations_syntax

text \<open>
  The frame allocator against the set of frames in use. \<open>ppfa_ok\<close> is its invariant: the locks are free, frame 0 is
  never handed out, and the cached index names a free frame. Single pages are allocated and freed correctly.
  A request for one page through \<open>AllocatePages\<close> is not: it returns the wrong frame, and the same one every time.
\<close>

section \<open>Invariant\<close>

definition used_frames :: "PPFA \<Rightarrow> u64 set" where
  "used_frames a = {i. i < bitmap_bits a \<and> page_bit a i}"

definition ppfa_ok :: "PPFA \<Rightarrow> bool" where
  "ppfa_ok a \<longleftrightarrow> \<not> m_BitmapLock a \<and> \<not> m_globalLock a \<and> m_Size (m_Bitmap a) < 2 ^ 49 \<and> page_bit a 0 \<and>
     (m_nextFree a \<noteq> UINT64_MAX \<longrightarrow> m_nextFree a < bitmap_bits a \<and> \<not> page_bit a (m_nextFree a))"

named_theorems ppfa_simps \<open>state updates of the frame allocator\<close>

lemma unat_bitmap_bits: "m_Size (m_Bitmap a) < 2 ^ 49 \<Longrightarrow> unat (bitmap_bits a) = 8 * unat (m_Size (m_Bitmap a))"
  by (simp add: bitmap_bits_def Bitmap_GetSize_def push_bit_eq_mult unat_mult64 word_less_nat_alt)

lemma unat_step: "i < n \<Longrightarrow> unat (i + 1) = unat i + 1" for i n :: u64
proof -
  assume "i < n"
  then have "unat i < unat n" by (simp add: word_less_nat_alt)
  with unat_less_2p64 [of n] have "unat i + 1 < 18446744073709551616" by linarith
  then show "unat (i + 1) = unat i + 1" by (subst unat_add64) simp_all
qed

lemma in_bitmap:
  assumes "m_Size (m_Bitmap a) < 2 ^ 49"
  shows "i < bitmap_bits a \<longleftrightarrow> drop_bit 3 i < m_Size (m_Bitmap a)"
  using unat_bitmap_bits [OF assms] unat_byteIndex [of i] by (auto simp: word_less_nat_alt)

lemma bits_less: "m_Size (m_Bitmap a) < 2 ^ 49 \<Longrightarrow> i < bitmap_bits a \<Longrightarrow> unat i < 2 ^ 52"
  using unat_bitmap_bits [of a] by (simp add: word_less_nat_alt)

lemma page_index_mult: "unat i < 2 ^ 52 \<Longrightarrow> page_index (i * 4096) = i"
proof -
  assume i: "unat i < 2 ^ 52"
  have "unat (page_index (i * 4096)) = unat (i * 4096) div 2 ^ 12"
    unfolding page_index_def by (metis unat_drop_bit_eq drop_bit_eq_div)
  also have "\<dots> = unat i" using i by (simp add: unat_mult64)
  finally show ?thesis by (simp add: word_unat_eq_iff)
qed

lemma set_page_bit_fields [simp]:
  "m_Bitmap (set_page_bit i v a) = m_Bitmap a" "bitmap_bits (set_page_bit i v a) = bitmap_bits a"
  "m_nextFree (set_page_bit i v a) = m_nextFree a" "m_fullyInitialised (set_page_bit i v a) = m_fullyInitialised a"
  "m_BitmapLock (set_page_bit i v a) = m_BitmapLock a" "m_globalLock (set_page_bit i v a) = m_globalLock a"
  "m_FreeMem (set_page_bit i v a) = m_FreeMem a" "m_UsedMem (set_page_bit i v a) = m_UsedMem a"
  "m_ReservedMem (set_page_bit i v a) = m_ReservedMem a"
  by (simp_all add: set_page_bit_def bitmap_bits_def)

lemma page_bit_set [simp]:
  "drop_bit 3 i < m_Size (m_Bitmap a) \<Longrightarrow> page_bit (set_page_bit i v a) j = (if j = i then v else page_bit a j)"
  by (simp add: page_bit_def set_page_bit_def Bitmap_get_Set)

lemma page_bit_set_other: "k \<noteq> i \<Longrightarrow> page_bit (set_page_bit i v a) k = page_bit a k"
  by (simp add: page_bit_def set_page_bit_def bitmap.get_put_other)

lemma page_bit_set_mono: "page_bit a k \<Longrightarrow> page_bit (set_page_bit i True a) k"
proof (cases "k = i")
  case True
  assume "page_bit a k"
  then have "drop_bit 3 i < m_Size (m_Bitmap a)" using True by (simp add: page_bit_def Bitmap_get_bit)
  then show ?thesis using True by simp
qed (simp add: page_bit_set_other)

lemma page_bit_outside: "m_Size (m_Bitmap a) < 2 ^ 49 \<Longrightarrow> page_bit a i \<Longrightarrow> i < bitmap_bits a"
  by (auto simp: in_bitmap page_bit_def Bitmap_get_def Let_def split: if_splits)

text \<open>Fields that do not matter to the bits.\<close>

lemma page_bit_update [simp]:
  "page_bit (a\<lparr>m_FreeMem := x\<rparr>) i = page_bit a i" "page_bit (a\<lparr>m_UsedMem := x\<rparr>) i = page_bit a i"
  "page_bit (a\<lparr>m_ReservedMem := x\<rparr>) i = page_bit a i" "page_bit (a\<lparr>m_nextFree := x\<rparr>) i = page_bit a i"
  "page_bit (a\<lparr>m_BitmapLock := l\<rparr>) i = page_bit a i" "page_bit (a\<lparr>m_globalLock := l\<rparr>) i = page_bit a i"
  "bitmap_bits (a\<lparr>m_FreeMem := x\<rparr>) = bitmap_bits a" "bitmap_bits (a\<lparr>m_UsedMem := x\<rparr>) = bitmap_bits a"
  "bitmap_bits (a\<lparr>m_ReservedMem := x\<rparr>) = bitmap_bits a" "bitmap_bits (a\<lparr>m_nextFree := x\<rparr>) = bitmap_bits a"
  "bitmap_bits (a\<lparr>m_BitmapLock := l\<rparr>) = bitmap_bits a" "bitmap_bits (a\<lparr>m_globalLock := l\<rparr>) = bitmap_bits a"
  by (simp_all add: page_bit_def bitmap_bits_def)

lemma set_page_bit_update [simp]:
  "set_page_bit i v (a\<lparr>m_BitmapLock := l\<rparr>) = (set_page_bit i v a)\<lparr>m_BitmapLock := l\<rparr>"
  by (simp add: set_page_bit_def)

section \<open>One page\<close>

text \<open>With the locks free, taking and giving back a lock changes nothing.\<close>

lemmas lock_defs = acquire_bitmap_def acquire_global_def release_bitmap_def release_global_def

lemma acquire_idle:
  "\<not> m_BitmapLock a \<Longrightarrow> acquire_bitmap a = ret (a\<lparr>m_BitmapLock := m_fullyInitialised a\<rparr>)"
  "\<not> m_globalLock a \<Longrightarrow> acquire_global a = ret (a\<lparr>m_globalLock := m_fullyInitialised a\<rparr>)"
  by (cases a; simp add: lock_defs)+

lemma LockPage_eq:
  assumes "\<not> m_BitmapLock a" "\<not> m_globalLock a"
  shows "LockPage page a = ret (if page_bit a (page_index page) then a
    else (set_page_bit (page_index page) True a)\<lparr>m_FreeMem := m_FreeMem a - 4096, m_UsedMem := m_UsedMem a + 4096\<rparr>)"
  using assms by (cases a) (simp add: LockPage_def lock_defs Let_def set_page_bit_def page_bit_def)

lemma FreePage_eq:
  assumes "\<not> m_BitmapLock a" "\<not> m_globalLock a"
  shows "FreePage page a = ret (if \<not> page_bit a (page_index page) then a
    else (set_page_bit (page_index page) False a)\<lparr>m_FreeMem := m_FreeMem a + 4096, m_UsedMem := m_UsedMem a - 4096,
      m_nextFree := page_index page\<rparr>)"
  using assms by (cases a) (simp add: FreePage_def lock_defs Let_def set_page_bit_def page_bit_def)

section \<open>Search\<close>

lemma FindFreePage_loop_least:
  assumes "i \<le> n" "n < bitmap_bits a" "\<not> page_bit a n" "\<And>k. i \<le> k \<Longrightarrow> k < n \<Longrightarrow> page_bit a k"
  shows "FindFreePage_loop a i = ret (n, if n + 1 < bitmap_bits a \<and> \<not> page_bit a (n + 1) then a\<lparr>m_nextFree := n + 1\<rparr> else a)"
  using assms
proof (induction "unat n - unat i" arbitrary: i)
  case 0
  then have "i = n" by (simp add: word_le_nat_alt word_unat_eq_iff)
  then show ?case using 0 by (subst FindFreePage_loop.simps) (simp add: Let_def)
next
  case (Suc d)
  then have lt: "i < n" by (metis Suc_neq_Zero diff_self_eq_0 order.order_iff_strict)
  then have u: "unat (i + 1) = unat i + 1" by (rule unat_step)
  have "FindFreePage_loop a (i + 1) = ret (n, if n + 1 < bitmap_bits a \<and> \<not> page_bit a (n + 1) then a\<lparr>m_nextFree := n + 1\<rparr> else a)"
    by (rule Suc(1)) (use Suc(2-) lt u in \<open>auto simp: word_le_nat_alt word_less_nat_alt\<close>)
  moreover have "i < bitmap_bits a" "page_bit a i" using lt Suc by auto
  ultimately show ?case by (subst FindFreePage_loop.simps) simp
qed

lemma FindFreePage_loop_none:
  assumes "\<And>k. i \<le> k \<Longrightarrow> k < bitmap_bits a \<Longrightarrow> page_bit a k"
  shows "FindFreePage_loop a i = ret (UINT64_MAX, a)"
  using assms
proof (induction "unat (bitmap_bits a) - unat i" arbitrary: i)
  case 0
  then show ?case by (subst FindFreePage_loop.simps) (simp add: word_less_nat_alt)
next
  case (Suc d)
  then have lt: "i < bitmap_bits a" by (simp add: word_less_nat_alt)
  then have u: "unat (i + 1) = unat i + 1" by (rule unat_step)
  have "FindFreePage_loop a (i + 1) = ret (UINT64_MAX, a)"
    by (rule Suc(1)) (use Suc(2-) u in \<open>auto simp: word_le_nat_alt\<close>)
  then show ?case using lt Suc(3) [of i] by (subst FindFreePage_loop.simps) simp
qed

lemma FindFreePage_ok:
  assumes ok: "ppfa_ok a" and free: "f < bitmap_bits a" "\<not> page_bit a f"
  obtains i nf where "FindFreePage a = ret (i, a\<lparr>m_nextFree := nf\<rparr>)" "i < bitmap_bits a" "\<not> page_bit a i"
    "nf \<noteq> UINT64_MAX \<Longrightarrow> nf < bitmap_bits a \<and> \<not> page_bit a nf \<and> nf \<noteq> i"
proof -
  let ?b = "a\<lparr>m_BitmapLock := m_fullyInitialised a, m_globalLock := m_fullyInitialised a\<rparr>"
  have locks: "\<not> m_BitmapLock a" "\<not> m_globalLock a" using ok by (auto simp: ppfa_ok_def)
  have rel: "release_bitmap (release_global (?b\<lparr>m_nextFree := x\<rparr>)) = a\<lparr>m_nextFree := x\<rparr>" for x
    using locks by (cases a) (simp add: lock_defs)
  have find: "FindFreePage a = bindP
       (if m_nextFree a \<noteq> UINT64_MAX then
          if m_nextFree a + 1 < bitmap_bits a \<and> \<not> page_bit a (m_nextFree a + 1) then ret (m_nextFree a, ?b\<lparr>m_nextFree := m_nextFree a + 1\<rparr>)
          else ret (m_nextFree a, ?b\<lparr>m_nextFree := UINT64_MAX\<rparr>)
        else FindFreePage_loop ?b 0)
       (\<lambda>(i, a). ret (i, release_bitmap (release_global a)))"
    using locks by (simp add: FindFreePage_def acquire_idle Let_def)
  show thesis
  proof (cases "m_nextFree a = UINT64_MAX")
    case False
    then have nf: "m_nextFree a < bitmap_bits a" "\<not> page_bit a (m_nextFree a)" using ok by (auto simp: ppfa_ok_def)
    show thesis
    proof (cases "m_nextFree a + 1 < bitmap_bits a \<and> \<not> page_bit a (m_nextFree a + 1)")
      case nx: True
      show thesis by (rule that [of "m_nextFree a" "m_nextFree a + 1"]) (use False nf nx in \<open>simp_all add: find rel\<close>)
    next
      case nx: False
      then have "FindFreePage a = ret (m_nextFree a, a\<lparr>m_nextFree := UINT64_MAX\<rparr>)"
        unfolding find if_not_P [OF nx] using False by (simp add: rel)
      then show thesis using that [of "m_nextFree a" UINT64_MAX] nf by simp
    qed
  next
    case True
    define n where "n = (LEAST n. n < unat (bitmap_bits a) \<and> \<not> page_bit a (of_nat n))"
    have ex: "unat f < unat (bitmap_bits a) \<and> \<not> page_bit a (of_nat (unat f))" using free by (simp add: word_less_nat_alt)
    have n: "n < unat (bitmap_bits a)" "\<not> page_bit a (of_nat n)" using LeastI [of "\<lambda>n. n < unat (bitmap_bits a) \<and> \<not> page_bit a (of_nat n)", OF ex]
      by (auto simp: n_def)
    have u: "unat (of_nat n :: u64) = n" by (rule unat_of_nat64, rule order.strict_trans [OF n(1)]) simp
    have less: "page_bit a k" if "k < of_nat n" for k :: u64
    proof (rule ccontr)
      assume "\<not> page_bit a k"
      moreover have "unat k < n" using that u by (simp add: word_less_nat_alt)
      ultimately show False using not_less_Least [of "unat k" "\<lambda>n. n < unat (bitmap_bits a) \<and> \<not> page_bit a (of_nat n)"] n(1)
        by (simp add: n_def)
    qed
    have in_range: "of_nat n < bitmap_bits a" using n(1) u by (simp add: word_less_nat_alt)
    have loop: "FindFreePage_loop ?b 0 = ret (of_nat n,
        if of_nat n + 1 < bitmap_bits a \<and> \<not> page_bit a (of_nat n + 1) then ?b\<lparr>m_nextFree := of_nat n + 1\<rparr> else ?b)"
      using FindFreePage_loop_least [of 0 "of_nat n" ?b] in_range n(2) less by simp
    have same: "?b\<lparr>m_nextFree := UINT64_MAX\<rparr> = ?b" using True by (cases a) simp
    show thesis
    proof (cases "of_nat n + 1 < bitmap_bits a \<and> \<not> page_bit a (of_nat n + 1)")
      case nx: True
      show thesis by (rule that [of "of_nat n" "of_nat n + 1"]) (use True in_range n(2) loop nx in \<open>simp_all add: find rel\<close>)
    next
      case nx: False
      have "FindFreePage a = ret (of_nat n, a\<lparr>m_nextFree := UINT64_MAX\<rparr>)"
        unfolding find loop if_not_P [OF nx] using True rel [of UINT64_MAX, unfolded same] by simp
      then show thesis using that [of "of_nat n" UINT64_MAX] in_range n(2) by simp
    qed
  qed
qed

lemma AllocatePage_ok:
  assumes ok: "ppfa_ok a" and free: "f < bitmap_bits a" "\<not> page_bit a f"
  shows "\<exists>i a'. AllocatePage a = ret (i * 4096, a') \<and> i \<noteq> 0 \<and> i < bitmap_bits a \<and> i \<notin> used_frames a \<and>
    used_frames a' = insert i (used_frames a) \<and> ppfa_ok a' \<and>
    m_FreeMem a' = m_FreeMem a - 4096 \<and> m_UsedMem a' = m_UsedMem a + 4096 \<and> bitmap_bits a' = bitmap_bits a"
proof -
  obtain i nf where i: "FindFreePage a = ret (i, a\<lparr>m_nextFree := nf\<rparr>)" "i < bitmap_bits a" "\<not> page_bit a i"
    "nf \<noteq> UINT64_MAX \<Longrightarrow> nf < bitmap_bits a \<and> \<not> page_bit a nf \<and> nf \<noteq> i"
    using FindFreePage_ok [OF assms] by blast
  have sz: "m_Size (m_Bitmap a) < 2 ^ 49" and locks: "\<not> m_BitmapLock a" "\<not> m_globalLock a" and "page_bit a 0"
    using ok by (auto simp: ppfa_ok_def)
  have u: "unat i < 2 ^ 52" by (rule bits_less [OF sz i(2)])
  have "i \<noteq> UINT64_MAX" using u by (intro notI) (simp add: unsigned_minus_1_eq_mask mask_eq_exp_minus_1)
  moreover have "i \<noteq> 0" using i(3) \<open>page_bit a 0\<close> by metis
  ultimately have i0: "i \<noteq> 0" "i \<noteq> UINT64_MAX" "page_index (i * 4096) = i" "drop_bit 3 i < m_Size (m_Bitmap a)"
    using page_index_mult [OF u] i(2) unfolding in_bitmap [OF sz] by simp_all
  let ?a = "(set_page_bit i True (a\<lparr>m_nextFree := nf\<rparr>))\<lparr>m_FreeMem := m_FreeMem a - 4096, m_UsedMem := m_UsedMem a + 4096\<rparr>"
  have bits: "page_bit ?a j = (j = i \<or> page_bit a j)" for j using i0(4) by simp
  have "AllocatePage a = ret (i * 4096, ?a)"
    using i0 i(1,3) locks by (simp add: AllocatePage_def LockPage_eq)
  moreover have "ppfa_ok ?a" using ok i(4) bits by (auto simp: ppfa_ok_def simp del: page_bit_set)
  moreover have "used_frames ?a = insert i (used_frames a)" using bits i(2) by (auto simp: used_frames_def simp del: page_bit_set)
  ultimately show ?thesis using i0 i(2,3) by (intro exI [of _ i] exI [of _ ?a]) (simp add: used_frames_def)
qed

lemma AllocatePage_full:
  assumes ok: "ppfa_ok a" and full: "\<And>i. i < bitmap_bits a \<Longrightarrow> page_bit a i"
  shows "AllocatePage a = stop (Panic ''OUT OF MEMORY. No physical pages are available.'')"
proof -
  have nf: "m_nextFree a = UINT64_MAX" and locks: "\<not> m_BitmapLock a" "\<not> m_globalLock a"
    using ok full by (auto simp: ppfa_ok_def)
  then have "FindFreePage a = bindP (FindFreePage_loop (a\<lparr>m_BitmapLock := m_fullyInitialised a, m_globalLock := m_fullyInitialised a\<rparr>) 0)
      (\<lambda>(i, a). ret (i, release_bitmap (release_global a)))"
    by (simp add: FindFreePage_def acquire_idle)
  also have "\<dots> = ret (UINT64_MAX, release_bitmap (release_global (a\<lparr>m_BitmapLock := m_fullyInitialised a, m_globalLock := m_fullyInitialised a\<rparr>)))"
    by (subst FindFreePage_loop_none) (simp_all add: full)
  finally show ?thesis by (simp add: AllocatePage_def)
qed

lemma FreePage_ok:
  assumes ok: "ppfa_ok a" and i: "i \<in> used_frames a" "i \<noteq> 0"
  shows "\<exists>a'. FreePage (i * 4096) a = ret a' \<and> ppfa_ok a' \<and> used_frames a' = used_frames a - {i} \<and>
    m_FreeMem a' = m_FreeMem a + 4096 \<and> m_UsedMem a' = m_UsedMem a - 4096"
proof -
  have sz: "m_Size (m_Bitmap a) < 2 ^ 49" and locks: "\<not> m_BitmapLock a" "\<not> m_globalLock a" and p0: "page_bit a 0"
    using ok by (auto simp: ppfa_ok_def)
  have ib: "i < bitmap_bits a" "page_bit a i" using i by (auto simp: used_frames_def)
  have r: "page_index (i * 4096) = i" "drop_bit 3 i < m_Size (m_Bitmap a)"
    using page_index_mult [OF bits_less [OF sz ib(1)]] ib(1) unfolding in_bitmap [OF sz] by simp_all
  let ?a = "(set_page_bit i False a)\<lparr>m_FreeMem := m_FreeMem a + 4096, m_UsedMem := m_UsedMem a - 4096, m_nextFree := i\<rparr>"
  have bits: "page_bit ?a j = (j \<noteq> i \<and> page_bit a j)" for j using r(2) by simp
  have "FreePage (i * 4096) a = ret ?a" using FreePage_eq [OF locks, of "i * 4096"] ib(2) r(1) by simp
  moreover have "ppfa_ok ?a" using ok ib i(2) bits by (auto simp: ppfa_ok_def simp del: page_bit_set)
  moreover have "used_frames ?a = used_frames a - {i}" using bits by (auto simp: used_frames_def simp del: page_bit_set)
  ultimately show ?thesis by (intro exI [of _ ?a]) simp
qed

section \<open>What the frame allocator promises\<close>

text \<open>The contract the page tables rely on, over the set of the addresses of the frames in use.\<close>

locale frame_allocator =
  fixes alloc :: "'s \<Rightarrow> (ptr \<times> 's) prog"
    and free :: "ptr \<Rightarrow> 's \<Rightarrow> 's prog"
    and inv :: "'s \<Rightarrow> bool"
    and live :: "'s \<Rightarrow> ptr set"
  assumes alloc_fresh: "inv s \<Longrightarrow> alloc s = ret (p, s') \<Longrightarrow> p \<noteq> nullptr \<and> p \<notin> live s \<and> live s' = insert p (live s) \<and> inv s'"
    and alloc_aligned: "inv s \<Longrightarrow> alloc s = ret (p, s') \<Longrightarrow> \<exists>i. p = i * 4096 \<and> unat i < 2 ^ 52"
    and free_live: "inv s \<Longrightarrow> p \<in> live s \<Longrightarrow> \<exists>s'. free p s = ret s' \<and> inv s' \<and> live s' = live s - {p}"
begin

lemma alloc_free: "inv s \<Longrightarrow> alloc s = ret (p, s') \<Longrightarrow> \<exists>s''. free p s' = ret s'' \<and> inv s'' \<and> live s'' = live s"
  using alloc_fresh [of s p s'] free_live [of s' p] by auto

end

definition ppfa_live :: "PPFA \<Rightarrow> ptr set" where
  "ppfa_live a = (\<lambda>i. i * 4096) ` (used_frames a - {0})"

lemma frame_address_inj: "m_Size (m_Bitmap a) < 2 ^ 49 \<Longrightarrow> inj_on (\<lambda>i. i * 4096) {i. i < bitmap_bits a}"
  using page_index_mult bits_less by (intro inj_on_inverseI [where g = page_index]) auto

interpretation ppfa: frame_allocator AllocatePage FreePage ppfa_ok ppfa_live
proof
  fix a p a' assume ok: "ppfa_ok a" and run: "AllocatePage a = ret (p, a')"
  have ex: "\<exists>f. f < bitmap_bits a \<and> \<not> page_bit a f"
    using AllocatePage_full [OF ok] run by (metis ret_neq(3))
  then obtain i where i: "p = i * 4096" "i \<noteq> 0" "i < bitmap_bits a" "i \<notin> used_frames a" "used_frames a' = insert i (used_frames a)" "ppfa_ok a'"
    using AllocatePage_ok [OF ok] run by fastforce
  have sz: "m_Size (m_Bitmap a) < 2 ^ 49" using ok by (simp add: ppfa_ok_def)
  have pi: "page_index p = i" "unat i < 2 ^ 52" using page_index_mult bits_less [OF sz i(3)] i(1) by auto
  have "p \<noteq> nullptr" using pi i(2) by (auto simp: page_index_def)
  moreover have "p \<notin> ppfa_live a"
  proof
    assume "p \<in> ppfa_live a"
    then obtain j where "j \<in> used_frames a" "i * 4096 = j * 4096" using i(1) by (auto simp: ppfa_live_def)
    then show False using inj_onD [OF frame_address_inj [OF sz], of i j] i(3,4) by (auto simp: used_frames_def)
  qed
  moreover have "ppfa_live a' = insert p (ppfa_live a)" using i(1,2,5) by (auto simp: ppfa_live_def)
  ultimately show "p \<noteq> nullptr \<and> p \<notin> ppfa_live a \<and> ppfa_live a' = insert p (ppfa_live a) \<and> ppfa_ok a'" using i(6) by blast
  show "\<exists>i. p = i * 4096 \<and> unat i < 2 ^ 52" using i(1) pi(2) by blast
next
  fix a p assume ok: "ppfa_ok a" and p: "p \<in> ppfa_live a"
  then obtain i where i: "p = i * 4096" "i \<in> used_frames a" "i \<noteq> 0" by (auto simp: ppfa_live_def)
  obtain a' where a': "FreePage p a = ret a'" "ppfa_ok a'" "used_frames a' = used_frames a - {i}"
    using FreePage_ok [OF ok i(2,3)] i(1) by blast
  have "inj_on (\<lambda>i. i * 4096) (used_frames a - {0})"
    using ok by (intro inj_on_subset [OF frame_address_inj [of a]]) (auto simp: ppfa_ok_def used_frames_def)
  then have "ppfa_live a' = ppfa_live a - {p}"
    using a'(3) i by (auto simp: ppfa_live_def inj_on_def)
  then show "\<exists>a'. FreePage p a = ret a' \<and> ppfa_ok a' \<and> ppfa_live a' = ppfa_live a - {p}" using a' by blast
qed

section \<open>One page through AllocatePages\<close>

lemma FindFreePages_loop_one:
  assumes "i \<le> n" "n < bitmap_bits a" "\<not> page_bit a n" "\<And>k. i \<le> k \<Longrightarrow> k < n \<Longrightarrow> page_bit a k"
  shows "FindFreePages_loop a 1 i = ret (n * 8, if m_nextFree a = n then a\<lparr>m_nextFree := UINT64_MAX\<rparr> else a)"
  using assms
proof (induction "unat n - unat i" arbitrary: i)
  case 0
  then have "i = n" by (simp add: word_le_nat_alt word_unat_eq_iff)
  then show ?case using 0 by (subst FindFreePages_loop.simps) simp
next
  case (Suc d)
  then have lt: "i < n" by (metis Suc_neq_Zero diff_self_eq_0 order.order_iff_strict)
  then have u: "unat (i + 1) = unat i + 1" by (rule unat_step)
  have "FindFreePages_loop a 1 (i + 1) = ret (n * 8, if m_nextFree a = n then a\<lparr>m_nextFree := UINT64_MAX\<rparr> else a)"
    by (rule Suc(1)) (use Suc(2-) lt u in \<open>auto simp: word_le_nat_alt word_less_nat_alt\<close>)
  moreover have "i < bitmap_bits a" "page_bit a i" using lt Suc by auto
  ultimately show ?case by (subst FindFreePages_loop.simps) simp
qed

lemma AllocatePages_one:
  assumes locks: "\<not> m_BitmapLock a" "\<not> m_globalLock a" and sz: "m_Size (m_Bitmap a) < 2 ^ 46"
    and n: "n < bitmap_bits a" "\<not> page_bit a n" "n \<noteq> 0" "\<And>k. k < n \<Longrightarrow> page_bit a k"
  shows "\<exists>a'. AllocatePages 1 a = ret (n * 8 * 4096, a') \<and> \<not> m_BitmapLock a' \<and> \<not> m_globalLock a' \<and>
    m_Bitmap a' = m_Bitmap a \<and> bitmap_bits a' = bitmap_bits a \<and> (\<forall>k. page_bit a k \<longrightarrow> page_bit a' k) \<and> \<not> page_bit a' n"
proof -
  let ?b = "a\<lparr>m_BitmapLock := m_fullyInitialised a, m_globalLock := m_fullyInitialised a\<rparr>"
  let ?c = "if m_nextFree a = n then a\<lparr>m_nextFree := UINT64_MAX\<rparr> else a"
  have sz': "m_Size (m_Bitmap a) < 2 ^ 49" using sz by (simp add: word_less_nat_alt)
  have un: "unat n < 2 ^ 49" using n(1) unat_bitmap_bits [OF sz'] sz by (simp add: word_less_nat_alt)
  then have u8: "unat (n * 8) = unat n * 8" by (simp add: unat_mult64)
  have pi: "page_index (n * 8 * 4096) = n * 8" by (rule page_index_mult) (use un u8 in simp)
  have ne: "n * 8 \<noteq> UINT64_MAX" "n \<noteq> n * 8"
    using un u8 n(3) by (auto simp: word_unat_eq_iff unsigned_minus_1_eq_mask mask_eq_exp_minus_1)
  have "FindFreePages_loop ?b 1 0 = ret (n * 8, if m_nextFree ?b = n then ?b\<lparr>m_nextFree := UINT64_MAX\<rparr> else ?b)"
    by (rule FindFreePages_loop_one) (use n in simp_all)
  moreover have rel: "release_bitmap (release_global (if m_nextFree ?b = n then ?b\<lparr>m_nextFree := UINT64_MAX\<rparr> else ?b)) = ?c"
    using locks by (cases a) (simp add: lock_defs)
  ultimately have find: "FindFreePages 1 a = ret (n * 8, ?c)"
    using locks rel by (simp add: FindFreePages_def acquire_idle)
  have c: "\<not> m_BitmapLock ?c" "\<not> m_globalLock ?c" "\<And>k. page_bit ?c k = page_bit a k" "m_Bitmap ?c = m_Bitmap a" "bitmap_bits ?c = bitmap_bits a"
    using locks by simp_all
  let ?d = "if page_bit ?c (n * 8) then ?c
    else (set_page_bit (n * 8) True ?c)\<lparr>m_FreeMem := m_FreeMem ?c - 4096, m_UsedMem := m_UsedMem ?c + 4096\<rparr>"
  have "LockPage (n * 8 * 4096) ?c = ret ?d" using LockPage_eq [OF c(1,2), of "n * 8 * 4096"] unfolding pi .
  then have "AllocatePages 1 a = ret (n * 8 * 4096, ?d)"
    using ne(1) by (simp add: AllocatePages_def find LockPages_def)
  moreover have "page_bit ?d k" if "page_bit a k" for k
    using that c(3) page_bit_set_mono [of ?c k "n * 8"] by simp
  moreover have "\<not> page_bit ?d n"
    using n(2) c(3) page_bit_set_other [OF ne(2), of True ?c] by simp
  moreover have "\<not> m_BitmapLock ?d" "\<not> m_globalLock ?d" "m_Bitmap ?d = m_Bitmap a" "bitmap_bits ?d = bitmap_bits a"
    using c by simp_all
  ultimately show ?thesis by blast
qed

section \<open>Properties\<close>

text \<open>A machine with sixteen frames, of which frames 0 and 1 are in use.\<close>

definition small_ppfa :: PPFA where
  "small_ppfa = (PPFA_make ((\<lambda>_. 0)(0x1000 := 0xC0)))\<lparr>m_Bitmap := Bitmap_make 0x1000 2, m_fullyInitialised := True\<rparr>"

lemma small_ppfa_bits: "bitmap_bits small_ppfa = 16" "page_bit small_ppfa 0" "page_bit small_ppfa 1" "\<not> page_bit small_ppfa 2"
  by (simp_all add: small_ppfa_def PPFA_make_def bitmap_bits_def Bitmap_GetSize_def Bitmap_make_def page_bit_def
      Bitmap_get_def Let_def bitIndexer_def)

lemma small_ppfa_ok: "ppfa_ok small_ppfa"
  using small_ppfa_bits by (simp add: ppfa_ok_def) (simp add: small_ppfa_def PPFA_make_def Bitmap_make_def)

text \<open>C16. \<open>AllocatePage\<close> hands out a frame that was not in use and marks exactly that frame, moves one page from the
  free to the used count and keeps the invariant; when every frame is in use it panics.\<close>

theorem AllocatePage_fresh:
  assumes "ppfa_ok a"
  shows "if \<exists>f. f < bitmap_bits a \<and> \<not> page_bit a f then
      \<exists>i a'. AllocatePage a = ret (i * 4096, a') \<and> i \<noteq> 0 \<and> i < bitmap_bits a \<and> i \<notin> used_frames a \<and>
        used_frames a' = insert i (used_frames a) \<and> ppfa_ok a' \<and>
        m_FreeMem a' = m_FreeMem a - 4096 \<and> m_UsedMem a' = m_UsedMem a + 4096
    else AllocatePage a = stop (Panic ''OUT OF MEMORY. No physical pages are available.'')"
proof (cases "\<exists>f. f < bitmap_bits a \<and> \<not> page_bit a f")
  case True
  then obtain f where "f < bitmap_bits a" "\<not> page_bit a f" by blast
  from AllocatePage_ok [OF assms this] show ?thesis unfolding if_P [OF True] by blast
next
  case False
  then show ?thesis using AllocatePage_full [OF assms] by auto
qed

theorem AllocatePage_fresh_witness:
  "\<exists>i a'. AllocatePage small_ppfa = ret (i * 4096, a') \<and> i \<notin> used_frames small_ppfa \<and> i \<in> used_frames a'"
proof -
  have "\<exists>f. f < bitmap_bits small_ppfa \<and> \<not> page_bit small_ppfa f"
    using small_ppfa_bits by (intro exI [of _ 2]) simp
  then show ?thesis using AllocatePage_fresh [OF small_ppfa_ok] by auto
qed

text \<open>Freeing the frame just allocated restores the set of frames in use and the invariant.\<close>

lemma AllocatePage_FreePage:
  assumes "ppfa_ok a" and "AllocatePage a = ret (p, a')"
  shows "\<exists>a''. FreePage p a' = ret a'' \<and> ppfa_ok a'' \<and> ppfa_live a'' = ppfa_live a"
  by (rule ppfa.alloc_free [OF assms])

text \<open>C27. \<open>AllocatePages(1)\<close> hands the same memory out twice: the first free frame \<open>n\<close> is found, but frame \<open>8 n\<close> is
  marked and returned, so the next call finds \<open>n\<close> again and returns the same address.\<close>

theorem AllocatePages_same_twice:
  assumes "\<not> m_BitmapLock a" and "\<not> m_globalLock a" and "m_Size (m_Bitmap a) < 2 ^ 46"
    and "n < bitmap_bits a" and "\<not> page_bit a n" and "n \<noteq> 0" and "\<And>k. k < n \<Longrightarrow> page_bit a k"
  shows "\<exists>a1 a2. AllocatePages 1 a = ret (n * 8 * 4096, a1) \<and> AllocatePages 1 a1 = ret (n * 8 * 4096, a2)"
proof -
  obtain a1 where a1: "AllocatePages 1 a = ret (n * 8 * 4096, a1)" "\<not> m_BitmapLock a1" "\<not> m_globalLock a1"
    "m_Bitmap a1 = m_Bitmap a" "bitmap_bits a1 = bitmap_bits a" "\<forall>k. page_bit a k \<longrightarrow> page_bit a1 k" "\<not> page_bit a1 n"
    using AllocatePages_one [OF assms] by blast
  have "\<exists>a2. AllocatePages 1 a1 = ret (n * 8 * 4096, a2)"
    using AllocatePages_one [of a1 n] a1 assms by auto
  then show ?thesis using a1(1) by blast
qed

theorem AllocatePages_same_twice_witness:
  "\<exists>a1 a2. AllocatePages 1 small_ppfa = ret (0x10000, a1) \<and> AllocatePages 1 a1 = ret (0x10000, a2)"
proof -
  have "k = 0 \<or> k = 1" if "k < 2" for k :: u64 using that by (simp add: word_less_nat_alt word_unat_eq_iff) auto
  then have "page_bit small_ppfa k" if "k < 2" for k using that small_ppfa_bits by auto
  moreover have "m_Size (m_Bitmap small_ppfa) < 2 ^ 46" by (simp add: small_ppfa_def Bitmap_make_def)
  ultimately show ?thesis
    using AllocatePages_same_twice [of small_ppfa 2] small_ppfa_bits small_ppfa_ok by (simp add: ppfa_ok_def)
qed

text \<open>A request for no pages returns with both locks of a fully initialised allocator held: the next allocation
  never returns.\<close>

lemma AllocatePages_0_deadlock:
  assumes "ppfa_ok a" and "m_fullyInitialised a"
  shows "\<exists>a'. AllocatePages 0 a = ret (nullptr, a') \<and> AllocatePage a' = None"
  using assms by (simp add: ppfa_ok_def AllocatePages_def FindFreePages_def AllocatePage_def FindFreePage_def acquire_bitmap_def acquire_global_def)

end
