(* ===== verification/PageTablesCorrect.thy ===== *)
theory PageTablesCorrect
  imports PageTables PhysicalMemoryCorrect
begin

unbundle bit_operations_syntax

text \<open>
  A page that has been mapped translates to its frame. The invariant \<open>pt_inv\<close> assigns a level to every frame that holds a
  table: the root has level 4, every present entry of a table leads to a table one level below, and tables are
  frames in use. A new table is a fresh frame by the contract of the frame allocator, so the descent of a
  mapping never damages another table.
\<close>

section \<open>Entries\<close>

lemma Address_bits: "bit (Address e) n \<longleftrightarrow> n < 40 \<and> bit e (12 + n)"
  by (auto simp: Address_def bit_simps)

lemma Address_eqI: "(\<And>n. 12 \<le> n \<Longrightarrow> n < 52 \<Longrightarrow> bit e n = bit e' n) \<Longrightarrow> Address e = Address e'"
  by (rule bit_eqI) (auto simp: Address_bits)

lemma flag_masks: "(0x0FFF :: u32) = mask 12" "(0x07FF0000 :: u32) = push_bit 16 (mask 11)" "(0x0FFF0000 :: u32) = push_bit 16 (mask 12)"
  by (simp_all add: mask_eq_exp_minus_1)

lemmas bit_rules = bit_or_iff bit_push_bit_iff bit_unsigned_iff bit_and_iff bit_mask_iff bit_take_bit_iff bit_drop_bit_eq bit_not_iff

lemma table_flags_bit: "bit (table_flags flags) n \<Longrightarrow> n < 12 \<or> 52 \<le> n"
  unfolding table_flags_def flag_masks bit_rules by (elim disjE conjE) simp_all

lemma leaf_flags_bit: "bit (leaf_flags flags) n \<Longrightarrow> n < 12 \<or> 52 \<le> n"
  unfolding leaf_flags_def flag_masks bit_rules by (elim disjE conjE) simp_all

lemma flags_low: "n < 12 \<Longrightarrow> bit (table_flags flags) n = bit flags n" "n < 12 \<Longrightarrow> bit (leaf_flags flags) n = bit flags n"
  unfolding table_flags_def leaf_flags_def flag_masks bit_rules by auto

lemma Address_or_flags [simp]: "Address (e OR table_flags flags) = Address e"
  using table_flags_bit [of flags] by (intro Address_eqI) (fastforce simp: bit_or_iff)

lemma Address_set_Address [simp]: "Address (set_Address v e) = take_bit 40 v"
  by (rule bit_eqI) (auto simp: Address_bits set_Address_def bit_rules)

lemma set_Address_low: "n < 12 \<Longrightarrow> bit (set_Address v e) n = bit e n"
  unfolding set_Address_def bit_rules by auto

lemma Present_simps [simp]:
  "Present (e OR table_flags flags) \<longleftrightarrow> Present e \<or> bit flags 0"
  "Present (set_Address v e) = Present e" "Present (set_Present b e) = b" "Present (leaf_flags flags) = bit flags 0"
  by (simp_all add: Present_def bit_or_iff flags_low set_Address_low set_Present_def bit_simps)

lemma PageSize_simps [simp]:
  "PageSize (e OR table_flags flags) \<longleftrightarrow> PageSize e \<or> bit flags 7"
  "PageSize (set_Address v e) = PageSize e" "PageSize (set_Present b e) = PageSize e" "PageSize (table_flags flags) = bit flags 7"
  by (simp_all add: PageSize_def bit_or_iff flags_low set_Address_low set_Present_def bit_simps)

section \<open>Table addresses\<close>

definition valid_frame :: "ptr \<Rightarrow> bool" where
  "valid_frame f \<longleftrightarrow> take_bit 12 f = 0 \<and> 0x1000 \<le> f \<and> f < 2 ^ 39"

definition hhdm_ok :: "paging \<Rightarrow> bool" where
  "hhdm_ok s \<longleftrightarrow> take_bit 39 (g_HHDM_start s) = 0 \<and> g_HHDM_start s \<noteq> 0"

definition slot :: "paging \<Rightarrow> ptr \<Rightarrow> u64 \<Rightarrow> ptr" where
  "slot s f i = g_HHDM_start s + f + 8 * i"

lemma take_bit_12_mod: "take_bit 12 f = 0 \<longleftrightarrow> unat f mod 4096 = 0" for f :: u64
  by (simp add: take_bit_eq_mod word_unat_eq_iff unat_mod)

lemma slot_inj:
  assumes "valid_frame f" "valid_frame g" "i < 512" "j < 512" "slot s f i = slot s g j"
  shows "f = g \<and> i = j"
proof -
  have lim: "unat f < 2 ^ 39" "unat g < 2 ^ 39" "unat i < 512" "unat j < 512" using assms by (auto simp: valid_frame_def word_less_nat_alt)
  have "f + 8 * i = g + 8 * j" using assms(5) by (simp add: slot_def)
  moreover have "unat (f + 8 * i) = unat f + 8 * unat i" "unat (g + 8 * j) = unat g + 8 * unat j"
    using lim by (simp_all add: unat_add64 unat_mult64)
  ultimately have eq: "unat f + 8 * unat i = unat g + 8 * unat j" by simp
  obtain a b where ab: "unat f = 4096 * a" "unat g = 4096 * b"
    using assms(1,2) unfolding valid_frame_def take_bit_12_mod by (metis mod_0_imp_dvd dvdE)
  have "a = (4096 * a + 8 * unat i) div 4096" "b = (4096 * b + 8 * unat j) div 4096" using lim(3,4) by simp_all
  then have "a = b" using eq unfolding ab by metis
  then have "unat f = unat g" "unat i = unat j" using eq ab by auto
  then show ?thesis by (simp add: word_unat_eq_iff)
qed

lemma to_HHDM_valid: "valid_frame f \<Longrightarrow> x86_64_to_HHDM s f = g_HHDM_start s + f"
proof -
  assume f: "valid_frame f"
  have "GiB 512 - 1 = 0x7FFFFFFFFF" by (simp add: GiB_def MiB_def KiB_def)
  moreover have "f \<le> 0x7FFFFFFFFF" using f by (simp add: valid_frame_def word_le_nat_alt word_less_nat_alt)
  moreover have "\<not> f < 0x1000" "\<not> 0x7FFFFFFFFF < f" using f calculation by (auto simp: valid_frame_def not_less)
  ultimately show ?thesis by (simp add: x86_64_to_HHDM_def add.commute)
qed

lemma table_not_null: "hhdm_ok s \<Longrightarrow> valid_frame f \<Longrightarrow> g_HHDM_start s + f \<noteq> nullptr"
proof
  assume h: "hhdm_ok s" and f: "valid_frame f" and z: "g_HHDM_start s + f = nullptr"
  have "(unat (g_HHDM_start s) + unat f) mod 2 ^ 64 = unat (g_HHDM_start s + f)" by (simp add: unat_word_ariths)
  also have "\<dots> = 0" unfolding z by simp
  finally have d64: "(2 :: nat) ^ 64 dvd unat (g_HHDM_start s) + unat f" by (rule mod_0_imp_dvd)
  have "(2 :: nat) ^ 39 dvd 2 ^ 64" by (rule le_imp_power_dvd) simp
  then have "(2 :: nat) ^ 39 dvd unat (g_HHDM_start s) + unat f" using d64 by (rule dvd_trans)
  moreover have "(2 :: nat) ^ 39 dvd unat (g_HHDM_start s)"
    using h by (intro mod_0_imp_dvd) (simp add: hhdm_ok_def take_bit_eq_mod word_unat_eq_iff unat_mod)
  ultimately have "(2 :: nat) ^ 39 dvd unat f" using dvd_add_right_iff by blast
  then have "unat f mod 2 ^ 39 = 0" by (rule dvd_imp_mod_0)
  then show False using f by (simp add: valid_frame_def word_less_nat_alt word_le_nat_alt)
qed

section \<open>The invariant\<close>

definition pt_inv :: "paging \<Rightarrow> (ptr \<Rightarrow> nat) \<Rightarrow> bool" where
  "pt_inv s lvl \<longleftrightarrow> hhdm_ok s \<and> ppfa_ok (g_PPFA s) \<and> bitmap_bits (g_PPFA s) \<le> 2 ^ 27 \<and>
     (\<forall>f. lvl f \<noteq> 0 \<longrightarrow> f \<in> ppfa_live (g_PPFA s) \<and> valid_frame f) \<and>
     (\<forall>f i. lvl f \<in> {2, 3, 4} \<and> i < 512 \<and> Present (pt_mem s (slot s f i)) \<longrightarrow>
        (if lvl f = 2 \<and> PageSize (pt_mem s (slot s f i)) then True
         else lvl (push_bit 12 (Address (pt_mem s (slot s f i)))) = lvl f - 1))"

text \<open>The fields a table operation leaves alone.\<close>

definition same_layout :: "paging \<Rightarrow> paging \<Rightarrow> bool" where
  "same_layout s s' \<longleftrightarrow> g_HHDM_start s' = g_HHDM_start s \<and> g_kernel_virtual s' = g_kernel_virtual s \<and>
     g_kernel_length s' = g_kernel_length s \<and> g_kernel_physical s' = g_kernel_physical s"

lemma same_layout_slot: "same_layout s s' \<Longrightarrow> slot s' f i = slot s f i"
  by (simp add: same_layout_def slot_def)

lemma same_layout_trans: "same_layout s s' \<Longrightarrow> same_layout s' s'' \<Longrightarrow> same_layout s s''"
  by (simp add: same_layout_def)

text \<open>The frame of a fresh allocation, as a table frame.\<close>

lemma fresh_frame:
  assumes "ppfa_ok a" "bitmap_bits a \<le> 2 ^ 27" "AllocatePage a = ret (p, a')"
  shows "valid_frame p \<and> p \<notin> ppfa_live a \<and> ppfa_live a' = insert p (ppfa_live a) \<and> ppfa_ok a' \<and> bitmap_bits a' = bitmap_bits a \<and>
    push_bit 12 (take_bit 40 (drop_bit 12 p)) = p"
proof -
  have fresh: "p \<noteq> nullptr" "p \<notin> ppfa_live a" "ppfa_live a' = insert p (ppfa_live a)" "ppfa_ok a'"
    using ppfa.alloc_fresh [OF assms(1,3)] by auto
  have "\<exists>f. f < bitmap_bits a \<and> \<not> page_bit a f" using AllocatePage_full [OF assms(1)] assms(3) by (metis ret_neq(3))
  then obtain i where i: "p = i * 4096" "i \<noteq> 0" "i < bitmap_bits a" "bitmap_bits a' = bitmap_bits a"
    using AllocatePage_ok [OF assms(1)] assms(3) by fastforce
  have ui: "unat i < 2 ^ 27" "unat i \<noteq> 0" using i(2,3) assms(2) by (auto simp: word_less_nat_alt word_le_nat_alt unat_eq_0)
  then have up: "unat p = unat i * 4096" using i(1) by (simp add: unat_mult64)
  have "valid_frame p" unfolding valid_frame_def take_bit_12_mod using up ui by (simp add: word_le_nat_alt word_less_nat_alt)
  moreover have "push_bit 12 (take_bit 40 (drop_bit 12 p)) = p"
  proof -
    have "unat (drop_bit 12 p) = unat p div 2 ^ 12" by (metis unat_drop_bit_eq drop_bit_eq_div)
    then have "unat (drop_bit 12 p) = unat i" using up by simp
    then have d: "drop_bit 12 p = i" by (simp add: word_unat_eq_iff)
    have "take_bit 40 i = i" using ui by (simp add: word_unat_eq_iff unsigned_take_bit_eq take_bit_nat_eq_self)
    then show ?thesis using d i(1) by (simp add: push_bit_eq_mult mult.commute)
  qed
  ultimately show ?thesis using fresh i(4) by blast
qed

section \<open>One level\<close>

text \<open>The bytes of a table are the slots of its own frame only.\<close>

lemma clear_slot:
  assumes "valid_frame p" "valid_frame g" "j < 512"
  shows "unat (slot s g j - (g_HHDM_start s + p)) < 4096 \<longleftrightarrow> g = p"
proof
  have u: "unat (8 * j) = 8 * unat j" "unat j < 512" using assms(3) by (simp_all add: unat_mult64 word_less_nat_alt)
  assume l: "unat (slot s g j - (g_HHDM_start s + p)) < 4096"
  define k where "k = slot s g j - (g_HHDM_start s + p)"
  have lim: "unat g < 2 ^ 39" "unat p < 2 ^ 39" "unat k < 4096" using assms l by (auto simp: valid_frame_def word_less_nat_alt k_def)
  have "g + 8 * j = p + k" by (simp add: k_def slot_def)
  moreover have "unat (g + 8 * j) = unat g + 8 * unat j" using u lim by (subst unat_add64) simp_all
  moreover have "unat (p + k) = unat p + unat k" using lim by (subst unat_add64) simp_all
  ultimately have "unat g + 8 * unat j = unat p + unat k" by simp
  moreover obtain a b where ab: "unat g = 4096 * a" "unat p = 4096 * b"
    using assms(1,2) unfolding valid_frame_def take_bit_12_mod by (metis mod_0_imp_dvd dvdE)
  moreover have "a = (4096 * a + 8 * unat j) div 4096" "b = (4096 * b + unat k) div 4096" using u lim(3) by simp_all
  ultimately have "a = b" by metis
  then show "g = p" using ab by (simp add: word_unat_eq_iff)
next
  assume "g = p"
  then have "slot s g j - (g_HHDM_start s + p) = 8 * j" by (simp add: slot_def)
  then show "unat (slot s g j - (g_HHDM_start s + p)) < 4096" using assms(3) by (simp add: unat_mult64 word_less_nat_alt)
qed

definition no_large :: "paging \<Rightarrow> (ptr \<Rightarrow> nat) \<Rightarrow> bool" where
  "no_large s lvl \<longleftrightarrow> (\<forall>f i. lvl f = 2 \<and> i < 512 \<and> Present (pt_mem s (slot s f i)) \<longrightarrow> \<not> PageSize (pt_mem s (slot s f i)))"

lemma map_level_ok:
  assumes inv: "pt_inv s lvl" and n: "lvl f = n" "n \<in> {2, 3, 4}" "i < 512"
    and large: "no_large s lvl" "\<not> bit flags 7"
    and run: "map_level (g_HHDM_start s + f) i flags s = ret (e, s')"
  obtains lvl' where "pt_inv s' lvl'" "no_large s' lvl'" "same_layout s s'" "\<And>g. lvl g \<noteq> 0 \<Longrightarrow> lvl' g = lvl g"
    "Present (pt_mem s' (slot s f i))" "Address (pt_mem s' (slot s f i)) = Address e"
    "n = 2 \<Longrightarrow> \<not> PageSize e \<and> \<not> PageSize (pt_mem s' (slot s f i))" "lvl' (push_bit 12 (Address e)) = n - 1"
    "\<And>g j. lvl g \<noteq> 0 \<Longrightarrow> j < 512 \<Longrightarrow> (g, j) \<noteq> (f, i) \<Longrightarrow> pt_mem s' (slot s g j) = pt_mem s (slot s g j)"
proof -
  have hh: "hhdm_ok s" and ok: "ppfa_ok (g_PPFA s)" and bits: "bitmap_bits (g_PPFA s) \<le> 2 ^ 27"
    and tab: "\<And>g. lvl g \<noteq> 0 \<Longrightarrow> g \<in> ppfa_live (g_PPFA s) \<and> valid_frame g"
    and down: "\<And>g j. lvl g \<in> {2, 3, 4} \<Longrightarrow> j < 512 \<Longrightarrow> Present (pt_mem s (slot s g j)) \<Longrightarrow>
        \<not> (lvl g = 2 \<and> PageSize (pt_mem s (slot s g j))) \<Longrightarrow> lvl (push_bit 12 (Address (pt_mem s (slot s g j)))) = lvl g - 1"
    using inv by (auto simp: pt_inv_def split: if_splits)
  have vf: "valid_frame f" using tab [of f] n by auto
  have nn: "g_HHDM_start s + f \<noteq> nullptr" by (rule table_not_null [OF hh vf])
  have sl: "g_HHDM_start s + f + 8 * i = slot s f i" by (simp add: slot_def)
  have other: "slot s g j = slot s f i \<longleftrightarrow> g = f \<and> j = i" if "lvl g \<noteq> 0" "j < 512" for g j
    using slot_inj [of g f j i s] tab [OF that(1)] vf that(2) n(3) by auto
  have small: "n = 2 \<longrightarrow> \<not> (Present (pt_mem s (slot s f i)) \<and> PageSize (pt_mem s (slot s f i)))"
    using large(1) n by (auto simp: no_large_def)
  show thesis
  proof (cases "Present (pt_mem s (slot s f i))")
    case True
    let ?v = "pt_mem s (slot s f i) OR table_flags flags"
    have r: "e = pt_mem s (slot s f i)" "s' = s\<lparr>pt_mem := (pt_mem s)(slot s f i := ?v)\<rparr>"
      using run True nn by (auto simp: map_level_def pt_read_def pt_write_def sl)
    have mem: "pt_mem s' (slot s g j) = (if g = f \<and> j = i then ?v else pt_mem s (slot s g j))" if "lvl g \<noteq> 0" "j < 512" for g j
      using other [OF that] by (simp add: r(2))
    have lay: "same_layout s s'" by (simp add: same_layout_def r(2))
    have "pt_inv s' lvl"
      unfolding pt_inv_def same_layout_slot [OF lay]
    proof (intro conjI allI impI)
      fix g j assume a: "lvl g \<in> {2, 3, 4} \<and> j < 512 \<and> Present (pt_mem s' (slot s g j))"
      have m: "pt_mem s' (slot s g j) = (if g = f \<and> j = i then ?v else pt_mem s (slot s g j))" by (rule mem) (use a in auto)
      show "if lvl g = 2 \<and> PageSize (pt_mem s' (slot s g j)) then True
        else lvl (push_bit 12 (Address (pt_mem s' (slot s g j)))) = lvl g - 1"
        using a down [of g j] True unfolding m by (auto split: if_splits)
    qed (use hh ok bits tab in \<open>simp_all add: r(2) hhdm_ok_def\<close>)
    moreover have "no_large s' lvl"
      unfolding no_large_def same_layout_slot [OF lay]
    proof (intro allI impI)
      fix g j assume a: "lvl g = 2 \<and> j < 512 \<and> Present (pt_mem s' (slot s g j))"
      then show "\<not> PageSize (pt_mem s' (slot s g j))"
        using mem [of g j] large True small n(1) by (auto simp: no_large_def split: if_splits)
    qed
    ultimately show thesis
      by (rule that [of lvl]) (use lay True large small n r mem [of f i] down [of f i] mem in \<open>auto split: if_splits\<close>)
  next
    case False
    define e0 where "e0 = set_Present True (table_flags flags)"
    obtain p a' where alloc: "AllocatePage (g_PPFA s) = ret (p, a')"
      using run False nn by (auto simp: map_level_def pt_read_def sl Let_def pt_AllocatePage_def prog_elims)
    have p: "valid_frame p" "p \<notin> ppfa_live (g_PPFA s)" "ppfa_live a' = insert p (ppfa_live (g_PPFA s))" "ppfa_ok a'"
        "bitmap_bits a' = bitmap_bits (g_PPFA s)" "push_bit 12 (take_bit 40 (drop_bit 12 p)) = p"
      using fresh_frame [OF ok bits alloc] by auto
    let ?e = "set_Address (drop_bit 12 p) e0"
    let ?m = "\<lambda>a. if unat (a - (g_HHDM_start s + p)) < 4096 then 0 else pt_mem s a"
    have ad: "push_bit 12 (Address ?e) = p" using p(6) by simp
    have t: "table_of (s\<lparr>g_PPFA := a'\<rparr>) ?e = g_HHDM_start s + p"
      unfolding table_of_def ad using to_HHDM_valid [OF p(1), of "s\<lparr>g_PPFA := a'\<rparr>"] by simp
    have r: "e = ?e" "s' = s\<lparr>g_PPFA := a', pt_mem := ?m(slot s f i := ?e)\<rparr>"
      using run False nn table_not_null [OF hh p(1)] t
      by (auto simp: map_level_def pt_read_def pt_write_def pt_clear_def sl Let_def pt_AllocatePage_def alloc e0_def [symmetric] cong: if_cong)
    have pf: "p \<noteq> f" using tab [of f] p(2) n by auto
    have lay: "same_layout s s'" by (simp add: same_layout_def r(2))
    let ?l = "lvl(p := n - 1)"
    have keep: "?l g = lvl g" if "lvl g \<noteq> 0" for g using that tab p(2) by auto
    have mem: "pt_mem s' (slot s g j) = (if g = f \<and> j = i then ?e else if g = p then 0 else pt_mem s (slot s g j))"
      if "?l g \<noteq> 0" "j < 512" for g j
    proof -
      have vg: "valid_frame g" using that(1) tab p(1) by (auto split: if_splits)
      have "slot s g j = slot s f i \<longleftrightarrow> g = f \<and> j = i" using slot_inj [of g f j i s] vg vf that(2) n(3) by auto
      then show ?thesis using clear_slot [OF p(1) vg that(2), of s] by (cases "g = p") (auto simp: r(2))
    qed
    have "pt_inv s' ?l"
      unfolding pt_inv_def same_layout_slot [OF lay]
    proof (intro conjI allI impI)
      fix g j assume a: "?l g \<in> {2, 3, 4} \<and> j < 512 \<and> Present (pt_mem s' (slot s g j))"
      have m: "pt_mem s' (slot s g j) = (if g = f \<and> j = i then ?e else if g = p then 0 else pt_mem s (slot s g j))"
        by (rule mem) (use a in auto)
      have "g \<noteq> p" using a pf unfolding m by (auto simp: Present_def)
      then have lg: "lvl g \<in> {2, 3, 4}" using a by simp
      show "if ?l g = 2 \<and> PageSize (pt_mem s' (slot s g j)) then True
        else ?l (push_bit 12 (Address (pt_mem s' (slot s g j)))) = ?l g - 1"
      proof (cases "g = f \<and> j = i")
        case True
        then have "pt_mem s' (slot s g j) = ?e" unfolding m by simp
        then show ?thesis using True ad pf n(1) by simp
      next
        case False
        then have eq: "pt_mem s' (slot s g j) = pt_mem s (slot s g j)" unfolding m using \<open>g \<noteq> p\<close> by auto
        then have "\<not> (lvl g = 2 \<and> PageSize (pt_mem s (slot s g j))) \<Longrightarrow> lvl (push_bit 12 (Address (pt_mem s (slot s g j)))) = lvl g - 1"
          using down [OF lg, of j] a by simp
        moreover have "lvl g - 1 \<noteq> 0" using lg by auto
        ultimately show ?thesis using keep \<open>g \<noteq> p\<close> unfolding eq by auto
      qed
    next
      fix g assume "?l g \<noteq> 0"
      then show "g \<in> ppfa_live (g_PPFA s')" "valid_frame g" using tab p(1,3) by (auto simp: r(2) split: if_splits)
    qed (use hh p bits in \<open>simp_all add: r(2) hhdm_ok_def\<close>)
    moreover have "no_large s' ?l"
      unfolding no_large_def same_layout_slot [OF lay]
    proof (intro allI impI)
      fix g j assume a: "?l g = 2 \<and> j < 512 \<and> Present (pt_mem s' (slot s g j))"
      then show "\<not> PageSize (pt_mem s' (slot s g j))"
        using mem [of g j] large pf by (auto simp: no_large_def Present_def e0_def split: if_splits)
    qed
    ultimately show thesis
    proof (rule that [of ?l])
      have "?l f \<noteq> 0" using keep [of f] n by auto
      then have m: "pt_mem s' (slot s f i) = ?e" using mem [of f i] n(3) by auto
      show "Present (pt_mem s' (slot s f i))" unfolding m by (simp add: e0_def)
      show "Address (pt_mem s' (slot s f i)) = Address e" unfolding m r(1) by simp
      show "\<not> PageSize e \<and> \<not> PageSize (pt_mem s' (slot s f i))" if "n = 2" unfolding m r(1) using large(2) by (simp add: e0_def)
      show "?l (push_bit 12 (Address e)) = n - 1" unfolding r(1) ad by simp
      show "pt_mem s' (slot s g j) = pt_mem s (slot s g j)" if "lvl g \<noteq> 0" "j < 512" "(g, j) \<noteq> (f, i)" for g j
        using mem [of g j] keep [OF that(1)] that tab [of g] p(2) by auto
    qed (use lay keep in auto)
  qed
qed

section \<open>Index fields\<close>

lemma index_masks: "(0x0000001FF000 :: u64) = push_bit 12 (mask 9)" "(0x00003FE00000 :: u64) = push_bit 21 (mask 9)"
  "(0x007FC0000000 :: u64) = push_bit 30 (mask 9)" "(0xFF8000000000 :: u64) = push_bit 39 (mask 9)" "(0xFFF :: u64) = mask 12"
  by (simp_all add: mask_eq_exp_minus_1)

lemma page_of: "PT_i (v AND NOT 0xFFF) = PT_i v" "PD_i (v AND NOT 0xFFF) = PD_i v" "PDP_i (v AND NOT 0xFFF) = PDP_i v"
  "PML4_i (v AND NOT 0xFFF) = PML4_i v"
  unfolding PT_i_def PD_i_def PDP_i_def PML4_i_def index_masks by (rule bit_eqI; simp only: bit_rules comp_apply; auto)+

lemma index_less: "PT_i v < 512" "PD_i v < 512" "PDP_i v < 512" "PML4_i v < 512"
proof -
  have "drop_bit k (v AND push_bit k (mask 9)) < 512" for k
  proof -
    have "drop_bit k (v AND push_bit k (mask 9)) = take_bit 9 (drop_bit k (v AND push_bit k (mask 9)))"
      by (rule bit_eqI) (auto simp: bit_rules)
    moreover have "take_bit 9 w < 512" for w :: u64
      by (simp add: word_less_nat_alt unsigned_take_bit_eq take_bit_eq_mod unat_mod)
    ultimately show ?thesis by metis
  qed
  then show "PT_i v < 512" "PD_i v < 512" "PDP_i v < 512" "PML4_i v < 512"
    unfolding PT_i_def PD_i_def PDP_i_def PML4_i_def index_masks by blast+
qed

lemma page_address: fixes q :: u64 shows "take_bit 52 q = q \<Longrightarrow> push_bit 12 (take_bit 40 (drop_bit 12 (q AND NOT 0xFFF))) = q AND NOT 0xFFF"
proof -
  assume q: "take_bit 52 q = q"
  have lim: "n < 52" if "bit q n" for n using that by (subst (asm) q [symmetric]) (simp add: bit_take_bit_iff)
  show ?thesis unfolding index_masks by (intro bit_eqI) (simp only: bit_rules comp_apply, auto dest: lim)
qed

section \<open>Mapping a page\<close>

lemma map_page_ok:
  assumes inv: "pt_inv s lvl" and root: "lvl root = 4" and large: "no_large s lvl" "\<not> bit flags 7" and present: "bit flags 0"
    and q: "take_bit 52 q = q"
    and run: "x86_64_map_page_noflush (g_HHDM_start s + root) q v flags s = ret s'"
  obtains lvl' f1 f2 f3 where "same_layout s s'" "pt_inv s' lvl'" "lvl' root = 4" "lvl' f3 = 3" "lvl' f2 = 2" "lvl' f1 = 1"
    "Present (pt_mem s' (slot s root (PML4_i v)))" "push_bit 12 (Address (pt_mem s' (slot s root (PML4_i v)))) = f3"
    "Present (pt_mem s' (slot s f3 (PDP_i v)))" "push_bit 12 (Address (pt_mem s' (slot s f3 (PDP_i v)))) = f2"
    "Present (pt_mem s' (slot s f2 (PD_i v)))" "push_bit 12 (Address (pt_mem s' (slot s f2 (PD_i v)))) = f1"
    "\<not> PageSize (pt_mem s' (slot s f2 (PD_i v)))"
    "Present (pt_mem s' (slot s f1 (PT_i v)))" "push_bit 12 (Address (pt_mem s' (slot s f1 (PT_i v)))) = q AND NOT 0xFFF"
proof -
  note ix = index_less [of v]
  obtain e4 s4 where r4: "map_level (g_HHDM_start s + root) (PML4_i v) flags s = ret (e4, s4)"
    and rest4: "bindP (map_level (table_of s4 e4) (PDP_i v) flags s4) (\<lambda>(PML3, s). bindP (map_level (table_of s PML3) (PD_i v) flags s) (\<lambda>(PML2, s).
      if PageSize PML2 then ret s else pt_write (table_of s PML2) (PT_i v) (set_Address (drop_bit 12 (q AND NOT 0xFFF)) (leaf_flags flags)) s)) = ret s'"
    using run unfolding x86_64_map_page_noflush_def Let_def page_of bindP_eq_ret by (auto simp: bindP_eq_ret)
  obtain l4 where l4: "pt_inv s4 l4" "no_large s4 l4" "same_layout s s4" "\<And>g. lvl g \<noteq> 0 \<Longrightarrow> l4 g = lvl g"
    "Present (pt_mem s4 (slot s root (PML4_i v)))" "Address (pt_mem s4 (slot s root (PML4_i v))) = Address e4"
    "l4 (push_bit 12 (Address e4)) = 3"
    by (rule map_level_ok [OF inv root _ ix(4) large r4]) auto
  define f3 where "f3 = push_bit 12 (Address e4)"
  have v3: "valid_frame f3" using l4(1,7) by (auto simp: pt_inv_def f3_def)
  have t3: "table_of s4 e4 = g_HHDM_start s4 + f3" unfolding table_of_def f3_def [symmetric] by (rule to_HHDM_valid [OF v3])
  obtain e3 s3 where r3: "map_level (g_HHDM_start s4 + f3) (PDP_i v) flags s4 = ret (e3, s3)"
    and rest3: "bindP (map_level (table_of s3 e3) (PD_i v) flags s3) (\<lambda>(PML2, s).
      if PageSize PML2 then ret s else pt_write (table_of s PML2) (PT_i v) (set_Address (drop_bit 12 (q AND NOT 0xFFF)) (leaf_flags flags)) s) = ret s'"
    using rest4 unfolding t3 bindP_eq_ret by (auto simp: bindP_eq_ret)
  obtain l3 where l3: "pt_inv s3 l3" "no_large s3 l3" "same_layout s4 s3" "\<And>g. l4 g \<noteq> 0 \<Longrightarrow> l3 g = l4 g"
    "Present (pt_mem s3 (slot s4 f3 (PDP_i v)))" "Address (pt_mem s3 (slot s4 f3 (PDP_i v))) = Address e3"
    "l3 (push_bit 12 (Address e3)) = 2"
    "\<And>g j. l4 g \<noteq> 0 \<Longrightarrow> j < 512 \<Longrightarrow> (g, j) \<noteq> (f3, PDP_i v) \<Longrightarrow> pt_mem s3 (slot s4 g j) = pt_mem s4 (slot s4 g j)"
    by (rule map_level_ok [OF l4(1) _ _ ix(3) l4(2) large(2) r3]) (use l4(7) in \<open>auto simp: f3_def\<close>)
  define f2 where "f2 = push_bit 12 (Address e3)"
  have v2: "valid_frame f2" using l3(1,7) by (auto simp: pt_inv_def f2_def)
  have t2: "table_of s3 e3 = g_HHDM_start s3 + f2" unfolding table_of_def f2_def [symmetric] by (rule to_HHDM_valid [OF v2])
  obtain e2 s2 where r2: "map_level (g_HHDM_start s3 + f2) (PD_i v) flags s3 = ret (e2, s2)"
    and rest2: "(if PageSize e2 then ret s2 else pt_write (table_of s2 e2) (PT_i v) (set_Address (drop_bit 12 (q AND NOT 0xFFF)) (leaf_flags flags)) s2) = ret s'"
    using rest3 unfolding t2 bindP_eq_ret by auto
  obtain l2 where l2: "pt_inv s2 l2" "no_large s2 l2" "same_layout s3 s2" "\<And>g. l3 g \<noteq> 0 \<Longrightarrow> l2 g = l3 g"
    "Present (pt_mem s2 (slot s3 f2 (PD_i v)))" "Address (pt_mem s2 (slot s3 f2 (PD_i v))) = Address e2"
    "\<not> PageSize e2" "\<not> PageSize (pt_mem s2 (slot s3 f2 (PD_i v)))" "l2 (push_bit 12 (Address e2)) = 1"
    "\<And>g j. l3 g \<noteq> 0 \<Longrightarrow> j < 512 \<Longrightarrow> (g, j) \<noteq> (f2, PD_i v) \<Longrightarrow> pt_mem s2 (slot s3 g j) = pt_mem s3 (slot s3 g j)"
    by (rule map_level_ok [OF l3(1) _ _ ix(2) l3(2) large(2) r2]) (use l3(7) in \<open>auto simp: f2_def\<close>)
  define f1 where "f1 = push_bit 12 (Address e2)"
  have v1: "valid_frame f1" using l2(1,9) by (auto simp: pt_inv_def f1_def)
  have t1: "table_of s2 e2 = g_HHDM_start s2 + f1" unfolding table_of_def f1_def [symmetric] by (rule to_HHDM_valid [OF v1])
  let ?leaf = "set_Address (drop_bit 12 (q AND NOT 0xFFF)) (leaf_flags flags)"
  have nn: "g_HHDM_start s2 + f1 \<noteq> nullptr" by (rule table_not_null [OF _ v1]) (use l2(1) in \<open>simp add: pt_inv_def\<close>)
  have s': "s' = s2\<lparr>pt_mem := (pt_mem s2)(slot s2 f1 (PT_i v) := ?leaf)\<rparr>"
    using rest2 l2(7) nn unfolding t1 by (simp add: pt_write_def slot_def)
  have lay: "same_layout s s2" using same_layout_trans [OF same_layout_trans [OF l4(3) l3(3)] l2(3)] .
  note sl = same_layout_slot [OF lay] same_layout_slot [OF l4(3)] same_layout_slot [OF same_layout_trans [OF l4(3) l3(3)]]
  have lv: "l2 root = 4" "l2 f3 = 3" "l2 f2 = 2" "l2 f1 = 1"
    using l2(4,9) l3(4,7) l4(4,7) root by (simp_all add: f1_def f2_def f3_def)
  have up: "l4 root = 4" "l4 f3 = 3" "l3 root = 4" "l3 f3 = 3" "l3 f2 = 2" using l3(4,7) l4(4,7) root by (simp_all add: f2_def f3_def)
  have leafslot: "slot s2 g j = slot s2 f1 (PT_i v) \<longleftrightarrow> g = f1 \<and> j = PT_i v" if "l2 g \<noteq> 0" "j < 512" for g j
    using slot_inj [of g f1 j "PT_i v" s2] that l2(1) v1 ix(1) by (auto simp: pt_inv_def)
  have m: "pt_mem s' (slot s g j) = (if g = f1 \<and> j = PT_i v then ?leaf else pt_mem s2 (slot s2 g j))" if "l2 g \<noteq> 0" "j < 512" for g j
    unfolding sl(1) [symmetric] s' using leafslot [OF that] by simp
  have inv': "pt_inv s' l2"
    unfolding pt_inv_def
  proof (intro conjI allI impI)
    fix g j assume a: "l2 g \<in> {2, 3, 4} \<and> j < 512 \<and> Present (pt_mem s' (slot s' g j))"
    have "slot s' g j = slot s g j" unfolding sl(1) [symmetric] by (simp add: s' slot_def)
    moreover have "l2 g \<noteq> 0" "g \<noteq> f1" "j < 512" using a lv(4) by auto
    ultimately have eq: "pt_mem s' (slot s' g j) = pt_mem s2 (slot s2 g j)" using m [of g j] by simp
    show "if l2 g = 2 \<and> PageSize (pt_mem s' (slot s' g j)) then True else l2 (push_bit 12 (Address (pt_mem s' (slot s' g j)))) = l2 g - 1"
      using l2(1) a unfolding eq pt_inv_def by blast
  qed (use l2(1) in \<open>auto simp: pt_inv_def s' hhdm_ok_def\<close>)
  have lay': "same_layout s s'" using lay by (simp add: same_layout_def s')
  have ne: "root \<noteq> f1" "f3 \<noteq> f1" "f2 \<noteq> f1" "root \<noteq> f2" "f3 \<noteq> f2" "root \<noteq> f3" using lv by auto
  have m4: "pt_mem s' (slot s root (PML4_i v)) = pt_mem s4 (slot s root (PML4_i v))"
    using m [of root "PML4_i v"] l2(10) [of root "PML4_i v"] l3(8) [of root "PML4_i v"] lv up ix ne by (simp add: sl)
  have m3: "pt_mem s' (slot s f3 (PDP_i v)) = pt_mem s3 (slot s4 f3 (PDP_i v))"
    using m [of f3 "PDP_i v"] l2(10) [of f3 "PDP_i v"] lv up ix ne by (simp add: sl)
  have m2: "pt_mem s' (slot s f2 (PD_i v)) = pt_mem s2 (slot s3 f2 (PD_i v))"
    using m [of f2 "PD_i v"] lv ix ne by (simp add: sl)
  have m1: "pt_mem s' (slot s f1 (PT_i v)) = ?leaf" using m [of f1 "PT_i v"] lv ix by simp
  show thesis
    by (rule that [OF lay' inv' lv], unfold m4 m3 m2 m1)
      (use l4(5,6) l3(5,6) l2(5,6,8) present page_address [OF q] in \<open>simp_all add: f1_def f2_def f3_def\<close>)
qed

text \<open>The translation of an address whose four entries are present and lead to tables in valid frames.\<close>

lemma walk_translates:
  assumes inv: "pt_inv s lvl" and l: "lvl root = 4" "lvl f3 = 3" "lvl f2 = 2" "lvl f1 = 1"
    and e4: "Present (pt_mem s (slot s root (PML4_i v)))" "push_bit 12 (Address (pt_mem s (slot s root (PML4_i v)))) = f3"
    and e3: "Present (pt_mem s (slot s f3 (PDP_i v)))" "push_bit 12 (Address (pt_mem s (slot s f3 (PDP_i v)))) = f2"
    and e2: "Present (pt_mem s (slot s f2 (PD_i v)))" "push_bit 12 (Address (pt_mem s (slot s f2 (PD_i v)))) = f1"
      "\<not> PageSize (pt_mem s (slot s f2 (PD_i v)))"
    and e1: "Present (pt_mem s (slot s f1 (PT_i v)))"
    and out: "\<not> (v \<ge> g_kernel_virtual s \<and> g_kernel_virtual s + g_kernel_length s > v)" "\<not> (v \<ge> g_HHDM_start s \<and> g_HHDM_start s + GiB 4 > v)"
  shows "x86_64_get_physaddr s (g_HHDM_start s + root) v =
    ret (push_bit 12 (Address (pt_mem s (slot s f1 (PT_i v)))) OR (v AND 0xFFF))"
proof -
  have vf: "valid_frame root" "valid_frame f3" "valid_frame f2" "valid_frame f1" using inv l by (auto simp: pt_inv_def)
  have nn: "g_HHDM_start s + f \<noteq> nullptr" if "valid_frame f" for f using table_not_null [of s f] inv that by (simp add: pt_inv_def)
  have rd: "pt_read s (g_HHDM_start s + f) i = ret (pt_mem s (slot s f i))" if "valid_frame f" for f i
    using nn [OF that] by (simp add: pt_read_def slot_def)
  have tab: "table_of s e = g_HHDM_start s + f" if "push_bit 12 (Address e) = f" "valid_frame f" for e f
    unfolding table_of_def that(1) by (rule to_HHDM_valid [OF that(2)])
  show ?thesis
    unfolding x86_64_get_physaddr_def if_not_P [OF out(1)] if_not_P [OF out(2)] Let_def
    by (simp add: rd vf e4(1) e3(1) e2(1) e2(3) e1 tab [OF e4(2) vf(2)] tab [OF e3(2) vf(3)] tab [OF e2(2) vf(4)])
qed

section \<open>Mapping returns\<close>

definition free_frames :: "PPFA \<Rightarrow> u64 set" where
  "free_frames a = {i. i < bitmap_bits a \<and> \<not> page_bit a i}"

lemma finite_free_frames [simp]: "finite (free_frames a)"
  by simp

lemma AllocatePage_free_frames:
  assumes "ppfa_ok a" "free_frames a \<noteq> {}"
  shows "\<exists>p a'. AllocatePage a = ret (p, a') \<and> card (free_frames a) \<le> Suc (card (free_frames a'))"
proof -
  obtain f where "f < bitmap_bits a" "\<not> page_bit a f" using assms(2) by (auto simp: free_frames_def)
  from AllocatePage_ok [OF assms(1) this] obtain i a' where a': "AllocatePage a = ret (i * 4096, a')" "i < bitmap_bits a" "i \<notin> used_frames a"
    "used_frames a' = insert i (used_frames a)" "bitmap_bits a' = bitmap_bits a" by blast
  have "free_frames a = insert i (free_frames a')" using a' by (auto simp: free_frames_def used_frames_def)
  then show ?thesis using a'(1) by (metis card_insert_le_m1 card_insert_if finite_free_frames le_Suc_eq lessI less_or_eq_imp_le)
qed

lemma map_level_returns:
  assumes inv: "pt_inv s lvl" and f: "lvl f \<noteq> 0" and free: "free_frames (g_PPFA s) \<noteq> {}"
  shows "\<exists>e s'. map_level (g_HHDM_start s + f) i flags s = ret (e, s') \<and>
    card (free_frames (g_PPFA s)) \<le> Suc (card (free_frames (g_PPFA s')))"
proof -
  have hh: "hhdm_ok s" and ok: "ppfa_ok (g_PPFA s)" "bitmap_bits (g_PPFA s) \<le> 2 ^ 27" and vf: "valid_frame f"
    using inv f by (auto simp: pt_inv_def)
  have nn: "g_HHDM_start s + f \<noteq> nullptr" by (rule table_not_null [OF hh vf])
  obtain p a' where alloc: "AllocatePage (g_PPFA s) = ret (p, a')" "card (free_frames (g_PPFA s)) \<le> Suc (card (free_frames a'))"
    using AllocatePage_free_frames [OF ok(1) free] by blast
  have p: "valid_frame p" "push_bit 12 (take_bit 40 (drop_bit 12 p)) = p" using fresh_frame [OF ok alloc(1)] by auto
  have t: "table_of (s\<lparr>g_PPFA := a'\<rparr>) (set_Address (drop_bit 12 p) e) \<noteq> nullptr" for e
    using to_HHDM_valid [OF p(1), of "s\<lparr>g_PPFA := a'\<rparr>"] table_not_null [OF hh p(1)] p(2) by (simp add: table_of_def)
  show ?thesis
  proof (cases "Present (pt_mem s (g_HHDM_start s + f + 8 * i))")
    case True
    then show ?thesis using nn by (simp add: map_level_def pt_read_def pt_write_def)
  next
    case False
    then show ?thesis
      using nn t alloc by (simp add: map_level_def pt_read_def pt_write_def pt_clear_def pt_AllocatePage_def Let_def)
  qed
qed

text \<open>One step of the descent, from a table frame to the next: the level below is again a table of the tree.\<close>

lemma map_level_step:
  assumes "pt_inv s lvl" "lvl f = n" "n \<in> {2, 3, 4}" "i < 512" "no_large s lvl" "\<not> bit flags 7"
    and free: "k < card (free_frames (g_PPFA s))"
  obtains e s' lvl' g where "map_level (g_HHDM_start s + f) i flags s = ret (e, s')" "pt_inv s' lvl'" "no_large s' lvl'"
    "lvl' g = n - 1" "table_of s' e = g_HHDM_start s' + g" "k \<le> card (free_frames (g_PPFA s'))" "n = 2 \<Longrightarrow> \<not> PageSize e"
proof -
  have "free_frames (g_PPFA s) \<noteq> {}" using free by (metis card.empty not_less0)
  then obtain e s' where r: "map_level (g_HHDM_start s + f) i flags s = ret (e, s')"
      "card (free_frames (g_PPFA s)) \<le> Suc (card (free_frames (g_PPFA s')))"
    using map_level_returns [of s lvl f i flags] assms by fastforce
  from map_level_ok [OF assms(1-6) r(1)] obtain l' where l': "pt_inv s' l'" "no_large s' l'" "l' (push_bit 12 (Address e)) = n - 1"
      "n = 2 \<Longrightarrow> \<not> PageSize e" by metis
  moreover have "valid_frame (push_bit 12 (Address e))" using l'(1,3) assms(3) by (auto simp: pt_inv_def)
  then have "table_of s' e = g_HHDM_start s' + push_bit 12 (Address e)" unfolding table_of_def by (rule to_HHDM_valid)
  ultimately show thesis using that r free by simp
qed

lemma map_page_returns:
  assumes inv: "pt_inv s lvl" and root: "lvl root = 4" and large: "no_large s lvl" "\<not> bit flags 7"
    and free: "3 \<le> card (free_frames (g_PPFA s))"
  shows "\<exists>s'. x86_64_map_page_noflush (g_HHDM_start s + root) q v flags s = ret s'"
proof -
  note ix = index_less [of v]
  obtain e4 s4 l4 g3 where a: "map_level (g_HHDM_start s + root) (PML4_i v) flags s = ret (e4, s4)" "pt_inv s4 l4" "no_large s4 l4"
    "l4 g3 = 3" "table_of s4 e4 = g_HHDM_start s4 + g3" "2 \<le> card (free_frames (g_PPFA s4))"
    by (rule map_level_step [OF inv root _ ix(4) large, of 2]) (use free in auto)
  obtain e3 s3 l3 g2 where b: "map_level (g_HHDM_start s4 + g3) (PDP_i v) flags s4 = ret (e3, s3)" "pt_inv s3 l3" "no_large s3 l3"
    "l3 g2 = 2" "table_of s3 e3 = g_HHDM_start s3 + g2" "1 \<le> card (free_frames (g_PPFA s3))"
    by (rule map_level_step [OF a(2,4) _ ix(3) a(3) large(2), of 1]) (use a(6) in auto)
  obtain e2 s2 l2 g1 where c: "map_level (g_HHDM_start s3 + g2) (PD_i v) flags s3 = ret (e2, s2)" "pt_inv s2 l2"
    "l2 g1 = 1" "table_of s2 e2 = g_HHDM_start s2 + g1" "\<not> PageSize e2"
    by (rule map_level_step [OF b(2,4) _ ix(2) b(3) large(2), of 0]) (use b(6) in auto)
  have "g_HHDM_start s2 + g1 \<noteq> nullptr" using table_not_null [of s2 g1] c(2,3) by (auto simp: pt_inv_def)
  then show ?thesis
    using a b c unfolding x86_64_map_page_noflush_def Let_def page_of by (simp add: pt_write_def)
qed

lemma map_page_maps:
  assumes "pt_inv s lvl" and "lvl root = 4" and "no_large s lvl" and "\<not> bit flags 7" and "bit flags 0"
    and "take_bit 52 q = q" and "3 \<le> card (free_frames (g_PPFA s))"
    and "\<not> (v \<ge> g_kernel_virtual s \<and> g_kernel_virtual s + g_kernel_length s > v)"
    and "\<not> (v \<ge> g_HHDM_start s \<and> g_HHDM_start s + GiB 4 > v)"
  shows "\<exists>s' lvl'. x86_64_map_page_noflush (g_HHDM_start s + root) q v flags s = ret s' \<and> pt_inv s' lvl' \<and> lvl' root = 4 \<and>
    x86_64_get_physaddr s' (g_HHDM_start s + root) v = ret ((q AND NOT 0xFFF) OR (v AND 0xFFF))"
proof -
  obtain s' where run: "x86_64_map_page_noflush (g_HHDM_start s + root) q v flags s = ret s'"
    using map_page_returns [OF assms(1-4,7)] by blast
  from map_page_ok [OF assms(1-6) run] obtain l' f1 f2 f3 where r: "same_layout s s'" "pt_inv s' l'" "l' root = 4" "l' f3 = 3" "l' f2 = 2" "l' f1 = 1"
    "Present (pt_mem s' (slot s root (PML4_i v)))" "push_bit 12 (Address (pt_mem s' (slot s root (PML4_i v)))) = f3"
    "Present (pt_mem s' (slot s f3 (PDP_i v)))" "push_bit 12 (Address (pt_mem s' (slot s f3 (PDP_i v)))) = f2"
    "Present (pt_mem s' (slot s f2 (PD_i v)))" "push_bit 12 (Address (pt_mem s' (slot s f2 (PD_i v)))) = f1"
    "\<not> PageSize (pt_mem s' (slot s f2 (PD_i v)))"
    "Present (pt_mem s' (slot s f1 (PT_i v)))" "push_bit 12 (Address (pt_mem s' (slot s f1 (PT_i v)))) = q AND NOT 0xFFF" .
  note e = r(7-14) [folded same_layout_slot [OF r(1)]]
  have "x86_64_get_physaddr s' (g_HHDM_start s' + root) v = ret (push_bit 12 (Address (pt_mem s' (slot s' f1 (PT_i v)))) OR (v AND 0xFFF))"
    by (rule walk_translates [OF r(2-6) e]) (use r(1) assms(8,9) in \<open>simp_all add: same_layout_def\<close>)
  then have "x86_64_get_physaddr s' (g_HHDM_start s + root) v = ret ((q AND NOT 0xFFF) OR (v AND 0xFFF))"
    unfolding same_layout_slot [OF r(1)] r(15) using r(1) by (simp add: same_layout_def)
  then show ?thesis using run r(2,3) by blast
qed

section \<open>Properties\<close>

text \<open>C3. Mapping a page into page tables that are well formed, with three frames free for new tables, returns, keeps
  the tables well formed, and from then on the address translates to the frame it was mapped to, with the
  offset in the page kept.\<close>

theorem map_page_translates:
  assumes "pt_inv s lvl" and "lvl root = 4" and "no_large s lvl" and "\<not> bit flags 7" and "bit flags 0"
    and "take_bit 52 q = q" and "3 \<le> card (free_frames (g_PPFA s))"
    and "\<not> (v \<ge> g_kernel_virtual s \<and> g_kernel_virtual s + g_kernel_length s > v)"
    and "\<not> (v \<ge> g_HHDM_start s \<and> g_HHDM_start s + GiB 4 > v)"
  shows "\<exists>s' lvl'. x86_64_map_page (g_HHDM_start s + root) q v flags s = ret s' \<and> pt_inv s' lvl' \<and> lvl' root = 4 \<and>
    x86_64_get_physaddr s' (g_HHDM_start s + root) v = ret ((q AND NOT 0xFFF) OR (v AND 0xFFF))"
  using map_page_maps [OF assms] unfolding x86_64_map_page_def .

text \<open>A machine with the sixteen frames of \<^const>\<open>small_ppfa\<close> whose frame 1 holds an empty top-level table.\<close>

definition empty_tables :: paging where
  "empty_tables = \<lparr>pt_mem = (\<lambda>_. 0), g_PPFA = small_ppfa, g_kernel_physical = 0x200000, g_kernel_virtual = 0xFFFFFFFF80000000,
     g_kernel_length = 0x100000, g_HHDM_start = 0xFFFF800000000000, K_PML4_Array = 0xFFFF800000001000\<rparr>"

lemma empty_tables_inv:
  "pt_inv empty_tables (\<lambda>f. if f = 0x1000 then 4 else 0)" "no_large empty_tables (\<lambda>f. if f = 0x1000 then 4 else 0)"
proof -
  have "0x1000 \<in> ppfa_live small_ppfa"
    unfolding ppfa_live_def by (rule image_eqI [of _ _ 1]) (use small_ppfa_bits in \<open>auto simp: used_frames_def\<close>)
  then show "pt_inv empty_tables (\<lambda>f. if f = 0x1000 then 4 else 0)"
    using small_ppfa_ok small_ppfa_bits
    by (simp add: pt_inv_def empty_tables_def hhdm_ok_def valid_frame_def Present_def take_bit_eq_mod)
qed (simp add: no_large_def)

lemma small_ppfa_free: "4 \<le> card (free_frames small_ppfa)"
proof -
  have "{2, 3, 4, 5} \<subseteq> free_frames small_ppfa"
    by (simp add: free_frames_def small_ppfa_bits)
      (simp add: small_ppfa_def PPFA_make_def Bitmap_make_def page_bit_def Bitmap_get_def Let_def bitIndexer_def)
  then have "card {2, 3, 4, 5 :: u64} \<le> card (free_frames small_ppfa)" by (intro card_mono) simp_all
  then show ?thesis by simp
qed

theorem map_page_translates_witness:
  "\<exists>s'. x86_64_map_page 0xFFFF800000001000 0x5000 0x400123 3 empty_tables = ret s' \<and>
    x86_64_get_physaddr s' 0xFFFF800000001000 0x400123 = ret 0x5123"
  using map_page_translates [where root = "0x1000" and flags = 3 and q = "0x5000" and v = "0x400123", OF empty_tables_inv(1) _ empty_tables_inv(2)]
    small_ppfa_free
  by (simp add: empty_tables_def take_bit_eq_mod bit_iff_odd) blast

end
