(* ===== verification/VirtualPages.thy ===== *)
theory VirtualPages
  imports AVLTree LinkedList PhysicalMemory
begin

unbundle bit_operations_syntax

text \<open>
  Virtual address ranges: the class of src/kernel/src/Memory/VirtualRegion.cpp and the page manager of
  src/kernel/src/Memory/VirtualPageManager.cpp, which hands out page ranges of one region. Free ranges are kept in an
  AVL tree keyed by their size in pages; the data of a tree node is the head of a linked list of their start
  addresses. Used and reserved ranges are in a second tree keyed by their start address, with the size as data
  and the top bit for reserved. Tree nodes, list nodes and the kernel heap behind both are in the field
  \<open>vp_store\<close>. The clean-up functions of the file are never called and are left out.
\<close>

section \<open>VirtualRegion\<close>

record VirtualRegion =
  vr_start :: ptr
  vr_end :: ptr
  vr_size :: u64

definition VirtualRegion_empty :: VirtualRegion where
  "VirtualRegion_empty = \<lparr>vr_start = nullptr, vr_end = nullptr, vr_size = 0\<rparr>"

definition VirtualRegion_sized :: "ptr \<Rightarrow> u64 \<Rightarrow> VirtualRegion" where
  "VirtualRegion_sized start sz = \<lparr>vr_start = start, vr_end = start + sz, vr_size = sz\<rparr>"

definition VirtualRegion_range :: "ptr \<Rightarrow> ptr \<Rightarrow> VirtualRegion" where
  "VirtualRegion_range start e = \<lparr>vr_start = start, vr_end = e, vr_size = e - start\<rparr>"

definition VirtualRegion_ending :: "u64 \<Rightarrow> ptr \<Rightarrow> VirtualRegion" where
  "VirtualRegion_ending sz e = \<lparr>vr_start = e - sz, vr_end = e, vr_size = sz\<rparr>"

definition VirtualRegion_destroy :: "VirtualRegion \<Rightarrow> VirtualRegion" where
  "VirtualRegion_destroy r = r\<lparr>vr_start := nullptr, vr_end := nullptr, vr_size := 0\<rparr>"

definition GetStart :: "VirtualRegion \<Rightarrow> ptr" where
  "GetStart r = vr_start r"

definition GetEnd :: "VirtualRegion \<Rightarrow> ptr" where
  "GetEnd r = vr_end r"

definition GetSize :: "VirtualRegion \<Rightarrow> u64" where
  "GetSize r = vr_size r"

definition SetStart :: "ptr \<Rightarrow> VirtualRegion \<Rightarrow> VirtualRegion" where
  "SetStart start r = (if start > vr_end r then r else r\<lparr>vr_start := start, vr_size := vr_end r - start\<rparr>)"

definition SetEnd :: "ptr \<Rightarrow> VirtualRegion \<Rightarrow> VirtualRegion" where
  "SetEnd e r = (if e < vr_start r then r else r\<lparr>vr_end := e, vr_size := e - vr_start r\<rparr>)"

definition ExpandLeft :: "u64 \<Rightarrow> VirtualRegion \<Rightarrow> VirtualRegion" where
  "ExpandLeft new_size r = r\<lparr>vr_size := new_size, vr_start := vr_end r - new_size\<rparr>"

definition ExpandRight :: "u64 \<Rightarrow> VirtualRegion \<Rightarrow> VirtualRegion" where
  "ExpandRight new_size r = r\<lparr>vr_size := new_size, vr_end := vr_start r + new_size\<rparr>"

definition IsInside :: "VirtualRegion \<Rightarrow> ptr \<Rightarrow> u64 \<Rightarrow> bool" where
  "IsInside r mem sz \<longleftrightarrow> mem \<ge> vr_start r \<and> mem + sz \<le> vr_end r"

text \<open>The two reference parameters are returned with the result.\<close>

definition EnsureIsInside :: "VirtualRegion \<Rightarrow> ptr \<Rightarrow> u64 \<Rightarrow> bool \<times> ptr \<times> u64" where
  "EnsureIsInside r mem sz =
     (if IsInside r mem sz then (True, mem, sz)
      else let mem_i = mem in
        if mem_i > vr_end r then (False, mem, sz)
        else if mem_i + sz \<le> vr_start r then (False, mem, sz)
        else
          let mem = (if mem_i + sz > vr_start r \<and> mem_i < vr_start r then vr_start r else mem);
              sz = (if sz > vr_size r then sz - (mem_i - vr_start r) else sz)
          in (True, mem, sz))"

section \<open>Trees, lists and heap\<close>

record 'h vp_store =
  vs_avl_pool :: node_pool
  vs_nodes :: node_store
  vs_list_pool :: node_pool
  vs_heap :: 'h

definition vs_tree :: "('a \<Rightarrow> 'h avl_state \<Rightarrow> ('b \<times> 'h avl_state) prog) \<Rightarrow> 'a \<Rightarrow> 'h vp_store \<Rightarrow> ('b \<times> 'h vp_store) prog" where
  "vs_tree f x s =
     bindP (f x \<lparr>av_pool = vs_avl_pool s, av_heap = vs_heap s\<rparr>) (\<lambda>(y, t).
     ret (y, s\<lparr>vs_avl_pool := av_pool t, vs_heap := av_heap t\<rparr>))"

definition vs_list :: "('h list_state \<Rightarrow> (ptr \<times> 'h list_state) prog) \<Rightarrow> 'h vp_store \<Rightarrow> (ptr \<times> 'h vp_store) prog" where
  "vs_list f s =
     bindP (f \<lparr>ll_nodes = vs_nodes s, ll_pool = vs_list_pool s, ll_heap = vs_heap s\<rparr>) (\<lambda>(p, l).
     ret (p, s\<lparr>vs_nodes := ll_nodes l, vs_list_pool := ll_pool l, vs_heap := ll_heap l\<rparr>))"

definition tree_insert :: "'h heap_ops \<Rightarrow> avl \<Rightarrow> u64 \<Rightarrow> u64 \<Rightarrow> 'h vp_store \<Rightarrow> (avl \<times> 'h vp_store) prog" where
  "tree_insert A t k d = vs_tree (\<lambda>t s. avl_insert A s t k d) t"

definition tree_delete :: "'h heap_ops \<Rightarrow> avl \<Rightarrow> u64 \<Rightarrow> 'h vp_store \<Rightarrow> (avl \<times> 'h vp_store) prog" where
  "tree_delete A t k = vs_tree (\<lambda>t s. avl_deleteNode A s t k) t"

definition list_insert :: "'h heap_ops \<Rightarrow> ptr \<Rightarrow> u64 \<Rightarrow> 'h vp_store \<Rightarrow> (ptr \<times> 'h vp_store) prog" where
  "list_insert A head d = vs_list (\<lambda>l. insertNode A l head d False)"

definition list_delete :: "'h heap_ops \<Rightarrow> ptr \<Rightarrow> u64 \<Rightarrow> 'h vp_store \<Rightarrow> (ptr \<times> 'h vp_store) prog" where
  "list_delete A head d = vs_list (\<lambda>l. deleteNode A l head d)"

definition list_delete_node :: "'h heap_ops \<Rightarrow> ptr \<Rightarrow> ptr \<Rightarrow> 'h vp_store \<Rightarrow> (ptr \<times> 'h vp_store) prog" where
  "list_delete_node A head node = vs_list (\<lambda>l. deleteNode_node A l head node)"

text \<open>\<open>node->extraData = v\<close>, where \<open>node\<close> is the tree node at an address.\<close>

fun set_extraData :: "ptr \<Rightarrow> u64 \<Rightarrow> avl \<Rightarrow> avl" where
  "set_extraData p v Null = Null"
| "set_extraData p v (Node a k e l r h) =
     Node a k (if a = p then v else e) (set_extraData p v l) (set_extraData p v r) h"

text \<open>
  \<open>node = findNode(root, size); if (node == nullptr) { insert(root, size, nullptr); node = findNode(root, size); }\<close>
  and then the address is appended to the node's list. The node may still be null after the insertion.
\<close>

definition add_free_block :: "'h heap_ops \<Rightarrow> avl \<Rightarrow> u64 \<Rightarrow> u64 \<Rightarrow> 'h vp_store \<Rightarrow> (avl \<times> 'h vp_store) prog" where
  "add_free_block A root sz addr s =
     bindP (if avl_findNode root sz = Null then tree_insert A root sz nullptr s else ret (root, s)) (\<lambda>(root, s).
     case avl_findNode root sz of
       Null \<Rightarrow> stop NullDeref
     | Node p _ lst _ _ _ \<Rightarrow>
         bindP (list_insert A lst addr s) (\<lambda>(lst, s). ret (set_extraData p lst root, s)))"

text \<open>
  \<open>SplitFreeBlock\<close> runs the same steps, but reads the list before the insertion: it is null for a new node, and
  the insertion into the list is made before the node is looked at.
\<close>

definition add_split_block :: "'h heap_ops \<Rightarrow> avl \<Rightarrow> u64 \<Rightarrow> u64 \<Rightarrow> 'h vp_store \<Rightarrow> (avl \<times> 'h vp_store) prog" where
  "add_split_block A root sz addr s =
     bindP (case avl_findNode root sz of
              Null \<Rightarrow> bindP (tree_insert A root sz nullptr s) (\<lambda>(root, s). ret (nullptr, root, s))
            | Node _ _ lst _ _ _ \<Rightarrow> ret (lst, root, s)) (\<lambda>(lst, root, s).
     let node = avl_findNode root sz in
     bindP (list_insert A lst addr s) (\<lambda>(lst, s).
     if node = Null then stop NullDeref else ret (set_extraData (avl_addr node) lst root, s)))"

definition Internal_SplitFreeBlock ::
  "'h heap_ops \<Rightarrow> avl \<Rightarrow> ptr \<Rightarrow> u64 \<Rightarrow> u64 \<Rightarrow> 'h vp_store \<Rightarrow> (avl \<times> 'h vp_store) prog" where
  "Internal_SplitFreeBlock A root addr original_count new_count s =
     (if original_count \<le> new_count then ret (root, s)
      else case avl_findNode root original_count of
        Null \<Rightarrow> ret (root, s)
      | Node p _ lst _ _ _ \<Rightarrow>
          if lst = nullptr then ret (root, s)
          else bindP (findNode (vs_nodes s) lst addr) (\<lambda>item.
            if item = nullptr then ret (root, s)
            else
              bindP (list_delete A lst addr s) (\<lambda>(lst, s).
              bindP (if lst = nullptr then tree_delete A root original_count s
                     else ret (set_extraData p lst root, s)) (\<lambda>(root, s).
              bindP (add_split_block A root new_count addr s) (\<lambda>(root, s).
              add_split_block A root (original_count - new_count) (addr + new_count * 4096) s)))))"

section \<open>VirtualPageManager\<close>

record 'h VPM =
  m_FreePagesCount :: u64
  m_FreePagesSizeTree :: avl
  m_ReservedANDUsedPages :: avl
  m_ReservedPagesCount :: u64
  m_UsedPagesCount :: u64
  m_region :: VirtualRegion
  m_FreePagesSizeTreeLock :: spinlock_t
  m_ReservedANDUsedPagesLock :: spinlock_t
  m_GlobalLock :: spinlock_t
  m_RegionLock :: spinlock_t
  vp_store :: "'h vp_store"

definition VPM_make :: "'h vp_store \<Rightarrow> 'h VPM" where
  "VPM_make s = \<lparr>m_FreePagesCount = 0, m_FreePagesSizeTree = Null, m_ReservedANDUsedPages = Null,
     m_ReservedPagesCount = 0, m_UsedPagesCount = 0, m_region = VirtualRegion_empty, m_FreePagesSizeTreeLock = False,
     m_ReservedANDUsedPagesLock = False, m_GlobalLock = False, m_RegionLock = False, vp_store = s\<rparr>"

abbreviation RESERVED_BIT :: u64 where
  "RESERVED_BIT \<equiv> push_bit 63 1"

text \<open>Sections run under one of the locks. A section that returns early has released its lock on the way.\<close>

definition locked_tree :: "'h VPM \<Rightarrow> ('h VPM \<Rightarrow> ('a \<times> 'h VPM) prog) \<Rightarrow> ('a \<times> 'h VPM) prog" where
  "locked_tree v f =
     bindP (spinlock_acquire (m_FreePagesSizeTreeLock v)) (\<lambda>l.
     bindP (f (v\<lparr>m_FreePagesSizeTreeLock := l\<rparr>)) (\<lambda>(x, v).
     ret (x, v\<lparr>m_FreePagesSizeTreeLock := spinlock_release (m_FreePagesSizeTreeLock v)\<rparr>)))"

definition locked_ru :: "'h VPM \<Rightarrow> ('h VPM \<Rightarrow> ('a \<times> 'h VPM) prog) \<Rightarrow> ('a \<times> 'h VPM) prog" where
  "locked_ru v f =
     bindP (spinlock_acquire (m_ReservedANDUsedPagesLock v)) (\<lambda>l.
     bindP (f (v\<lparr>m_ReservedANDUsedPagesLock := l\<rparr>)) (\<lambda>(x, v).
     ret (x, v\<lparr>m_ReservedANDUsedPagesLock := spinlock_release (m_ReservedANDUsedPagesLock v)\<rparr>)))"

definition locked_global :: "'h VPM \<Rightarrow> ('h VPM \<Rightarrow> 'h VPM) \<Rightarrow> 'h VPM prog" where
  "locked_global v f =
     bindP (spinlock_acquire (m_GlobalLock v)) (\<lambda>l.
     let v = f (v\<lparr>m_GlobalLock := l\<rparr>) in ret (v\<lparr>m_GlobalLock := spinlock_release (m_GlobalLock v)\<rparr>))"

definition locked_region :: "'h VPM \<Rightarrow> ('h VPM \<Rightarrow> 'a \<times> 'h VPM) \<Rightarrow> ('a \<times> 'h VPM) prog" where
  "locked_region v f =
     bindP (spinlock_acquire (m_RegionLock v)) (\<lambda>l.
     let (x, v) = f (v\<lparr>m_RegionLock := l\<rparr>) in ret (x, v\<lparr>m_RegionLock := spinlock_release (m_RegionLock v)\<rparr>))"

text \<open>The start of every operation on a range: clip it to the region.\<close>

definition clip_range :: "ptr \<Rightarrow> u64 \<Rightarrow> 'h VPM \<Rightarrow> ((bool \<times> ptr \<times> u64) \<times> 'h VPM) prog" where
  "clip_range addr count v = locked_region v (\<lambda>v. (EnsureIsInside (m_region v) addr (push_bit 12 count), v))"

definition VPM_FreePages :: "'h heap_ops \<Rightarrow> ptr \<Rightarrow> u64 \<Rightarrow> 'h VPM \<Rightarrow> 'h VPM prog" where
  "VPM_FreePages A addr count v =
     bindP (clip_range addr count v) (\<lambda>((inside, addr, len), v).
     if \<not> inside then ret v
     else let count = drop_bit 12 len in
       if count = 0 then ret v
       else
         bindP (locked_tree v (\<lambda>v.
           bindP (add_free_block A (m_FreePagesSizeTree v) count addr (vp_store v)) (\<lambda>(t, s).
           ret ((), v\<lparr>m_FreePagesSizeTree := t, vp_store := s\<rparr>)))) (\<lambda>(_, v).
         locked_global v (\<lambda>v. v\<lparr>m_FreePagesCount := m_FreePagesCount v + count\<rparr>)))"

text \<open>Deletes a list entry and, with the last one, the tree node.\<close>

definition remove_entry :: "'h heap_ops \<Rightarrow> avl \<Rightarrow> ptr \<Rightarrow> u64 \<Rightarrow> ptr \<Rightarrow> ptr \<Rightarrow> 'h vp_store \<Rightarrow> (avl \<times> 'h vp_store) prog" where
  "remove_entry A root node key lst sub_node s =
     bindP (list_delete_node A lst sub_node s) (\<lambda>(lst, s).
     if lst = nullptr then tree_delete A root key s
     else ret (set_extraData node lst root, s))"

text \<open>Removes the entry of exactly \<open>count\<close> pages at \<open>addr\<close>, if there is one.\<close>

definition unfree_exact :: "'h heap_ops \<Rightarrow> ptr \<Rightarrow> u64 \<Rightarrow> 'h VPM \<Rightarrow> (bool \<times> 'h VPM) prog" where
  "unfree_exact A addr count v =
     (case avl_findNode (m_FreePagesSizeTree v) count of
        Null \<Rightarrow> ret (False, v)
      | Node p k lst _ _ _ \<Rightarrow>
          if lst = nullptr then ret (False, v)
          else bindP (findNode (vs_nodes (vp_store v)) lst addr) (\<lambda>sub_node.
            if sub_node = nullptr then ret (False, v)
            else bindP (remove_entry A (m_FreePagesSizeTree v) p k lst sub_node (vp_store v)) (\<lambda>(t, s).
              ret (True, v\<lparr>m_FreePagesSizeTree := t, vp_store := s\<rparr>))))"

text \<open>
  The scan of one list for a block that contains the range: the block is split before and after the range. The result
  says whether one was found.
\<close>

partial_function (option) unfree_scan ::
  "'h heap_ops \<Rightarrow> ptr \<Rightarrow> u64 \<Rightarrow> u64 \<Rightarrow> avl \<Rightarrow> ptr \<Rightarrow> 'h VPM \<Rightarrow> (bool \<times> 'h VPM) prog" where
  "unfree_scan A addr len count node sub_node v =
     (if sub_node = nullptr then ret (False, v)
      else bindP (node_get (vs_nodes (vp_store v)) sub_node) (\<lambda>n.
        let region = VirtualRegion_sized (data n) (push_bit 12 (avl_key node)) in
        if IsInside region addr len then
          bindP
            (if addr > GetStart region then
               bindP (Internal_SplitFreeBlock A (m_FreePagesSizeTree v) (GetStart region) (avl_key node) (drop_bit 12 (addr - data n)) (vp_store v))
                 (\<lambda>(t, s).
                    let v = v\<lparr>m_FreePagesSizeTree := t, vp_store := s\<rparr>;
                        region = SetStart addr region
                    in ret (findNodeOrHigher t (drop_bit 12 (GetSize region)), region, v))
             else ret (node, region, v)) (\<lambda>(new_node, region, v).
          bindP
            (if len < GetSize region then
               bindP (key_of new_node) (\<lambda>new_key.
               bindP (Internal_SplitFreeBlock A (m_FreePagesSizeTree v) (GetStart region) new_key count (vp_store v))
                 (\<lambda>(t, s). ret (v\<lparr>m_FreePagesSizeTree := t, vp_store := s\<rparr>)))
             else ret v) (\<lambda>v. ret (True, v)))
        else unfree_scan A addr len count node (next n) v))"

text \<open>The outer loop over the sizes. The results are \<open>found\<close> and \<open>correct\<close>; the key of the node is not read again
  once a block is found, because the loop ends.\<close>

partial_function (option) unfree_loop ::
  "'h heap_ops \<Rightarrow> ptr \<Rightarrow> u64 \<Rightarrow> u64 \<Rightarrow> avl \<Rightarrow> 'h VPM \<Rightarrow> ((bool \<times> bool) \<times> 'h VPM) prog" where
  "unfree_loop A addr len count node v =
     (case node of
        Null \<Rightarrow> ret ((False, False), v)
      | Node p key lst _ _ _ \<Rightarrow>
          bindP (findNode (vs_nodes (vp_store v)) lst addr) (\<lambda>sub_node.
          if sub_node = nullptr then
            bindP (unfree_scan A addr len count node lst v) (\<lambda>(found, v).
            if found then ret ((True, False), v)
            else unfree_loop A addr len count (findNodeOrHigher (m_FreePagesSizeTree v) (key + 1)) v)
          else if key > count then
            bindP (Internal_SplitFreeBlock A (m_FreePagesSizeTree v) addr key count (vp_store v)) (\<lambda>(t, s).
            ret ((True, False), v\<lparr>m_FreePagesSizeTree := t, vp_store := s\<rparr>))
          else
            bindP (remove_entry A (m_FreePagesSizeTree v) p key lst sub_node (vp_store v)) (\<lambda>(t, s).
            ret ((True, True), v\<lparr>m_FreePagesSizeTree := t, vp_store := s\<rparr>))))"

definition VPM_UnfreePages :: "'h heap_ops \<Rightarrow> ptr \<Rightarrow> u64 \<Rightarrow> bool \<Rightarrow> 'h VPM \<Rightarrow> (bool \<times> 'h VPM) prog" where
  "VPM_UnfreePages A addr count exact v =
     bindP (clip_range addr count v) (\<lambda>((inside, addr, len), v).
     if \<not> inside then ret (False, v)
     else let count = drop_bit 12 len in
       if count = 0 then ret (False, v)
       else
         bindP (locked_tree v (\<lambda>v.
           if exact then unfree_exact A addr count v
           else case findNodeOrHigher (m_FreePagesSizeTree v) count of
               Null \<Rightarrow> ret (False, v)
             | node \<Rightarrow>
                 bindP (unfree_loop A addr len count node v) (\<lambda>((found, correct), v).
                 if \<not> correct \<and> found then unfree_exact A addr count v
                 else ret (found \<and> correct, v)))) (\<lambda>(done, v).
         if done then
           bindP (locked_global v (\<lambda>v. v\<lparr>m_FreePagesCount := m_FreePagesCount v - count\<rparr>)) (\<lambda>v. ret (True, v))
         else ret (False, v)))"

definition VPM_ReservePages :: "'h heap_ops \<Rightarrow> ptr \<Rightarrow> u64 \<Rightarrow> 'h VPM \<Rightarrow> 'h VPM prog" where
  "VPM_ReservePages A addr count v =
     bindP (clip_range addr count v) (\<lambda>((inside, addr, len), v).
     if \<not> inside then ret v
     else let count = drop_bit 12 len in
       if count = 0 then ret v
       else
         bindP (locked_ru v (\<lambda>v.
           if avl_findNode (m_ReservedANDUsedPages v) addr \<noteq> Null then ret (False, v)
           else bindP (tree_insert A (m_ReservedANDUsedPages v) addr (count OR RESERVED_BIT) (vp_store v)) (\<lambda>(t, s).
             ret (True, v\<lparr>m_ReservedANDUsedPages := t, vp_store := s\<rparr>)))) (\<lambda>(done, v).
         if \<not> done then ret v
         else
           bindP (locked_global v (\<lambda>v. v\<lparr>m_ReservedPagesCount := m_ReservedPagesCount v + count\<rparr>)) (\<lambda>v.
           bindP (VPM_UnfreePages A addr count False v) (\<lambda>(_, v). ret v))))"

definition VPM_UnreservePages :: "'h heap_ops \<Rightarrow> ptr \<Rightarrow> u64 \<Rightarrow> 'h VPM \<Rightarrow> 'h VPM prog" where
  "VPM_UnreservePages A addr count v =
     bindP (clip_range addr count v) (\<lambda>((inside, addr, len), v).
     if \<not> inside then ret v
     else if count = 0 then ret v
     else let count = drop_bit 12 len in
       bindP (locked_ru v (\<lambda>v.
         case avl_findNode (m_ReservedANDUsedPages v) addr of
           Null \<Rightarrow> ret (False, v)
         | Node _ _ e _ _ _ \<Rightarrow>
             if e \<noteq> (count OR RESERVED_BIT) then ret (False, v)
             else bindP (tree_delete A (m_ReservedANDUsedPages v) addr (vp_store v)) (\<lambda>(t, s).
               ret (True, v\<lparr>m_ReservedANDUsedPages := t, vp_store := s\<rparr>)))) (\<lambda>(done, v).
       if \<not> done then ret v
       else
         bindP (locked_global v (\<lambda>v. v\<lparr>m_ReservedPagesCount := m_ReservedPagesCount v - count\<rparr>)) (\<lambda>v.
         VPM_FreePages A addr count v)))"

definition VPM_LockPages :: "'h heap_ops \<Rightarrow> ptr \<Rightarrow> u64 \<Rightarrow> bool \<Rightarrow> bool \<Rightarrow> 'h VPM \<Rightarrow> 'h VPM prog" where
  "VPM_LockPages A addr count unfree check v =
     bindP (if check then
              bindP (clip_range addr count v) (\<lambda>((inside, addr, len), v). ret ((inside, addr, drop_bit 12 len), v))
            else ret ((True, addr, count), v)) (\<lambda>((inside, addr, count), v).
     if \<not> inside then ret v
     else if count = 0 then ret v
     else
       bindP (locked_ru v (\<lambda>v.
         if avl_findNode (m_ReservedANDUsedPages v) addr \<noteq> Null then ret (False, v)
         else bindP (tree_insert A (m_ReservedANDUsedPages v) addr (count AND NOT RESERVED_BIT) (vp_store v)) (\<lambda>(t, s).
           ret (True, v\<lparr>m_ReservedANDUsedPages := t, vp_store := s\<rparr>)))) (\<lambda>(done, v).
       if \<not> done then ret v
       else
         bindP (locked_global v (\<lambda>v. v\<lparr>m_UsedPagesCount := m_UsedPagesCount v + count\<rparr>)) (\<lambda>v.
         if unfree then bindP (VPM_UnfreePages A addr count (\<not> check) v) (\<lambda>(_, v). ret v) else ret v)))"

definition VPM_UnlockPages :: "'h heap_ops \<Rightarrow> ptr \<Rightarrow> u64 \<Rightarrow> 'h VPM \<Rightarrow> 'h VPM prog" where
  "VPM_UnlockPages A addr count v =
     bindP (clip_range addr count v) (\<lambda>((inside, addr, len), v).
     if \<not> inside then ret v
     else let count = drop_bit 12 len in
       if count = 0 then ret v
       else
         bindP (locked_ru v (\<lambda>v.
           case avl_findNode (m_ReservedANDUsedPages v) addr of
             Null \<Rightarrow> ret (False, v)
           | Node _ _ e _ _ _ \<Rightarrow>
               if e \<noteq> (count AND NOT RESERVED_BIT) then ret (False, v)
               else bindP (tree_delete A (m_ReservedANDUsedPages v) addr (vp_store v)) (\<lambda>(t, s).
                 ret (True, v\<lparr>m_ReservedANDUsedPages := t, vp_store := s\<rparr>)))) (\<lambda>(done, v).
         if \<not> done then ret v
         else
           bindP (locked_global v (\<lambda>v. v\<lparr>m_FreePagesCount := m_FreePagesCount v - count\<rparr>)) (\<lambda>v.
           VPM_FreePages A addr count v)))"

definition VPM_FindFreePages :: "u64 \<Rightarrow> 'h VPM \<Rightarrow> (ptr \<times> 'h VPM) prog" where
  "VPM_FindFreePages count v =
     locked_tree v (\<lambda>v.
       case findNodeOrHigher (m_FreePagesSizeTree v) count of
         Null \<Rightarrow> ret (nullptr, v)
       | Node _ _ lst _ _ _ \<Rightarrow>
           if lst = nullptr then ret (nullptr, v)
           else bindP (node_get (vs_nodes (vp_store v)) lst) (\<lambda>n. ret (data n, v)))"

definition VPM_AllocatePages :: "'h heap_ops \<Rightarrow> u64 \<Rightarrow> 'h VPM \<Rightarrow> (ptr \<times> 'h VPM) prog" where
  "VPM_AllocatePages A count v =
     (if count = 0 then ret (nullptr, v)
      else
        bindP (locked_tree v (\<lambda>v.
          case findNodeOrHigher (m_FreePagesSizeTree v) count of
            Null \<Rightarrow> ret (None, v)
          | Node _ key lst _ _ _ \<Rightarrow>
              if lst = nullptr then ret (None, v)
              else bindP (node_get (vs_nodes (vp_store v)) lst) (\<lambda>n.
                if key > count then
                  bindP (Internal_SplitFreeBlock A (m_FreePagesSizeTree v) (data n) key count (vp_store v)) (\<lambda>(t, s).
                  ret (Some (data n), v\<lparr>m_FreePagesSizeTree := t, vp_store := s\<rparr>))
                else ret (Some (data n), v)))) (\<lambda>(mem, v).
        case mem of
          None \<Rightarrow> ret (nullptr, v)
        | Some mem \<Rightarrow> bindP (VPM_LockPages A mem count True False v) (\<lambda>v. ret (mem, v))))"

definition VPM_AllocatePages_at :: "'h heap_ops \<Rightarrow> ptr \<Rightarrow> u64 \<Rightarrow> 'h VPM \<Rightarrow> (ptr \<times> 'h VPM) prog" where
  "VPM_AllocatePages_at A addr count v =
     bindP (locked_region v (\<lambda>v. (\<not> (count = 0 \<or> \<not> IsInside (m_region v) addr (push_bit 12 count)), v))) (\<lambda>(ok, v).
     if \<not> ok then ret (nullptr, v)
     else
       bindP (VPM_UnfreePages A addr count False v) (\<lambda>(ok, v).
       if \<not> ok then ret (nullptr, v)
       else bindP (VPM_LockPages A addr count False False v) (\<lambda>v. ret (addr, v))))"

definition VPM_UnallocatePages :: "'h heap_ops \<Rightarrow> ptr \<Rightarrow> u64 \<Rightarrow> 'h VPM \<Rightarrow> 'h VPM prog" where
  "VPM_UnallocatePages A addr count v = VPM_UnlockPages A addr count v"

definition AttemptToExpandRight :: "'h heap_ops \<Rightarrow> u64 \<Rightarrow> 'h VPM \<Rightarrow> (bool \<times> 'h VPM) prog" where
  "AttemptToExpandRight A new_size v =
     bindP (locked_region v (\<lambda>v.
       if new_size < GetSize (m_region v) then (None, v)
       else (Some (GetEnd (m_region v), drop_bit 12 (new_size - GetSize (m_region v))),
             v\<lparr>m_region := ExpandRight new_size (m_region v)\<rparr>))) (\<lambda>(r, v).
     case r of
       None \<Rightarrow> ret (False, v)
     | Some (old_end, extra_count) \<Rightarrow>
         bindP (VPM_FreePages A old_end extra_count v) (\<lambda>v. ret (True, v)))"

section \<open>Initialisation\<close>

definition init_pools :: "'h VPM \<Rightarrow> 'h VPM" where
  "init_pools v =
     (let s = vp_store v;
          s = (if \<not> NodePool_HasBeenInitialised (vs_avl_pool s) then s\<lparr>vs_avl_pool := NodePool_Init (vs_avl_pool s)\<rparr> else s);
          s = (if \<not> NodePool_HasBeenInitialised (vs_list_pool s) then s\<lparr>vs_list_pool := NodePool_Init (vs_list_pool s)\<rparr> else s)
      in v\<lparr>vp_store := s\<rparr>)"

definition InitVPageMgr_region :: "'h heap_ops \<Rightarrow> VirtualRegion \<Rightarrow> 'h VPM \<Rightarrow> 'h VPM prog" where
  "InitVPageMgr_region A region v =
     (let v = (init_pools v)\<lparr>m_region := region\<rparr>
      in VPM_FreePages A (GetStart (m_region v)) (drop_bit 12 (GetSize (m_region v))) v)"

primrec reserve_acpi :: "'h heap_ops \<Rightarrow> MemoryMapEntry list \<Rightarrow> 'h VPM \<Rightarrow> 'h VPM prog" where
  "reserve_acpi A [] v = ret v"
| "reserve_acpi A (entry # es) v =
     bindP (if (mm_type entry = 3 \<or> mm_type entry = 2) \<and> IsInside (m_region v) (mm_Address entry) (mm_length entry)
            then VPM_ReservePages A (mm_Address entry)
              (if mm_length entry mod 4096 > 0 then mm_length entry div 4096 + 1 else mm_length entry div 4096) v
            else ret v)
       (reserve_acpi A es)"

definition InitVPageMgr ::
  "'h heap_ops \<Rightarrow> MemoryMapEntry list \<Rightarrow> ptr \<Rightarrow> u64 \<Rightarrow> ptr \<Rightarrow> u64 \<Rightarrow> VirtualRegion \<Rightarrow> 'h VPM \<Rightarrow> 'h VPM prog" where
  "InitVPageMgr A MemoryMap kernel_virt_start kernel_size fb_virt fb_size region v =
     bindP (InitVPageMgr_region A region v) (\<lambda>v.
     bindP (reserve_acpi A MemoryMap v) (\<lambda>v.
     bindP (if IsInside (m_region v) kernel_virt_start kernel_size
            then VPM_LockPages A kernel_virt_start ((kernel_size + 4095) div 4096) True True v else ret v) (\<lambda>v.
     if IsInside (m_region v) fb_virt fb_size
     then VPM_LockPages A fb_virt ((fb_size + 4095) div 4096) True True v else ret v)))"

end
