(* ===== verification/VirtualPagesCorrect.thy ===== *)
theory VirtualPagesCorrect
  imports VirtualPages LinkedListCorrect AVLTreeCorrect
begin

unbundle bit_operations_syntax

text \<open>
  Virtual regions keep their size equal to the distance of their ends, and a range is accepted as inside a region although it
  passes its end. The page manager's counters: what \<open>FreePages\<close> adds, what \<open>LockPages\<close> adds, and that
  \<open>UnlockPages\<close> takes the pages from the wrong counter.
\<close>

section \<open>Regions\<close>

definition region_ok :: "VirtualRegion \<Rightarrow> bool" where
  "region_ok r \<longleftrightarrow> vr_end r = vr_start r + vr_size r"

section \<open>Counters\<close>

text \<open>The fields of the manager no operation on its trees changes.\<close>

definition same_counts :: "'h VPM \<Rightarrow> 'h VPM \<Rightarrow> bool" where
  "same_counts v v' \<longleftrightarrow> m_FreePagesCount v' = m_FreePagesCount v \<and> m_ReservedPagesCount v' = m_ReservedPagesCount v \<and>
     m_UsedPagesCount v' = m_UsedPagesCount v \<and> m_region v' = m_region v"

lemma same_counts_refl [simp]: "same_counts v v"
  by (simp add: same_counts_def)

lemma same_counts_update [simp]:
  "same_counts v (v'\<lparr>m_FreePagesSizeTreeLock := l\<rparr>) = same_counts v v'" "same_counts v (v'\<lparr>m_ReservedANDUsedPagesLock := l\<rparr>) = same_counts v v'"
  "same_counts v (v'\<lparr>m_RegionLock := l\<rparr>) = same_counts v v'" "same_counts v (v'\<lparr>m_GlobalLock := l\<rparr>) = same_counts v v'"
  "same_counts v (v'\<lparr>m_FreePagesSizeTree := t\<rparr>) = same_counts v v'" "same_counts v (v'\<lparr>m_ReservedANDUsedPages := t\<rparr>) = same_counts v v'"
  "same_counts v (v'\<lparr>vp_store := s\<rparr>) = same_counts v v'"
  "same_counts (v\<lparr>m_FreePagesSizeTreeLock := l\<rparr>) v' = same_counts v v'" "same_counts (v\<lparr>m_ReservedANDUsedPagesLock := l\<rparr>) v' = same_counts v v'"
  "same_counts (v\<lparr>m_RegionLock := l\<rparr>) v' = same_counts v v'" "same_counts (v\<lparr>m_GlobalLock := l\<rparr>) v' = same_counts v v'"
  by (simp_all add: same_counts_def)

lemma locked_ru_counts:
  assumes "locked_ru v f = ret (x, v')" "\<And>v y v'. f v = ret (y, v') \<Longrightarrow> same_counts v v'"
  shows "same_counts v v'"
  using assms(1) assms(2) by (fastforce simp: locked_ru_def bindP_eq_ret)

lemma locked_tree_counts:
  assumes "locked_tree v f = ret (x, v')" "\<And>v y v'. f v = ret (y, v') \<Longrightarrow> same_counts v v'"
  shows "same_counts v v'"
  using assms(1) assms(2) by (fastforce simp: locked_tree_def bindP_eq_ret)

lemma clip_range_counts: "clip_range addr count v = ret (r, v') \<Longrightarrow> same_counts v v' \<and> r = EnsureIsInside (m_region v) addr (push_bit 12 count)"
  by (auto simp: clip_range_def locked_region_def bindP_eq_ret)

lemma locked_global_eq: "locked_global v f = ret v' \<Longrightarrow> \<exists>l l'. v' = (f (v\<lparr>m_GlobalLock := l\<rparr>))\<lparr>m_GlobalLock := l'\<rparr>"
  by (auto simp: locked_global_def bindP_eq_ret Let_def)

text \<open>The pages of a request that are counted: those of the clipped range.\<close>

definition clipped_pages :: "'h VPM \<Rightarrow> ptr \<Rightarrow> u64 \<Rightarrow> u64" where
  "clipped_pages v addr count = (case EnsureIsInside (m_region v) addr (push_bit 12 count) of
     (inside, _, len) \<Rightarrow> if inside then drop_bit 12 len else 0)"

lemma FreePages_counts:
  assumes "VPM_FreePages A addr count v = ret v'"
  shows "m_FreePagesCount v' = m_FreePagesCount v + clipped_pages v addr count \<and>
    m_UsedPagesCount v' = m_UsedPagesCount v \<and> m_ReservedPagesCount v' = m_ReservedPagesCount v \<and> m_region v' = m_region v"
proof -
  obtain inside mem len v1 where c: "clip_range addr count v = ret ((inside, mem, len), v1)"
    and rest: "(if \<not> inside then ret v1 else let count = drop_bit 12 len in if count = 0 then ret v1 else
         bindP (locked_tree v1 (\<lambda>v.
           bindP (add_free_block A (m_FreePagesSizeTree v) count mem (vp_store v)) (\<lambda>(t, s).
           ret ((), v\<lparr>m_FreePagesSizeTree := t, vp_store := s\<rparr>)))) (\<lambda>(_, v).
         locked_global v (\<lambda>v. v\<lparr>m_FreePagesCount := m_FreePagesCount v + count\<rparr>))) = ret v'"
    using assms by (auto simp: VPM_FreePages_def bindP_eq_ret)
  have c': "same_counts v v1" "EnsureIsInside (m_region v) addr (push_bit 12 count) = (inside, mem, len)"
    using clip_range_counts [OF c] by auto
  show ?thesis
  proof (cases "inside \<and> drop_bit 12 len \<noteq> 0")
    case True
    then obtain v2 where t: "locked_tree v1 (\<lambda>v.
           bindP (add_free_block A (m_FreePagesSizeTree v) (drop_bit 12 len) mem (vp_store v)) (\<lambda>(t, s).
           ret ((), v\<lparr>m_FreePagesSizeTree := t, vp_store := s\<rparr>))) = ret ((), v2)"
      and g: "locked_global v2 (\<lambda>v. v\<lparr>m_FreePagesCount := m_FreePagesCount v + drop_bit 12 len\<rparr>) = ret v'"
      using rest by (auto simp: Let_def bindP_eq_ret)
    have "same_counts v1 v2" by (rule locked_tree_counts [OF t]) (auto simp: bindP_eq_ret)
    then show ?thesis using c' True locked_global_eq [OF g] by (auto simp: same_counts_def clipped_pages_def)
  next
    case False
    then have "v' = v1" using rest by (auto simp: Let_def split: if_splits)
    then show ?thesis using c' False by (auto simp: same_counts_def clipped_pages_def)
  qed
qed

lemma pages_bytes: "unat count < 2 ^ 52 \<Longrightarrow> drop_bit 12 (push_bit 12 count) = count" for count :: u64
proof -
  assume c: "unat count < 2 ^ 52"
  have "unat (drop_bit 12 (push_bit 12 count)) = unat (push_bit 12 count) div 2 ^ 12" by (metis unat_drop_bit_eq drop_bit_eq_div)
  also have "\<dots> = unat count" using c by (simp add: push_bit_eq_mult unat_mult64)
  finally show ?thesis by (simp add: word_unat_eq_iff)
qed

lemma clip_inside: "IsInside r addr len \<Longrightarrow> EnsureIsInside r addr len = (True, addr, len)"
  by (simp add: EnsureIsInside_def)

lemma UnlockPages_counts:
  assumes inside: "IsInside (m_region v) addr (push_bit 12 count)" "unat count < 2 ^ 52"
    and run: "VPM_UnlockPages A addr count v = ret v'"
  shows "m_FreePagesCount v' = m_FreePagesCount v \<and> m_UsedPagesCount v' = m_UsedPagesCount v"
proof -
  note ct = pages_bytes [OF inside(2)]
  let ?ru = "\<lambda>v. case avl_findNode (m_ReservedANDUsedPages v) addr of
             Null \<Rightarrow> ret (False, v)
           | Node _ _ e _ _ _ \<Rightarrow>
               if e \<noteq> (count AND NOT RESERVED_BIT) then ret (False, v)
               else bindP (tree_delete A (m_ReservedANDUsedPages v) addr (vp_store v)) (\<lambda>(t, s).
                 ret (True, v\<lparr>m_ReservedANDUsedPages := t, vp_store := s\<rparr>))"
  obtain v1 where c: "clip_range addr count v = ret ((True, addr, push_bit 12 count), v1)"
    and rest: "(if count = 0 then ret v1 else bindP (locked_ru v1 ?ru) (\<lambda>(done, v). if \<not> done then ret v
         else bindP (locked_global v (\<lambda>v. v\<lparr>m_FreePagesCount := m_FreePagesCount v - count\<rparr>)) (\<lambda>v. VPM_FreePages A addr count v))) = ret v'"
    using run unfolding VPM_UnlockPages_def bindP_eq_ret using clip_range_counts [of addr count v] clip_inside [OF inside(1)]
    by (fastforce simp: Let_def ct)
  have c': "same_counts v v1" using clip_range_counts [OF c] by blast
  show ?thesis
  proof (cases "count = 0")
    case True
    then show ?thesis using rest c' by (simp add: same_counts_def)
  next
    case False
    then obtain d v2 where ru: "locked_ru v1 ?ru = ret (d, v2)" and tail: "(if \<not> d then ret v2
         else bindP (locked_global v2 (\<lambda>v. v\<lparr>m_FreePagesCount := m_FreePagesCount v - count\<rparr>)) (\<lambda>v. VPM_FreePages A addr count v)) = ret v'"
      using rest by (auto simp: bindP_eq_ret)
    have c2: "same_counts v1 v2" by (rule locked_ru_counts [OF ru]) (auto simp: bindP_eq_ret split: avl.splits if_splits)
    show ?thesis
    proof (cases d)
      case True
      then obtain v3 where g: "locked_global v2 (\<lambda>v. v\<lparr>m_FreePagesCount := m_FreePagesCount v - count\<rparr>) = ret v3" "VPM_FreePages A addr count v3 = ret v'"
        using tail by (auto simp: bindP_eq_ret)
      then have c3: "m_region v3 = m_region v" "m_FreePagesCount v3 = m_FreePagesCount v - count" "m_UsedPagesCount v3 = m_UsedPagesCount v"
        using locked_global_eq [OF g(1)] c' c2 by (auto simp: same_counts_def)
      have "clipped_pages v3 addr count = count" unfolding clipped_pages_def c3(1) clip_inside [OF inside(1)] by (simp add: ct)
      then show ?thesis using FreePages_counts [OF g(2)] c3 by simp
    next
      case False
      then show ?thesis using tail c' c2 by (simp add: same_counts_def)
    qed
  qed
qed

lemma LockPages_counts:
  assumes new: "avl_findNode (m_ReservedANDUsedPages v) addr = Null" and "count \<noteq> 0"
    and run: "VPM_LockPages A addr count False False v = ret v'"
  shows "m_FreePagesCount v' = m_FreePagesCount v \<and> m_UsedPagesCount v' = m_UsedPagesCount v + count \<and> m_region v' = m_region v"
proof -
  let ?ru = "\<lambda>v. if avl_findNode (m_ReservedANDUsedPages v) addr \<noteq> Null then ret (False, v)
         else bindP (tree_insert A (m_ReservedANDUsedPages v) addr (count AND NOT RESERVED_BIT) (vp_store v)) (\<lambda>(t, s).
           ret (True, v\<lparr>m_ReservedANDUsedPages := t, vp_store := s\<rparr>))"
  obtain d v1 where ru: "locked_ru v ?ru = ret (d, v1)"
    and rest: "(if \<not> d then ret v1 else locked_global v1 (\<lambda>v. v\<lparr>m_UsedPagesCount := m_UsedPagesCount v + count\<rparr>)) = ret v'"
    using run assms(2) by (auto simp: VPM_LockPages_def bindP_eq_ret cong: if_cong)
  have "same_counts v v1" by (rule locked_ru_counts [OF ru]) (auto simp: bindP_eq_ret split: if_splits)
  moreover have d using ru new by (auto simp: locked_ru_def bindP_eq_ret)
  ultimately show ?thesis using rest by (auto simp: same_counts_def dest!: locked_global_eq)
qed

section \<open>Properties\<close>

text \<open>Every way to make or change a region keeps its end at its start plus its size.\<close>

lemma region_ok_preserved:
  "region_ok VirtualRegion_empty \<and> region_ok (VirtualRegion_sized a n) \<and> region_ok (VirtualRegion_range a b) \<and>
   region_ok (VirtualRegion_ending n b) \<and> region_ok (VirtualRegion_destroy r) \<and>
   (region_ok r \<longrightarrow> region_ok (SetStart a r) \<and> region_ok (SetEnd b r) \<and> region_ok (ExpandLeft n r) \<and> region_ok (ExpandRight n r))"
  by (simp add: region_ok_def VirtualRegion_empty_def VirtualRegion_sized_def VirtualRegion_range_def VirtualRegion_ending_def
      VirtualRegion_destroy_def SetStart_def SetEnd_def ExpandLeft_def ExpandRight_def)

text \<open>A range that starts in a region, is no longer than it and passes its end is accepted by \<open>EnsureIsInside\<close>, and is
  not clipped.\<close>

lemma EnsureIsInside_past_end:
  assumes "vr_start r \<le> mem" and "mem \<le> vr_end r" and "sz \<le> vr_size r" and "vr_end r < mem + sz"
  shows "EnsureIsInside r mem sz = (True, mem, sz) \<and> \<not> IsInside r mem sz"
proof -
  have "\<not> mem + sz \<le> vr_start r" using assms by (meson not_le order.strict_trans1 order.trans)
  then show ?thesis using assms by (auto simp: EnsureIsInside_def IsInside_def Let_def)
qed

text \<open>Locking pages and unlocking them again leaves them counted as used: \<open>UnlockPages\<close> takes them from the free count,
  where \<open>FreePages\<close> puts them back.\<close>

lemma LockPages_UnlockPages_count:
  assumes "avl_findNode (m_ReservedANDUsedPages v) addr = Null" and "count \<noteq> 0" and "unat count < 2 ^ 52"
    and "IsInside (m_region v) addr (push_bit 12 count)"
    and "VPM_LockPages A addr count False False v = ret v1" and "VPM_UnlockPages A addr count v1 = ret v2"
  shows "m_UsedPagesCount v2 = m_UsedPagesCount v + count \<and> m_FreePagesCount v2 = m_FreePagesCount v"
  using LockPages_counts [OF assms(1,2,5)] UnlockPages_counts [OF _ assms(3,6)] assms(4) by simp

text \<open>A heap that hands out increasing addresses, and a manager of the region from 4 MiB to 5 MiB over it.\<close>

definition bump_ops :: "u64 heap_ops" where
  "bump_ops = \<lparr>kcalloc_eternal_op = (\<lambda>n sz h. ret (h, h + 64)), new_initialised = (\<lambda>h. True),
     op_new = (\<lambda>sz h. ret (h, h + 64)), op_delete = (\<lambda>p h. ret h)\<rparr>"

definition empty_pool :: node_pool where
  "empty_pool = \<lparr>nodePool = 0x200000, nodePool_UsedCount = 0, nodePool_BitmapData = 0x300000,
       nodePool_Bitmap = Bitmap_empty, nodePoolHasBeenInitialised = True, nodePool_mem = (\<lambda>_. 0)\<rparr>"

definition small_vpm :: "u64 VPM" where
  "small_vpm = (VPM_make \<lparr>vs_avl_pool = empty_pool, vs_nodes = Map.empty, vs_list_pool = empty_pool, vs_heap = 0x800000\<rparr>)
     \<lparr>m_region := VirtualRegion_sized 0x400000 0x100000\<rparr>"

lemmas vpm_eval = small_vpm_def VPM_make_def bump_ops_def empty_pool_def VirtualRegion_sized_def locked_ru_def locked_global_def
  locked_tree_def locked_region_def clip_range_def EnsureIsInside_def IsInside_def tree_insert_def tree_delete_def vs_tree_def vs_list_def
  list_insert_def add_free_block_def avl_newNode_def avl_release_def NodePool_IsInPool_def insertNode_def newNode_def Let_def
  spinlock_release_def

end
