(* ===== verification/Buffer.thy ===== *)
theory Buffer
  imports Prelude
begin

text \<open>
  The block buffer of src/kernel/src/Data-structures/Buffer.cpp: bytes kept in a list of blocks. The
  \<open>SimpleLinkedList\<close> of block pointers is the Isabelle list of the blocks in order, which is what LinkedListCorrect
  shows that list to be; the blocks of one buffer are distinct objects. The bytes of a new block are whatever the heap
  left there: \<open>fresh n\<close> stands for the contents of \<open>new uint8_t[n]\<close>. Copying past the end of a block is a fault,
  and so is reading a block after it was deleted. BufferCorrect relates the blocks to the flat sequence of bytes they hold.
\<close>

section \<open>Blocks\<close>

record Block =
  bl_data :: "u8 list"
  bl_size :: u64
  bl_empty :: bool

record Buffer =
  bf_size :: u64
  bf_blockSize :: u64
  bf_blocks :: "Block list"

abbreviation DEFAULT_BUFFER_BLOCK_SIZE :: u64 where
  "DEFAULT_BUFFER_BLOCK_SIZE \<equiv> 64"

text \<open>\<open>memcpy\<close> into a block, and out of it.\<close>

definition block_write :: "Block \<Rightarrow> u64 \<Rightarrow> u8 list \<Rightarrow> Block prog" where
  "block_write b off d =
     (if unat off + length d \<le> length (bl_data b)
      then ret (b\<lparr>bl_data := take (unat off) (bl_data b) @ d @ drop (unat off + length d) (bl_data b)\<rparr>)
      else stop (Undefined ''write past the end of a block''))"

definition block_read :: "Block \<Rightarrow> u64 \<Rightarrow> u64 \<Rightarrow> u8 list prog" where
  "block_read b off n =
     (if unat off + unat n \<le> length (bl_data b) then ret (take (unat n) (drop (unat off) (bl_data b)))
      else stop (Undefined ''read past the end of a block''))"

section \<open>Adding and deleting blocks\<close>

definition Buffer_empty :: Buffer where
  "Buffer_empty = \<lparr>bf_size = 0, bf_blockSize = DEFAULT_BUFFER_BLOCK_SIZE, bf_blocks = []\<rparr>"

definition AddBlock :: "(u64 \<Rightarrow> u8 list) \<Rightarrow> u64 \<Rightarrow> Buffer \<Rightarrow> Buffer" where
  "AddBlock fresh sz b =
     b\<lparr>bf_blocks := bf_blocks b @ [\<lparr>bl_data = fresh sz, bl_size = sz, bl_empty = True\<rparr>], bf_size := bf_size b + sz\<rparr>"

text \<open>\<open>AddBlock(ALIGN_UP(size, m_blockSize))\<close>.\<close>

definition AddBlock_aligned :: "(u64 \<Rightarrow> u8 list) \<Rightarrow> u64 \<Rightarrow> Buffer \<Rightarrow> Buffer prog" where
  "AddBlock_aligned fresh sz b =
     (if bf_blockSize b = 0 then stop (Undefined ''division by zero'')
      else ret (AddBlock fresh (ALIGN_UP sz (bf_blockSize b)) b))"

definition Buffer_make :: "(u64 \<Rightarrow> u8 list) \<Rightarrow> u64 \<Rightarrow> u64 \<Rightarrow> Buffer prog" where
  "Buffer_make fresh sz blockSize = AddBlock_aligned fresh sz \<lparr>bf_size = 0, bf_blockSize = blockSize, bf_blocks = []\<rparr>"

text \<open>The loop of the destructor: the blocks it leaves behind.\<close>

function Buffer_destroy_loop :: "nat \<Rightarrow> Block list \<Rightarrow> Block list" where
  "Buffer_destroy_loop i bs = (if i < length bs then Buffer_destroy_loop (i + 1) (tl bs) else bs)"
  by pat_completeness auto

termination by (relation "measure (\<lambda>(i, bs). length bs - i)") auto

declare Buffer_destroy_loop.simps [simp del]

definition Buffer_destroy :: "Buffer \<Rightarrow> Block list" where
  "Buffer_destroy b = Buffer_destroy_loop 0 (bf_blocks b)"

definition DeleteBlock :: "nat \<Rightarrow> Buffer \<Rightarrow> Buffer prog" where
  "DeleteBlock index b =
     (if index < length (bf_blocks b)
      then ret (b\<lparr>bf_blocks := take index (bf_blocks b) @ drop (index + 1) (bf_blocks b), bf_size := bf_size b - bl_size (bf_blocks b ! index)\<rparr>)
      else stop NullDeref)"

section \<open>Finding the block of an offset\<close>

text \<open>The index of the block and the offset within it.\<close>

fun find_block :: "Block list \<Rightarrow> u64 \<Rightarrow> u64 \<Rightarrow> nat \<Rightarrow> (nat \<times> u64) option" where
  "find_block [] offset starting i = None"
| "find_block (b # bs) offset starting i =
     (if offset \<ge> starting \<and> offset < starting + bl_size b then Some (i, offset - starting)
      else find_block bs offset (starting + bl_size b) (i + 1))"

section \<open>Write\<close>

text \<open>
  The loop over the blocks after the first: the blocks written, and the bytes left when the blocks ran out (None when
  the function returned).
\<close>

fun write_blocks :: "Block list \<Rightarrow> u8 list \<Rightarrow> (Block list \<times> u8 list option) prog" where
  "write_blocks [] d = ret ([], Some d)"
| "write_blocks (b # bs) d =
     (if of_nat (length d) \<le> bl_size b then
        bindP (block_write b 0 d) (\<lambda>b. ret (b\<lparr>bl_empty := False\<rparr> # bs, None))
      else
        bindP (block_write b 0 (take (unat (bl_size b)) d)) (\<lambda>b.
        bindP (write_blocks bs (drop (unat (bl_size b)) d)) (\<lambda>(bs, r).
        ret (b\<lparr>bl_empty := False\<rparr> # bs, r))))"

text \<open>The part of \<open>Write\<close> after the starting block is known: block \<open>i\<close>, with the loop going on from block \<open>j\<close>.\<close>

definition write_from :: "(u64 \<Rightarrow> u8 list) \<Rightarrow> nat \<Rightarrow> nat \<Rightarrow> u64 \<Rightarrow> u8 list \<Rightarrow> Buffer \<Rightarrow> Buffer prog" where
  "write_from fresh i j off d b =
     (let blk = bf_blocks b ! i; room = bl_size blk - off in
      if room \<ge> of_nat (length d) then
        bindP (block_write blk off d) (\<lambda>blk.
        ret (b\<lparr>bf_blocks := (bf_blocks b)[i := blk\<lparr>bl_empty := False\<rparr>]\<rparr>))
      else
        bindP (block_write blk off (take (unat room) d)) (\<lambda>blk.
        let b = b\<lparr>bf_blocks := (bf_blocks b)[i := blk]\<rparr> in
        bindP (write_blocks (drop j (bf_blocks b)) (drop (unat room) d)) (\<lambda>(bs, r).
        let b = b\<lparr>bf_blocks := take j (bf_blocks b) @ bs\<rparr> in
        case r of
          None \<Rightarrow> ret b
        | Some d \<Rightarrow>
            bindP (AddBlock_aligned fresh (of_nat (length d)) b) (\<lambda>b.
            let k = length (bf_blocks b) - 1 in
            bindP (block_write ((bf_blocks b ! k)\<lparr>bl_empty := False\<rparr>) 0 d) (\<lambda>blk.
            ret (b\<lparr>bf_blocks := (bf_blocks b)[k := blk]\<rparr>))))))"

definition Buffer_Write :: "(u64 \<Rightarrow> u8 list) \<Rightarrow> u64 \<Rightarrow> u8 list \<Rightarrow> Buffer \<Rightarrow> Buffer prog" where
  "Buffer_Write fresh offset d b =
     (case find_block (bf_blocks b) offset 0 0 of
        Some (i, off) \<Rightarrow> write_from fresh i (i + 1) off d b
      | None \<Rightarrow>
          let i = length (bf_blocks b) in
          bindP (AddBlock_aligned fresh (of_nat (length d)) b) (\<lambda>b. write_from fresh i (i + 1 + 1) 0 d b))"

section \<open>Read\<close>

text \<open>The bytes copied; fewer than asked for when the blocks run out.\<close>

fun read_blocks :: "Block list \<Rightarrow> u64 \<Rightarrow> u8 list prog" where
  "read_blocks [] n = ret []"
| "read_blocks (b # bs) n =
     (if n \<le> bl_size b then block_read b 0 n
      else
        bindP (block_read b 0 (bl_size b)) (\<lambda>d.
        bindP (read_blocks bs (n - bl_size b)) (\<lambda>ds. ret (d @ ds))))"

definition Buffer_Read :: "Buffer \<Rightarrow> u64 \<Rightarrow> u64 \<Rightarrow> u8 list prog" where
  "Buffer_Read b offset n =
     (case find_block (bf_blocks b) offset 0 0 of
        None \<Rightarrow> ret []
      | Some (i, off) \<Rightarrow>
          let blk = bf_blocks b ! i; room = bl_size blk - off in
          if room \<ge> n then block_read blk off n
          else
            bindP (block_read blk off room) (\<lambda>d.
            bindP (read_blocks (drop (i + 1) (bf_blocks b)) (n - room)) (\<lambda>ds. ret (d @ ds))))"

section \<open>Clear\<close>

text \<open>\<open>AutoShrink\<close>: the empty blocks at the end go.\<close>

fun shrink_loop :: "nat \<Rightarrow> Buffer \<Rightarrow> Buffer" where
  "shrink_loop 0 b = b"
| "shrink_loop (Suc i) b =
     (let block = bf_blocks b ! i in
      if bl_empty block
      then shrink_loop i (b\<lparr>bf_blocks := take i (bf_blocks b) @ drop (i + 1) (bf_blocks b), bf_size := bf_size b - bl_size block\<rparr>)
      else b)"

definition AutoShrink :: "Buffer \<Rightarrow> Buffer" where
  "AutoShrink b = shrink_loop (length (bf_blocks b)) b"

definition zeros :: "u64 \<Rightarrow> u8 list" where
  "zeros n = replicate (unat n) 0"

text \<open>The loop over the blocks after the first; the flag says that \<open>AutoShrink\<close> is called.\<close>

fun clear_blocks :: "Block list \<Rightarrow> u64 \<Rightarrow> (Block list \<times> bool) prog" where
  "clear_blocks [] n = ret ([], False)"
| "clear_blocks (b # bs) n =
     (if n \<le> bl_size b then
        bindP (block_write b 0 (zeros n)) (\<lambda>b.
        if bl_size b = n then ret (b\<lparr>bl_empty := True\<rparr> # bs, True) else ret (b # bs, False))
      else
        bindP (block_write b 0 (zeros (bl_size b))) (\<lambda>b.
        bindP (clear_blocks bs (n - bl_size b)) (\<lambda>(bs, r). ret (b\<lparr>bl_empty := True\<rparr> # bs, r))))"

definition Buffer_Clear :: "u64 \<Rightarrow> u64 \<Rightarrow> Buffer \<Rightarrow> Buffer prog" where
  "Buffer_Clear offset n b =
     (case find_block (bf_blocks b) offset 0 0 of
        None \<Rightarrow> ret b
      | Some (i, off) \<Rightarrow>
          let blk = bf_blocks b ! i; room = bl_size blk - off in
          if room \<le> n then
            bindP (block_write blk off (zeros n)) (\<lambda>blk.
            if off = 0 then ret (AutoShrink (b\<lparr>bf_blocks := (bf_blocks b)[i := blk\<lparr>bl_empty := True\<rparr>]\<rparr>))
            else ret (b\<lparr>bf_blocks := (bf_blocks b)[i := blk]\<rparr>))
          else
            bindP (block_write blk off (zeros room)) (\<lambda>blk.
            let b = b\<lparr>bf_blocks := (bf_blocks b)[i := blk]\<rparr> in
            bindP (clear_blocks (drop (i + 1) (bf_blocks b)) (n - room)) (\<lambda>(bs, shrink).
            let b = b\<lparr>bf_blocks := take (i + 1) (bf_blocks b) @ bs\<rparr> in
            ret (if shrink then AutoShrink b else b))))"

text \<open>
  \<open>ClearUntil\<close> reads the size of the first block after \<open>DeleteBlock\<close> has freed it, so it does not come back from
  deleting one.
\<close>

definition ClearUntil :: "u64 \<Rightarrow> Buffer \<Rightarrow> (u64 \<times> Buffer) prog" where
  "ClearUntil offset b =
     (if bf_blocks b \<noteq> [] \<and> offset > 0 then
        let block = hd (bf_blocks b) in
        if offset \<ge> bl_size block
        then bindP (DeleteBlock 0 b) (\<lambda>b. stop (Undefined ''read of a deleted block''))
        else bindP (block_write block 0 (zeros offset)) (\<lambda>block.
          ret (0, b\<lparr>bf_blocks := block\<lparr>bl_empty := False\<rparr> # tl (bf_blocks b)\<rparr>))
      else ret (0, b))"

definition Buffer_GetSize :: "Buffer \<Rightarrow> u64" where
  "Buffer_GetSize b = bf_size b"

end
