(* ===== verification/BufferCorrect.thy ===== *)
theory BufferCorrect
  imports Buffer
begin

text \<open>
  The buffer against the flat sequence of bytes in its blocks. Reads return the bytes at the offset, a write that starts
  inside the buffer replaces them and extends the buffer when it has to, and both agree. A write past the end is appended
  at the end whatever its offset is. \<open>Clear\<close> tests its condition the wrong way round.
\<close>

section \<open>Contents and invariant\<close>

definition block_ok :: "Block \<Rightarrow> bool" where
  "block_ok b \<longleftrightarrow> length (bl_data b) = unat (bl_size b)"

definition block_bytes :: "Block list \<Rightarrow> u8 list" where
  "block_bytes bs = concat (map bl_data bs)"

definition contents :: "Buffer \<Rightarrow> u8 list" where
  "contents b = block_bytes (bf_blocks b)"

definition buffer_ok :: "Buffer \<Rightarrow> bool" where
  "buffer_ok b \<longleftrightarrow> list_all block_ok (bf_blocks b) \<and> bf_blockSize b \<noteq> 0 \<and> length (contents b) = unat (bf_size b)"

definition heap_bytes :: "(u64 \<Rightarrow> u8 list) \<Rightarrow> bool" where
  "heap_bytes fresh \<longleftrightarrow> (\<forall>n. length (fresh n) = unat n)"

lemma block_bytes_simps [simp]:
  "block_bytes [] = []" "block_bytes (b # bs) = bl_data b @ block_bytes bs" "block_bytes (bs @ cs) = block_bytes bs @ block_bytes cs"
  by (simp_all add: block_bytes_def)

lemma block_okD [simp]: "block_ok b \<Longrightarrow> length (bl_data b) = unat (bl_size b)"
  by (simp add: block_ok_def)

lemma block_ok_update [simp]: "block_ok (b\<lparr>bl_empty := e\<rparr>) = block_ok b"
  by (simp add: block_ok_def)

lemma block_write_ok:
  assumes "block_ok b" "unat off + length d \<le> unat (bl_size b)"
  obtains b' where "block_write b off d = ret b'" "block_ok b'" "bl_size b' = bl_size b"
    "bl_data b' = take (unat off) (bl_data b) @ d @ drop (unat off + length d) (bl_data b)"
  using assms by (intro that [of "b\<lparr>bl_data := take (unat off) (bl_data b) @ d @ drop (unat off + length d) (bl_data b)\<rparr>"])
    (auto simp: block_write_def block_ok_def)

section \<open>Finding a block\<close>

lemma find_block_in:
  assumes "list_all block_ok bs" "unat starting + length (block_bytes bs) < 2 ^ 64" "unat starting \<le> unat off"
    "unat off < unat starting + length (block_bytes bs)"
  obtains k w where "find_block bs off starting i = Some (i + k, w)" "k < length bs"
    "unat off = unat starting + length (block_bytes (take k bs)) + unat w" "unat w < unat (bl_size (bs ! k))"
  using assms
proof (induction bs arbitrary: starting i thesis)
  case (Cons b bs)
  have u: "unat (starting + bl_size b) = unat starting + unat (bl_size b)" using Cons.prems(2,3) by (subst unat_add64) simp_all
  show ?case
  proof (cases "unat off < unat starting + unat (bl_size b)")
    case True
    then have "find_block (b # bs) off starting i = Some (i + 0, off - starting)"
      using Cons.prems(4) u by (simp add: word_le_nat_alt word_less_nat_alt)
    moreover have "unat (off - starting) = unat off - unat starting" using Cons.prems(4) by (simp add: unat_sub word_le_nat_alt)
    ultimately show ?thesis using True Cons.prems(4) by (intro Cons.prems(1) [of 0 "off - starting"]) simp_all
  next
    case False
    then have f: "find_block (b # bs) off starting i = find_block bs off (starting + bl_size b) (i + 1)"
      using u by (simp add: word_le_nat_alt word_less_nat_alt)
    obtain k w where k: "find_block bs off (starting + bl_size b) (i + 1) = Some (i + 1 + k, w)" "k < length bs"
      "unat off = unat (starting + bl_size b) + length (block_bytes (take k bs)) + unat w" "unat w < unat (bl_size (bs ! k))"
      by (rule Cons.IH [of "starting + bl_size b" "i + 1"]) (use Cons.prems u False in auto)
    show ?thesis by (rule Cons.prems(1) [of "Suc k" w]) (use f k u Cons.prems(2) in auto)
  qed
qed simp

lemma find_block_out:
  assumes "list_all block_ok bs" "unat starting + length (block_bytes bs) < 2 ^ 64" "unat starting + length (block_bytes bs) \<le> unat off"
  shows "find_block bs off starting i = None"
  using assms
proof (induction bs arbitrary: starting i)
  case (Cons b bs)
  have u: "unat (starting + bl_size b) = unat starting + unat (bl_size b)" using Cons.prems(1,2) by (subst unat_add64) simp_all
  have "find_block bs off (starting + bl_size b) (i + 1) = None" by (rule Cons.IH) (use Cons.prems u in auto)
  moreover have "\<not> off < starting + bl_size b" using u Cons.prems by (simp add: word_less_nat_alt)
  ultimately show ?case by simp
qed simp

text \<open>The block an offset falls in, with the bytes before and after that block.\<close>

lemma block_bytes_split:
  assumes "k < length bs"
  shows "block_bytes bs = block_bytes (take k bs) @ bl_data (bs ! k) @ block_bytes (drop (Suc k) bs)"
  by (metis append_assoc append_take_drop_id assms block_bytes_simps(2,3) id_take_nth_drop append_Cons)

lemma block_bytes_length:
  assumes "k < length bs"
  shows "length (block_bytes bs) = length (block_bytes (take k bs)) + length (bl_data (bs ! k)) + length (block_bytes (drop (Suc k) bs))"
  by (subst block_bytes_split [OF assms]) simp

lemma split_at_block:
  assumes "list_all block_ok bs" "k < length bs" "x = length (block_bytes (take k bs)) + w" "w \<le> unat (bl_size (bs ! k))"
  shows "take x (block_bytes bs) = block_bytes (take k bs) @ take w (bl_data (bs ! k))"
    and "drop x (block_bytes bs) = drop w (bl_data (bs ! k)) @ block_bytes (drop (Suc k) bs)"
proof -
  have "block_ok (bs ! k)" using assms by (simp add: list_all_length)
  then have "w \<le> length (bl_data (bs ! k))" using assms by simp
  moreover note block_bytes_split [OF assms(2)]
  ultimately show "take x (block_bytes bs) = block_bytes (take k bs) @ take w (bl_data (bs ! k))"
    "drop x (block_bytes bs) = drop w (bl_data (bs ! k)) @ block_bytes (drop (Suc k) bs)"
    using assms(3) by simp_all
qed

section \<open>Read\<close>

lemma read_blocks_ok:
  assumes "list_all block_ok bs"
  shows "read_blocks bs n = ret (take (unat n) (block_bytes bs))"
  using assms
proof (induction bs arbitrary: n)
  case (Cons b bs)
  show ?case
  proof (cases "n \<le> bl_size b")
    case True
    then show ?thesis using Cons.prems by (simp add: block_read_def word_le_nat_alt)
  next
    case False
    then have "unat (n - bl_size b) = unat n - unat (bl_size b)" by (simp add: unat_sub)
    then show ?thesis using False Cons by (simp add: block_read_def word_le_nat_alt)
  qed
qed simp

lemma Read_ok:
  assumes "buffer_ok b"
  shows "Buffer_Read b off n = ret (take (unat n) (drop (unat off) (contents b)))"
proof (cases "unat off < length (contents b)")
  case True
  have ok: "list_all block_ok (bf_blocks b)" and len: "length (block_bytes (bf_blocks b)) < 2 ^ 64"
    using assms unat_less_2p64 [of "bf_size b"] by (simp_all add: buffer_ok_def contents_def)
  obtain k w where k: "find_block (bf_blocks b) off 0 0 = Some (k, w)" "k < length (bf_blocks b)"
    "unat off = length (block_bytes (take k (bf_blocks b))) + unat w" "unat w < unat (bl_size (bf_blocks b ! k))"
    by (rule find_block_in [OF ok, of 0 off 0]) (use len True in \<open>auto simp: contents_def\<close>)
  have bk: "block_ok (bf_blocks b ! k)" using ok k(2) by (simp add: list_all_length)
  have room: "unat (bl_size (bf_blocks b ! k) - w) = unat (bl_size (bf_blocks b ! k)) - unat w"
    using k(4) by (simp add: unat_sub word_le_nat_alt)
  have rest: "list_all block_ok (drop (k + 1) (bf_blocks b))" using ok by (metis append_take_drop_id list_all_append)
  have d: "drop (unat off) (contents b) = drop (unat w) (bl_data (bf_blocks b ! k)) @ block_bytes (drop (Suc k) (bf_blocks b))"
    unfolding contents_def by (rule split_at_block(2) [OF ok k(2,3)]) (use k(4) in simp)
  show ?thesis
  proof (cases "n \<le> bl_size (bf_blocks b ! k) - w")
    case True
    then show ?thesis unfolding d using k(1,2,4) bk room by (simp add: Buffer_Read_def Let_def block_read_def word_le_nat_alt)
  next
    case False
    then have "unat (n - (bl_size (bf_blocks b ! k) - w)) = unat n - (unat (bl_size (bf_blocks b ! k)) - unat w)"
      using room by (simp add: unat_sub)
    then show ?thesis
      unfolding d using False k(1,2,4) bk room read_blocks_ok [OF rest] by (simp add: Buffer_Read_def Let_def block_read_def word_le_nat_alt)
  qed
next
  case False
  then have "find_block (bf_blocks b) off 0 0 = None"
    using assms unat_less_2p64 [of "bf_size b"] by (intro find_block_out) (simp_all add: buffer_ok_def contents_def)
  then show ?thesis using False by (simp add: Buffer_Read_def)
qed

section \<open>Write\<close>

text \<open>Putting one block back, with the bytes around it.\<close>

lemma block_bytes_update:
  assumes "k < length bs"
  shows "block_bytes (bs[k := blk]) = block_bytes (take k bs) @ bl_data blk @ block_bytes (drop (Suc k) bs)"
  by (simp add: upd_conv_take_nth_drop [OF assms])

lemma list_all_update: "list_all P xs \<Longrightarrow> P x \<Longrightarrow> list_all P (xs[k := x])"
  by (induction xs arbitrary: k) (auto split: nat.splits)

lemma list_all_drop: "list_all P xs \<Longrightarrow> list_all P (drop n xs)" "list_all P xs \<Longrightarrow> list_all P (take n xs)"
  by (metis append_take_drop_id list_all_append)+

lemma write_blocks_ok:
  assumes "list_all block_ok bs" "length d < 2 ^ 64" "d \<noteq> []"
  obtains bs' where
    "write_blocks bs d = ret (bs', if length d \<le> length (block_bytes bs) then None else Some (drop (length (block_bytes bs)) d))"
    "list_all block_ok bs'" "block_bytes bs' = take (length (block_bytes bs)) d @ drop (length d) (block_bytes bs)"
  using assms
proof (induction bs arbitrary: d thesis)
  case (Cons b bs)
  have b: "block_ok b" and bs: "list_all block_ok bs" using Cons.prems by simp_all
  have ud: "unat (of_nat (length d) :: u64) = length d" using Cons.prems(3) by (simp add: unat_of_nat64)
  show ?case
  proof (cases "length d \<le> unat (bl_size b)")
    case True
    obtain b' where b': "block_write b 0 d = ret b'" "block_ok b'" "bl_data b' = d @ drop (length d) (bl_data b)"
      using block_write_ok [OF b, of 0 d] True by auto
    show ?thesis
      by (rule Cons.prems(1) [of "b'\<lparr>bl_empty := False\<rparr> # bs"]) (use True b b' bs ud in \<open>simp_all add: word_le_nat_alt\<close>)
  next
    case False
    let ?d = "take (unat (bl_size b)) d"
    obtain b' where b': "block_write b 0 ?d = ret b'" "block_ok b'" "bl_size b' = bl_size b" "bl_data b' = ?d"
      using block_write_ok [OF b, of 0 ?d] False b by auto
    obtain bs' where bs': "write_blocks bs (drop (unat (bl_size b)) d) = ret (bs', if length (drop (unat (bl_size b)) d) \<le> length (block_bytes bs)
          then None else Some (drop (length (block_bytes bs)) (drop (unat (bl_size b)) d)))"
      "list_all block_ok bs'"
      "block_bytes bs' = take (length (block_bytes bs)) (drop (unat (bl_size b)) d) @ drop (length (drop (unat (bl_size b)) d)) (block_bytes bs)"
      by (rule Cons.IH [of "drop (unat (bl_size b)) d"]) (use bs Cons.prems(3) False in auto)
    show ?thesis
      by (rule Cons.prems(1) [of "b'\<lparr>bl_empty := False\<rparr> # bs'"])
        (use False b b' bs' ud in \<open>auto simp: word_le_nat_alt take_add add.commute [of "length (block_bytes bs)" "unat (bl_size b)"]\<close>)
  qed
qed simp

text \<open>The new block at the end of the buffer, with the bytes \<open>d\<close> in it.\<close>

lemma add_block:
  assumes ok: "buffer_ok b" and fresh: "heap_bytes fresh" and lim: "length (contents b) + length d + unat (bf_blockSize b) < 2 ^ 64"
  obtains b1 sz where "AddBlock_aligned fresh (of_nat (length d)) b = ret b1"
    "bf_blocks b1 = bf_blocks b @ [\<lparr>bl_data = fresh sz, bl_size = sz, bl_empty = True\<rparr>]" "buffer_ok b1"
    "length d \<le> unat sz" "bf_blockSize b1 = bf_blockSize b" "unat (bf_size b1) = length (contents b) + unat sz"
proof -
  let ?n = "of_nat (length d) :: u64" let ?sz = "ALIGN_UP ?n (bf_blockSize b)"
  have un: "unat ?n = length d" using lim by (intro unat_of_nat64) simp
  have bs: "0 < unat (bf_blockSize b)" using ok by (simp add: buffer_ok_def unat_gt_0)
  have lim': "unat ?n + (unat (bf_blockSize b) - 1) < 2 ^ 64" using un lim by simp
  note al = ALIGN_UP_bounds [OF bs lim']
  have "unat (bf_size b + ?sz) = unat (bf_size b) + unat ?sz"
    using al(3) un lim ok by (subst unat_add64) (simp_all add: buffer_ok_def)
  then show thesis
    using that [of "AddBlock fresh ?sz b" ?sz] ok fresh al(2) un
    by (simp add: AddBlock_aligned_def AddBlock_def buffer_ok_def contents_def block_ok_def heap_bytes_def)
qed

lemma write_in_block:
  assumes ok: "buffer_ok b" and k: "k < length (bf_blocks b)" "unat w + length d \<le> unat (bl_size (bf_blocks b ! k))"
    and off: "x = length (block_bytes (take k (bf_blocks b))) + unat w"
  obtains b' where "write_from fresh k j w d b = ret b'" "buffer_ok b'" "bf_blockSize b' = bf_blockSize b"
    "contents b' = take x (contents b) @ d @ drop (x + length d) (contents b)"
proof -
  let ?blk = "bf_blocks b ! k"
  have oks: "list_all block_ok (bf_blocks b)" and bk: "block_ok ?blk" using ok k by (simp_all add: buffer_ok_def list_all_length)
  obtain b' where b': "block_write ?blk w d = ret b'" "block_ok b'" "bl_size b' = bl_size ?blk"
    "bl_data b' = take (unat w) (bl_data ?blk) @ d @ drop (unat w + length d) (bl_data ?blk)"
    using block_write_ok [OF bk k(2)] by blast
  have room: "unat (bl_size ?blk - w) = unat (bl_size ?blk) - unat w" using k(2) by (simp add: unat_sub word_le_nat_alt)
  have ud: "unat (of_nat (length d) :: u64) = length d"
    by (rule unat_of_nat64, rule le_less_trans [of _ "unat (bl_size ?blk)"]) (use k(2) in simp_all)
  have le: "of_nat (length d) \<le> bl_size ?blk - w" unfolding word_le_nat_alt room ud using k(2) by linarith
  let ?b = "b\<lparr>bf_blocks := (bf_blocks b)[k := b'\<lparr>bl_empty := False\<rparr>]\<rparr>"
  have run: "write_from fresh k j w d b = ret ?b"
    using b'(1) le by (simp add: write_from_def Let_def)
  have c: "contents ?b = take x (contents b) @ d @ drop (x + length d) (contents b)"
    using split_at_block(1) [OF oks k(1) off] split_at_block(2) [OF oks k(1), of "x + length d" "unat w + length d"] k(2) off b'(4)
    by (simp add: contents_def block_bytes_update [OF k(1)])
  have "length (contents ?b) = length (contents b)"
    using b'(2,3) bk block_bytes_length [OF k(1)]
    by (simp add: contents_def block_bytes_update [OF k(1)])
  then have "buffer_ok ?b" using ok b'(2) list_all_update [OF oks, of "b'\<lparr>bl_empty := False\<rparr>" k] by (simp add: buffer_ok_def)
  then show thesis using that [of ?b] run c by simp
qed

lemma write_spill:
  assumes ok: "buffer_ok b" and k: "k < length (bf_blocks b)" "unat w \<le> unat (bl_size (bf_blocks b ! k))"
    "unat (bl_size (bf_blocks b ! k)) - unat w < length d"
    and off: "x = length (block_bytes (take k (bf_blocks b))) + unat w"
    and fresh: "heap_bytes fresh" and lim: "length (contents b) + length d + unat (bf_blockSize b) < 2 ^ 64"
  obtains b' tail where "write_from fresh k (k + 1) w d b = ret b'" "buffer_ok b'" "bf_blockSize b' = bf_blockSize b"
    "contents b' = take x (contents b) @ d @ tail" "x + length d \<le> length (contents b) \<Longrightarrow> tail = drop (x + length d) (contents b)"
proof -
  let ?blk = "bf_blocks b ! k" let ?n = "unat (bl_size ?blk) - unat w" let ?rest = "drop (Suc k) (bf_blocks b)"
  have oks: "list_all block_ok (bf_blocks b)" and bk: "block_ok ?blk" using ok k by (simp_all add: buffer_ok_def list_all_length)
  have room: "unat (bl_size ?blk - w) = ?n" using k(2) by (simp add: unat_sub word_le_nat_alt)
  have ud: "unat (of_nat (length d) :: u64) = length d" by (rule unat_of_nat64) (use lim in simp)
  obtain blk where blk: "block_write ?blk w (take ?n d) = ret blk" "block_ok blk" "bl_size blk = bl_size ?blk"
    "bl_data blk = take (unat w) (bl_data ?blk) @ take ?n d"
    using block_write_ok [OF bk, of w "take ?n d"] k bk by auto
  obtain bs where bs: "write_blocks ?rest (drop ?n d) = ret (bs, if length (drop ?n d) \<le> length (block_bytes ?rest) then None
      else Some (drop (length (block_bytes ?rest)) (drop ?n d)))" "list_all block_ok bs"
    "block_bytes bs = take (length (block_bytes ?rest)) (drop ?n d) @ drop (length (drop ?n d)) (block_bytes ?rest)"
    by (rule write_blocks_ok [OF list_all_drop(1) [OF oks], of "drop ?n d"]) (use lim k(3) in auto)
  let ?b = "b\<lparr>bf_blocks := take k (bf_blocks b) @ blk # bs\<rparr>"
  have t: "take (Suc k) ((bf_blocks b)[k := blk]) = take k (bf_blocks b) @ [blk]"
    using k(1) by (simp add: take_Suc_conv_app_nth)
  have nle: "\<not> of_nat (length d) \<le> bl_size ?blk - w" unfolding word_le_nat_alt room ud using k(3) by linarith
  have run: "write_from fresh k (k + 1) w d b = (if length (drop ?n d) \<le> length (block_bytes ?rest) then ret ?b
      else bindP (AddBlock_aligned fresh (of_nat (length (drop (length (block_bytes ?rest)) (drop ?n d)))) ?b) (\<lambda>b.
        bindP (block_write ((bf_blocks b ! (length (bf_blocks b) - 1))\<lparr>bl_empty := False\<rparr>) 0 (drop (length (block_bytes ?rest)) (drop ?n d)))
          (\<lambda>blk. ret (b\<lparr>bf_blocks := (bf_blocks b)[length (bf_blocks b) - 1 := blk]\<rparr>))))"
    using nle room blk(1) bs(1) t by (simp add: write_from_def Let_def drop_update_cancel)
  have pre: "take x (contents b) = block_bytes (take k (bf_blocks b)) @ take (unat w) (bl_data ?blk)"
    unfolding contents_def by (rule split_at_block(1) [OF oks k(1) off k(2)])
  have cb: "contents ?b = take x (contents b) @ take (?n + length (block_bytes ?rest)) d @ drop (length d - ?n) (block_bytes ?rest)"
    by (simp add: contents_def blk(4) bs(3) pre [unfolded contents_def] take_add)
  have len: "length (contents b) = x + ?n + length (block_bytes ?rest)"
    using block_bytes_length [OF k(1)] bk off k(2) by (simp add: contents_def)
  have ok': "buffer_ok ?b"
    using ok blk(2) bs(2) list_all_drop(2) [OF oks, of k] cb len k(3) by (auto simp: buffer_ok_def)
  show thesis
  proof (cases "length (drop ?n d) \<le> length (block_bytes ?rest)")
    case True
    have "drop (x + length d) (contents b) = drop (length d - ?n) (block_bytes ?rest)"
      using split_at_block(2) [OF oks k(1) off k(2)] True bk k(2,3) drop_drop [of "length d" x "contents b"]
      by (simp add: contents_def add.commute)
    then show thesis using that [of ?b "drop (length d - ?n) (block_bytes ?rest)"] run True ok' cb k(3) by simp
  next
    case False
    let ?m = "?n + length (block_bytes ?rest)"
    have c0: "contents ?b = take x (contents b) @ take ?m d" using cb False by simp
    have lx: "length (take x (contents b)) = x" using len by simp
    obtain b1 sz where b1: "AddBlock_aligned fresh (of_nat (length (drop ?m d))) ?b = ret b1"
      "bf_blocks b1 = bf_blocks ?b @ [\<lparr>bl_data = fresh sz, bl_size = sz, bl_empty = True\<rparr>]" "buffer_ok b1"
      "length (drop ?m d) \<le> unat sz" "bf_blockSize b1 = bf_blockSize b"
      by (rule add_block [OF ok' fresh, of "drop ?m d"]) (use c0 lx lim False len in auto)
    let ?new = "\<lparr>bl_data = fresh sz, bl_size = sz, bl_empty = False\<rparr>"
    have "block_ok ?new" using fresh by (simp add: block_ok_def heap_bytes_def)
    then obtain blk' where blk': "block_write ?new 0 (drop ?m d) = ret blk'" "block_ok blk'" "bl_size blk' = sz"
      "bl_data blk' = drop ?m d @ drop (length (drop ?m d)) (fresh sz)"
      using block_write_ok [of ?new 0 "drop ?m d"] b1(4) by auto
    let ?b' = "b1\<lparr>bf_blocks := bf_blocks ?b @ [blk']\<rparr>"
    have dm: "drop (length (block_bytes ?rest)) (drop ?n d) = drop ?m d" by (simp add: add.commute)
    have new: "bf_blocks b1 ! (length (bf_blocks b1) - 1) = ?new\<lparr>bl_empty := True\<rparr>"
      "(bf_blocks b1)[length (bf_blocks b1) - 1 := blk'] = bf_blocks ?b @ [blk']"
      by (simp_all only: b1(2) length_append_singleton diff_Suc_1 nth_append_length list_update_length) simp
    have r: "write_from fresh k (k + 1) w d b = ret ?b'"
      unfolding run if_not_P [OF False] dm b1(1) bindP_ret new(1) using blk'(1) new(2) by simp
    have c: "contents ?b' = take x (contents b) @ d @ drop (length (drop ?m d)) (fresh sz)"
    proof -
      have "contents ?b' = contents ?b @ bl_data blk'" by (simp add: contents_def)
      then show ?thesis unfolding c0 blk'(4) by simp
    qed
    moreover have "buffer_ok ?b'"
      using b1(2,3) blk'(2,3) fresh block_okD [OF blk(2)] by (simp add: buffer_ok_def contents_def heap_bytes_def)
    ultimately show thesis using that [of ?b' "drop (length (drop ?m d)) (fresh sz)"] r b1(5) False len by simp
  qed
qed

lemma Write_inside:
  assumes ok: "buffer_ok b" and off: "unat off < length (contents b)" and fresh: "heap_bytes fresh"
    and lim: "length (contents b) + length d + unat (bf_blockSize b) < 2 ^ 64"
  obtains b' tail where "Buffer_Write fresh off d b = ret b'" "buffer_ok b'" "contents b' = take (unat off) (contents b) @ d @ tail"
    "unat off + length d \<le> length (contents b) \<Longrightarrow> tail = drop (unat off + length d) (contents b)"
proof -
  have oks: "list_all block_ok (bf_blocks b)" using ok by (simp add: buffer_ok_def)
  obtain k w where k: "find_block (bf_blocks b) off 0 0 = Some (k, w)" "k < length (bf_blocks b)"
    "unat off = length (block_bytes (take k (bf_blocks b))) + unat w" "unat w < unat (bl_size (bf_blocks b ! k))"
    by (rule find_block_in [OF oks, of 0 off 0]) (use lim off in \<open>auto simp: contents_def\<close>)
  have run: "Buffer_Write fresh off d b = write_from fresh k (k + 1) w d b" using k(1) by (simp add: Buffer_Write_def)
  show thesis
  proof (cases "unat w + length d \<le> unat (bl_size (bf_blocks b ! k))")
    case True
    obtain b' where "write_from fresh k (k + 1) w d b = ret b'" "buffer_ok b'"
      "contents b' = take (unat off) (contents b) @ d @ drop (unat off + length d) (contents b)"
      using write_in_block [OF ok k(2) True k(3), of fresh "k + 1"] by metis
    then show thesis using that run by metis
  next
    case False
    then have "unat w \<le> unat (bl_size (bf_blocks b ! k))" "unat (bl_size (bf_blocks b ! k)) - unat w < length d" using k(4) by linarith+
    from write_spill [OF ok k(2) this k(3) fresh lim] show thesis using that run by metis
  qed
qed

lemma Write_end:
  assumes ok: "buffer_ok b" and off: "length (contents b) \<le> unat off" and fresh: "heap_bytes fresh"
    and lim: "length (contents b) + length d + unat (bf_blockSize b) < 2 ^ 64"
  obtains b' tail where "Buffer_Write fresh off d b = ret b'" "buffer_ok b'" "contents b' = contents b @ d @ tail"
proof -
  have none: "find_block (bf_blocks b) off 0 0 = None"
    using ok lim off by (intro find_block_out) (simp_all add: buffer_ok_def contents_def)
  obtain b1 sz where b1: "AddBlock_aligned fresh (of_nat (length d)) b = ret b1"
    "bf_blocks b1 = bf_blocks b @ [\<lparr>bl_data = fresh sz, bl_size = sz, bl_empty = True\<rparr>]" "buffer_ok b1" "length d \<le> unat sz"
    using add_block [OF ok fresh lim] by blast
  let ?k = "length (bf_blocks b)"
  have run: "Buffer_Write fresh off d b = write_from fresh ?k (?k + 1 + 1) 0 d b1" using none b1(1) by (simp add: Buffer_Write_def Let_def)
  obtain b' where b': "write_from fresh ?k (?k + 1 + 1) 0 d b1 = ret b'" "buffer_ok b'"
    "contents b' = take (length (contents b)) (contents b1) @ d @ drop (length (contents b) + length d) (contents b1)"
    by (rule write_in_block [OF b1(3), of ?k 0 d "length (contents b)" fresh "?k + 1 + 1"]) (use b1(2,4) in \<open>simp_all add: contents_def\<close>)
  moreover have "take (length (contents b)) (contents b1) = contents b" by (simp add: contents_def b1(2))
  ultimately show thesis using that run by metis
qed

section \<open>Clear\<close>

lemma clear_blocks_all:
  assumes "list_all block_ok bs" "length (block_bytes bs) < unat n"
  shows "\<exists>bs'. clear_blocks bs n = ret (bs', False) \<and> block_bytes bs' = replicate (length (block_bytes bs)) 0"
  using assms
proof (induction bs arbitrary: n)
  case (Cons b bs)
  have b: "block_ok b" "\<not> n \<le> bl_size b" using Cons.prems by (auto simp: word_le_nat_alt)
  have u: "unat (n - bl_size b) = unat n - unat (bl_size b)" using b(2) by (simp add: unat_sub)
  obtain b' where b': "block_write b 0 (zeros (bl_size b)) = ret b'" "bl_size b' = bl_size b" "bl_data b' = replicate (unat (bl_size b)) 0"
    using block_write_ok [OF b(1), of 0 "zeros (bl_size b)"] b(1) by (auto simp: zeros_def)
  obtain bs' where "clear_blocks bs (n - bl_size b) = ret (bs', False)" "block_bytes bs' = replicate (length (block_bytes bs)) 0"
  proof -
    have "length (block_bytes bs) < unat (n - bl_size b)" using Cons.prems b(1) unfolding u by simp
    then show thesis using Cons.IH Cons.prems(1) that by auto
  qed
  then show ?case using b b' by (simp add: replicate_add)
qed simp

lemma Clear_short:
  assumes ok: "buffer_ok b" and k: "find_block (bf_blocks b) off 0 0 = Some (k, w)" "k < length (bf_blocks b)"
    "unat off = length (block_bytes (take k (bf_blocks b))) + unat w" "unat w < unat (bl_size (bf_blocks b ! k))"
    and n: "n < bl_size (bf_blocks b ! k) - w"
  shows "\<exists>b'. Buffer_Clear off n b = ret b' \<and> contents b' = take (unat off) (contents b) @ replicate (length (contents b) - unat off) 0"
proof -
  let ?blk = "bf_blocks b ! k" let ?room = "bl_size ?blk - w" let ?rest = "drop (Suc k) (bf_blocks b)"
  have oks: "list_all block_ok (bf_blocks b)" and bk: "block_ok ?blk" using ok k(2) by (simp_all add: buffer_ok_def list_all_length)
  have room: "unat ?room = unat (bl_size ?blk) - unat w" using k(4) by (simp add: unat_sub word_le_nat_alt)
  obtain blk where blk: "block_write ?blk w (zeros ?room) = ret blk"
    "bl_data blk = take (unat w) (bl_data ?blk) @ replicate (unat ?room) 0"
    using block_write_ok [OF bk, of w "zeros ?room"] bk room k(4) by (auto simp: zeros_def)
  have len: "length (contents b) = unat off + unat ?room + length (block_bytes ?rest)"
    using block_bytes_length [OF k(2)] bk k(3,4) room by (simp add: contents_def)
  then have "unat off + unat ?room + length (block_bytes ?rest) < 2 ^ 64" using ok unat_less_2p64 [of "bf_size b"] by (simp add: buffer_ok_def)
  moreover have "unat (n - ?room) = 2 ^ 64 + unat n - unat ?room"
    using n by (simp add: unat_sub_if' word_less_nat_alt)
  ultimately have "length (block_bytes ?rest) < unat (n - ?room)" using n by linarith
  then obtain bs where bs: "clear_blocks ?rest (n - ?room) = ret (bs, False)" "block_bytes bs = replicate (length (block_bytes ?rest)) 0"
    using clear_blocks_all [OF list_all_drop(1) [OF oks]] by blast
  have nle: "\<not> ?room \<le> n" using n by (simp only: not_le)
  have "Buffer_Clear off n b = ret (b\<lparr>bf_blocks := take k (bf_blocks b) @ blk # bs\<rparr>)"
    using k(1,2) blk(1) bs(1) nle by (simp add: Buffer_Clear_def Let_def drop_update_cancel take_Suc_conv_app_nth)
  moreover have "take (unat off) (contents b) = block_bytes (take k (bf_blocks b)) @ take (unat w) (bl_data ?blk)"
    unfolding contents_def by (rule split_at_block(1) [OF oks k(2,3)]) (use k(4) in simp)
  ultimately show ?thesis using blk(2) bs(2) len by (simp add: contents_def replicate_add)
qed

section \<open>Properties\<close>

text \<open>C17. A write that starts inside the buffer returns, and a read of the same range gives the bytes written. The bytes before
  the range are kept; when the range lies inside the buffer, so are the bytes after it and the size.\<close>

theorem Buffer_Write_Read:
  assumes "buffer_ok b" and "heap_bytes fresh" and "unat off < length (contents b)"
    and "length (contents b) + length d + unat (bf_blockSize b) < 2 ^ 64"
  shows "\<exists>b'. Buffer_Write fresh off d b = ret b' \<and> buffer_ok b' \<and> Buffer_Read b' off (of_nat (length d)) = ret d \<and>
    take (unat off) (contents b') = take (unat off) (contents b) \<and>
    (unat off + length d \<le> length (contents b) \<longrightarrow>
      drop (unat off + length d) (contents b') = drop (unat off + length d) (contents b) \<and> bf_size b' = bf_size b)"
proof -
  obtain b' tail where b': "Buffer_Write fresh off d b = ret b'" "buffer_ok b'" "contents b' = take (unat off) (contents b) @ d @ tail"
    "unat off + length d \<le> length (contents b) \<Longrightarrow> tail = drop (unat off + length d) (contents b)"
    using Write_inside [OF assms(1,3,2,4)] by blast
  have "unat (of_nat (length d) :: u64) = length d" by (rule unat_of_nat64) (use assms(4) in simp)
  then have "Buffer_Read b' off (of_nat (length d)) = ret d" using Read_ok [OF b'(2)] b'(3) assms(3) by simp
  moreover have "bf_size b' = bf_size b" if "unat off + length d \<le> length (contents b)"
  proof -
    have "length (contents b') = length (contents b)" using b'(3) b'(4) [OF that] that by simp
    then show ?thesis using b'(2) assms(1) by (simp add: buffer_ok_def word_unat_eq_iff)
  qed
  ultimately show ?thesis using b' assms(3) by auto
qed

definition small_buffer :: Buffer where
  "small_buffer = \<lparr>bf_size = 4, bf_blockSize = 2, bf_blocks =
     [\<lparr>bl_data = [1, 2], bl_size = 2, bl_empty = False\<rparr>, \<lparr>bl_data = [3, 4], bl_size = 2, bl_empty = False\<rparr>]\<rparr>"

definition zero_heap :: "u64 \<Rightarrow> u8 list" where
  "zero_heap n = replicate (unat n) 0"

lemma small_buffer_ok: "buffer_ok small_buffer" "contents small_buffer = [1, 2, 3, 4]" "heap_bytes zero_heap"
  by (simp_all add: small_buffer_def buffer_ok_def contents_def block_ok_def heap_bytes_def zero_heap_def)

theorem Buffer_Write_Read_witness:
  "\<exists>b'. Buffer_Write zero_heap 1 [7, 8] small_buffer = ret b' \<and> Buffer_Read b' 1 2 = ret [7, 8] \<and> take 1 (contents b') = [1]"
  using Buffer_Write_Read [OF small_buffer_ok(1,3), of 1 "[7, 8]"] small_buffer_ok(2) by (auto simp: small_buffer_def)

text \<open>A read returns the bytes of the range that are in the buffer, whatever the offset and the length.\<close>

lemma Buffer_Read_contents:
  assumes "buffer_ok b"
  shows "Buffer_Read b off n = ret (take (unat n) (drop (unat off) (contents b)))"
  by (rule Read_ok [OF assms])

text \<open>A write at or after the end is appended right at the end: the offset is not used, and nothing fills the gap.\<close>

lemma Buffer_Write_past_end:
  assumes "buffer_ok b" and "heap_bytes fresh" and "length (contents b) \<le> unat off"
    and "length (contents b) + length d + unat (bf_blockSize b) < 2 ^ 64"
  shows "\<exists>b'. Buffer_Write fresh off d b = ret b' \<and> buffer_ok b' \<and>
    Buffer_Read b' (of_nat (length (contents b))) (of_nat (length d)) = ret d"
proof -
  obtain b' tail where b': "Buffer_Write fresh off d b = ret b'" "buffer_ok b'" "contents b' = contents b @ d @ tail"
    using Write_end [OF assms(1,3,2,4)] by blast
  have "unat (of_nat (length d) :: u64) = length d" "unat (of_nat (length (contents b)) :: u64) = length (contents b)"
    by (rule unat_of_nat64, use assms(4) in simp)+
  then show ?thesis using Read_ok [OF b'(2)] b' by simp
qed

text \<open>\<open>Clear\<close> compares the wrong way round. Clearing fewer bytes than the block has after the offset zeroes everything from
  the offset to the end of the buffer; clearing more writes past the end of the block.\<close>

lemma Buffer_Clear_wrong:
  assumes "buffer_ok b" and "unat off < length (contents b)" and "find_block (bf_blocks b) off 0 0 = Some (k, w)"
  shows "(n < bl_size (bf_blocks b ! k) - w \<longrightarrow> (\<exists>b'. Buffer_Clear off n b = ret b' \<and>
      contents b' = take (unat off) (contents b) @ replicate (length (contents b) - unat off) 0)) \<and>
    (n > bl_size (bf_blocks b ! k) - w \<longrightarrow> Buffer_Clear off n b = stop (Undefined ''write past the end of a block''))"
proof -
  have oks: "list_all block_ok (bf_blocks b)" and len: "length (block_bytes (bf_blocks b)) < 2 ^ 64"
    using assms(1) unat_less_2p64 [of "bf_size b"] by (simp_all add: buffer_ok_def contents_def)
  have k: "k < length (bf_blocks b)" "unat off = length (block_bytes (take k (bf_blocks b))) + unat w" "unat w < unat (bl_size (bf_blocks b ! k))"
    by (rule find_block_in [OF oks, of 0 off 0]; use assms len in \<open>simp add: contents_def\<close>)+
  have "block_ok (bf_blocks b ! k)" using oks k(1) by (simp add: list_all_length)
  moreover have "unat (bl_size (bf_blocks b ! k) - w) = unat (bl_size (bf_blocks b ! k)) - unat w" using k(3) by (simp add: unat_sub word_le_nat_alt)
  ultimately have "Buffer_Clear off n b = stop (Undefined ''write past the end of a block'')" if "n > bl_size (bf_blocks b ! k) - w"
    using assms(3) that by (simp add: Buffer_Clear_def Let_def block_write_def zeros_def word_less_nat_alt word_le_nat_alt) auto
  then show ?thesis using Clear_short [OF assms(1,3) k] by blast
qed

end
