(* ===== verification/TempFSInode.thy ===== *)
theory TempFSInode
  imports CString Errno
begin

unbundle bit_operations_syntax

text \<open>
  The inodes of the in-memory file system, src/kernel/src/fs/TempFS/TempFSInode.cpp with the base class of
  src/kernel/src/fs/Inode.hpp. Inodes are reached through pointers, so they live in a store; a linked list of pointers is the
  Isabelle list of them in order (LinkedListCorrect), with its spinlock beside it. Names are strings, compared as \<open>strcmp\<close>
  compares them (CStringCorrect), with None for a null pointer. A signed 64-bit value is an \<open>int\<close>; an unsigned one
  keeps its width. A block of file data carries its own address, that of its pages and their bytes. The kernel services below the file
  system, which are the object heap, \<open>kmalloc\<close> and the kernel's page manager, are the operations of a record, with
  \<open>fs_uninit\<close> for the fields of a new object that no constructor sets. A status parameter is returned, with None when the function leaves it alone.
\<close>

section \<open>Types\<close>

datatype InodeType = Unkown | File | Folder | SymLink

record FilePrivilegeLevel =
  UID :: u32
  GID :: u32
  ACL :: u16

abbreviation ACL_USER_READ :: u16 where "ACL_USER_READ \<equiv> 256"
abbreviation ACL_USER_WRITE :: u16 where "ACL_USER_WRITE \<equiv> 128"
abbreviation ACL_GROUP_READ :: u16 where "ACL_GROUP_READ \<equiv> 32"
abbreviation ACL_GROUP_WRITE :: u16 where "ACL_GROUP_WRITE \<equiv> 16"
abbreviation ACL_OTHER_READ :: u16 where "ACL_OTHER_READ \<equiv> 4"
abbreviation ACL_OTHER_WRITE :: u16 where "ACL_OTHER_WRITE \<equiv> 2"

record MemBlock =
  mb_this :: ptr
  mb_address :: ptr
  mb_size :: u64
  mb_data :: "u8 list"

record TempFSInode =
  p_name :: string
  p_type :: InodeType
  p_blockSize :: u64
  p_ID :: u64
  p_CurrentOffset :: int
  p_isOpen :: bool
  ti_parent :: ptr
  ti_fileSystem :: ptr
  ti_privilegeLevel :: FilePrivilegeLevel
  ti_children :: "ptr list"
  ti_children_lock :: spinlock_t
  ti_data :: "MemBlock list"
  ti_size :: int
  ti_currentBlock :: ptr
  ti_currentBlockIndex :: int
  ti_currentBlockOffset :: u64
  ti_lock :: spinlock_t

record TempFileSystem =
  fs_blockSize :: u64
  m_rootPrivilege :: FilePrivilegeLevel
  m_rootInodes :: "ptr list"
  m_rootInodes_lock :: spinlock_t

record 'k fs_ops =
  fs_new :: "'k \<Rightarrow> (ptr \<times> 'k) prog"
  fs_uninit :: "ptr \<Rightarrow> TempFSInode"
  fs_delete :: "ptr \<Rightarrow> 'k \<Rightarrow> 'k prog"
  fs_kmalloc :: "u64 \<Rightarrow> 'k \<Rightarrow> (ptr \<times> 'k) prog"
  fs_kfree :: "ptr \<Rightarrow> 'k \<Rightarrow> 'k prog"
  fs_AllocatePages :: "u64 \<Rightarrow> 'k \<Rightarrow> ((ptr \<times> u8 list) \<times> 'k) prog"
  fs_FreePages :: "ptr \<Rightarrow> 'k \<Rightarrow> 'k prog"
  fs_FreePage :: "ptr \<Rightarrow> 'k \<Rightarrow> 'k prog"

record 'k tempfs =
  tf_inodes :: "ptr \<rightharpoonup> TempFSInode"
  tf_systems :: "ptr \<rightharpoonup> TempFileSystem"
  tf_rand :: rand_state
  tf_kernel :: 'k

section \<open>Store\<close>

definition inode_get :: "'k tempfs \<Rightarrow> ptr \<Rightarrow> TempFSInode prog" where
  "inode_get s p =
     (if p = nullptr then stop NullDeref else case tf_inodes s p of None \<Rightarrow> stop (Dangling p) | Some n \<Rightarrow> ret n)"

definition inode_put :: "ptr \<Rightarrow> TempFSInode \<Rightarrow> 'k tempfs \<Rightarrow> 'k tempfs" where
  "inode_put p n s = s\<lparr>tf_inodes := (tf_inodes s)(p \<mapsto> n)\<rparr>"

definition system_get :: "'k tempfs \<Rightarrow> ptr \<Rightarrow> TempFileSystem prog" where
  "system_get s p =
     (if p = nullptr then stop NullDeref else case tf_systems s p of None \<Rightarrow> stop (Dangling p) | Some f \<Rightarrow> ret f)"

definition kernel_call :: "('k \<Rightarrow> ('a \<times> 'k) prog) \<Rightarrow> 'k tempfs \<Rightarrow> ('a \<times> 'k tempfs) prog" where
  "kernel_call f s = bindP (f (tf_kernel s)) (\<lambda>(x, k). ret (x, s\<lparr>tf_kernel := k\<rparr>))"

definition kernel_do :: "('k \<Rightarrow> 'k prog) \<Rightarrow> 'k tempfs \<Rightarrow> 'k tempfs prog" where
  "kernel_do f s = bindP (f (tf_kernel s)) (\<lambda>k. ret (s\<lparr>tf_kernel := k\<rparr>))"

text \<open>A \<open>memcpy\<close> out of and into an array whose length is known.\<close>

definition copy_out :: "u8 list \<Rightarrow> u64 \<Rightarrow> u64 \<Rightarrow> u8 list prog" where
  "copy_out xs off n =
     (if unat off + unat n \<le> length xs then ret (take (unat n) (drop (unat off) xs))
      else stop (Undefined ''read past the end of a block''))"

definition copy_into :: "u8 list \<Rightarrow> u64 \<Rightarrow> u8 list \<Rightarrow> u8 list prog" where
  "copy_into xs off d =
     (if unat off + length d \<le> length xs then ret (take (unat off) xs @ d @ drop (unat off + length d) xs)
      else stop (Undefined ''write past the end of a block''))"

section \<open>Access control\<close>

text \<open>The test every operation makes: the owner's bit when the user is the owner or the root user, the group's bit when the
  group matches or is the root group, and the others' bit otherwise.\<close>

definition access_denied :: "FilePrivilegeLevel \<Rightarrow> FilePrivilegeLevel \<Rightarrow> u16 \<Rightarrow> u16 \<Rightarrow> u16 \<Rightarrow> bool" where
  "access_denied privilege own user grp other =
     (if UID privilege = UID own \<or> UID privilege = 0 then \<not> (ACL own AND user) > 0
      else if GID privilege = GID own \<or> GID privilege = 0 then \<not> (ACL own AND grp) > 0
      else \<not> (ACL own AND other) > 0)"

section \<open>Symbolic links\<close>

definition GetTarget :: "ptr \<Rightarrow> TempFSInode \<Rightarrow> ptr" where
  "GetTarget this n =
     (if p_type n = SymLink then (case ti_children n of [] \<Rightarrow> nullptr | sub # _ \<Rightarrow> sub) else this)"

text \<open>
  Every operation starts with \<open>GetTarget\<close> and passes itself on to the target until that is the inode itself. The result
  is the inode the operation ends at, or null for a link without a target. A cycle of links does not return.
\<close>

partial_function (option) resolve :: "'k tempfs \<Rightarrow> ptr \<Rightarrow> ptr prog" where
  "resolve s this =
     bindP (inode_get s this) (\<lambda>n.
       let target = GetTarget this n in
       if target = this \<or> target = nullptr then ret target else resolve s target)"

definition on_target :: "ptr \<Rightarrow> 'r \<Rightarrow> (ptr \<Rightarrow> TempFSInode \<Rightarrow> 'k tempfs \<Rightarrow> ('r \<times> 'k tempfs) prog) \<Rightarrow> 'k tempfs \<Rightarrow> ('r \<times> 'k tempfs) prog" where
  "on_target this enolink f s =
     bindP (resolve s this) (\<lambda>t.
     if t = nullptr then ret (enolink, s) else bindP (inode_get s t) (\<lambda>n. f t n s))"

section \<open>Streams\<close>

definition Rewind :: "ptr \<Rightarrow> 'k tempfs \<Rightarrow> (int \<times> 'k tempfs) prog" where
  "Rewind this = on_target this (- ENOLINK) (\<lambda>t n s.
     if \<not> p_isOpen n then ret (- EBADF, s)
     else if p_type n \<noteq> File then ret (- EISDIR, s)
     else ret (ESUCCESS, inode_put t
       (n\<lparr>ti_currentBlockIndex := 0, ti_currentBlockOffset := 0, p_CurrentOffset := 0,
          ti_currentBlock := (case ti_data n of [] \<Rightarrow> nullptr | b # _ \<Rightarrow> mb_this b)\<rparr>) s))"

definition Open :: "ptr \<Rightarrow> 'k tempfs \<Rightarrow> (int \<times> 'k tempfs) prog" where
  "Open this = on_target this (- ENOLINK) (\<lambda>t n s.
     if p_isOpen n then ret (ESUCCESS, s)
     else if p_type n \<noteq> File then ret (- EISDIR, s)
     else bindP (Rewind t (inode_put t (n\<lparr>p_isOpen := True\<rparr>) s)) (\<lambda>(rc, s).
       if rc \<noteq> ESUCCESS then ret (rc, s) else ret (ESUCCESS, s)))"

definition Close :: "ptr \<Rightarrow> 'k tempfs \<Rightarrow> (int \<times> 'k tempfs) prog" where
  "Close this = on_target this (- ENOLINK) (\<lambda>t n s.
     if \<not> p_isOpen n then ret (ESUCCESS, s)
     else if p_type n \<noteq> File then ret (- EISDIR, s)
     else ret (ESUCCESS, inode_put t (n\<lparr>p_isOpen := False\<rparr>) s))"

text \<open>\<open>m_data.get(index)\<close> with an index of type \<open>int64_t\<close>.\<close>

definition data_get :: "TempFSInode \<Rightarrow> int \<Rightarrow> MemBlock option" where
  "data_get n i = (let k = unat (of_int i :: u64) in if k < length (ti_data n) then Some (ti_data n ! k) else None)"

text \<open>
  The loop of \<open>ReadStream\<close> on the inode's own fields. \<open>buf\<close> is the caller's array. The result is the returned value, the
  status and the array.
\<close>

partial_function (option) read_loop :: "int \<Rightarrow> int \<Rightarrow> int \<Rightarrow> u8 list \<Rightarrow> TempFSInode \<Rightarrow> ((int \<times> int \<times> u8 list) \<times> TempFSInode) prog" where
  "read_loop count currentCount bytes_read buf n =
     (if \<not> currentCount < count then ret ((bytes_read, ESUCCESS, buf), n\<lparr>p_CurrentOffset := p_CurrentOffset n + count\<rparr>)
      else if p_CurrentOffset n + bytes_read \<ge> ti_size n then ret ((bytes_read, - EINVAL, buf), n)
      else case data_get n (ti_currentBlockIndex n) of
        None \<Rightarrow>
          ret ((bytes_read, - ENOSYS, buf), n\<lparr>ti_currentBlock := nullptr, p_CurrentOffset := p_CurrentOffset n + currentCount\<rparr>)
      | Some b \<Rightarrow>
          let n = n\<lparr>ti_currentBlock := mb_this b\<rparr>; off = ti_currentBlockOffset n in
          if mb_size b - off + of_int currentCount > of_int count then
            bindP (copy_out (mb_data b) off (of_int (count - currentCount))) (\<lambda>d.
            bindP (copy_into buf (of_int currentCount) d) (\<lambda>buf.
            ret ((bytes_read + (count - currentCount), ESUCCESS, buf),
              n\<lparr>ti_currentBlockOffset := off + of_int (count - currentCount), p_CurrentOffset := p_CurrentOffset n + count\<rparr>)))
          else
            bindP (copy_out (mb_data b) off (mb_size b - (off + 1))) (\<lambda>d.
            bindP (copy_into buf (of_int currentCount) d) (\<lambda>buf.
            read_loop count (sint (of_int currentCount + (mb_size b - off))) (sint (of_int bytes_read + (mb_size b - (off + 1)))) buf
              (n\<lparr>ti_currentBlockOffset := 0, ti_currentBlockIndex := ti_currentBlockIndex n + 1\<rparr>))))"

text \<open>\<open>buf\<close> is None for a null pointer.\<close>

definition ReadStream ::
  "ptr \<Rightarrow> FilePrivilegeLevel \<Rightarrow> u8 list option \<Rightarrow> int \<Rightarrow> 'k tempfs \<Rightarrow> ((int \<times> int option \<times> u8 list option) \<times> 'k tempfs) prog" where
  "ReadStream this privilege bytes count = on_target this (- ENOLINK, None, bytes) (\<lambda>t n s.
     if \<not> p_isOpen n then ret ((- EBADF, None, bytes), s)
     else if p_type n \<noteq> File then ret ((- EISDIR, None, bytes), s)
     else case bytes of
       None \<Rightarrow> ret ((- EINVAL, None, bytes), s)
     | Some buf \<Rightarrow>
         if count = 0 then ret ((- EINVAL, None, bytes), s)
         else if access_denied privilege (ti_privilegeLevel n) ACL_USER_READ ACL_GROUP_READ ACL_OTHER_READ
         then ret ((- EACCES, None, bytes), s)
         else bindP (read_loop count 0 0 buf n) (\<lambda>((r, st, buf), n). ret ((r, Some st, Some buf), inode_put t n s)))"

definition Expand :: "'k fs_ops \<Rightarrow> ptr \<Rightarrow> u64 \<Rightarrow> 'k tempfs \<Rightarrow> (int \<times> 'k tempfs) prog" where
  "Expand A this new_size = on_target this (- ENOLINK) (\<lambda>t n s.
     bindP (kernel_call (fs_new A) s) (\<lambda>(mem_block, s).
     if mem_block = nullptr then ret (- ENOMEM, s)
     else if p_blockSize n = 0 then stop (Undefined ''division by zero'')
     else
       let sz = ALIGN_UP (new_size - of_int (ti_size n)) (p_blockSize n) in
       bindP (kernel_call (fs_AllocatePages A (sz div 4096)) s) (\<lambda>((address, bytes), s).
       if address = nullptr then ret (- ENOMEM, s)
       else ret (ESUCCESS, inode_put t
         (n\<lparr>ti_size := sint new_size, ti_data := ti_data n @ [\<lparr>mb_this = mem_block, mb_address = address, mb_size = sz, mb_data = bytes\<rparr>]\<rparr>) s))))"

text \<open>The block \<open>WriteStream\<close> writes to: the file is expanded when there is none. None as the inner result is an early return
  with that status.\<close>

definition write_block ::
  "'k fs_ops \<Rightarrow> ptr \<Rightarrow> int \<Rightarrow> int \<Rightarrow> 'k tempfs \<Rightarrow> ((int + MemBlock) \<times> 'k tempfs) prog" where
  "write_block A t count currentCount s =
     bindP (inode_get s t) (\<lambda>n.
     case data_get n (ti_currentBlockIndex n) of
       Some b \<Rightarrow> ret (Inr b, inode_put t (n\<lparr>ti_currentBlock := mb_this b\<rparr>) s)
     | None \<Rightarrow>
         bindP (Expand A t (of_int count) (inode_put t (n\<lparr>ti_currentBlock := nullptr\<rparr>) s)) (\<lambda>(rc, s).
         bindP (inode_get s t) (\<lambda>n.
         if rc < 0 then ret (Inl rc, inode_put t (n\<lparr>p_CurrentOffset := p_CurrentOffset n + currentCount\<rparr>) s)
         else case data_get n (ti_currentBlockIndex n) of
           None \<Rightarrow> ret (Inl (- ENOSYS), inode_put t (n\<lparr>ti_currentBlock := nullptr\<rparr>) s)
         | Some b \<Rightarrow> ret (Inr b, inode_put t (n\<lparr>ti_currentBlock := mb_this b\<rparr>) s))))"

definition store_block :: "TempFSInode \<Rightarrow> MemBlock \<Rightarrow> TempFSInode" where
  "store_block n b = n\<lparr>ti_data := (ti_data n)[unat (of_int (ti_currentBlockIndex n) :: u64) := b]\<rparr>"

partial_function (option) write_loop ::
  "'k fs_ops \<Rightarrow> ptr \<Rightarrow> int \<Rightarrow> u8 list \<Rightarrow> int \<Rightarrow> int \<Rightarrow> 'k tempfs \<Rightarrow> ((int \<times> int) \<times> 'k tempfs) prog" where
  "write_loop A t count bytes currentCount bytes_written s =
     (if \<not> currentCount < count then
        bindP (inode_get s t) (\<lambda>n. ret ((bytes_written, ESUCCESS), inode_put t (n\<lparr>p_CurrentOffset := p_CurrentOffset n + count\<rparr>) s))
      else
        bindP (write_block A t count currentCount s) (\<lambda>(r, s).
        case r of
          Inl rc \<Rightarrow> ret ((bytes_written, rc), s)
        | Inr b \<Rightarrow>
            bindP (inode_get s t) (\<lambda>n.
            let off = ti_currentBlockOffset n in
            if mb_size b - off + of_int currentCount > of_int count then
              bindP (copy_out bytes (of_int currentCount) (of_int (count - currentCount))) (\<lambda>d.
              bindP (copy_into (mb_data b) off d) (\<lambda>d.
              let n = store_block n (b\<lparr>mb_data := d\<rparr>) in
              ret ((bytes_written + (count - currentCount), ESUCCESS),
                inode_put t (n\<lparr>ti_currentBlockOffset := off + of_int (count - currentCount), p_CurrentOffset := p_CurrentOffset n + count\<rparr>) s)))
            else
              bindP (copy_out bytes (of_int currentCount) (mb_size b - (off + 1))) (\<lambda>d.
              bindP (copy_into (mb_data b) off d) (\<lambda>d.
              let n = store_block n (b\<lparr>mb_data := d\<rparr>) in
              write_loop A t count bytes (sint (of_int currentCount + (mb_size b - off)))
                (sint (of_int bytes_written + (mb_size b - (off + 1))))
                (inode_put t (n\<lparr>ti_currentBlockOffset := 0, ti_currentBlockIndex := ti_currentBlockIndex n + 1\<rparr>) s))))))"

definition WriteStream ::
  "'k fs_ops \<Rightarrow> ptr \<Rightarrow> FilePrivilegeLevel \<Rightarrow> u8 list option \<Rightarrow> int \<Rightarrow> 'k tempfs \<Rightarrow> ((int \<times> int option) \<times> 'k tempfs) prog" where
  "WriteStream A this privilege bytes count = on_target this (- ENOLINK, None) (\<lambda>t n s.
     if \<not> p_isOpen n then ret ((- EBADF, None), s)
     else if p_type n \<noteq> File then ret ((- EISDIR, None), s)
     else case bytes of
       None \<Rightarrow> ret ((- EINVAL, None), s)
     | Some buf \<Rightarrow>
         if count = 0 then ret ((- EINVAL, None), s)
         else if access_denied privilege (ti_privilegeLevel n) ACL_USER_WRITE ACL_GROUP_WRITE ACL_OTHER_WRITE
         then ret ((- EACCES, None), s)
         else bindP (write_loop A t count buf 0 0 s) (\<lambda>((r, st), s). ret ((r, Some st), s)))"

text \<open>\<open>ALIGN_UP(offset, 8)\<close> on a signed value: the division rounds towards zero.\<close>

definition align_up_8 :: "int \<Rightarrow> int" where
  "align_up_8 x = (let y = x + 7 in (if y < 0 then - ((- y) div 8) else y div 8) * 8)"

partial_function (option) seek_loop :: "int \<Rightarrow> TempFSInode \<Rightarrow> TempFSInode prog" where
  "seek_loop offset n =
     (case data_get n (ti_currentBlockIndex n) of
        None \<Rightarrow> ret n
      | Some b \<Rightarrow>
          let n = n\<lparr>ti_currentBlock := mb_this b\<rparr> in
          if mb_size b + of_int (p_CurrentOffset n) > of_int offset then
            let off = of_int (offset - p_CurrentOffset n) in
            ret (n\<lparr>ti_currentBlockOffset := off, p_CurrentOffset := sint (of_int (p_CurrentOffset n) + off :: u64)\<rparr>)
          else seek_loop offset (n\<lparr>p_CurrentOffset := sint (of_int (p_CurrentOffset n) + mb_size b),
            ti_currentBlockIndex := ti_currentBlockIndex n + 1\<rparr>))"

definition Seek :: "ptr \<Rightarrow> int \<Rightarrow> 'k tempfs \<Rightarrow> (int \<times> 'k tempfs) prog" where
  "Seek this offset = on_target this (- ENOLINK) (\<lambda>t n s.
     if \<not> p_isOpen n then ret (- EBADF, s)
     else if p_type n \<noteq> File then ret (- EISDIR, s)
     else if offset \<ge> ti_size n then ret (- EINVAL, s)
     else bindP (seek_loop (align_up_8 offset) (n\<lparr>p_CurrentOffset := 0\<rparr>)) (\<lambda>n. ret (ESUCCESS, inode_put t n s)))"

text \<open>
  \<open>Read\<close> and \<open>Write\<close> open the file when it is not open, seek, run the stream operation and close again. The status is not set when
  the stream operation does not set its own.
\<close>

definition positioned ::
  "ptr \<Rightarrow> int \<Rightarrow> (int \<Rightarrow> 'r) \<Rightarrow> (ptr \<Rightarrow> 'k tempfs \<Rightarrow> ('r \<times> 'k tempfs) prog) \<Rightarrow> 'k tempfs \<Rightarrow> ('r \<times> 'k tempfs) prog" where
  "positioned this offset err stream = on_target this (err (- ENOLINK)) (\<lambda>t n s.
     let isOpen = p_isOpen n in
     bindP (if \<not> isOpen then Open t s else ret (0, s)) (\<lambda>(rc, s).
     if rc < 0 then ret (err rc, s)
     else
       bindP (Seek t offset s) (\<lambda>(rc, s).
       if rc < 0 then bindP (if \<not> isOpen then Close t s else ret (0, s)) (\<lambda>(_, s). ret (err rc, s))
       else
         bindP (stream t s) (\<lambda>(r, s).
         bindP (if \<not> isOpen then Close t s else ret (0, s)) (\<lambda>(_, s). ret (r, s))))))"

definition Read ::
  "ptr \<Rightarrow> FilePrivilegeLevel \<Rightarrow> int \<Rightarrow> u8 list option \<Rightarrow> int \<Rightarrow> 'k tempfs \<Rightarrow> ((int \<times> int option \<times> u8 list option) \<times> 'k tempfs) prog" where
  "Read this privilege offset bytes count =
     positioned this offset (\<lambda>rc. (rc, None, bytes)) (\<lambda>t. ReadStream t privilege bytes count)"

definition Write ::
  "'k fs_ops \<Rightarrow> ptr \<Rightarrow> FilePrivilegeLevel \<Rightarrow> int \<Rightarrow> u8 list option \<Rightarrow> int \<Rightarrow> 'k tempfs \<Rightarrow> ((int \<times> int option) \<times> 'k tempfs) prog" where
  "Write A this privilege offset bytes count =
     positioned this offset (\<lambda>rc. (rc, None)) (\<lambda>t. WriteStream A t privilege bytes count)"

section \<open>Type, children and parent\<close>

partial_function (option) Inode_GetType :: "'k tempfs \<Rightarrow> ptr \<Rightarrow> InodeType prog" where
  "Inode_GetType s this =
     bindP (inode_get s this) (\<lambda>n.
     case p_type n of
       File \<Rightarrow> ret File
     | Folder \<Rightarrow> ret Folder
     | SymLink \<Rightarrow> (case ti_children n of [] \<Rightarrow> ret Unkown | sub # _ \<Rightarrow> if sub = nullptr then ret Unkown else Inode_GetType s sub)
     | Unkown \<Rightarrow> ret Unkown)"

partial_function (option) Inode_SetType :: "ptr \<Rightarrow> InodeType \<Rightarrow> 'k tempfs \<Rightarrow> 'k tempfs prog" where
  "Inode_SetType this ty s =
     bindP (inode_get s this) (\<lambda>n.
     case p_type n of
       File \<Rightarrow> ret (inode_put this (n\<lparr>p_type := ty\<rparr>) s)
     | Folder \<Rightarrow> ret (inode_put this (n\<lparr>p_type := ty\<rparr>) s)
     | SymLink \<Rightarrow> (case ti_children n of [] \<Rightarrow> stop NullDeref | sub # _ \<Rightarrow> Inode_SetType sub ty s)
     | Unkown \<Rightarrow> ret s)"

text \<open>A section under the lock of an inode's list of children.\<close>

definition with_children :: "ptr \<Rightarrow> (ptr list \<Rightarrow> ('a \<times> ptr list) prog) \<Rightarrow> 'k tempfs \<Rightarrow> ('a \<times> 'k tempfs) prog" where
  "with_children t f s =
     bindP (inode_get s t) (\<lambda>n.
     bindP (spinlock_acquire (ti_children_lock n)) (\<lambda>_.
     bindP (f (ti_children n)) (\<lambda>(x, cs).
     ret (x, inode_put t (n\<lparr>ti_children := cs, ti_children_lock := spinlock_release True\<rparr>) s))))"

definition AddChild :: "ptr \<Rightarrow> ptr \<Rightarrow> 'k tempfs \<Rightarrow> (int \<times> 'k tempfs) prog" where
  "AddChild this child = on_target this (- ENOLINK) (\<lambda>t n s.
     if child = nullptr then ret (- EFAULT, s)
     else if p_type n \<noteq> Folder then ret (- ENOTDIR, s)
     else with_children t (\<lambda>cs. ret (ESUCCESS, cs @ [child])) s)"

definition RemoveChild :: "ptr \<Rightarrow> ptr \<Rightarrow> 'k tempfs \<Rightarrow> (int \<times> 'k tempfs) prog" where
  "RemoveChild this child = on_target this (- ENOLINK) (\<lambda>t n s.
     if p_type n \<noteq> Folder then ret (- ENOTDIR, s)
     else if child = nullptr then ret (- EFAULT, s)
     else with_children t (\<lambda>cs. if child \<in> set cs then ret (ESUCCESS, remove1 child cs) else ret (- ENOENT, cs)) s)"

text \<open>The loops of the three lookups: the child, or null with a status.\<close>

primrec find_child :: "'k tempfs \<Rightarrow> (TempFSInode \<Rightarrow> bool) \<Rightarrow> ptr list \<Rightarrow> (ptr \<times> int option) prog" where
  "find_child s P [] = ret (nullptr, Some (- ENOENT))"
| "find_child s P (c # cs) =
     (if c = nullptr then ret (nullptr, Some (- ENOSYS))
      else bindP (inode_get s c) (\<lambda>n. if P n then ret (c, None) else find_child s P cs))"

definition GetTMPFSChild_ID :: "ptr \<Rightarrow> u64 \<Rightarrow> 'k tempfs \<Rightarrow> ((ptr \<times> int option) \<times> 'k tempfs) prog" where
  "GetTMPFSChild_ID this ID = on_target this (nullptr, Some (- ENOLINK)) (\<lambda>t n s.
     if p_type n \<noteq> Folder then ret ((nullptr, Some (- ENOTDIR)), s)
     else with_children t (\<lambda>cs. bindP (find_child s (\<lambda>n. p_ID n = ID) cs) (\<lambda>r. ret (r, cs))) s)"

definition GetTMPFSChild :: "ptr \<Rightarrow> string option \<Rightarrow> 'k tempfs \<Rightarrow> ((ptr \<times> int option) \<times> 'k tempfs) prog" where
  "GetTMPFSChild this name = on_target this (nullptr, Some (- ENOLINK)) (\<lambda>t n s.
     if p_type n \<noteq> Folder then ret ((nullptr, Some (- ENOTDIR)), s)
     else case name of
       None \<Rightarrow> ret ((nullptr, Some (- EFAULT)), s)
     | Some name \<Rightarrow> with_children t (\<lambda>cs. bindP (find_child s (\<lambda>n. name = p_name n) cs) (\<lambda>r. ret (r, cs))) s)"

definition GetChild :: "ptr \<Rightarrow> string option \<Rightarrow> 'k tempfs \<Rightarrow> ((ptr \<times> int option) \<times> 'k tempfs) prog" where
  "GetChild this name = on_target this (nullptr, Some (- ENOLINK)) (\<lambda>t n s.
     if p_type n \<noteq> Folder then ret ((nullptr, Some (- ENOTDIR)), s)
     else case name of
       None \<Rightarrow> ret ((nullptr, Some (- EFAULT)), s)
     | Some name \<Rightarrow> with_children t (\<lambda>cs. bindP (find_child s (\<lambda>n. name = p_name n) cs) (\<lambda>r. ret (r, cs))) s)"

definition GetChild_index :: "ptr \<Rightarrow> u64 \<Rightarrow> 'k tempfs \<Rightarrow> ((ptr \<times> int option) \<times> 'k tempfs) prog" where
  "GetChild_index this index = on_target this (nullptr, Some (- ENOLINK)) (\<lambda>t n s.
     if p_type n \<noteq> Folder then ret ((nullptr, Some (- ENOTDIR)), s)
     else with_children t (\<lambda>cs.
       ret (if unat index \<ge> length cs then (nullptr, Some (- EINVAL))
            else if cs ! unat index = nullptr then (nullptr, Some (- ENOSYS)) else (cs ! unat index, None), cs)) s)"

definition GetChildCount :: "ptr \<Rightarrow> 'k tempfs \<Rightarrow> (nat \<times> 'k tempfs) prog" where
  "GetChildCount this = on_target this 0 (\<lambda>t n s. with_children t (\<lambda>cs. ret (length cs, cs)) s)"

definition GetParent :: "ptr \<Rightarrow> 'k tempfs \<Rightarrow> ((ptr \<times> int option) \<times> 'k tempfs) prog" where
  "GetParent this = on_target this (nullptr, Some (- ENOLINK)) (\<lambda>t n s. ret ((ti_parent n, None), s))"

section \<open>The list of root inodes of a file system\<close>

definition with_roots :: "ptr \<Rightarrow> (ptr list \<Rightarrow> ('a \<times> ptr list) prog) \<Rightarrow> 'k tempfs \<Rightarrow> ('a \<times> 'k tempfs) prog" where
  "with_roots fs f s =
     bindP (system_get s fs) (\<lambda>y.
     bindP (spinlock_acquire (m_rootInodes_lock y)) (\<lambda>_.
     bindP (f (m_rootInodes y)) (\<lambda>(x, rs).
     ret (x, s\<lparr>tf_systems := (tf_systems s)(fs \<mapsto> y\<lparr>m_rootInodes := rs, m_rootInodes_lock := spinlock_release True\<rparr>)\<rparr>))))"

definition CreateNewRootInode :: "ptr \<Rightarrow> ptr \<Rightarrow> 'k tempfs \<Rightarrow> 'k tempfs prog" where
  "CreateNewRootInode fs inode s = bindP (with_roots fs (\<lambda>rs. ret ((), rs @ [inode])) s) (\<lambda>(_, s). ret s)"

definition DeleteRootInode :: "ptr \<Rightarrow> ptr \<Rightarrow> 'k tempfs \<Rightarrow> 'k tempfs prog" where
  "DeleteRootInode fs inode s = bindP (with_roots fs (\<lambda>rs. ret ((), remove1 inode rs)) s) (\<lambda>(_, s). ret s)"

section \<open>Creation and deletion\<close>

definition SetParent :: "ptr \<Rightarrow> ptr \<Rightarrow> 'k tempfs \<Rightarrow> (int \<times> 'k tempfs) prog" where
  "SetParent this parent = on_target this (- ENOLINK) (\<lambda>t n s.
     bindP (if ti_parent n \<noteq> nullptr then RemoveChild (ti_parent n) t s
            else bindP (DeleteRootInode (ti_fileSystem n) t s) (\<lambda>s. ret (0, s))) (\<lambda>(rc, s).
     if rc < 0 then ret (rc, s)
     else
       bindP (inode_get s t) (\<lambda>n.
       let s = inode_put t (n\<lparr>ti_parent := parent\<rparr>) s in
       if parent \<noteq> nullptr then bindP (AddChild parent t s) (\<lambda>(_, s). ret (ESUCCESS, s))
       else bindP (CreateNewRootInode (ti_fileSystem n) t s) (\<lambda>s. ret (ESUCCESS, s)))))"

definition ResetID :: "u32 \<Rightarrow> TempFSInode \<Rightarrow> rand_state \<Rightarrow> TempFSInode \<times> rand_state" where
  "ResetID seed n r =
     (let r = (if seed \<noteq> 0 then srand seed r else r); (hi, r) = rand r; (lo, r) = rand r
      in (n\<lparr>p_ID := push_bit 32 (ucast hi) OR ucast lo\<rparr>, r))"

text \<open>\<open>Create\<close> on the new object at \<open>this\<close>, whose fields \<open>Create\<close> does not set are the ones it was born with. \<open>extra\<close> is the
  target of a link.\<close>

definition Create ::
  "ptr \<Rightarrow> string option \<Rightarrow> ptr \<Rightarrow> InodeType \<Rightarrow> ptr \<Rightarrow> FilePrivilegeLevel \<Rightarrow> u64 \<Rightarrow> ptr \<Rightarrow> u32 \<Rightarrow> 'k tempfs \<Rightarrow> (int \<times> 'k tempfs) prog" where
  "Create this name parent ty fileSystem privilege blockSize extra seed s =
     (case name of
        None \<Rightarrow> ret (- EINVAL, s)
      | Some name \<Rightarrow>
          if fileSystem = nullptr \<or> blockSize = 0 \<or> ty = Unkown \<or> ty = SymLink \<and> extra = nullptr then ret (- EINVAL, s)
          else
            bindP (inode_get s this) (\<lambda>n.
            let n = n\<lparr>ti_parent := parent, ti_fileSystem := fileSystem, ti_privilegeLevel := privilege, ti_size := 0, p_name := name,
                  p_type := ty, p_blockSize := blockSize, p_CurrentOffset := 0\<rparr>;
                (n, r) = ResetID seed n (tf_rand s);
                s = inode_put this n (s\<lparr>tf_rand := r\<rparr>) in
            bindP (if parent \<noteq> nullptr then AddChild parent this s
                   else bindP (CreateNewRootInode fileSystem this s) (\<lambda>s. ret (ESUCCESS, s))) (\<lambda>(rc, s).
            if rc \<noteq> ESUCCESS then ret (rc, s)
            else if ty = SymLink then
              bindP (inode_get s this) (\<lambda>n. ret (ESUCCESS, inode_put this (n\<lparr>ti_children := ti_children n @ [extra]\<rparr>) s))
            else ret (ESUCCESS, s))))"

definition free_block :: "'k fs_ops \<Rightarrow> MemBlock \<Rightarrow> 'k tempfs \<Rightarrow> 'k tempfs prog" where
  "free_block A b s =
     bindP (kernel_do (if mb_size b div 4096 > 1 then fs_FreePages A (mb_address b) else fs_FreePage A (mb_address b)) s)
       (kernel_do (fs_delete A (mb_this b)))"

primrec free_blocks :: "'k fs_ops \<Rightarrow> MemBlock list \<Rightarrow> 'k tempfs \<Rightarrow> 'k tempfs prog" where
  "free_blocks A [] s = ret s"
| "free_blocks A (b # bs) s = bindP (free_block A b s) (free_blocks A bs)"

text \<open>\<open>delete inode\<close>.\<close>

definition delete_inode :: "'k fs_ops \<Rightarrow> ptr \<Rightarrow> 'k tempfs \<Rightarrow> 'k tempfs prog" where
  "delete_inode A p s =
     bindP (kernel_do (fs_delete A p) s) (\<lambda>s. ret (s\<lparr>tf_inodes := (tf_inodes s)(p := None)\<rparr>))"

text \<open>The loop over the children, given the function that deletes one: true when it came to its end.\<close>

primrec delete_children ::
  "'k fs_ops \<Rightarrow> (ptr \<times> 'k tempfs \<Rightarrow> (int \<times> 'k tempfs) prog) \<Rightarrow> ptr \<Rightarrow> nat \<Rightarrow> 'k tempfs \<Rightarrow> (bool \<times> 'k tempfs) prog" where
  "delete_children A del this 0 s = ret (True, s)"
| "delete_children A del this (Suc i) s =
     bindP (inode_get s this) (\<lambda>n.
     if i \<ge> length (ti_children n) \<or> ti_children n ! i = nullptr then ret (False, s)
     else
       bindP (del (ti_children n ! i, s)) (\<lambda>(_, s).
       bindP (delete_inode A (ti_children n ! i) s) (delete_children A del this i)))"

lemma delete_children_mono [partial_function_mono]:
  assumes "\<And>x. mono_option (\<lambda>f. G x f)"
  shows "mono_option (\<lambda>f. delete_children A (\<lambda>x. G x f) this i s)"
proof (induction i arbitrary: s)
  case 0
  show ?case by (simp add: option.const_mono)
next
  case (Suc i)
  have "mono_option (\<lambda>f. (\<lambda>(b, s). bindP (delete_inode A (ti_children n ! i) s) (delete_children A (\<lambda>x. G x f) this i)) y)"
    for n :: TempFSInode and y :: "int \<times> 'a tempfs"
    by (cases y) (simp, intro bindP_mono option.const_mono Suc)
  then show ?case
    by simp (intro bindP_mono option.const_mono partial_function_mono assms; simp)
qed

text \<open>\<open>delete_name\<close> is passed to the children as their \<open>delete_target\<close>. Releasing the name itself changes nothing here.\<close>

partial_function (option) Inode_Delete :: "'k fs_ops \<Rightarrow> ptr \<Rightarrow> bool \<Rightarrow> bool \<Rightarrow> 'k tempfs \<Rightarrow> (int \<times> 'k tempfs) prog" where
  "Inode_Delete A this delete_target delete_name s =
     bindP (inode_get s this) (\<lambda>n.
     let target = GetTarget this n in
     bindP (if target \<noteq> this \<and> delete_target then
              (if target = nullptr then ret (- ENOLINK, s) else Inode_Delete A target False False s)
            else ret (0, s)) (\<lambda>r.
     if fst r < 0 then ret r
     else
       bindP (GetChildCount this (snd r)) (\<lambda>c.
       bindP (delete_children A (\<lambda>x. Inode_Delete A (fst x) delete_name False (snd x)) this (fst c) (snd c)) (\<lambda>d.
       if \<not> fst d then ret (- ENOSYS, snd d)
       else
         bindP (inode_get (snd d) this) (\<lambda>n.
         bindP (if ti_parent n \<noteq> nullptr then RemoveChild (ti_parent n) this (snd d)
                else bindP (DeleteRootInode (ti_fileSystem n) this (snd d)) (\<lambda>s. ret (0, s))) (\<lambda>r.
         if fst r = - EINVAL then ret (- ENOSYS, snd r)
         else
           bindP (if p_type n = File then free_blocks A (ti_data n) (snd r) else ret (snd r)) (\<lambda>s.
           bindP (inode_get s this) (\<lambda>n. ret (ESUCCESS, inode_put this (n\<lparr>p_isOpen := False, p_ID := 0\<rparr>) s)))))))))"

section \<open>Heads, privileges, size and lock\<close>

record Head =
  CurrentOffset :: int
  hd_isOpen :: bool
  currentBlock :: ptr
  currentBlockIndex :: int
  currentBlockOffset :: u64

definition SetCurrentHead :: "Head \<Rightarrow> TempFSInode \<Rightarrow> TempFSInode" where
  "SetCurrentHead h n = n\<lparr>p_CurrentOffset := CurrentOffset h, p_isOpen := hd_isOpen h, ti_currentBlock := currentBlock h,
     ti_currentBlockIndex := currentBlockIndex h, ti_currentBlockOffset := currentBlockOffset h\<rparr>"

definition GetCurrentHead :: "TempFSInode \<Rightarrow> Head" where
  "GetCurrentHead n = \<lparr>CurrentOffset = p_CurrentOffset n, hd_isOpen = p_isOpen n, currentBlock = ti_currentBlock n,
     currentBlockIndex = ti_currentBlockIndex n, currentBlockOffset = ti_currentBlockOffset n\<rparr>"

definition GetPrivilegeLevel :: "TempFSInode \<Rightarrow> FilePrivilegeLevel" where
  "GetPrivilegeLevel n = ti_privilegeLevel n"

definition SetPrivilegeLevel :: "FilePrivilegeLevel \<Rightarrow> TempFSInode \<Rightarrow> TempFSInode" where
  "SetPrivilegeLevel p n = n\<lparr>ti_privilegeLevel := p\<rparr>"

text \<open>The status is not passed on to the target of a link.\<close>

definition Inode_GetSize :: "ptr \<Rightarrow> 'k tempfs \<Rightarrow> ((u64 \<times> int option) \<times> 'k tempfs) prog" where
  "Inode_GetSize this s =
     bindP (inode_get s this) (\<lambda>n.
     bindP (resolve s this) (\<lambda>t.
     if t = nullptr then ret ((0, if GetTarget this n = nullptr then Some (- ENOLINK) else None), s)
     else
       bindP (inode_get s t) (\<lambda>n.
       bindP (Inode_GetType s t) (\<lambda>ty.
       if ty \<noteq> File then ret ((0, if t = this then Some (- EISDIR) else None), s)
       else ret ((of_int (ti_size n), None), s)))))"

definition Inode_Lock :: "TempFSInode \<Rightarrow> TempFSInode prog" where
  "Inode_Lock n = bindP (spinlock_acquire (ti_lock n)) (\<lambda>l. ret (n\<lparr>ti_lock := l\<rparr>))"

definition Inode_Unlock :: "TempFSInode \<Rightarrow> TempFSInode" where
  "Inode_Unlock n = n\<lparr>ti_lock := spinlock_release (ti_lock n)\<rparr>"

definition Inode_SetName :: "string \<Rightarrow> TempFSInode \<Rightarrow> TempFSInode" where
  "Inode_SetName name n = n\<lparr>p_name := name\<rparr>"

definition Inode_SetRealType :: "InodeType \<Rightarrow> TempFSInode \<Rightarrow> TempFSInode" where
  "Inode_SetRealType ty n = n\<lparr>p_type := ty\<rparr>"

definition Inode_SetBlockSize :: "u64 \<Rightarrow> TempFSInode \<Rightarrow> TempFSInode" where
  "Inode_SetBlockSize b n = n\<lparr>p_blockSize := b\<rparr>"

end
