(* ===== verification/TempFileSystem.thy ===== *)
theory TempFileSystem
  imports TempFSInode
begin

unbundle bit_operations_syntax

text \<open>
  The in-memory file system itself, src/kernel/src/fs/TempFS/TempFileSystem.cpp: creating files, folders and links, deleting them,
  and \<open>GetSubInode\<close>, which walks a path. A file system object is an address in the store. Paths are strings,
  with None for a null pointer; the out-parameters of the walk are returned.
\<close>

section \<open>Creation\<close>

text \<open>\<open>new TempFSInode\<close>: the lists are constructed, the other fields are not.\<close>

definition new_TempFSInode :: "'k fs_ops \<Rightarrow> 'k tempfs \<Rightarrow> (ptr \<times> 'k tempfs) prog" where
  "new_TempFSInode A s =
     bindP (kernel_call (fs_new A) s) (\<lambda>(p, s).
     ret (p, if p = nullptr then s
       else inode_put p ((fs_uninit A p)\<lparr>ti_children := [], ti_children_lock := False, ti_data := []\<rparr>) s))"

definition parent_privilege :: "ptr \<Rightarrow> ptr \<Rightarrow> 'k tempfs \<Rightarrow> FilePrivilegeLevel prog" where
  "parent_privilege fs parent s =
     (if parent = nullptr then bindP (system_get s fs) (\<lambda>f. ret (m_rootPrivilege f))
      else bindP (inode_get s parent) (\<lambda>n. ret (GetPrivilegeLevel n)))"

definition write_denied :: "FilePrivilegeLevel \<Rightarrow> FilePrivilegeLevel \<Rightarrow> bool" where
  "write_denied current own = access_denied current own ACL_USER_WRITE ACL_GROUP_WRITE ACL_OTHER_WRITE"

text \<open>What the creating functions share from \<open>new TempFSInode\<close> on. The result also has the new inode.\<close>

definition create_inode ::
  "'k fs_ops \<Rightarrow> ptr \<Rightarrow> ptr \<Rightarrow> string \<Rightarrow> InodeType \<Rightarrow> ptr \<Rightarrow> bool \<Rightarrow> FilePrivilegeLevel \<Rightarrow> FilePrivilegeLevel \<Rightarrow> 'k tempfs \<Rightarrow> ((int \<times> ptr) \<times> 'k tempfs) prog" where
  "create_inode A fs parent name ty target inherit_permissions parent_priv privilege s =
     bindP (new_TempFSInode A s) (\<lambda>(inode, s).
     bindP (system_get s fs) (\<lambda>f.
     let priv = (if inherit_permissions then parent_priv else privilege) in
     bindP (Create inode (Some name) parent ty fs priv (fs_blockSize f) target 0 s) (\<lambda>(rc, s). ret ((rc, inode), s))))"

definition CreateFile_in ::
  "'k fs_ops \<Rightarrow> ptr \<Rightarrow> FilePrivilegeLevel \<Rightarrow> ptr \<Rightarrow> string option \<Rightarrow> u64 \<Rightarrow> bool \<Rightarrow> FilePrivilegeLevel \<Rightarrow> 'k tempfs \<Rightarrow> (int \<times> 'k tempfs) prog" where
  "CreateFile_in A fs current_privilege parent name sz inherit_permissions privilege s =
     (case name of
        None \<Rightarrow> ret (- EFAULT, s)
      | Some name \<Rightarrow>
          bindP (parent_privilege fs parent s) (\<lambda>parent_priv.
          if write_denied current_privilege parent_priv then ret (- EACCES, s)
          else
            bindP (create_inode A fs parent name File nullptr inherit_permissions parent_priv privilege s) (\<lambda>((rc, inode), s).
            if rc < 0 then ret (rc, s)
            else if sz > 0 then
              bindP (Expand A inode sz s) (\<lambda>(rc, s). if rc < 0 then ret (rc, s) else ret (ESUCCESS, s))
            else ret (ESUCCESS, s))))"

definition CreateFolder_in ::
  "'k fs_ops \<Rightarrow> ptr \<Rightarrow> FilePrivilegeLevel \<Rightarrow> ptr \<Rightarrow> string option \<Rightarrow> bool \<Rightarrow> FilePrivilegeLevel \<Rightarrow> 'k tempfs \<Rightarrow> (int \<times> 'k tempfs) prog" where
  "CreateFolder_in A fs current_privilege parent name inherit_permissions privilege s =
     (case name of
        None \<Rightarrow> ret (- EFAULT, s)
      | Some name \<Rightarrow>
          bindP (parent_privilege fs parent s) (\<lambda>parent_priv.
          if write_denied current_privilege parent_priv then ret (- EACCES, s)
          else
            bindP (create_inode A fs parent name Folder nullptr inherit_permissions parent_priv privilege s) (\<lambda>((rc, _), s).
            if rc < 0 then ret (rc, s) else ret (ESUCCESS, s))))"

text \<open>The link function that takes inodes does not let the root user or group pass.\<close>

definition CreateSymLink_in ::
  "'k fs_ops \<Rightarrow> ptr \<Rightarrow> FilePrivilegeLevel \<Rightarrow> ptr \<Rightarrow> string option \<Rightarrow> ptr \<Rightarrow> bool \<Rightarrow> FilePrivilegeLevel \<Rightarrow> 'k tempfs \<Rightarrow> (int \<times> 'k tempfs) prog" where
  "CreateSymLink_in A fs current_privilege parent name target inherit_permissions privilege s =
     (case name of
        None \<Rightarrow> ret (- EFAULT, s)
      | Some name \<Rightarrow>
          bindP (parent_privilege fs parent s) (\<lambda>parent_priv.
          if (if UID current_privilege = UID parent_priv then \<not> (ACL parent_priv AND ACL_USER_WRITE) > 0
              else if GID current_privilege = GID parent_priv then \<not> (ACL parent_priv AND ACL_GROUP_WRITE) > 0
              else \<not> (ACL parent_priv AND ACL_OTHER_WRITE) > 0) then ret (- EACCES, s)
          else
            bindP (create_inode A fs parent name SymLink target inherit_permissions parent_priv privilege s) (\<lambda>((rc, _), s).
            if rc < 0 then ret (rc, s) else ret (ESUCCESS, s))))"

section \<open>Walking a path\<close>

record sub_result =
  sr_inode :: ptr
  sr_lastInode :: ptr
  sr_end_index :: "int option"
  sr_status :: "int option"

abbreviation PATH_SEPARATOR :: char where
  "PATH_SEPARATOR \<equiv> CHR ''/''"

text \<open>The search among the root inodes: null when there is none of that name, None when the list holds a null pointer.\<close>

primrec find_root :: "'k tempfs \<Rightarrow> string \<Rightarrow> ptr list \<Rightarrow> ptr option prog" where
  "find_root s name [] = ret (Some nullptr)"
| "find_root s name (r # rs) =
     (if r = nullptr then ret None
      else bindP (inode_get s r) (\<lambda>n. if name = p_name n then ret (Some r) else find_root s name rs))"

text \<open>One component that is followed by a separator at position \<open>i\<close>.\<close>

definition walk_component ::
  "'k fs_ops \<Rightarrow> ptr \<Rightarrow> string \<Rightarrow> int \<Rightarrow> int \<Rightarrow> ptr \<Rightarrow> 'k tempfs \<Rightarrow> ((sub_result + ptr) \<times> 'k tempfs) prog" where
  "walk_component A fs name i last_separator last_inode s =
     bindP (kernel_call (fs_kmalloc A (of_int (i - (last_separator + 1) + 1))) s) (\<lambda>(buf, s).
     if buf = nullptr
     then ret (Inl \<lparr>sr_inode = nullptr, sr_lastInode = last_inode, sr_end_index = Some i, sr_status = Some (- ENOMEM)\<rparr>, s)
     else
       bindP
         (if last_inode \<noteq> nullptr then
            if name = ''..'' then bindP (GetParent last_inode s) (\<lambda>((p, _), s). ret (Inr p, s))
            else if name \<noteq> ''.'' then
              bindP (GetTMPFSChild last_inode (Some name) s) (\<lambda>((c, st), s).
              if c = nullptr
              then ret (Inl \<lparr>sr_inode = nullptr, sr_lastInode = last_inode, sr_end_index = Some last_separator, sr_status = st\<rparr>, s)
              else ret (Inr c, s))
            else ret (Inr last_inode, s)
          else if name = ''.'' then ret (Inr last_inode, s)
          else if name = ''..''
          then ret (Inl \<lparr>sr_inode = nullptr, sr_lastInode = nullptr, sr_end_index = Some i, sr_status = Some ESUCCESS\<rparr>, s)
          else
            bindP (with_roots fs (\<lambda>rs. bindP (find_root s name rs) (\<lambda>r. ret (r, rs))) s) (\<lambda>(r, s).
            case r of
              None \<Rightarrow>
                ret (Inl \<lparr>sr_inode = nullptr, sr_lastInode = last_inode, sr_end_index = Some last_separator, sr_status = Some (- ENOSYS)\<rparr>, s)
            | Some r \<Rightarrow> ret (Inr r, s)))
         (\<lambda>(r, s). bindP (kernel_do (fs_kfree A buf) s) (\<lambda>s. ret (r, s))))"

text \<open>The loop over the characters \<open>cs\<close> from position \<open>i\<close> on.\<close>

fun walk_loop ::
  "'k fs_ops \<Rightarrow> ptr \<Rightarrow> string \<Rightarrow> string \<Rightarrow> int \<Rightarrow> int \<Rightarrow> ptr \<Rightarrow> 'k tempfs \<Rightarrow> ((sub_result + int \<times> int \<times> ptr) \<times> 'k tempfs) prog" where
  "walk_loop A fs path [] i last_separator last_inode s = ret (Inr (i, last_separator, last_inode), s)"
| "walk_loop A fs path (c # cs) i last_separator last_inode s =
     (if c = PATH_SEPARATOR then
        if last_separator < i \<and> i - last_separator > 1 then
          bindP (walk_component A fs (take (nat (i - (last_separator + 1))) (drop (nat (last_separator + 1)) path)) i last_separator last_inode s)
            (\<lambda>(r, s). case r of
               Inl x \<Rightarrow> ret (Inl x, s)
             | Inr last_inode \<Rightarrow> walk_loop A fs path cs (i + 1) i last_inode s)
        else walk_loop A fs path cs (i + 1) i last_inode s
      else walk_loop A fs path cs (i + 1) last_separator last_inode s)"

text \<open>The last component. It is looked up by its name alone, and the copy of the name is freed on some ways out only.\<close>

definition walk_last ::
  "'k fs_ops \<Rightarrow> ptr \<Rightarrow> string \<Rightarrow> int \<Rightarrow> int \<Rightarrow> ptr \<Rightarrow> 'k tempfs \<Rightarrow> ((sub_result + ptr) \<times> 'k tempfs) prog" where
  "walk_last A fs name i last_separator last_inode s =
     bindP (kernel_call (fs_kmalloc A (of_int (i - (last_separator + 1) + 1))) s) (\<lambda>(buf, s).
     if buf = nullptr
     then ret (Inl \<lparr>sr_inode = nullptr, sr_lastInode = last_inode, sr_end_index = Some last_separator, sr_status = Some (- ENOMEM)\<rparr>, s)
     else if last_inode \<noteq> nullptr then
       bindP (GetTMPFSChild last_inode (Some name) s) (\<lambda>((c, st), s).
       if c = nullptr then
         bindP (kernel_do (fs_kfree A buf) s) (\<lambda>s.
         ret (Inl \<lparr>sr_inode = nullptr, sr_lastInode = last_inode, sr_end_index = Some last_separator, sr_status = st\<rparr>, s))
       else ret (Inr c, s))
     else
       bindP (system_get s fs) (\<lambda>f.
       bindP (find_root s name (m_rootInodes f)) (\<lambda>r.
       bindP (kernel_do (fs_kfree A buf) s) (\<lambda>s.
       case r of
         None \<Rightarrow>
           ret (Inl \<lparr>sr_inode = nullptr, sr_lastInode = last_inode, sr_end_index = Some last_separator, sr_status = Some (- ENOSYS)\<rparr>, s)
       | Some r \<Rightarrow> ret (Inr r, s)))))"

definition GetSubInode :: "'k fs_ops \<Rightarrow> ptr \<Rightarrow> ptr \<Rightarrow> string option \<Rightarrow> 'k tempfs \<Rightarrow> (sub_result \<times> 'k tempfs) prog" where
  "GetSubInode A fs parent path s =
     (case path of
        None \<Rightarrow> ret (\<lparr>sr_inode = nullptr, sr_lastInode = nullptr, sr_end_index = None, sr_status = Some (- EFAULT)\<rparr>, s)
      | Some path \<Rightarrow>
          let (cs, i, last_separator) =
            (case path of c # cs \<Rightarrow> if c = PATH_SEPARATOR then (cs, 1, 0) else (path, 0, - 1) | [] \<Rightarrow> (path, 0, - 1)) in
          bindP (walk_loop A fs path cs i last_separator parent s) (\<lambda>(r, s).
          case r of
            Inl x \<Rightarrow> ret (x, s)
          | Inr (i, last_separator, last_inode) \<Rightarrow>
              bindP (if last_separator < i \<and> i - last_separator > 1
                     then walk_last A fs (drop (nat (last_separator + 1)) path) i last_separator last_inode s
                     else ret (Inr last_inode, s)) (\<lambda>(r, s).
              case r of
                Inl x \<Rightarrow> ret (x, s)
              | Inr last_inode \<Rightarrow>
                  ret (\<lparr>sr_inode = last_inode, sr_lastInode = last_inode, sr_end_index = Some i,
                    sr_status = (if last_inode = nullptr then Some (- ENOENT) else None)\<rparr>, s))))"

definition GetInode :: "'k fs_ops \<Rightarrow> ptr \<Rightarrow> string option \<Rightarrow> 'k tempfs \<Rightarrow> (sub_result \<times> 'k tempfs) prog" where
  "GetInode A fs path s = GetSubInode A fs nullptr path s"

section \<open>Operations by path\<close>

text \<open>A parent that does not exist: \<open>CreateFile\<close> returns false, which is the value of success.\<close>

definition CreateFile ::
  "'k fs_ops \<Rightarrow> ptr \<Rightarrow> FilePrivilegeLevel \<Rightarrow> string option \<Rightarrow> string option \<Rightarrow> u64 \<Rightarrow> bool \<Rightarrow> FilePrivilegeLevel \<Rightarrow> 'k tempfs \<Rightarrow> (int \<times> 'k tempfs) prog" where
  "CreateFile A fs current_privilege parent name sz inherit_permissions privilege s =
     (if name = None then ret (- EFAULT, s)
      else
        bindP (GetInode A fs parent s) (\<lambda>(r, s).
        if sr_inode r = nullptr \<and> parent \<noteq> None then ret (0, s)
        else CreateFile_in A fs current_privilege (sr_inode r) name sz inherit_permissions privilege s))"

definition CreateFolder ::
  "'k fs_ops \<Rightarrow> ptr \<Rightarrow> FilePrivilegeLevel \<Rightarrow> string option \<Rightarrow> string option \<Rightarrow> bool \<Rightarrow> FilePrivilegeLevel \<Rightarrow> 'k tempfs \<Rightarrow> (int \<times> 'k tempfs) prog" where
  "CreateFolder A fs current_privilege parent name inherit_permissions privilege s =
     (if name = None then ret (- EFAULT, s)
      else
        bindP (GetInode A fs parent s) (\<lambda>(r, s).
        if sr_inode r = nullptr \<and> parent \<noteq> None then ret (- ENOENT, s)
        else CreateFolder_in A fs current_privilege (sr_inode r) name inherit_permissions privilege s))"

definition CreateSymLink ::
  "'k fs_ops \<Rightarrow> ptr \<Rightarrow> FilePrivilegeLevel \<Rightarrow> string option \<Rightarrow> string option \<Rightarrow> string option \<Rightarrow> bool \<Rightarrow> FilePrivilegeLevel \<Rightarrow> 'k tempfs \<Rightarrow> (int \<times> 'k tempfs) prog" where
  "CreateSymLink A fs current_privilege parent name target inherit_permissions privilege s =
     (case name of
        None \<Rightarrow> ret (- EFAULT, s)
      | Some name \<Rightarrow>
          bindP (GetInode A fs parent s) (\<lambda>(r, s).
          if sr_inode r = nullptr \<and> parent \<noteq> None then ret (- ENOENT, s)
          else
            bindP (GetInode A fs target s) (\<lambda>(q, s).
            if sr_inode q = nullptr then ret (- ENOENT, s)
            else
              bindP (parent_privilege fs (sr_inode r) s) (\<lambda>parent_priv.
              if write_denied current_privilege parent_priv then ret (- EACCES, s)
              else
                bindP (create_inode A fs (sr_inode r) name SymLink (sr_inode q) inherit_permissions parent_priv privilege s) (\<lambda>((rc, _), s).
                if rc < 0 then ret (rc, s) else ret (ESUCCESS, s))))))"

section \<open>Deletion\<close>

definition DeleteInode_in :: "'k fs_ops \<Rightarrow> ptr \<Rightarrow> FilePrivilegeLevel \<Rightarrow> ptr \<Rightarrow> bool \<Rightarrow> bool \<Rightarrow> 'k tempfs \<Rightarrow> (int \<times> 'k tempfs) prog" where
  "DeleteInode_in A fs current_privilege inode recursive delete_name s =
     (if inode = nullptr then ret (- EFAULT, s)
      else
        bindP (GetParent inode s) (\<lambda>((parent, _), s).
        bindP (parent_privilege fs parent s) (\<lambda>parent_priv.
        if (if GID current_privilege = GID parent_priv \<and> UID current_privilege \<noteq> UID parent_priv
            then \<not> (ACL parent_priv AND ACL_GROUP_WRITE) > 0
            else UID current_privilege \<noteq> UID parent_priv \<and> \<not> (ACL parent_priv AND ACL_OTHER_WRITE) > 0) then ret (- EACCES, s)
        else
          bindP (GetChildCount inode s) (\<lambda>(count, s).
          if count > 0 \<and> \<not> recursive then ret (- ENOTEMPTY, s)
          else
            bindP (Inode_Delete A inode False delete_name s) (\<lambda>(rc, s).
            if rc < 0 then ret (rc, s)
            else bindP (delete_inode A inode s) (\<lambda>s. ret (ESUCCESS, s)))))))"

definition DeleteInode :: "'k fs_ops \<Rightarrow> ptr \<Rightarrow> FilePrivilegeLevel \<Rightarrow> string option \<Rightarrow> bool \<Rightarrow> bool \<Rightarrow> 'k tempfs \<Rightarrow> (int option \<times> 'k tempfs) prog" where
  "DeleteInode A fs current_privilege path recursive delete_name s =
     (if path = None then ret (Some (- EFAULT), s)
      else
        bindP (GetInode A fs path s) (\<lambda>(r, s).
        if sr_inode r = nullptr then ret (sr_status r, s)
        else bindP (DeleteInode_in A fs current_privilege (sr_inode r) recursive delete_name s) (\<lambda>(rc, s). ret (Some rc, s))))"

text \<open>\<open>DestroyFileSystem\<close> holds the lock of the root inodes while it deletes them.\<close>

partial_function (option) destroy_loop :: "'k fs_ops \<Rightarrow> ptr \<Rightarrow> nat \<Rightarrow> 'k tempfs \<Rightarrow> 'k tempfs prog" where
  "destroy_loop A fs i s =
     bindP (system_get s fs) (\<lambda>f.
     if i < length (m_rootInodes f) then
       bindP (if hd (m_rootInodes f) \<noteq> nullptr then
                bindP (Inode_Delete A (hd (m_rootInodes f)) False False s) (\<lambda>r. delete_inode A (hd (m_rootInodes f)) (snd r))
              else ret s)
         (destroy_loop A fs (i + 1))
     else ret s)"

definition DestroyFileSystem :: "'k fs_ops \<Rightarrow> ptr \<Rightarrow> 'k tempfs \<Rightarrow> (int \<times> 'k tempfs) prog" where
  "DestroyFileSystem A fs s =
     bindP (system_get s fs) (\<lambda>f.
     bindP (spinlock_acquire (m_rootInodes_lock f)) (\<lambda>l.
     bindP (destroy_loop A fs 0 (s\<lparr>tf_systems := (tf_systems s)(fs \<mapsto> f\<lparr>m_rootInodes_lock := l\<rparr>)\<rparr>)) (\<lambda>s.
     bindP (system_get s fs) (\<lambda>f.
     ret (ESUCCESS, s\<lparr>tf_systems := (tf_systems s)(fs \<mapsto> f\<lparr>m_rootInodes_lock := spinlock_release True\<rparr>)\<rparr>)))))"

section \<open>Root inodes\<close>

definition TempFileSystem_make :: "u64 \<Rightarrow> FilePrivilegeLevel \<Rightarrow> TempFileSystem" where
  "TempFileSystem_make blockSize rootPrivilege =
     \<lparr>fs_blockSize = blockSize, m_rootPrivilege = rootPrivilege, m_rootInodes = [], m_rootInodes_lock = False\<rparr>"

definition GetRootInode :: "ptr \<Rightarrow> u64 \<Rightarrow> 'k tempfs \<Rightarrow> ((ptr \<times> int option) \<times> 'k tempfs) prog" where
  "GetRootInode fs index =
     with_roots fs (\<lambda>rs. ret (if unat index \<ge> length rs then (nullptr, Some (- EINVAL))
       else (rs ! unat index, if rs ! unat index = nullptr then Some (- ENOSYS) else None), rs))"

definition GetRootInodeCount :: "ptr \<Rightarrow> 'k tempfs \<Rightarrow> (nat \<times> 'k tempfs) prog" where
  "GetRootInodeCount fs = with_roots fs (\<lambda>rs. ret (length rs, rs))"

definition GetRootPrivilege :: "TempFileSystem \<Rightarrow> FilePrivilegeLevel" where
  "GetRootPrivilege f = m_rootPrivilege f"

end
