(* ===== verification/FileStream.thy ===== *)
theory FileStream
  imports TempFileSystem
begin

unbundle bit_operations_syntax

text \<open>
  Open files and open directories: src/kernel/src/fs/FileStream.cpp and DirectoryStream.cpp, over the store \<open>'k vfs\<close> of the virtual
  file system (VFS.hpp). Mount points, streams and the saved read heads are objects at addresses; the in-memory file system is the
  field \<open>v_tmp\<close>. A stream keeps its own head: every operation locks the inode, loads the head into it, works on the inode and saves
  the head again. A status that the code leaves unset is None.
\<close>

section \<open>State\<close>

datatype FileSystemType = FST_VFS | FST_TMPFS

record VFS_MountPoint =
  mp_type :: FileSystemType
  mp_fs :: ptr
  mp_RootInode :: ptr
  mp_parent :: ptr

record VFS_WorkingDirectory =
  wd_mountpoint :: ptr
  wd_inode :: ptr

record FileStream =
  st_open :: bool
  st_inode :: ptr
  st_inode_state :: ptr
  st_mountPoint :: ptr
  st_modes :: u8
  st_privilege :: FilePrivilegeLevel
  st_lock :: spinlock_t

record DirectoryStream =
  ds_inode :: ptr
  ds_privilege :: FilePrivilegeLevel
  ds_fs_type :: FileSystemType
  ds_fs :: ptr
  ds_index :: int
  ds_isOpen :: bool
  ds_lock :: spinlock_t

record 'k vfs =
  v_tmp :: "'k tempfs"
  v_points :: "ptr \<rightharpoonup> VFS_MountPoint"
  v_files :: "ptr \<rightharpoonup> FileStream"
  v_dirs :: "ptr \<rightharpoonup> DirectoryStream"
  v_heads :: "ptr \<rightharpoonup> Head"
  m_root :: ptr
  m_mountPoints :: "ptr list"
  m_mountPoints_lock :: spinlock_t
  m_streams :: "ptr list"
  m_streams_lock :: spinlock_t
  m_directoryStreams :: "ptr list"
  m_directoryStreams_lock :: spinlock_t

abbreviation VFS_READ :: u8 where "VFS_READ \<equiv> 1"
abbreviation VFS_WRITE :: u8 where "VFS_WRITE \<equiv> 2"

text \<open>A call into the in-memory file system.\<close>

definition tmp_call :: "('k tempfs \<Rightarrow> ('a \<times> 'k tempfs) prog) \<Rightarrow> 'k vfs \<Rightarrow> ('a \<times> 'k vfs) prog" where
  "tmp_call f v = bindP (f (v_tmp v)) (\<lambda>(x, s). ret (x, v\<lparr>v_tmp := s\<rparr>))"

section \<open>File streams\<close>

definition FileStream_make :: "ptr \<Rightarrow> ptr \<Rightarrow> u8 \<Rightarrow> FilePrivilegeLevel \<Rightarrow> FileStream" where
  "FileStream_make inode mountPoint modes privilege = \<lparr>st_open = False, st_inode = inode, st_inode_state = nullptr, st_mountPoint = mountPoint,
     st_modes = modes, st_privilege = privilege, st_lock = False\<rparr>"

text \<open>A method that runs under the lock of the stream at \<open>this\<close>.\<close>

definition with_stream ::
  "ptr \<Rightarrow> (FileStream \<Rightarrow> 'k vfs \<Rightarrow> ('r \<times> FileStream \<times> 'k vfs) prog) \<Rightarrow> 'k vfs \<Rightarrow> ('r \<times> 'k vfs) prog" where
  "with_stream this f v =
     bindP (deref (v_files v) this) (\<lambda>st.
     bindP (spinlock_acquire (st_lock st)) (\<lambda>l.
     bindP (f (st\<lparr>st_lock := l\<rparr>) v) (\<lambda>(r, st, v).
     ret (r, v\<lparr>v_files := (v_files v)(this \<mapsto> st\<lparr>st_lock := spinlock_release (st_lock st)\<rparr>)\<rparr>))))"

definition is_file :: "'k vfs \<Rightarrow> ptr \<Rightarrow> bool prog" where
  "is_file v inode = (if inode = nullptr then ret False else bindP (Inode_GetType (v_tmp v) inode) (\<lambda>ty. ret (ty = File)))"

definition inode_Lock :: "ptr \<Rightarrow> 'k tempfs \<Rightarrow> 'k tempfs prog" where
  "inode_Lock p s = bindP (inode_get s p) (\<lambda>n. bindP (Inode_Lock n) (\<lambda>n. ret (inode_put p n s)))"

definition inode_Unlock :: "ptr \<Rightarrow> 'k tempfs \<Rightarrow> 'k tempfs prog" where
  "inode_Unlock p s = bindP (inode_get s p) (\<lambda>n. ret (inode_put p (Inode_Unlock n) s))"

definition inode_SetCurrentHead :: "ptr \<Rightarrow> Head \<Rightarrow> 'k tempfs \<Rightarrow> 'k tempfs prog" where
  "inode_SetCurrentHead p h s = bindP (inode_get s p) (\<lambda>n. ret (inode_put p (SetCurrentHead h n) s))"

definition inode_GetCurrentHead :: "ptr \<Rightarrow> 'k tempfs \<Rightarrow> Head prog" where
  "inode_GetCurrentHead p s = bindP (inode_get s p) (\<lambda>n. ret (GetCurrentHead n))"

text \<open>Up to the call on the inode: lock it and load the head at \<open>hp\<close>.\<close>

definition load_head :: "ptr \<Rightarrow> ptr \<Rightarrow> 'k vfs \<Rightarrow> 'k vfs prog" where
  "load_head inode hp v =
     bindP (inode_Lock inode (v_tmp v)) (\<lambda>s.
     bindP (deref (v_heads v) hp) (\<lambda>h.
     bindP (inode_SetCurrentHead inode h s) (\<lambda>s. ret (v\<lparr>v_tmp := s\<rparr>))))"

text \<open>After the call: save the head and unlock the inode.\<close>

definition save_head :: "ptr \<Rightarrow> ptr \<Rightarrow> 'k vfs \<Rightarrow> 'k vfs prog" where
  "save_head inode hp v =
     bindP (inode_GetCurrentHead inode (v_tmp v)) (\<lambda>h.
     bindP (deref (v_heads v) hp) (\<lambda>_.
     bindP (inode_Unlock inode (v_tmp v)) (\<lambda>s. ret (v\<lparr>v_tmp := s, v_heads := (v_heads v)(hp \<mapsto> h)\<rparr>))))"

text \<open>A call \<open>f\<close> on the inode between the two, when the stream is one of a file of an in-memory file system. \<open>err\<close> makes the
  result for an error code.\<close>

definition stream_call ::
  "(int \<Rightarrow> 'r) \<Rightarrow> (ptr \<Rightarrow> 'k tempfs \<Rightarrow> ('r \<times> 'k tempfs) prog) \<Rightarrow> FileStream \<Rightarrow> 'k vfs \<Rightarrow> ('r \<times> FileStream \<times> 'k vfs) prog" where
  "stream_call err f st v =
     bindP (deref (v_points v) (st_mountPoint st)) (\<lambda>mp.
     case mp_type mp of
       FST_TMPFS \<Rightarrow>
         bindP (is_file v (st_inode st)) (\<lambda>isf.
         if \<not> isf then ret (err (- EISDIR), st, v)
         else
           bindP (load_head (st_inode st) (st_inode_state st) v) (\<lambda>v.
           bindP (tmp_call (f (st_inode st)) v) (\<lambda>(r, v).
           bindP (save_head (st_inode st) (st_inode_state st) v) (\<lambda>v. ret (r, st, v)))))
     | FST_VFS \<Rightarrow> ret (err (- ENODEV), st, v))"

definition FileStream_Open :: "'k fs_ops \<Rightarrow> ptr \<Rightarrow> 'k vfs \<Rightarrow> (int \<times> 'k vfs) prog" where
  "FileStream_Open A this = with_stream this (\<lambda>st v.
     if st_open st then ret (ESUCCESS, st, v)
     else if st_mountPoint st = nullptr then ret (- ENODEV, st, v)
     else
       bindP (deref (v_points v) (st_mountPoint st)) (\<lambda>mp.
       case mp_type mp of
         FST_VFS \<Rightarrow> ret (- ENODEV, st, v)
       | FST_TMPFS \<Rightarrow>
           bindP (is_file v (st_inode st)) (\<lambda>isf.
           if \<not> isf then ret (- EISDIR, st, v)
           else
             bindP (inode_Lock (st_inode st) (v_tmp v)) (\<lambda>s.
             bindP (inode_SetCurrentHead (st_inode st)
               \<lparr>CurrentOffset = 0, hd_isOpen = False, currentBlock = nullptr, currentBlockIndex = 0, currentBlockOffset = 0\<rparr> s) (\<lambda>s.
             bindP (Open (st_inode st) s) (\<lambda>(rc, s).
             if rc < 0 then bindP (inode_Unlock (st_inode st) s) (\<lambda>s. ret (- ENOSYS, st, v\<lparr>v_tmp := s\<rparr>))
             else
               bindP (inode_GetCurrentHead (st_inode st) s) (\<lambda>h.
               bindP (kernel_call (fs_new A) s) (\<lambda>(hp, s).
               bindP (inode_Unlock (st_inode st) s) (\<lambda>s.
               if hp = nullptr then ret (- ENOMEM, st, v\<lparr>v_tmp := s\<rparr>)
               else ret (ESUCCESS, st\<lparr>st_inode_state := hp, st_open := True\<rparr>, v\<lparr>v_tmp := s, v_heads := (v_heads v)(hp \<mapsto> h)\<rparr>))))))))))"

definition FileStream_Close :: "'k fs_ops \<Rightarrow> ptr \<Rightarrow> 'k vfs \<Rightarrow> (int \<times> 'k vfs) prog" where
  "FileStream_Close A this = with_stream this (\<lambda>st v.
     if \<not> st_open st then ret (ESUCCESS, st, v)
     else if st_mountPoint st = nullptr then ret (- ENODEV, st, v)
     else
       bindP (deref (v_points v) (st_mountPoint st)) (\<lambda>mp.
       case mp_type mp of
         FST_VFS \<Rightarrow> ret (- ENODEV, st, v)
       | FST_TMPFS \<Rightarrow>
           bindP (is_file v (st_inode st)) (\<lambda>isf.
           if \<not> isf then ret (- EISDIR, st, v)
           else
             bindP (load_head (st_inode st) (st_inode_state st) v) (\<lambda>v.
             bindP (tmp_call (Close (st_inode st)) v) (\<lambda>(rc, v).
             bindP (inode_Unlock (st_inode st) (v_tmp v)) (\<lambda>s.
             bindP (kernel_do (fs_delete A (st_inode_state st)) s) (\<lambda>s.
             ret (rc, st\<lparr>st_open := False\<rparr>, v\<lparr>v_tmp := s, v_heads := (v_heads v)(st_inode_state st := None)\<rparr>))))))))"

text \<open>\<open>delete stream\<close> runs the destructor, which closes the stream.\<close>

definition delete_stream :: "'k fs_ops \<Rightarrow> ptr \<Rightarrow> 'k vfs \<Rightarrow> 'k vfs prog" where
  "delete_stream A this v =
     bindP (FileStream_Close A this v) (\<lambda>(_, v).
     bindP (kernel_do (fs_delete A this) (v_tmp v)) (\<lambda>s. ret (v\<lparr>v_tmp := s, v_files := (v_files v)(this := None)\<rparr>)))"

definition FileStream_ReadStream :: "ptr \<Rightarrow> u8 list option \<Rightarrow> int \<Rightarrow> 'k vfs \<Rightarrow> ((int \<times> int option \<times> u8 list option) \<times> 'k vfs) prog" where
  "FileStream_ReadStream this bytes count v =
     (if count < 0 then ret ((- EINVAL, None, bytes), v)
      else with_stream this (\<lambda>st v.
        if st_mountPoint st = nullptr then ret ((- ENODEV, None, bytes), st, v)
        else if st_modes st AND VFS_READ = 0 then ret ((- EACCES, None, bytes), st, v)
        else stream_call (\<lambda>e. (e, None, bytes)) (\<lambda>inode. ReadStream inode (st_privilege st) bytes count) st v) v)"

definition FileStream_WriteStream :: "'k fs_ops \<Rightarrow> ptr \<Rightarrow> u8 list option \<Rightarrow> int \<Rightarrow> 'k vfs \<Rightarrow> ((int \<times> int option) \<times> 'k vfs) prog" where
  "FileStream_WriteStream A this bytes count v =
     (if count < 0 then ret ((- EINVAL, None), v)
      else with_stream this (\<lambda>st v.
        if st_mountPoint st = nullptr then ret ((- ENODEV, None), st, v)
        else if st_modes st AND VFS_WRITE = 0 then ret ((- EACCES, None), st, v)
        else stream_call (\<lambda>e. (e, None)) (\<lambda>inode. WriteStream A inode (st_privilege st) bytes count) st v) v)"

definition FileStream_Seek :: "ptr \<Rightarrow> int \<Rightarrow> 'k vfs \<Rightarrow> (int \<times> 'k vfs) prog" where
  "FileStream_Seek this offset v =
     (if offset < 0 then ret (- EINVAL, v)
      else bindP (with_stream this (\<lambda>st v.
        if st_mountPoint st = nullptr then ret (- ENODEV, st, v)
        else stream_call id (\<lambda>inode. Seek inode offset) st v) v) (\<lambda>(rc, v).
      ret (if rc < 0 then rc else ESUCCESS, v)))"

definition FileStream_Rewind :: "ptr \<Rightarrow> 'k vfs \<Rightarrow> (int \<times> 'k vfs) prog" where
  "FileStream_Rewind this v =
     bindP (with_stream this (\<lambda>st v.
       if st_mountPoint st = nullptr then ret (- ENODEV, st, v)
       else stream_call id (\<lambda>inode. Rewind inode) st v) v) (\<lambda>(rc, v).
     ret (if rc < 0 then rc else ESUCCESS, v))"

text \<open>The two functions that look at a field of the inode load the head and do not save it.\<close>

definition stream_field :: "(TempFSInode \<Rightarrow> 'a) \<Rightarrow> (int \<Rightarrow> 'r) \<Rightarrow> ('a \<Rightarrow> 'r) \<Rightarrow> ptr \<Rightarrow> 'k vfs \<Rightarrow> ('r \<times> 'k vfs) prog" where
  "stream_field fld err ok this = with_stream this (\<lambda>st v.
     if st_mountPoint st = nullptr then ret (err (- ENODEV), st, v)
     else
       bindP (is_file v (st_inode st)) (\<lambda>isf.
       if \<not> isf then ret (err (- EISDIR), st, v)
       else
         bindP (deref (v_points v) (st_mountPoint st)) (\<lambda>mp.
         case mp_type mp of
           FST_VFS \<Rightarrow> ret (err (- ENODEV), st, v)
         | FST_TMPFS \<Rightarrow>
             bindP (load_head (st_inode st) (st_inode_state st) v) (\<lambda>v.
             bindP (inode_get (v_tmp v) (st_inode st)) (\<lambda>n.
             bindP (inode_Unlock (st_inode st) (v_tmp v)) (\<lambda>s. ret (ok (fld n), st, v\<lparr>v_tmp := s\<rparr>)))))))"

definition FileStream_GetOffset :: "ptr \<Rightarrow> 'k vfs \<Rightarrow> (int \<times> 'k vfs) prog" where
  "FileStream_GetOffset = stream_field p_CurrentOffset id id"

definition FileStream_isOpen :: "ptr \<Rightarrow> 'k vfs \<Rightarrow> ((bool \<times> int) \<times> 'k vfs) prog" where
  "FileStream_isOpen = stream_field p_isOpen (\<lambda>e. (False, e)) (\<lambda>b. (b, ESUCCESS))"

text \<open>\<open>GetSize\<close> does not look for a missing mount point.\<close>

definition FileStream_GetSize :: "ptr \<Rightarrow> 'k vfs \<Rightarrow> ((u64 \<times> int option) \<times> 'k vfs) prog" where
  "FileStream_GetSize this = with_stream this (\<lambda>st v.
     bindP (is_file v (st_inode st)) (\<lambda>isf.
     if \<not> isf then ret ((0, Some (- EISDIR)), st, v)
     else
       bindP (deref (v_points v) (st_mountPoint st)) (\<lambda>mp.
       case mp_type mp of
         FST_VFS \<Rightarrow> ret ((0, Some (- ENODEV)), st, v)
       | FST_TMPFS \<Rightarrow>
           bindP (inode_Lock (st_inode st) (v_tmp v)) (\<lambda>s.
           bindP (Inode_GetSize (st_inode st) s) (\<lambda>(r, s).
           bindP (inode_Unlock (st_inode st) s) (\<lambda>s. ret (r, st, v\<lparr>v_tmp := s\<rparr>)))))))"

text \<open>\<open>GetFileSystem\<close> returns with the lock held when there is a mount point.\<close>

definition FileStream_GetFileSystem :: "ptr \<Rightarrow> 'k vfs \<Rightarrow> ((ptr \<times> int) \<times> 'k vfs) prog" where
  "FileStream_GetFileSystem this v =
     bindP (deref (v_files v) this) (\<lambda>st.
     bindP (spinlock_acquire (st_lock st)) (\<lambda>l.
     if st_mountPoint st = nullptr
     then ret ((nullptr, - ENODEV), v\<lparr>v_files := (v_files v)(this \<mapsto> st\<lparr>st_lock := spinlock_release l\<rparr>)\<rparr>)
     else bindP (deref (v_points v) (st_mountPoint st)) (\<lambda>mp.
       ret ((mp_fs mp, ESUCCESS), v\<lparr>v_files := (v_files v)(this \<mapsto> st\<lparr>st_lock := l\<rparr>)\<rparr>))))"

section \<open>Directory streams\<close>

definition DirectoryStream_make :: "ptr \<Rightarrow> FilePrivilegeLevel \<Rightarrow> FileSystemType \<Rightarrow> ptr \<Rightarrow> DirectoryStream" where
  "DirectoryStream_make inode privilege fs_type fs = \<lparr>ds_inode = inode, ds_privilege = privilege, ds_fs_type = fs_type, ds_fs = fs,
     ds_index = 0, ds_isOpen = False, ds_lock = False\<rparr>"

definition with_dir ::
  "ptr \<Rightarrow> (DirectoryStream \<Rightarrow> 'k vfs \<Rightarrow> ('r \<times> DirectoryStream \<times> 'k vfs) prog) \<Rightarrow> 'k vfs \<Rightarrow> ('r \<times> 'k vfs) prog" where
  "with_dir this f v =
     bindP (deref (v_dirs v) this) (\<lambda>ds.
     bindP (spinlock_acquire (ds_lock ds)) (\<lambda>l.
     bindP (f (ds\<lparr>ds_lock := l\<rparr>) v) (\<lambda>(r, ds, v).
     ret (r, v\<lparr>v_dirs := (v_dirs v)(this \<mapsto> ds\<lparr>ds_lock := spinlock_release (ds_lock ds)\<rparr>)\<rparr>))))"

text \<open>Here the roles in the test are swapped: a folder of the root user may be read by everyone who may read it as its owner.\<close>

definition DirectoryStream_Open :: "ptr \<Rightarrow> 'k vfs \<Rightarrow> (int \<times> 'k vfs) prog" where
  "DirectoryStream_Open this = with_dir this (\<lambda>ds v.
     if ds_isOpen ds then ret (ESUCCESS, ds, v)
     else if ds_inode ds = nullptr \<and> ds_fs ds = nullptr then ret (- ENOSYS, ds, v)
     else
       bindP (if ds_inode ds \<noteq> nullptr then bindP (Inode_GetType (v_tmp v) (ds_inode ds)) (\<lambda>ty. ret (ty \<noteq> Folder)) else ret False) (\<lambda>notdir.
       if notdir then ret (- ENOTDIR, ds, v)
       else
         bindP (if ds_inode ds \<noteq> nullptr then bindP (inode_get (v_tmp v) (ds_inode ds)) (\<lambda>n. ret (GetPrivilegeLevel n))
                else bindP (system_get (v_tmp v) (ds_fs ds)) (\<lambda>f. ret (GetRootPrivilege f))) (\<lambda>privilege.
         if (if UID privilege = UID (ds_privilege ds) \<or> UID privilege = 0 then \<not> (ACL privilege AND ACL_USER_READ) > 0
             else if GID privilege = GID (ds_privilege ds) then \<not> (ACL privilege AND ACL_GROUP_READ) > 0
             else \<not> (ACL privilege AND ACL_OTHER_READ) > 0) then ret (- EACCES, ds, v)
         else ret (ESUCCESS, ds\<lparr>ds_index := 0, ds_isOpen := True\<rparr>, v))))"

definition DirectoryStream_Close :: "ptr \<Rightarrow> 'k vfs \<Rightarrow> (int \<times> 'k vfs) prog" where
  "DirectoryStream_Close this = with_dir this (\<lambda>ds v. ret (ESUCCESS, ds\<lparr>ds_isOpen := False\<rparr>, v))"

text \<open>\<open>Seek\<close> returns with the lock held when it succeeds, and does not look for a null inode.\<close>

definition DirectoryStream_Seek :: "ptr \<Rightarrow> int \<Rightarrow> 'k vfs \<Rightarrow> (int \<times> 'k vfs) prog" where
  "DirectoryStream_Seek this index v =
     (if index < 0 then ret (- EINVAL, v)
      else
        bindP (deref (v_dirs v) this) (\<lambda>ds.
        bindP (spinlock_acquire (ds_lock ds)) (\<lambda>l.
        if \<not> ds_isOpen ds then ret (- EBADF, v\<lparr>v_dirs := (v_dirs v)(this \<mapsto> ds\<lparr>ds_lock := spinlock_release l\<rparr>)\<rparr>)
        else
          bindP (tmp_call (GetChildCount (ds_inode ds)) v) (\<lambda>(n, v).
          if nat index \<ge> n then ret (- EINVAL, v\<lparr>v_dirs := (v_dirs v)(this \<mapsto> ds\<lparr>ds_lock := spinlock_release l\<rparr>)\<rparr>)
          else ret (ESUCCESS, v\<lparr>v_dirs := (v_dirs v)(this \<mapsto> ds\<lparr>ds_index := index, ds_lock := l\<rparr>)\<rparr>)))))"

definition GetNextInode :: "ptr \<Rightarrow> 'k vfs \<Rightarrow> ((ptr \<times> int) \<times> 'k vfs) prog" where
  "GetNextInode this = with_dir this (\<lambda>ds v.
     if \<not> ds_isOpen ds then ret ((nullptr, - EBADF), ds, v)
     else if ds_inode ds \<noteq> nullptr then
       bindP (tmp_call (GetChildCount (ds_inode ds)) v) (\<lambda>(n, v).
       if unat (of_int (ds_index ds) :: u64) \<ge> n then ret ((nullptr, - EINVAL), ds, v)
       else
         bindP (tmp_call (GetChild_index (ds_inode ds) (of_int (ds_index ds))) v) (\<lambda>((c, _), v).
         ret ((c, ESUCCESS), ds\<lparr>ds_index := ds_index ds + 1\<rparr>, v)))
     else if ds_fs ds \<noteq> nullptr then
       bindP (tmp_call (GetRootInodeCount (ds_fs ds)) v) (\<lambda>(n, v).
       if unat (of_int (ds_index ds) :: u64) \<ge> n then ret ((nullptr, - EINVAL), ds, v)
       else
         bindP (tmp_call (GetRootInode (ds_fs ds) (of_int (ds_index ds))) v) (\<lambda>((c, _), v).
         ret ((c, ESUCCESS), ds\<lparr>ds_index := ds_index ds + 1\<rparr>, v)))
     else ret ((nullptr, - ENOSYS), ds, v))"

definition delete_dir :: "'k fs_ops \<Rightarrow> ptr \<Rightarrow> 'k vfs \<Rightarrow> 'k vfs prog" where
  "delete_dir A this v =
     bindP (kernel_do (fs_delete A this) (v_tmp v)) (\<lambda>s. ret (v\<lparr>v_tmp := s, v_dirs := (v_dirs v)(this := None)\<rparr>))"

end
