(* ===== verification/VFS.thy ===== *)
theory VFS
  imports FileStream
begin

unbundle bit_operations_syntax

text \<open>
  The virtual file system, src/kernel/src/fs/VFS.cpp: the mount points, the walk of a path across them, and the operations by path,
  which end in the in-memory file system that is mounted there. The streams handed out are kept in two lists. \<open>GetMountPoint\<close> passes
  what is left of a path on to the next file system until one of them has found the inode.
\<close>

section \<open>Mount points\<close>

text \<open>A section under the lock of the list of mount points.\<close>

definition with_mountPoints :: "(ptr list \<Rightarrow> ('a \<times> ptr list) prog) \<Rightarrow> 'k vfs \<Rightarrow> ('a \<times> 'k vfs) prog" where
  "with_mountPoints f v =
     bindP (spinlock_acquire (m_mountPoints_lock v)) (\<lambda>_.
     bindP (f (m_mountPoints v)) (\<lambda>(x, ms). ret (x, v\<lparr>m_mountPoints := ms, m_mountPoints_lock := spinlock_release True\<rparr>)))"

text \<open>The search for a mount point: null when there is none, None when the list holds a null pointer.\<close>

primrec find_point :: "'k vfs \<Rightarrow> (VFS_MountPoint \<Rightarrow> bool) \<Rightarrow> ptr list \<Rightarrow> ptr option prog" where
  "find_point v P [] = ret (Some nullptr)"
| "find_point v P (m # ms) =
     (if m = nullptr then ret None
      else bindP (deref (v_points v) m) (\<lambda>mp. if P mp then ret (Some m) else find_point v P ms))"

definition search_point :: "(VFS_MountPoint \<Rightarrow> bool) \<Rightarrow> 'k vfs \<Rightarrow> (ptr option \<times> 'k vfs) prog" where
  "search_point P v = with_mountPoints (\<lambda>ms. bindP (find_point v P ms) (\<lambda>r. ret (r, ms))) v"

text \<open>\<open>new VFS_MountPoint\<close> and \<open>new TempFileSystem\<close>.\<close>

definition new_MountPoint :: "'k fs_ops \<Rightarrow> VFS_MountPoint \<Rightarrow> 'k vfs \<Rightarrow> (ptr \<times> 'k vfs) prog" where
  "new_MountPoint A mp v =
     bindP (kernel_call (fs_new A) (v_tmp v)) (\<lambda>(p, s).
     if p = nullptr then stop NullDeref else ret (p, v\<lparr>v_tmp := s, v_points := (v_points v)(p \<mapsto> mp)\<rparr>))"

definition delete_MountPoint :: "'k fs_ops \<Rightarrow> ptr \<Rightarrow> 'k vfs \<Rightarrow> 'k vfs prog" where
  "delete_MountPoint A p v =
     bindP (kernel_do (fs_delete A p) (v_tmp v)) (\<lambda>s. ret (v\<lparr>v_tmp := s, v_points := (v_points v)(p := None)\<rparr>))"

definition new_TempFileSystem :: "'k fs_ops \<Rightarrow> FilePrivilegeLevel \<Rightarrow> 'k vfs \<Rightarrow> (ptr \<times> 'k vfs) prog" where
  "new_TempFileSystem A privilege v =
     bindP (kernel_call (fs_new A) (v_tmp v)) (\<lambda>(p, s).
     if p = nullptr then stop NullDeref
     else ret (p, v\<lparr>v_tmp := s\<lparr>tf_systems := (tf_systems s)(p \<mapsto> TempFileSystem_make 4096 privilege)\<rparr>\<rparr>))"

definition VFS_make :: "'k tempfs \<Rightarrow> 'k vfs" where
  "VFS_make s = \<lparr>v_tmp = s, v_points = (\<lambda>_. None), v_files = (\<lambda>_. None), v_dirs = (\<lambda>_. None), v_heads = (\<lambda>_. None), m_root = nullptr,
     m_mountPoints = [], m_mountPoints_lock = False, m_streams = [], m_streams_lock = False, m_directoryStreams = [], m_directoryStreams_lock = False\<rparr>"

text \<open>For an unknown type the mount point is deleted and stays in \<open>m_root\<close>.\<close>

definition MountRoot :: "'k fs_ops \<Rightarrow> FileSystemType \<Rightarrow> 'k vfs \<Rightarrow> (int \<times> 'k vfs) prog" where
  "MountRoot A ty v =
     bindP (new_MountPoint A \<lparr>mp_type = ty, mp_fs = nullptr, mp_RootInode = nullptr, mp_parent = nullptr\<rparr> v) (\<lambda>(p, v).
     let v = v\<lparr>m_root := p\<rparr> in
     case ty of
       FST_TMPFS \<Rightarrow>
         bindP (new_TempFileSystem A \<lparr>UID = 0, GID = 0, ACL = 493\<rparr> v) (\<lambda>(fs, v).
         let v = v\<lparr>v_points := (v_points v)(p \<mapsto> \<lparr>mp_type = ty, mp_fs = fs, mp_RootInode = nullptr, mp_parent = nullptr\<rparr>)\<rparr> in
         bindP (with_mountPoints (\<lambda>ms. ret ((), ms @ [p])) v) (\<lambda>(_, v). ret (ESUCCESS, v)))
     | FST_VFS \<Rightarrow> bindP (delete_MountPoint A p v) (\<lambda>v. ret (- ENOSYS, v)))"

section \<open>Walking a path across mount points\<close>

record point_result =
  pr_mountPoint :: ptr
  pr_inode :: ptr
  pr_status :: int

abbreviation point_error :: "int \<Rightarrow> point_result" where
  "point_error e \<equiv> \<lparr>pr_mountPoint = nullptr, pr_inode = nullptr, pr_status = e\<rparr>"

text \<open>The string at \<open>&(path[i])\<close>. The index may be the one the last walk stored, which counts from where that walk began.\<close>

definition path_at :: "string \<Rightarrow> int \<Rightarrow> string prog" where
  "path_at path i =
     (if 0 \<le> i \<and> nat i \<le> length path then ret (drop (nat i) path) else stop (Undefined ''path read out of range''))"

text \<open>One file system: either the walk is over, or the inode it stopped at and the new index are the result. \<open>upper\<close> is the inode to
  use when the path leaves the file system upwards, \<open>start\<close> the one that does not count as found.\<close>

definition walk_system ::
  "(string option \<Rightarrow> 'k tempfs \<Rightarrow> (sub_result \<times> 'k tempfs) prog) \<Rightarrow> ptr \<Rightarrow> ptr \<Rightarrow> ptr \<Rightarrow> string \<Rightarrow> int \<Rightarrow> 'k vfs \<Rightarrow>
    ((point_result + ptr \<times> int) \<times> 'k vfs) prog" where
  "walk_system walk mountPoint upper start path split_index v =
     bindP (path_at path split_index) (\<lambda>rest.
     bindP (tmp_call (walk (Some rest)) v) (\<lambda>(r, v).
     let rc = (case sr_status r of None \<Rightarrow> 0 | Some e \<Rightarrow> e);
         split_index = (case sr_end_index r of None \<Rightarrow> split_index | Some i \<Rightarrow> i) in
     if sr_inode r = sr_lastInode r \<and> sr_inode r \<noteq> nullptr \<and> sr_inode r \<noteq> start
     then ret (Inl \<lparr>pr_mountPoint = mountPoint, pr_inode = sr_inode r, pr_status = ESUCCESS\<rparr>, v)
     else if sr_inode r = nullptr \<and> sr_lastInode r = nullptr then
       if rc = ESUCCESS then ret (Inr (upper, split_index), v) else ret (Inl (point_error rc), v)
     else ret (Inr (sr_lastInode r, split_index), v)))"

text \<open>The mount point at the inode the walk stopped at; an error when there is none, or when it is the one the walk is in.\<close>

definition next_point :: "ptr \<Rightarrow> ptr \<Rightarrow> 'k vfs \<Rightarrow> ((point_result + ptr) \<times> 'k vfs) prog" where
  "next_point last_inode mountPoint v =
     bindP (search_point (\<lambda>mp. mp_RootInode mp = last_inode) v) (\<lambda>(r, v).
     case r of
       None \<Rightarrow> ret (Inl (point_error (- ENOSYS)), v)
     | Some p \<Rightarrow> if p = nullptr \<or> p = mountPoint then ret (Inl (point_error (- EINVAL)), v) else ret (Inr p, v))"

partial_function (option) point_loop ::
  "'k fs_ops \<Rightarrow> string \<Rightarrow> ptr \<Rightarrow> ptr \<Rightarrow> int \<Rightarrow> 'k vfs \<Rightarrow> (point_result \<times> 'k vfs) prog" where
  "point_loop A path mountPoint last_inode split_index v =
     bindP (deref (v_points v) mountPoint) (\<lambda>mp.
     if mp_type mp \<noteq> FST_TMPFS \<or> mp_fs mp = nullptr then ret (point_error (- ENOSYS), v)
     else
       bindP (walk_system (GetInode A (mp_fs mp)) mountPoint last_inode nullptr path split_index v) (\<lambda>(r, v).
       case r of
         Inl x \<Rightarrow> ret (x, v)
       | Inr (last_inode, split_index) \<Rightarrow>
           bindP (next_point last_inode mountPoint v) (\<lambda>(r, v).
           case r of
             Inl x \<Rightarrow> ret (x, v)
           | Inr mountPoint \<Rightarrow> point_loop A path mountPoint last_inode split_index v)))"

text \<open>A path that does not begin at the root: the first file system is walked from the working directory.\<close>

definition relative_start ::
  "'k fs_ops \<Rightarrow> string \<Rightarrow> VFS_WorkingDirectory option \<Rightarrow> 'k vfs \<Rightarrow> ((point_result + ptr \<times> ptr \<times> int) \<times> 'k vfs) prog" where
  "relative_start A path wd v =
     (let mountPoint = (case wd of None \<Rightarrow> m_root v | Some w \<Rightarrow> wd_mountpoint w);
          root_inode = (case wd of None \<Rightarrow> nullptr | Some w \<Rightarrow> wd_inode w) in
      if mountPoint = nullptr then ret (Inl (point_error (- ENOSYS)), v)
      else if path = ''.'' then ret (Inl \<lparr>pr_mountPoint = mountPoint, pr_inode = root_inode, pr_status = ESUCCESS\<rparr>, v)
      else if path = ''..'' then
        (if root_inode = nullptr then ret (Inl (point_error (- EINVAL)), v)
         else
           bindP (tmp_call (GetParent root_inode) v) (\<lambda>((parent, _), v).
           if parent = nullptr then stop (AssertFailed ''TODO'')
           else ret (Inl \<lparr>pr_mountPoint = mountPoint, pr_inode = parent, pr_status = ESUCCESS\<rparr>, v)))
      else
        bindP (deref (v_points v) mountPoint) (\<lambda>mp.
        if mp_type mp \<noteq> FST_TMPFS \<or> mp_fs mp = nullptr then ret (Inl (point_error (- ENOSYS)), v)
        else
          bindP (walk_system (GetSubInode A (mp_fs mp) root_inode) mountPoint root_inode root_inode path 0 v) (\<lambda>(r, v).
          case r of
            Inl x \<Rightarrow> ret (Inl x, v)
          | Inr (last_inode, split_index) \<Rightarrow>
              bindP (next_point last_inode mountPoint v) (\<lambda>(r, v).
              case r of
                Inl x \<Rightarrow> ret (Inl x, v)
              | Inr mountPoint \<Rightarrow> ret (Inr (mountPoint, last_inode, split_index), v)))))"

definition GetMountPoint ::
  "'k fs_ops \<Rightarrow> string option \<Rightarrow> VFS_WorkingDirectory option \<Rightarrow> 'k vfs \<Rightarrow> (point_result \<times> 'k vfs) prog" where
  "GetMountPoint A path wd v =
     (case path of
        None \<Rightarrow> ret (point_error (- EINVAL), v)
      | Some path \<Rightarrow>
          if path = ''/'' then ret (\<lparr>pr_mountPoint = m_root v, pr_inode = nullptr, pr_status = ESUCCESS\<rparr>, v)
          else
            bindP (if path = [] \<or> hd path \<noteq> PATH_SEPARATOR then relative_start A path wd v
                   else ret (Inr (m_root v, nullptr, 0), v)) (\<lambda>(r, v).
            case r of
              Inl x \<Rightarrow> ret (x, v)
            | Inr (mountPoint, last_inode, split_index) \<Rightarrow> point_loop A path mountPoint last_inode split_index v))"

definition GetChildMountPoint ::
  "'k fs_ops \<Rightarrow> string option \<Rightarrow> VFS_WorkingDirectory option \<Rightarrow> 'k vfs \<Rightarrow> (point_result \<times> 'k vfs) prog" where
  "GetChildMountPoint A path wd v =
     bindP (GetMountPoint A path wd v) (\<lambda>(r, v).
     if pr_mountPoint r = nullptr \<or> pr_inode r = nullptr \<and> pr_status r \<noteq> ESUCCESS then ret (point_error (- EINVAL), v)
     else
       bindP (search_point (\<lambda>mp. mp_RootInode mp = pr_inode r) v) (\<lambda>(q, v).
       case q of
         None \<Rightarrow> ret (point_error (- ENOSYS), v)
       | Some p \<Rightarrow>
           if p = nullptr then ret (r\<lparr>pr_status := ESUCCESS\<rparr>, v)
           else ret (\<lparr>pr_mountPoint = p, pr_inode = nullptr, pr_status = ESUCCESS\<rparr>, v)))"

section \<open>Mounting and unmounting\<close>

definition Mount :: "'k fs_ops \<Rightarrow> FilePrivilegeLevel \<Rightarrow> string option \<Rightarrow> FileSystemType \<Rightarrow> 'k vfs \<Rightarrow> (int \<times> 'k vfs) prog" where
  "Mount A current_privilege path ty v =
     (if UID current_privilege \<noteq> 0 then ret (- EACCES, v)
      else
        bindP (GetMountPoint A path None v) (\<lambda>(r, v).
        if pr_mountPoint r = nullptr \<or> pr_inode r = nullptr then ret (- EINVAL, v)
        else
          bindP (Inode_GetType (v_tmp v) (pr_inode r)) (\<lambda>ity.
          if ity \<noteq> Folder then ret (- ENOTDIR, v)
          else
            bindP (tmp_call (GetChildCount (pr_inode r)) v) (\<lambda>(n, v).
            if n > 0 then ret (- ENOTEMPTY, v)
            else
              bindP (new_MountPoint A \<lparr>mp_type = ty, mp_fs = nullptr, mp_RootInode = pr_inode r, mp_parent = pr_mountPoint r\<rparr> v) (\<lambda>(p, v).
              case ty of
                FST_TMPFS \<Rightarrow>
                  bindP (inode_get (v_tmp v) (pr_inode r)) (\<lambda>nd.
                  bindP (new_TempFileSystem A (GetPrivilegeLevel nd) v) (\<lambda>(fs, v).
                  let v = v\<lparr>v_points := (v_points v)(p \<mapsto> \<lparr>mp_type = ty, mp_fs = fs, mp_RootInode = pr_inode r, mp_parent = pr_mountPoint r\<rparr>)\<rparr> in
                  bindP (with_mountPoints (\<lambda>ms. ret ((), ms @ [p])) v) (\<lambda>(_, v). ret (ESUCCESS, v))))
              | FST_VFS \<Rightarrow> bindP (delete_MountPoint A p v) (\<lambda>v. ret (- ENOSYS, v)))))))"

text \<open>The loop over the streams. It gives up the lock at the first stream it closes and goes on without it; the stream that moves to
  the place of a removed one is not looked at. The result is an early return value.\<close>

definition drop_index :: "nat \<Rightarrow> 'a list \<Rightarrow> 'a list" where
  "drop_index i xs = take i xs @ drop (Suc i) xs"

partial_function (option) close_streams :: "'k fs_ops \<Rightarrow> ptr \<Rightarrow> nat \<Rightarrow> 'k vfs \<Rightarrow> (int option \<times> 'k vfs) prog" where
  "close_streams A mountPoint i v =
     (if \<not> i < length (m_streams v) then ret (None, v\<lparr>m_streams_lock := spinlock_release (m_streams_lock v)\<rparr>)
      else
        let p = m_streams v ! i in
        if p = nullptr then ret (Some (- ENOSYS), v\<lparr>m_streams_lock := spinlock_release (m_streams_lock v)\<rparr>)
        else
          bindP (deref (v_files v) p) (\<lambda>st.
          if st_mountPoint st = mountPoint then
            bindP (FileStream_Close A p (v\<lparr>m_streams := drop_index i (m_streams v), m_streams_lock := spinlock_release (m_streams_lock v)\<rparr>)) (\<lambda>r.
            bindP (delete_stream A p (snd r)) (close_streams A mountPoint (i + 1)))
          else close_streams A mountPoint (i + 1) v))"

partial_function (option) close_dirs :: "'k fs_ops \<Rightarrow> ptr \<Rightarrow> nat \<Rightarrow> 'k vfs \<Rightarrow> (int option \<times> 'k vfs) prog" where
  "close_dirs A mountPoint i v =
     (if \<not> i < length (m_directoryStreams v) then ret (None, v\<lparr>m_directoryStreams_lock := spinlock_release (m_directoryStreams_lock v)\<rparr>)
      else
        let p = m_directoryStreams v ! i in
        if p = nullptr then ret (Some (- ENOSYS), v\<lparr>m_directoryStreams_lock := spinlock_release (m_directoryStreams_lock v)\<rparr>)
        else
          bindP (deref (v_dirs v) p) (\<lambda>ds.
          bindP (deref (v_points v) mountPoint) (\<lambda>mp.
          if ds_fs ds = mp_fs mp then
            bindP (DirectoryStream_Close p (v\<lparr>m_directoryStreams := drop_index i (m_directoryStreams v),
                m_directoryStreams_lock := spinlock_release (m_directoryStreams_lock v)\<rparr>)) (\<lambda>r.
            bindP (delete_dir A p (snd r)) (close_dirs A mountPoint (i + 1)))
          else close_dirs A mountPoint (i + 1) v)))"

text \<open>The mount point of an inode, and whether another one is mounted inside it.\<close>

definition unmount_point :: "ptr \<Rightarrow> 'k vfs \<Rightarrow> ((int + ptr) \<times> 'k vfs) prog" where
  "unmount_point inode v =
     with_mountPoints (\<lambda>ms.
       bindP (find_point v (\<lambda>mp. mp_RootInode mp = inode) ms) (\<lambda>r.
       case r of
         None \<Rightarrow> ret (Inl (- ENOSYS), ms)
       | Some p \<Rightarrow>
           bindP (find_point v (\<lambda>mp. mp_parent mp = p) ms) (\<lambda>q.
           case q of
             None \<Rightarrow> ret (Inl (- ENOSYS), ms)
           | Some q \<Rightarrow> if q \<noteq> nullptr then ret (Inl (- EBUSY), ms) else ret (Inr p, ms)))) v"

definition destroy_point :: "'k fs_ops \<Rightarrow> ptr \<Rightarrow> 'k vfs \<Rightarrow> (int \<times> 'k vfs) prog" where
  "destroy_point A p v =
     bindP (with_mountPoints (\<lambda>ms. ret ((), remove1 p ms)) v) (\<lambda>(_, v).
     bindP (deref (v_points v) p) (\<lambda>mp.
     bindP (tmp_call (DestroyFileSystem A (mp_fs mp)) v) (\<lambda>(_, v).
     bindP (kernel_do (fs_delete A (mp_fs mp)) (v_tmp v)) (\<lambda>s.
     bindP (delete_MountPoint A p (v\<lparr>v_tmp := s\<lparr>tf_systems := (tf_systems s)(mp_fs mp := None)\<rparr>\<rparr>)) (\<lambda>v. ret (ESUCCESS, v))))))"

definition Unmount :: "'k fs_ops \<Rightarrow> FilePrivilegeLevel \<Rightarrow> string option \<Rightarrow> VFS_WorkingDirectory option \<Rightarrow> 'k vfs \<Rightarrow> (int \<times> 'k vfs) prog" where
  "Unmount A current_privilege path wd v =
     (if UID current_privilege \<noteq> 0 then ret (- EACCES, v)
      else
        bindP (GetMountPoint A path wd v) (\<lambda>(r, v).
        if pr_mountPoint r = nullptr \<or> pr_inode r = nullptr then ret (- EINVAL, v)
        else
          bindP (unmount_point (pr_inode r) v) (\<lambda>(q, v).
          case q of
            Inl e \<Rightarrow> ret (e, v)
          | Inr p \<Rightarrow>
              bindP (spinlock_acquire (m_streams_lock v)) (\<lambda>l.
              bindP (close_streams A p 0 (v\<lparr>m_streams_lock := l\<rparr>)) (\<lambda>(e, v).
              case e of
                Some e \<Rightarrow> ret (e, v)
              | None \<Rightarrow>
                  bindP (spinlock_acquire (m_directoryStreams_lock v)) (\<lambda>l.
                  bindP (close_dirs A p 0 (v\<lparr>m_directoryStreams_lock := l\<rparr>)) (\<lambda>(e, v).
                  case e of Some e \<Rightarrow> ret (e, v) | None \<Rightarrow> destroy_point A p v)))))))"

section \<open>Creation and deletion by path\<close>

text \<open>The copy of a name that the new inode keeps.\<close>

definition copy_name :: "'k fs_ops \<Rightarrow> u64 \<Rightarrow> 'k vfs \<Rightarrow> 'k vfs prog" where
  "copy_name A n v =
     bindP (kernel_call (fs_kmalloc A n) (v_tmp v)) (\<lambda>(p, s). if p = nullptr then stop NullDeref else ret (v\<lparr>v_tmp := s\<rparr>))"

text \<open>Folders and links drop one separator at the end of the name.\<close>

definition folder_name :: "'k fs_ops \<Rightarrow> string \<Rightarrow> 'k vfs \<Rightarrow> (string \<times> 'k vfs) prog" where
  "folder_name A name v =
     (if name = [] then stop (Undefined ''name read out of range'')
      else if last name = PATH_SEPARATOR then bindP (copy_name A (of_nat (length name)) v) (\<lambda>v. ret (butlast name, v))
      else bindP (copy_name A (of_nat (length name + 1)) v) (\<lambda>v. ret (name, v)))"

definition bad_parent :: "point_result \<Rightarrow> string option \<Rightarrow> 'k vfs \<Rightarrow> bool prog" where
  "bad_parent r name v =
     (if pr_mountPoint r = nullptr \<or> pr_inode r = nullptr \<and> pr_status r \<noteq> ESUCCESS \<or> name = None then ret True
      else if pr_inode r = nullptr then ret False
      else bindP (Inode_GetType (v_tmp v) (pr_inode r)) (\<lambda>ty. ret (ty \<noteq> Folder)))"

definition VFS_CreateFile ::
  "'k fs_ops \<Rightarrow> FilePrivilegeLevel \<Rightarrow> string option \<Rightarrow> string option \<Rightarrow> u64 \<Rightarrow> bool \<Rightarrow> FilePrivilegeLevel \<Rightarrow> 'k vfs \<Rightarrow> (int \<times> 'k vfs) prog" where
  "VFS_CreateFile A current_privilege parent name sz inherit_permissions privilege v =
     bindP (GetChildMountPoint A parent None v) (\<lambda>(r, v).
     bindP (bad_parent r name v) (\<lambda>bad.
     if bad then ret (- EINVAL, v)
     else
       bindP (deref (v_points v) (pr_mountPoint r)) (\<lambda>mp.
       if mp_type mp \<noteq> FST_TMPFS \<or> mp_fs mp = nullptr then ret (- ENOSYS, v)
       else
         bindP (copy_name A (of_nat (length (the name) + 1)) v)
           (tmp_call (CreateFile_in A (mp_fs mp) current_privilege (pr_inode r) name sz inherit_permissions privilege)))))"

definition VFS_CreateFolder ::
  "'k fs_ops \<Rightarrow> FilePrivilegeLevel \<Rightarrow> string option \<Rightarrow> string option \<Rightarrow> bool \<Rightarrow> FilePrivilegeLevel \<Rightarrow> 'k vfs \<Rightarrow> (int \<times> 'k vfs) prog" where
  "VFS_CreateFolder A current_privilege parent name inherit_permissions privilege v =
     bindP (GetChildMountPoint A parent None v) (\<lambda>(r, v).
     bindP (bad_parent r name v) (\<lambda>bad.
     if bad then ret (- EINVAL, v)
     else
       bindP (folder_name A (the name) v) (\<lambda>(i_name, v).
       bindP (deref (v_points v) (pr_mountPoint r)) (\<lambda>mp.
       if mp_type mp \<noteq> FST_TMPFS \<or> mp_fs mp = nullptr then ret (- ENOSYS, v)
       else tmp_call (CreateFolder_in A (mp_fs mp) current_privilege (pr_inode r) (Some i_name) inherit_permissions privilege) v))))"

definition VFS_CreateSymLink ::
  "'k fs_ops \<Rightarrow> FilePrivilegeLevel \<Rightarrow> string option \<Rightarrow> string option \<Rightarrow> string option \<Rightarrow> bool \<Rightarrow> FilePrivilegeLevel \<Rightarrow> 'k vfs \<Rightarrow> (int \<times> 'k vfs) prog" where
  "VFS_CreateSymLink A current_privilege parent name target inherit_permissions privilege v =
     bindP (GetChildMountPoint A parent None v) (\<lambda>(r, v).
     bindP (GetMountPoint A target None v) (\<lambda>(q, v).
     bindP (if pr_mountPoint r = nullptr \<or> pr_mountPoint r \<noteq> pr_mountPoint q then ret True else bad_parent r name v) (\<lambda>bad.
     if bad \<or> pr_inode q = nullptr then ret (- EINVAL, v)
     else
       bindP (folder_name A (the name) v) (\<lambda>(i_name, v).
       bindP (deref (v_points v) (pr_mountPoint r)) (\<lambda>mp.
       if mp_type mp \<noteq> FST_TMPFS \<or> mp_fs mp = nullptr then ret (- ENOSYS, v)
       else tmp_call (CreateSymLink_in A (mp_fs mp) current_privilege (pr_inode r) (Some i_name) (pr_inode q) inherit_permissions privilege) v)))))"

definition VFS_DeleteInode :: "'k fs_ops \<Rightarrow> FilePrivilegeLevel \<Rightarrow> string option \<Rightarrow> bool \<Rightarrow> 'k vfs \<Rightarrow> (int \<times> 'k vfs) prog" where
  "VFS_DeleteInode A current_privilege path recursive v =
     bindP (GetMountPoint A path None v) (\<lambda>(r, v).
     if pr_mountPoint r = nullptr \<or> pr_inode r = nullptr then ret (- EINVAL, v)
     else
       bindP (deref (v_points v) (pr_mountPoint r)) (\<lambda>mp.
       if mp_type mp \<noteq> FST_TMPFS \<or> mp_fs mp = nullptr then ret (- ENOSYS, v)
       else tmp_call (DeleteInode_in A (mp_fs mp) current_privilege (pr_inode r) recursive True) v))"

section \<open>Streams\<close>

text \<open>The status is not set when the stream could be opened.\<close>

definition OpenStream ::
  "'k fs_ops \<Rightarrow> FilePrivilegeLevel \<Rightarrow> string option \<Rightarrow> u8 \<Rightarrow> VFS_WorkingDirectory option \<Rightarrow> 'k vfs \<Rightarrow> ((ptr \<times> int option) \<times> 'k vfs) prog" where
  "OpenStream A current_privilege path modes wd v =
     bindP (GetMountPoint A path wd v) (\<lambda>(r, v).
     if pr_mountPoint r = nullptr \<or> pr_inode r = nullptr then ret ((nullptr, Some (- EINVAL)), v)
     else
       bindP (deref (v_points v) (pr_mountPoint r)) (\<lambda>mp.
       if mp_type mp \<noteq> FST_TMPFS \<or> mp_fs mp = nullptr then ret ((nullptr, Some (- ENOSYS)), v)
       else
         bindP (kernel_call (fs_new A) (v_tmp v)) (\<lambda>(p, s).
         if p = nullptr then stop NullDeref
         else
           bindP (FileStream_Open A p
             (v\<lparr>v_tmp := s, v_files := (v_files v)(p \<mapsto> FileStream_make (pr_inode r) (pr_mountPoint r) modes current_privilege)\<rparr>)) (\<lambda>(rc, v).
           if rc \<noteq> ESUCCESS then ret ((nullptr, Some rc), v)
           else
             bindP (spinlock_acquire (m_streams_lock v)) (\<lambda>l.
             ret ((p, None), v\<lparr>m_streams := m_streams v @ [p], m_streams_lock := spinlock_release l\<rparr>))))))"

text \<open>The index of a stream in a list: None when the list holds a null pointer before it.\<close>

fun find_stream :: "ptr \<Rightarrow> ptr list \<Rightarrow> nat \<Rightarrow> nat option option" where
  "find_stream p [] i = Some None"
| "find_stream p (q # qs) i = (if q = nullptr then None else if p = q then Some (Some i) else find_stream p qs (i + 1))"

definition CloseStream :: "'k fs_ops \<Rightarrow> ptr \<Rightarrow> 'k vfs \<Rightarrow> (int \<times> 'k vfs) prog" where
  "CloseStream A stream v =
     (if stream = nullptr then ret (- EINVAL, v)
      else
        bindP (spinlock_acquire (m_streams_lock v)) (\<lambda>l.
        let u = v\<lparr>m_streams_lock := spinlock_release l\<rparr> in
        case find_stream stream (m_streams v) 0 of
          None \<Rightarrow> ret (- ENOSYS, u)
        | Some None \<Rightarrow> ret (- EINVAL, u)
        | Some (Some i) \<Rightarrow>
            bindP (FileStream_Close A stream (u\<lparr>m_streams := drop_index i (m_streams v)\<rparr>)) (\<lambda>(_, u).
            bindP (delete_stream A stream u) (\<lambda>u. ret (ESUCCESS, u)))))"

definition isMountpoint ::
  "'k fs_ops \<Rightarrow> string option \<Rightarrow> nat \<Rightarrow> VFS_WorkingDirectory option \<Rightarrow> 'k vfs \<Rightarrow> ((bool \<times> int) \<times> 'k vfs) prog" where
  "isMountpoint A path len wd v =
     (if path = None \<or> len = 0 then ret ((False, - EINVAL), v)
      else
        bindP (GetMountPoint A path wd v) (\<lambda>(r, v).
        if pr_mountPoint r = nullptr then ret ((False, - EINVAL), v)
        else bindP (deref (v_points v) (pr_mountPoint r)) (\<lambda>mp. ret ((pr_inode r = mp_RootInode mp, ESUCCESS), v))))"

definition OpenDirectoryStream ::
  "'k fs_ops \<Rightarrow> FilePrivilegeLevel \<Rightarrow> string option \<Rightarrow> u8 \<Rightarrow> VFS_WorkingDirectory option \<Rightarrow> 'k vfs \<Rightarrow> ((ptr \<times> int) \<times> 'k vfs) prog" where
  "OpenDirectoryStream A current_privilege path modes wd v =
     (if modes \<noteq> VFS_READ then ret ((nullptr, - EINVAL), v)
      else
        bindP (GetMountPoint A path wd v) (\<lambda>(r, v).
        if pr_mountPoint r = nullptr then ret ((nullptr, - EINVAL), v)
        else
          bindP (kernel_call (fs_new A) (v_tmp v)) (\<lambda>(p, s).
          bindP (isMountpoint A path (length (the path)) wd (v\<lparr>v_tmp := s\<rparr>)) (\<lambda>((ism, _), v).
          bindP (deref (v_points v) (pr_mountPoint r)) (\<lambda>mp.
          if p = nullptr then stop NullDeref
          else
            bindP (DirectoryStream_Open p (v\<lparr>v_dirs := (v_dirs v)
              (p \<mapsto> DirectoryStream_make (if ism then nullptr else pr_inode r) current_privilege (mp_type mp) (mp_fs mp))\<rparr>)) (\<lambda>(rc, v).
            if rc \<noteq> ESUCCESS then ret ((nullptr, rc), v)
            else
              bindP (spinlock_acquire (m_directoryStreams_lock v)) (\<lambda>l.
              ret ((p, ESUCCESS), v\<lparr>m_directoryStreams := m_directoryStreams v @ [p], m_directoryStreams_lock := spinlock_release l\<rparr>))))))))"

definition CloseDirectoryStream :: "'k fs_ops \<Rightarrow> ptr \<Rightarrow> 'k vfs \<Rightarrow> (int \<times> 'k vfs) prog" where
  "CloseDirectoryStream A stream v =
     (if stream = nullptr then ret (- EINVAL, v)
      else
        bindP (spinlock_acquire (m_directoryStreams_lock v)) (\<lambda>l.
        let u = v\<lparr>m_directoryStreams_lock := spinlock_release l\<rparr> in
        case find_stream stream (m_directoryStreams v) 0 of
          None \<Rightarrow> ret (- ENOSYS, u)
        | Some None \<Rightarrow> ret (- EINVAL, u)
        | Some (Some i) \<Rightarrow>
            bindP (DirectoryStream_Close stream (u\<lparr>m_directoryStreams := drop_index i (m_directoryStreams v)\<rparr>)) (\<lambda>(_, u).
            bindP (delete_dir A stream u) (\<lambda>u. ret (ESUCCESS, u)))))"

section \<open>Queries\<close>

definition IsValidPath :: "'k fs_ops \<Rightarrow> string option \<Rightarrow> VFS_WorkingDirectory option \<Rightarrow> 'k vfs \<Rightarrow> ((bool \<times> int) \<times> 'k vfs) prog" where
  "IsValidPath A path wd v =
     bindP (GetMountPoint A path wd v) (\<lambda>(r, v).
     if pr_mountPoint r = nullptr \<or> pr_inode r = nullptr \<and> pr_status r \<noteq> ESUCCESS then ret ((False, - EINVAL), v)
     else ret ((True, ESUCCESS), v))"

text \<open>The inode, the file system, the mount point and the status.\<close>

definition VFS_GetInode ::
  "'k fs_ops \<Rightarrow> string option \<Rightarrow> VFS_WorkingDirectory option \<Rightarrow> 'k vfs \<Rightarrow> ((ptr \<times> ptr \<times> ptr \<times> int) \<times> 'k vfs) prog" where
  "VFS_GetInode A path wd v =
     bindP (GetChildMountPoint A path wd v) (\<lambda>(r, v).
     if pr_mountPoint r = nullptr then ret ((nullptr, nullptr, nullptr, - EINVAL), v)
     else bindP (deref (v_points v) (pr_mountPoint r)) (\<lambda>mp. ret ((pr_inode r, mp_fs mp, pr_mountPoint r, ESUCCESS), v)))"

definition GetMountPoint_fs :: "ptr \<Rightarrow> 'k vfs \<Rightarrow> ((ptr \<times> int) \<times> 'k vfs) prog" where
  "GetMountPoint_fs fs v =
     (if fs = nullptr then ret ((nullptr, - EINVAL), v)
      else
        bindP (search_point (\<lambda>mp. mp_fs mp = fs) v) (\<lambda>(r, v).
        case r of
          None \<Rightarrow> ret ((nullptr, - ENOSYS), v)
        | Some p \<Rightarrow> if p = nullptr then ret ((nullptr, - EINVAL), v) else ret ((p, ESUCCESS), v)))"

definition GetRootWorkingDirectory :: "'k vfs \<Rightarrow> VFS_WorkingDirectory" where
  "GetRootWorkingDirectory v = \<lparr>wd_mountpoint = m_root v, wd_inode = nullptr\<rparr>"

definition VFS_GetRootInode :: "u64 \<Rightarrow> 'k vfs \<Rightarrow> ((ptr \<times> int option) \<times> 'k vfs) prog" where
  "VFS_GetRootInode index v =
     (if m_root v = nullptr then ret ((nullptr, Some (- ENOSYS)), v)
      else
        bindP (deref (v_points v) (m_root v)) (\<lambda>mp.
        if mp_type mp \<noteq> FST_TMPFS \<or> mp_fs mp = nullptr then ret ((nullptr, Some (- ENOSYS)), v)
        else tmp_call (GetRootInode (mp_fs mp) index) v))"

definition VFS_GetRootInodeCount :: "'k vfs \<Rightarrow> (nat \<times> 'k vfs) prog" where
  "VFS_GetRootInodeCount v =
     (if m_root v = nullptr then ret (0, v)
      else
        bindP (deref (v_points v) (m_root v)) (\<lambda>mp.
        if mp_type mp \<noteq> FST_TMPFS \<or> mp_fs mp = nullptr then ret (0, v)
        else tmp_call (GetRootInodeCount (mp_fs mp)) v))"

end
