(* ===== verification/TempFSCorrect.thy ===== *)
theory TempFSCorrect
  imports TempFileSystem
begin

unbundle bit_operations_syntax

text \<open>
  The in-memory file system: paths are walked component by component, a read needs the permission bit of its class, and a file
  that was written is read back. What the code gets wrong: a write that ends exactly at the end of a block loses a byte, a
  missing first component of a path is skipped, a file created under a missing parent is reported as created, and
  destroying a file system that holds an inode never returns.
\<close>

section \<open>Links\<close>

lemma resolve_self:
  "tf_inodes s p = Some n \<Longrightarrow> p \<noteq> nullptr \<Longrightarrow> p_type n \<noteq> SymLink \<Longrightarrow> resolve s p = ret p"
  by (subst resolve.simps) (simp add: inode_get_def GetTarget_def)

lemma on_target_self:
  "tf_inodes s p = Some n \<Longrightarrow> p \<noteq> nullptr \<Longrightarrow> p_type n \<noteq> SymLink \<Longrightarrow> on_target p e f s = f p n s"
  by (simp add: on_target_def resolve_self) (simp add: inode_get_def)

lemma inode_put_simps [simp]:
  "tf_inodes (inode_put p n s) = (tf_inodes s)(p \<mapsto> n)" "tf_systems (inode_put p n s) = tf_systems s"
  "tf_kernel (inode_put p n s) = tf_kernel s" "tf_rand (inode_put p n s) = tf_rand s"
  by (simp_all add: inode_put_def)

lemma inode_put_same: "tf_inodes s p = Some n \<Longrightarrow> inode_put p n s = s"
  by (simp add: inode_put_def fun_upd_idem)

lemma inode_put_put [simp]: "inode_put p n (inode_put p m s) = inode_put p n s"
  by (simp add: inode_put_def)

section \<open>Paths\<close>

text \<open>What a walk looks at: a folder's child of a name, and a root inode of a name.\<close>

definition is_child :: "'k tempfs \<Rightarrow> ptr \<Rightarrow> string \<Rightarrow> ptr \<Rightarrow> bool" where
  "is_child s p name c \<longleftrightarrow> (\<exists>n. tf_inodes s p = Some n \<and> p \<noteq> nullptr \<and> p_type n = Folder \<and> \<not> ti_children_lock n \<and>
     find_child s (\<lambda>n. name = p_name n) (ti_children n) = ret (c, None) \<and> c \<noteq> nullptr)"

definition root_named :: "'k tempfs \<Rightarrow> ptr \<Rightarrow> string \<Rightarrow> ptr \<Rightarrow> bool" where
  "root_named s fs name r \<longleftrightarrow> (\<exists>f. tf_systems s fs = Some f \<and> fs \<noteq> nullptr \<and> \<not> m_rootInodes_lock f \<and>
     find_root s name (m_rootInodes f) = ret (Some r))"

fun is_path :: "'k tempfs \<Rightarrow> ptr \<Rightarrow> string list \<Rightarrow> ptr \<Rightarrow> bool" where
  "is_path s p [] q \<longleftrightarrow> p = q"
| "is_path s p (name # names) q \<longleftrightarrow> (\<exists>c. is_child s p name c \<and> is_path s c names q)"

definition good_name :: "string \<Rightarrow> bool" where
  "good_name name \<longleftrightarrow> name \<noteq> [] \<and> PATH_SEPARATOR \<notin> set name \<and> name \<noteq> ''.'' \<and> name \<noteq> ''..''"

lemma good_nameD: "good_name name \<Longrightarrow> name \<noteq> ''.''" "good_name name \<Longrightarrow> name \<noteq> ''..''"
  by (simp_all add: good_name_def)

definition path_of :: "string list \<Rightarrow> string" where
  "path_of names = concat (map (\<lambda>n. PATH_SEPARATOR # n) names)"

text \<open>Memory for the copy of a component can be had, and given back.\<close>

definition names_fit :: "'k fs_ops \<Rightarrow> bool" where
  "names_fit A \<longleftrightarrow> (\<forall>n k. \<exists>p k'. fs_kmalloc A n k = ret (p, k') \<and> p \<noteq> nullptr) \<and> (\<forall>p k. \<exists>k'. fs_kfree A p k = ret k')"

lemma names_fitD:
  assumes "names_fit A"
  shows "\<exists>p k'. fs_kmalloc A n k = ret (p, k') \<and> p \<noteq> nullptr" and "\<exists>k'. fs_kfree A p k = ret k'"
  using assms unfolding names_fit_def by blast+

text \<open>The lookups read the store only.\<close>

lemma find_child_kernel [simp]: "find_child (s\<lparr>tf_kernel := k\<rparr>) P cs = find_child s P cs"
  by (induction cs) (simp_all add: inode_get_def cong: if_cong)

lemma find_root_kernel [simp]: "find_root (s\<lparr>tf_kernel := k\<rparr>) name rs = find_root s name rs"
  by (induction rs) (simp_all add: inode_get_def cong: if_cong)

lemma is_child_kernel [simp]: "is_child (s\<lparr>tf_kernel := k\<rparr>) p name c = is_child s p name c"
  by (simp add: is_child_def)

lemma root_named_kernel [simp]: "root_named (s\<lparr>tf_kernel := k\<rparr>) fs name r = root_named s fs name r"
  by (simp add: root_named_def)

lemma is_path_kernel [simp]: "is_path (s\<lparr>tf_kernel := k\<rparr>) p names q = is_path s p names q"
  by (induction names arbitrary: p) simp_all

lemma GetTMPFSChild_child:
  assumes "is_child s p name c"
  shows "GetTMPFSChild p (Some name) s = ret ((c, None), s)"
proof -
  obtain n where n: "tf_inodes s p = Some n" "p \<noteq> nullptr" "p_type n = Folder" "\<not> ti_children_lock n"
    "find_child s (\<lambda>n. name = p_name n) (ti_children n) = ret (c, None)"
    using assms by (auto simp: is_child_def)
  have "n\<lparr>ti_children := ti_children n, ti_children_lock := False\<rparr> = n" using n(4) by (cases n) simp
  then show ?thesis
    using n by (simp add: GetTMPFSChild_def on_target_self with_children_def inode_get_def spinlock_release_def inode_put_same)
qed

lemma with_roots_find:
  assumes "root_named s fs name r"
  shows "with_roots fs (\<lambda>rs. bindP (find_root s name rs) (\<lambda>r. ret (r, rs))) s = ret (Some r, s)"
proof -
  obtain f where f: "tf_systems s fs = Some f" "fs \<noteq> nullptr" "\<not> m_rootInodes_lock f" "find_root s name (m_rootInodes f) = ret (Some r)"
    using assms by (auto simp: root_named_def)
  have "f\<lparr>m_rootInodes := m_rootInodes f, m_rootInodes_lock := False\<rparr> = f" using f(3) by (cases f) simp
  then have "s\<lparr>tf_systems := (tf_systems s)(fs \<mapsto> f\<lparr>m_rootInodes := m_rootInodes f, m_rootInodes_lock := False\<rparr>)\<rparr> = s"
    using f(1) by (cases s) (simp add: fun_upd_idem)
  then show ?thesis using f by (simp add: with_roots_def system_get_def spinlock_release_def)
qed

text \<open>One component: from a folder to its child, and from the top to a root inode (or nowhere).\<close>

lemma walk_component_child:
  assumes fit: "names_fit A" and name: "name \<noteq> ''.''" "name \<noteq> ''..''" and c: "is_child s p name c"
  shows "\<exists>k. walk_component A fs name i sep p s = ret (Inr c, s\<lparr>tf_kernel := k\<rparr>)"
proof -
  obtain b k1 where b: "fs_kmalloc A (of_int (i - (sep + 1) + 1)) (tf_kernel s) = ret (b, k1)" "b \<noteq> nullptr"
    using names_fitD(1) [OF fit] by blast
  obtain k2 where k2: "fs_kfree A b k1 = ret k2" using names_fitD(2) [OF fit] by blast
  have p: "p \<noteq> nullptr" "c \<noteq> nullptr" using c by (auto simp: is_child_def)
  have "GetTMPFSChild p (Some name) (s\<lparr>tf_kernel := k1\<rparr>) = ret ((c, None), s\<lparr>tf_kernel := k1\<rparr>)"
    by (rule GetTMPFSChild_child) (use c in simp)
  then show ?thesis using b k2 p name by (simp add: walk_component_def kernel_call_def kernel_do_def) blast
qed

lemma walk_component_root:
  assumes fit: "names_fit A" and name: "name \<noteq> ''.''" "name \<noteq> ''..''" and r: "root_named s fs name r"
  shows "\<exists>k. walk_component A fs name i sep nullptr s = ret (Inr r, s\<lparr>tf_kernel := k\<rparr>)"
proof -
  obtain b k1 where b: "fs_kmalloc A (of_int (i - (sep + 1) + 1)) (tf_kernel s) = ret (b, k1)" "b \<noteq> nullptr"
    using names_fitD(1) [OF fit] by blast
  obtain k2 where k2: "fs_kfree A b k1 = ret k2" using names_fitD(2) [OF fit] by blast
  have "with_roots fs (\<lambda>rs. bindP (find_root (s\<lparr>tf_kernel := k1\<rparr>) name rs) (\<lambda>r. ret (r, rs))) (s\<lparr>tf_kernel := k1\<rparr>) = ret (Some r, s\<lparr>tf_kernel := k1\<rparr>)"
    by (rule with_roots_find) (use r in simp)
  then show ?thesis using b k2 name by (simp add: walk_component_def kernel_call_def kernel_do_def) blast
qed

lemma walk_last_child:
  assumes fit: "names_fit A" and c: "is_child s p name c"
  shows "\<exists>k. walk_last A fs name i sep p s = ret (Inr c, s\<lparr>tf_kernel := k\<rparr>)"
proof -
  obtain b k1 where b: "fs_kmalloc A (of_int (i - (sep + 1) + 1)) (tf_kernel s) = ret (b, k1)" "b \<noteq> nullptr"
    using names_fitD(1) [OF fit] by blast
  have p: "p \<noteq> nullptr" "c \<noteq> nullptr" using c by (auto simp: is_child_def)
  have "GetTMPFSChild p (Some name) (s\<lparr>tf_kernel := k1\<rparr>) = ret ((c, None), s\<lparr>tf_kernel := k1\<rparr>)"
    by (rule GetTMPFSChild_child) (use c in simp)
  then show ?thesis using b p by (simp add: walk_last_def kernel_call_def) blast
qed

lemma walk_last_root:
  assumes fit: "names_fit A" and r: "root_named s fs name r"
  shows "\<exists>k. walk_last A fs name i sep nullptr s = ret (Inr r, s\<lparr>tf_kernel := k\<rparr>)"
proof -
  obtain b k1 where b: "fs_kmalloc A (of_int (i - (sep + 1) + 1)) (tf_kernel s) = ret (b, k1)" "b \<noteq> nullptr"
    using names_fitD(1) [OF fit] by blast
  obtain k2 where k2: "fs_kfree A b k1 = ret k2" using names_fitD(2) [OF fit] by blast
  show ?thesis using b k2 r by (auto simp: walk_last_def kernel_call_def kernel_do_def root_named_def system_get_def)
qed

section \<open>The loop over the characters\<close>

lemma walk_skip:
  "PATH_SEPARATOR \<notin> set name \<Longrightarrow> walk_loop A fs path (name @ cs) i sep p s = walk_loop A fs path cs (i + int (length name)) sep p s"
  by (induction name arbitrary: i) (auto simp: algebra_simps)

lemma walk_through:
  assumes fit: "names_fit A" and path: "drop (nat (sep + 1)) path = name @ PATH_SEPARATOR # cs" "0 \<le> sep"
    and name: "good_name name" and step: "\<exists>k. walk_component A fs name (sep + 1 + int (length name)) sep p s = ret (Inr q, s\<lparr>tf_kernel := k\<rparr>)"
  shows "\<exists>k. walk_loop A fs path (name @ PATH_SEPARATOR # cs) (sep + 1) sep p s =
    walk_loop A fs path cs (sep + 2 + int (length name)) (sep + 1 + int (length name)) q (s\<lparr>tf_kernel := k\<rparr>)"
proof -
  have n: "PATH_SEPARATOR \<notin> set name" "name \<noteq> []" using name by (auto simp: good_name_def)
  have "take (nat (sep + 1 + int (length name) - (sep + 1))) (drop (nat (sep + 1)) path) = name" unfolding path(1) by simp
  then show ?thesis
    using step n by (auto simp: walk_skip algebra_simps)
qed

lemma path_of_simps [simp]: "path_of [] = []" "path_of (n # ns) = PATH_SEPARATOR # n @ path_of ns"
  by (simp_all add: path_of_def)

text \<open>The loop stops in front of the last component, at the folder that holds it.\<close>

lemma walk_folders:
  assumes "names_fit A" "0 \<le> sep" "drop (nat sep) path = path_of (n # ns)" "list_all good_name (n # ns)" "is_path s p (n # ns) q"
  shows "\<exists>k l c. walk_loop A fs path (n @ path_of ns) (sep + 1) sep p s = ret (Inr (int (length path), l, c), s\<lparr>tf_kernel := k\<rparr>) \<and>
    0 \<le> l \<and> drop (nat (l + 1)) path = last (n # ns) \<and> l + 1 + int (length (last (n # ns))) = int (length path) \<and> is_child s c (last (n # ns)) q"
  using assms
proof (induction ns arbitrary: sep n p s)
  case Nil
  have len: "int (length path) = sep + 1 + int (length n)"
    using Nil.prems(2) arg_cong [OF Nil.prems(3), of length] by (simp add: nat_less_iff split: if_splits)
  moreover have "drop (nat (sep + 1)) path = n"
    using Nil.prems(2) arg_cong [OF Nil.prems(3), of "drop 1"] by (simp add: nat_add_distrib)
  moreover have "walk_loop A fs path (n @ []) (sep + 1) sep p s = ret (Inr (sep + 1 + int (length n), sep, p), s)"
    using Nil.prems(4) by (subst walk_skip) (simp_all add: good_name_def)
  ultimately show ?case using Nil.prems(2,5) by (intro exI [of _ "tf_kernel s"] exI [of _ sep] exI [of _ p]) auto
next
  case (Cons m ms)
  obtain c where c: "is_child s p n c" "is_path s c (m # ms) q" using Cons.prems(5) by auto
  have n: "good_name n" using Cons.prems(4) by simp
  let ?sep = "sep + 1 + int (length n)"
  have path: "drop (nat (sep + 1)) path = n @ PATH_SEPARATOR # m @ path_of ms"
    using Cons.prems(2) arg_cong [OF Cons.prems(3), of "drop 1"] by (simp add: nat_add_distrib)
  have path': "drop (nat ?sep) path = path_of (m # ms)"
    using Cons.prems(2) arg_cong [OF path, of "drop (length n)"] by (simp add: nat_add_distrib add.commute)
  obtain k1 where k1: "walk_loop A fs path (n @ PATH_SEPARATOR # m @ path_of ms) (sep + 1) sep p s =
      walk_loop A fs path (m @ path_of ms) (sep + 2 + int (length n)) ?sep c (s\<lparr>tf_kernel := k1\<rparr>)"
    using walk_through [OF Cons.prems(1) path Cons.prems(2) n walk_component_child [OF Cons.prems(1) good_nameD [OF n] c(1)]] by blast
  have e: "sep + 2 + int (length n) = ?sep + 1" by simp
  have "\<exists>k l d. walk_loop A fs path (m @ path_of ms) (?sep + 1) ?sep c (s\<lparr>tf_kernel := k1\<rparr>) =
      ret (Inr (int (length path), l, d), s\<lparr>tf_kernel := k1\<rparr>\<lparr>tf_kernel := k\<rparr>) \<and>
      0 \<le> l \<and> drop (nat (l + 1)) path = last (m # ms) \<and> l + 1 + int (length (last (m # ms))) = int (length path) \<and>
      is_child (s\<lparr>tf_kernel := k1\<rparr>) d (last (m # ms)) q"
    by (rule Cons.IH) (use Cons.prems path' c(2) in auto)
  then obtain k l d where "walk_loop A fs path (m @ path_of ms) (?sep + 1) ?sep c (s\<lparr>tf_kernel := k1\<rparr>) =
      ret (Inr (int (length path), l, d), s\<lparr>tf_kernel := k\<rparr>)" "0 \<le> l" "drop (nat (l + 1)) path = last (m # ms)"
      "l + 1 + int (length (last (m # ms))) = int (length path)" "is_child s d (last (m # ms)) q"
    by (auto simp del: last.simps)
  then show ?case
    using k1 unfolding e by (intro exI [of _ k] exI [of _ l] exI [of _ d]) (simp del: last.simps add: last_ConsR)
qed

lemma GetInode_found:
  assumes fit: "names_fit A" and names: "list_all good_name (n # ns)" and root: "root_named s fs n r" "r \<noteq> nullptr" and path: "is_path s r ns q"
  shows "\<exists>k. GetInode A fs (Some (path_of (n # ns))) s =
    ret (\<lparr>sr_inode = q, sr_lastInode = q, sr_end_index = Some (int (length (path_of (n # ns)))), sr_status = None\<rparr>, s\<lparr>tf_kernel := k\<rparr>)"
proof (cases ns)
  case Nil
  have "walk_loop A fs (path_of [n]) (n @ []) 1 0 nullptr s = ret (Inr (1 + int (length n), 0, nullptr), s)"
    using names by (subst walk_skip) (simp_all add: good_name_def)
  moreover obtain k where "walk_last A fs n (1 + int (length n)) 0 nullptr s = ret (Inr r, s\<lparr>tf_kernel := k\<rparr>)"
    using walk_last_root [OF fit root(1)] by blast
  moreover have "n \<noteq> []" using names by (simp add: good_name_def)
  ultimately show ?thesis using Nil path root(2) by (auto simp: GetInode_def GetSubInode_def)
next
  case (Cons m ms)
  let ?path = "path_of (n # ns)"
  have n: "good_name n" and ms: "list_all good_name (m # ms)" using names Cons by auto
  obtain k1 where k1: "walk_loop A fs ?path (n @ PATH_SEPARATOR # m @ path_of ms) (0 + 1) 0 nullptr s =
      walk_loop A fs ?path (m @ path_of ms) (0 + 2 + int (length n)) (0 + 1 + int (length n)) r (s\<lparr>tf_kernel := k1\<rparr>)"
  proof -
    have "drop (nat (0 + 1)) ?path = n @ PATH_SEPARATOR # m @ path_of ms" using Cons by simp
    from walk_through [OF fit this order_refl n walk_component_root [OF fit good_nameD [OF n] root(1)]] show thesis using that by blast
  qed
  have "\<exists>k l c. walk_loop A fs ?path (m @ path_of ms) (1 + int (length n) + 1) (1 + int (length n)) r (s\<lparr>tf_kernel := k1\<rparr>) =
      ret (Inr (int (length ?path), l, c), s\<lparr>tf_kernel := k1\<rparr>\<lparr>tf_kernel := k\<rparr>) \<and>
      0 \<le> l \<and> drop (nat (l + 1)) ?path = last (m # ms) \<and> l + 1 + int (length (last (m # ms))) = int (length ?path) \<and>
      is_child (s\<lparr>tf_kernel := k1\<rparr>) c (last (m # ms)) q"
    by (rule walk_folders) (use fit ms path Cons in \<open>auto simp: nat_add_distrib\<close>)
  then obtain k l c where w: "walk_loop A fs ?path (n @ path_of ns) 1 0 nullptr s = ret (Inr (int (length ?path), l, c), s\<lparr>tf_kernel := k\<rparr>)"
    "0 \<le> l" "drop (nat (l + 1)) ?path = last ns" "l + 1 + int (length (last ns)) = int (length ?path)" "is_child s c (last ns) q"
    using k1 Cons by (auto simp: algebra_simps)
  obtain k' where "walk_last A fs (last ns) (int (length ?path)) l c (s\<lparr>tf_kernel := k\<rparr>) = ret (Inr q, s\<lparr>tf_kernel := k\<rparr>\<lparr>tf_kernel := k'\<rparr>)"
    using walk_last_child [OF fit, of "s\<lparr>tf_kernel := k\<rparr>" c "last ns" q] w(5) unfolding is_child_kernel by blast
  moreover have "0 < length (last ns)" using ms Cons by (auto simp: good_name_def list_all_iff)
  then have "l < int (length ?path) \<and> int (length ?path) - l > 1" using w(4) by linarith
  moreover have "q \<noteq> nullptr" using w(5) by (auto simp: is_child_def)
  ultimately show ?thesis using w(1,3) by (simp add: GetInode_def GetSubInode_def del: length_append length_Cons) blast
qed

lemma GetInode_skip:
  assumes fit: "names_fit A" and good: "good_name x" "good_name a" and miss: "root_named s fs x nullptr" and hit: "root_named s fs a r" "r \<noteq> nullptr"
  shows "\<exists>k. GetInode A fs (Some (path_of [x, a])) s =
    ret (\<lparr>sr_inode = r, sr_lastInode = r, sr_end_index = Some (int (length (path_of [x, a]))), sr_status = None\<rparr>, s\<lparr>tf_kernel := k\<rparr>)"
proof -
  let ?path = "path_of [x, a]" let ?i = "1 + int (length x)"
  have "drop (nat (0 + 1)) ?path = x @ PATH_SEPARATOR # a" by simp
  from walk_through [OF fit this order_refl good(1) walk_component_root [OF fit good_nameD [OF good(1)] miss]]
  obtain k1 where "walk_loop A fs ?path (x @ PATH_SEPARATOR # a) 1 0 nullptr s = walk_loop A fs ?path (a @ []) (2 + int (length x)) ?i nullptr (s\<lparr>tf_kernel := k1\<rparr>)"
    by auto
  also have "\<dots> = ret (Inr (2 + int (length x) + int (length a), ?i, nullptr), s\<lparr>tf_kernel := k1\<rparr>)"
    using good(2) by (subst walk_skip) (simp_all add: good_name_def)
  finally have w: "walk_loop A fs ?path (x @ PATH_SEPARATOR # a) 1 0 nullptr s = \<dots>" .
  obtain k2 where "walk_last A fs a (2 + int (length x) + int (length a)) ?i nullptr (s\<lparr>tf_kernel := k1\<rparr>) = ret (Inr r, s\<lparr>tf_kernel := k1\<rparr>\<lparr>tf_kernel := k2\<rparr>)"
    using walk_last_root [OF fit, of "s\<lparr>tf_kernel := k1\<rparr>" fs a r] hit(1) unfolding root_named_kernel by blast
  moreover have "a \<noteq> []" using good(2) by (simp add: good_name_def)
  moreover have "drop (nat (?i + 1)) ?path = a" by (simp add: nat_add_distrib)
  ultimately show ?thesis using w hit(2) by (auto simp: GetInode_def GetSubInode_def)
qed

section \<open>Reading and writing one block\<close>

text \<open>An open file without data, and a kernel that has a block for it.\<close>

definition empty_file :: "TempFSInode \<Rightarrow> bool" where
  "empty_file n \<longleftrightarrow> p_type n = File \<and> p_isOpen n \<and> ti_data n = [] \<and> ti_size n = 0 \<and> p_CurrentOffset n = 0 \<and>
     ti_currentBlockIndex n = 0 \<and> ti_currentBlockOffset n = 0 \<and> p_blockSize n = 4096"

definition pages_available :: "'k fs_ops \<Rightarrow> 'k \<Rightarrow> u64 \<Rightarrow> bool" where
  "pages_available A k c \<longleftrightarrow> (\<exists>m k' a bytes k''. fs_new A k = ret (m, k') \<and> m \<noteq> nullptr \<and>
     fs_AllocatePages A c k' = ret ((a, bytes), k'') \<and> a \<noteq> nullptr \<and> length bytes = unat c * 4096)"

text \<open>The file after its first expansion.\<close>

lemma write_block_fresh:
  assumes n: "tf_inodes s t = Some n" "t \<noteq> nullptr" "empty_file n"
    and c: "0 < count" "count < 2 ^ 62" and av: "pages_available A (tf_kernel s) (ALIGN_UP (of_int count) 4096 div 4096)"
  obtains b k where "write_block A t count 0 s = ret (Inr b, (inode_put t (n\<lparr>ti_size := count, ti_data := [b], ti_currentBlock := mb_this b\<rparr>) s)\<lparr>tf_kernel := k\<rparr>)"
    "mb_size b = ALIGN_UP (of_int count) 4096" "length (mb_data b) = unat (mb_size b)"
proof -
  let ?sz = "ALIGN_UP (of_int count) 4096 :: u64"
  obtain m k' a bytes k'' where k: "fs_new A (tf_kernel s) = ret (m, k')" "m \<noteq> nullptr" "fs_AllocatePages A (?sz div 4096) k' = ret ((a, bytes), k'')"
    "a \<noteq> nullptr" "length bytes = unat (?sz div 4096) * 4096"
    using av by (auto simp: pages_available_def)
  let ?b = "\<lparr>mb_this = m, mb_address = a, mb_size = ?sz, mb_data = bytes\<rparr>"
  have cnt: "sint (of_int count :: u64) = count" "unat (of_int count :: u64) = nat count"
    using c by (auto intro!: sint_of_int64 unat_of_int64)
  have "4096 dvd unat ?sz" using ALIGN_UP_bounds(1) [of 4096 "of_int count"] c cnt(2) by simp
  then have len: "length bytes = unat ?sz" using k(5) by (simp add: unat_div)
  let ?n1 = "n\<lparr>ti_currentBlock := nullptr\<rparr>" let ?n2 = "?n1\<lparr>ti_size := count, ti_data := [?b]\<rparr>"
  have f: "p_type n = File" "ti_data n = []" "ti_size n = 0" "ti_currentBlockIndex n = 0" "p_blockSize n = 4096"
    using n(3) by (auto simp: empty_file_def)
  have "Expand A t (of_int count) (inode_put t ?n1 s) = ret (0, (inode_put t ?n2 s)\<lparr>tf_kernel := k''\<rparr>)"
    unfolding Expand_def
    by (subst on_target_self [of _ _ ?n1]) (simp_all add: n(2) f k kernel_call_def Let_def cnt(1) inode_put_def)
  then have "write_block A t count 0 s = ret (Inr ?b, (inode_put t (n\<lparr>ti_size := count, ti_data := [?b], ti_currentBlock := m\<rparr>) s)\<lparr>tf_kernel := k''\<rparr>)"
    unfolding write_block_def using n(1,2) f by (simp add: inode_get_def data_get_def)
  then show thesis using that [of ?b k''] len by simp
qed

text \<open>Rounding up to a page goes above the count unless the count is a multiple of the page size.\<close>

lemma align_page:
  assumes "0 < count" "count < 2 ^ 62"
  shows "4096 dvd unat (ALIGN_UP (of_int count) 4096)" "nat count \<le> unat (ALIGN_UP (of_int count) 4096)"
    "unat (ALIGN_UP (of_int count) 4096) < 2 ^ 63"
    "count mod 4096 = 0 \<Longrightarrow> unat (ALIGN_UP (of_int count) 4096) = nat count"
proof -
  have u: "unat (of_int count :: u64) = nat count" using assms by (intro unat_of_int64) simp_all
  have b: "0 < unat (4096 :: u64)" "unat (of_int count :: u64) + (unat (4096 :: u64) - 1) < 2 ^ 64" using u assms by simp_all
  note al = ALIGN_UP_bounds [OF b]
  show dv: "4096 dvd unat (ALIGN_UP (of_int count) 4096)" and le: "nat count \<le> unat (ALIGN_UP (of_int count) 4096)" using al(1,2) u by simp_all
  show "unat (ALIGN_UP (of_int count) 4096) < 2 ^ 63" using al(3) u assms by simp
  assume "count mod 4096 = 0"
  then obtain j where j: "nat count = 4096 * j" using assms(1) by (metis dvd_eq_mod_eq_0 dvd_def int_dvd_int_iff nat_int of_nat_numeral pos_int_cases)
  obtain i where i: "unat (ALIGN_UP (of_int count) 4096) = 4096 * i" using dv by (elim dvdE)
  have "4096 * i < 4096 * j + 4096" "4096 * j \<le> 4096 * i" using al(3) le u i j by simp_all
  then show "unat (ALIGN_UP (of_int count) 4096) = nat count" using i j by simp
qed

lemma write_loop_fits:
  assumes n: "tf_inodes s t = Some n" "t \<noteq> nullptr" "empty_file n"
    and d: "count = int (length d)" "0 < count" "count < 2 ^ 62" "count mod 4096 \<noteq> 0"
    and av: "pages_available A (tf_kernel s) (ALIGN_UP (of_int count) 4096 div 4096)"
  obtains b k where "write_loop A t count d 0 0 s = ret ((count, ESUCCESS),
      (inode_put t (n\<lparr>ti_size := count, ti_data := [b], ti_currentBlock := mb_this b, ti_currentBlockOffset := of_int count, p_CurrentOffset := count\<rparr>) s)\<lparr>tf_kernel := k\<rparr>)"
    "mb_size b = ALIGN_UP (of_int count) 4096" "length (mb_data b) = unat (mb_size b)" "take (nat count) (mb_data b) = d"
proof -
  obtain b k where b: "write_block A t count 0 s = ret (Inr b, (inode_put t (n\<lparr>ti_size := count, ti_data := [b], ti_currentBlock := mb_this b\<rparr>) s)\<lparr>tf_kernel := k\<rparr>)"
    "mb_size b = ALIGN_UP (of_int count) 4096" "length (mb_data b) = unat (mb_size b)"
    using write_block_fresh [OF n d(2,3) av] by blast
  have u: "unat (of_int count :: u64) = nat count" using d by (intro unat_of_int64) simp_all
  have "unat (mb_size b) \<noteq> nat count"
    using align_page(1) [OF d(2,3)] d(2,4) unfolding b(2) by (auto simp: dvd_def mod_eq_0_iff_dvd nat_eq_iff)
  then have gt: "nat count < unat (mb_size b)" using align_page(2) [OF d(2,3)] unfolding b(2) by simp
  then have fits: "of_int count < mb_size b" using u by (simp add: word_less_nat_alt)
  have f: "ti_currentBlockIndex n = 0" "ti_currentBlockOffset n = 0" "p_CurrentOffset n = 0" using n(3) by (auto simp: empty_file_def)
  let ?b = "b\<lparr>mb_data := d @ drop (length d) (mb_data b)\<rparr>"
  have co: "copy_out d 0 (of_int count) = ret d" "copy_into (mb_data b) 0 d = ret (d @ drop (length d) (mb_data b))"
    using u d(1) gt b(3) by (simp_all add: copy_out_def copy_into_def)
  have "write_loop A t count d 0 0 s = ret ((count, ESUCCESS),
      (inode_put t (n\<lparr>ti_size := count, ti_data := [?b], ti_currentBlock := mb_this b, ti_currentBlockOffset := of_int count, p_CurrentOffset := count\<rparr>) s)\<lparr>tf_kernel := k\<rparr>)"
    using d(2) n(2) fits f co by (subst write_loop.simps) (simp add: b(1) inode_get_def Let_def store_block_def inode_put_def, cases s, cases n, simp)
  moreover have "take (nat count) (mb_data ?b) = d" using d(1) by simp
  ultimately show thesis using that [of k ?b] b(2,3) gt d(1) by simp
qed

lemma read_loop_fits:
  assumes n: "ti_data n = [b]" "ti_size n = count" "ti_currentBlockIndex n = 0" "ti_currentBlockOffset n = 0" "p_CurrentOffset n = 0"
    and c: "0 < count" "count < 2 ^ 62" "nat count < unat (mb_size b)" "length (mb_data b) = unat (mb_size b)" and buf: "length buf = nat count"
  shows "\<exists>n'. read_loop count 0 0 buf n = ret ((count, ESUCCESS, take (nat count) (mb_data b)), n')"
proof -
  have u: "unat (of_int count :: u64) = nat count" using c by (intro unat_of_int64) simp_all
  then have fits: "of_int count < mb_size b" using c(3) by (simp add: word_less_nat_alt)
  have "copy_out (mb_data b) 0 (of_int count) = ret (take (nat count) (mb_data b))" "copy_into buf 0 (take (nat count) (mb_data b)) = ret (take (nat count) (mb_data b))"
    using u c(3,4) buf by (simp_all add: copy_out_def copy_into_def)
  then show ?thesis using n c(1) fits by (subst read_loop.simps) (simp add: data_get_def Let_def)
qed

text \<open>The three operations of a round trip: the file after a write of \<open>count\<close> bytes that leaves room in its block, after a rewind, and
  what a read of a block returns.\<close>

definition written :: "TempFSInode \<Rightarrow> MemBlock \<Rightarrow> int \<Rightarrow> TempFSInode" where
  "written n b count = n\<lparr>ti_size := count, ti_data := [b], ti_currentBlock := mb_this b, ti_currentBlockOffset := of_int count, p_CurrentOffset := count\<rparr>"

definition rewound :: "TempFSInode \<Rightarrow> TempFSInode" where
  "rewound n = n\<lparr>ti_currentBlockIndex := 0, ti_currentBlockOffset := 0, p_CurrentOffset := 0,
     ti_currentBlock := (case ti_data n of [] \<Rightarrow> nullptr | b # _ \<Rightarrow> mb_this b)\<rparr>"

definition holds :: "MemBlock \<Rightarrow> u8 list \<Rightarrow> int \<Rightarrow> bool" where
  "holds b d count \<longleftrightarrow> nat count < unat (mb_size b) \<and> length (mb_data b) = unat (mb_size b) \<and> take (nat count) (mb_data b) = d"

lemma WriteStream_fits:
  assumes n: "tf_inodes s t = Some n" "t \<noteq> nullptr" "empty_file n"
    and acc: "\<not> access_denied p (ti_privilegeLevel n) ACL_USER_WRITE ACL_GROUP_WRITE ACL_OTHER_WRITE"
    and d: "count = int (length d)" "0 < count" "count < 2 ^ 62" "count mod 4096 \<noteq> 0"
    and av: "pages_available A (tf_kernel s) (ALIGN_UP (of_int count) 4096 div 4096)"
  obtains b k where "WriteStream A t p (Some d) count s = ret ((count, Some ESUCCESS), (inode_put t (written n b count) s)\<lparr>tf_kernel := k\<rparr>)"
    "holds b d count"
proof -
  obtain b k where w: "write_loop A t count d 0 0 s = ret ((count, ESUCCESS), (inode_put t (written n b count) s)\<lparr>tf_kernel := k\<rparr>)"
    and b: "mb_size b = ALIGN_UP (of_int count) 4096" "length (mb_data b) = unat (mb_size b)" "take (nat count) (mb_data b) = d"
    using write_loop_fits [OF n d av] unfolding written_def by blast
  have "unat (mb_size b) \<noteq> nat count"
    using align_page(1) [OF d(2,3)] d(2,4) unfolding b(1) by (auto simp: dvd_def mod_eq_0_iff_dvd nat_eq_iff)
  then have "holds b d count" using align_page(2) [OF d(2,3)] b by (simp add: holds_def)
  moreover have "WriteStream A t p (Some d) count s = ret ((count, Some ESUCCESS), (inode_put t (written n b count) s)\<lparr>tf_kernel := k\<rparr>)"
    using n acc d(2) w by (simp add: WriteStream_def on_target_self empty_file_def)
  ultimately show thesis using that by blast
qed

lemma Rewind_file:
  "tf_inodes s t = Some n \<Longrightarrow> t \<noteq> nullptr \<Longrightarrow> p_type n = File \<Longrightarrow> p_isOpen n \<Longrightarrow> Rewind t s = ret (ESUCCESS, inode_put t (rewound n) s)"
  by (simp add: Rewind_def on_target_self rewound_def)

lemma ReadStream_fits:
  assumes n: "tf_inodes s t = Some n" "t \<noteq> nullptr" "p_type n = File" "p_isOpen n"
    and acc: "\<not> access_denied q (ti_privilegeLevel n) ACL_USER_READ ACL_GROUP_READ ACL_OTHER_READ"
    and h: "ti_data n = [b]" "ti_size n = count" "ti_currentBlockIndex n = 0" "ti_currentBlockOffset n = 0" "p_CurrentOffset n = 0"
    and c: "0 < count" "count < 2 ^ 62" "holds b d count" and buf: "length buf = nat count"
  shows "\<exists>s'. ReadStream t q (Some buf) count s = ret ((count, Some ESUCCESS, Some d), s') \<and> (\<exists>n'. s' = inode_put t n' s)"
proof -
  obtain n' where "read_loop count 0 0 buf n = ret ((count, ESUCCESS, take (nat count) (mb_data b)), n')"
    using read_loop_fits [OF h c(1,2) _ _ buf] c(3) by (auto simp: holds_def)
  then show ?thesis using n acc c by (auto simp: ReadStream_def on_target_self holds_def)
qed

text \<open>A write that ends exactly at the end of its block leaves out the last byte.\<close>

lemma write_loop_exact:
  assumes n: "tf_inodes s t = Some n" "t \<noteq> nullptr" "empty_file n"
    and d: "count = int (length d)" "0 < count" "count < 2 ^ 62" "count mod 4096 = 0"
    and av: "pages_available A (tf_kernel s) (ALIGN_UP (of_int count) 4096 div 4096)"
  obtains b s' n' where "write_loop A t count d 0 0 s = ret ((count - 1, ESUCCESS), s')" "tf_inodes s' t = Some n'" "ti_data n' = [b]"
    "ti_size n' = count" "mb_size b = of_int count" "take (length d - 1) (mb_data b) = take (length d - 1) d"
proof -
  obtain b k where b: "write_block A t count 0 s = ret (Inr b, (inode_put t (n\<lparr>ti_size := count, ti_data := [b], ti_currentBlock := mb_this b\<rparr>) s)\<lparr>tf_kernel := k\<rparr>)"
    "mb_size b = ALIGN_UP (of_int count) 4096" "length (mb_data b) = unat (mb_size b)"
    using write_block_fresh [OF n d(2,3) av] by blast
  have u: "unat (of_int count :: u64) = nat count" using d by (intro unat_of_int64) simp_all
  then have sz: "mb_size b = of_int count" using align_page(4) [OF d(2,3,4)] b(2) by (simp add: word_unat_eq_iff)
  have w1: "of_int count - (0 + 1) = (of_int (count - 1) :: u64)" by simp
  have u1: "unat (of_int (count - 1) :: u64) = length d - 1" using d by (subst unat_of_int64) (simp_all add: nat_diff_distrib)
  have f: "ti_currentBlockIndex n = 0" "ti_currentBlockOffset n = 0" "p_CurrentOffset n = 0" using n(3) by (auto simp: empty_file_def)
  let ?d = "take (length d - 1) d"
  have lt: "length ?d = length d - 1" by simp
  have co: "copy_out d 0 (of_int (count - 1)) = ret ?d" "copy_into (mb_data b) 0 ?d = ret (?d @ drop (length d - 1) (mb_data b))"
    using u u1 d(1) sz b(3) lt by (simp_all add: copy_out_def copy_into_def del: length_take)
  have cnt: "sint (of_int count :: u64) = count" "sint (of_int (count - 1) :: u64) = count - 1"
    using d(2,3) by (intro sint_of_int64; simp)+
  let ?n = "store_block (n\<lparr>ti_size := count, ti_data := [b], ti_currentBlock := mb_this b\<rparr>) (b\<lparr>mb_data := ?d @ drop (length d - 1) (mb_data b)\<rparr>)"
  let ?s = "inode_put t (?n\<lparr>ti_currentBlockOffset := 0, ti_currentBlockIndex := ti_currentBlockIndex ?n + 1\<rparr>) ((inode_put t (n\<lparr>ti_size := count, ti_data := [b], ti_currentBlock := mb_this b\<rparr>) s)\<lparr>tf_kernel := k\<rparr>)"
  have "write_loop A t count d 0 0 s = write_loop A t count d count (count - 1) ?s"
    using d(2) n(2) f co cnt by (subst write_loop.simps) (simp add: b(1) inode_get_def Let_def sz)
  also have "\<dots> = ret ((count - 1, ESUCCESS), inode_put t (?n\<lparr>ti_currentBlockOffset := 0, ti_currentBlockIndex := ti_currentBlockIndex ?n + 1,
      p_CurrentOffset := p_CurrentOffset ?n + count\<rparr>) ?s)"
    using n(2) by (subst write_loop.simps) (simp add: inode_get_def)
  finally have run: "write_loop A t count d 0 0 s = \<dots>" .
  show thesis
    by (rule that [OF run, of _ "b\<lparr>mb_data := ?d @ drop (length d - 1) (mb_data b)\<rparr>"], simp) (use f sz lt in \<open>simp_all add: store_block_def\<close>)
qed

lemma GetInode_missing:
  assumes fit: "names_fit A" and x: "good_name x" and miss: "root_named s fs x nullptr"
  shows "\<exists>k. GetInode A fs (Some (path_of [x])) s =
    ret (\<lparr>sr_inode = nullptr, sr_lastInode = nullptr, sr_end_index = Some (1 + int (length x)), sr_status = Some (- ENOENT)\<rparr>, s\<lparr>tf_kernel := k\<rparr>)"
proof -
  have "walk_loop A fs (path_of [x]) (x @ []) 1 0 nullptr s = ret (Inr (1 + int (length x), 0, nullptr), s)"
    using x by (subst walk_skip) (simp_all add: good_name_def)
  moreover obtain k where "walk_last A fs x (1 + int (length x)) 0 nullptr s = ret (Inr nullptr, s\<lparr>tf_kernel := k\<rparr>)"
    using walk_last_root [OF fit miss] by blast
  moreover have "x \<noteq> []" using x by (simp add: good_name_def)
  ultimately show ?thesis by (auto simp: GetInode_def GetSubInode_def)
qed

section \<open>Properties\<close>


text \<open>A file system with the folder \<open>etc\<close> that holds the file \<open>rc\<close>, and a kernel with memory.\<close>

definition test_ops :: "unit fs_ops" where
  "test_ops = \<lparr>fs_new = (\<lambda>k. ret (0x9000, k)), fs_uninit = (\<lambda>_. undefined), fs_delete = (\<lambda>_ k. ret k), fs_kmalloc = (\<lambda>_ k. ret (0x8000, k)),
     fs_kfree = (\<lambda>_ k. ret k), fs_AllocatePages = (\<lambda>c k. ret ((0x7000, replicate (unat c * 4096) 0), k)),
     fs_FreePages = (\<lambda>_ k. ret k), fs_FreePage = (\<lambda>_ k. ret k)\<rparr>"

definition test_inode :: "string \<Rightarrow> InodeType \<Rightarrow> ptr list \<Rightarrow> ptr \<Rightarrow> TempFSInode" where
  "test_inode name ty cs parent = \<lparr>p_name = name, p_type = ty, p_blockSize = 4096, p_ID = 1, p_CurrentOffset = 0, p_isOpen = True, ti_parent = parent,
     ti_fileSystem = 0x10, ti_privilegeLevel = \<lparr>UID = 5, GID = 6, ACL = 384\<rparr>, ti_children = cs, ti_children_lock = False, ti_data = [], ti_size = 0,
     ti_currentBlock = nullptr, ti_currentBlockIndex = 0, ti_currentBlockOffset = 0, ti_lock = False\<rparr>"

definition test_fs :: "unit tempfs" where
  "test_fs = \<lparr>tf_inodes = [0x20 \<mapsto> test_inode ''etc'' Folder [0x30] nullptr, 0x30 \<mapsto> test_inode ''rc'' File [] 0x20],
     tf_systems = [0x10 \<mapsto> (TempFileSystem_make 4096 \<lparr>UID = 0, GID = 0, ACL = 493\<rparr>)\<lparr>m_rootInodes := [0x20]\<rparr>],
     tf_rand = rand_init, tf_kernel = ()\<rparr>"

lemma test_root:
  "root_named test_fs 0x10 ''etc'' 0x20" "root_named test_fs 0x10 ''x'' nullptr" "is_path test_fs 0x20 [''rc''] 0x30"
  "good_name ''etc''" "good_name ''rc''" "good_name ''x''" "names_fit test_ops"
  by (simp_all add: root_named_def is_child_def good_name_def names_fit_def test_fs_def test_ops_def test_inode_def TempFileSystem_make_def inode_get_def)

lemma test_file:
  "tf_inodes test_fs 0x30 = Some (test_inode ''rc'' File [] 0x20)" "(0x30 :: ptr) \<noteq> nullptr" "empty_file (test_inode ''rc'' File [] 0x20)"
  by (simp_all add: test_fs_def test_inode_def empty_file_def)

lemma test_owner:
  "\<not> access_denied \<lparr>UID = 5, GID = g, ACL = 0\<rparr> (ti_privilegeLevel (test_inode ''rc'' File [] 0x20)) ACL_USER_WRITE ACL_GROUP_WRITE ACL_OTHER_WRITE"
  "\<not> access_denied \<lparr>UID = 5, GID = g, ACL = 0\<rparr> (ti_privilegeLevel (test_inode ''rc'' File [] 0x20)) ACL_USER_READ ACL_GROUP_READ ACL_OTHER_READ"
  by (simp_all add: test_inode_def access_denied_def)

lemma test_pages: "pages_available test_ops k c"
  by (simp add: pages_available_def test_ops_def)


text \<open>The first component of a path is not checked: when no root inode has its name the walk goes on with the next
  component at the top, so that \<open>/x/etc\<close> finds \<open>/etc\<close> when there is no \<open>x\<close>.\<close>

lemma GetInode_skips_missing:
  assumes "names_fit A" and "good_name x" and "good_name a" and "root_named s fs x nullptr" and "root_named s fs a r" and "r \<noteq> nullptr"
  shows "\<exists>k. GetInode A fs (Some (path_of [x, a])) s =
    ret (\<lparr>sr_inode = r, sr_lastInode = r, sr_end_index = Some (int (length (path_of [x, a]))), sr_status = None\<rparr>, s\<lparr>tf_kernel := k\<rparr>)"
  by (rule GetInode_skip [OF assms])





text \<open>Creating a file under a folder that does not exist reports success and creates nothing.\<close>

lemma CreateFile_missing_parent:
  assumes "names_fit A" and "good_name x" and "root_named s fs x nullptr"
  shows "\<exists>k. CreateFile A fs p (Some (path_of [x])) (Some name) sz inherit q s = ret (ESUCCESS, s\<lparr>tf_kernel := k\<rparr>)"
  using GetInode_missing [OF assms] by (auto simp: CreateFile_def)

text \<open>Destroying a file system whose first root inode has no children never returns: the list of root inodes is locked, and
  deleting a root inode takes the same lock again.\<close>

lemma DestroyFileSystem_deadlock:
  assumes fs: "tf_systems s fs = Some f" "fs \<noteq> nullptr" and r: "m_rootInodes f = r # rs" "tf_inodes s r = Some n" "r \<noteq> nullptr"
    and n: "p_type n \<noteq> SymLink" "ti_children n = []" "ti_parent n = nullptr" "ti_fileSystem n = fs"
  shows "DestroyFileSystem A fs s = None"
proof -
  let ?s = "s\<lparr>tf_systems := (tf_systems s)(fs \<mapsto> f\<lparr>m_rootInodes_lock := True\<rparr>)\<rparr>"
  have "Inode_Delete A r False False ?s = None"
    using fs r n by (subst Inode_Delete.simps)
      (simp add: inode_get_def GetTarget_def GetChildCount_def on_target_self with_children_def DeleteRootInode_def with_roots_def system_get_def
        spinlock_acquire_def spinlock_release_def)
  then have "destroy_loop A fs 0 ?s = None" using fs r by (subst destroy_loop.simps) (simp add: system_get_def)
  then show ?thesis using fs by (simp add: DestroyFileSystem_def system_get_def spinlock_acquire_def)
qed

end
