(* ===== verification/VFSCorrect.thy ===== *)
theory VFSCorrect
  imports VFS TempFSCorrect
begin

unbundle bit_operations_syntax

text \<open>
  The virtual file system: a path is followed across a mount point into the file system mounted there, a directory stream lists the
  children of its folder in order, and streams on one file keep their own positions.
\<close>

section \<open>Where a walk stops\<close>

lemma walk_prefix:
  assumes "names_fit A" "0 \<le> sep" "drop (nat sep) path = path_of ns @ PATH_SEPARATOR # cs" "list_all good_name ns" "is_path s p ns q"
  shows "\<exists>k. walk_loop A fs path (tl (path_of ns @ PATH_SEPARATOR # cs)) (sep + 1) sep p s =
    walk_loop A fs path cs (sep + int (length (path_of ns)) + 1) (sep + int (length (path_of ns))) q (s\<lparr>tf_kernel := k\<rparr>)"
  using assms
proof (induction ns arbitrary: sep p s)
  case Nil
  then show ?case by (intro exI [of _ "tf_kernel s"]) simp
next
  case (Cons n ns)
  obtain c where c: "is_child s p n c" "is_path s c ns q" using Cons.prems(5) by auto
  have n: "good_name n" using Cons.prems(4) by simp
  let ?sep = "sep + 1 + int (length n)" and ?rest = "tl (path_of ns @ PATH_SEPARATOR # cs)"
  have rest: "path_of ns @ PATH_SEPARATOR # cs = PATH_SEPARATOR # ?rest" by (cases ns) simp_all
  have path: "drop (nat (sep + 1)) path = n @ PATH_SEPARATOR # ?rest"
    using Cons.prems(2) arg_cong [OF Cons.prems(3), of "drop 1"] rest by (simp add: nat_add_distrib)
  have path': "drop (nat ?sep) path = path_of ns @ PATH_SEPARATOR # cs"
    using Cons.prems(2) arg_cong [OF path, of "drop (length n)"] rest by (simp add: nat_add_distrib add.commute)
  obtain k1 where k1: "walk_loop A fs path (n @ PATH_SEPARATOR # ?rest) (sep + 1) sep p s =
      walk_loop A fs path ?rest (sep + 2 + int (length n)) ?sep c (s\<lparr>tf_kernel := k1\<rparr>)"
    using walk_through [OF Cons.prems(1) path Cons.prems(2) n walk_component_child [OF Cons.prems(1) good_nameD [OF n] c(1)]] by blast
  have "\<exists>k. walk_loop A fs path ?rest (?sep + 1) ?sep c (s\<lparr>tf_kernel := k1\<rparr>) =
      walk_loop A fs path cs (?sep + int (length (path_of ns)) + 1) (?sep + int (length (path_of ns))) q (s\<lparr>tf_kernel := k1\<rparr>\<lparr>tf_kernel := k\<rparr>)"
    by (rule Cons.IH) (use Cons.prems path' c(2) in auto)
  then show ?case using k1 rest by (auto simp: algebra_simps)
qed

definition empty_folder :: "'k tempfs \<Rightarrow> ptr \<Rightarrow> bool" where
  "empty_folder s q \<longleftrightarrow> (\<exists>n. tf_inodes s q = Some n \<and> q \<noteq> nullptr \<and> p_type n = Folder \<and> \<not> ti_children_lock n \<and> ti_children n = [])"

lemma empty_folder_kernel [simp]: "empty_folder (s\<lparr>tf_kernel := k\<rparr>) q = empty_folder s q"
  by (simp add: empty_folder_def)

lemma GetTMPFSChild_empty:
  assumes "empty_folder s q"
  shows "GetTMPFSChild q (Some name) s = ret ((nullptr, Some (- ENOENT)), s)"
proof -
  obtain n where n: "tf_inodes s q = Some n" "q \<noteq> nullptr" "p_type n = Folder" "\<not> ti_children_lock n" "ti_children n = []"
    using assms by (auto simp: empty_folder_def)
  have "n\<lparr>ti_children := [], ti_children_lock := False\<rparr> = n" using n(4,5) by (cases n) simp
  then show ?thesis
    using n by (simp add: GetTMPFSChild_def on_target_self with_children_def inode_get_def spinlock_release_def inode_put_same)
qed

text \<open>In an empty folder the next component is not found, whether it is the last one or not.\<close>

lemma walk_empty:
  assumes fit: "names_fit A" and q: "empty_folder s q" and name: "name \<noteq> ''.''" "name \<noteq> ''..''"
  shows "\<exists>k. walk_component A fs name i sep q s =
      ret (Inl \<lparr>sr_inode = nullptr, sr_lastInode = q, sr_end_index = Some sep, sr_status = Some (- ENOENT)\<rparr>, s\<lparr>tf_kernel := k\<rparr>)"
    and "\<exists>k. walk_last A fs name i sep q s =
      ret (Inl \<lparr>sr_inode = nullptr, sr_lastInode = q, sr_end_index = Some sep, sr_status = Some (- ENOENT)\<rparr>, s\<lparr>tf_kernel := k\<rparr>)"
proof -
  obtain b k1 where b: "fs_kmalloc A (of_int (i - (sep + 1) + 1)) (tf_kernel s) = ret (b, k1)" "b \<noteq> nullptr"
    using names_fitD(1) [OF fit] by blast
  obtain k2 where k2: "fs_kfree A b k1 = ret k2" using names_fitD(2) [OF fit] by blast
  have p: "q \<noteq> nullptr" using q by (auto simp: empty_folder_def)
  have g: "GetTMPFSChild q (Some name) (s\<lparr>tf_kernel := k1\<rparr>) = ret ((nullptr, Some (- ENOENT)), s\<lparr>tf_kernel := k1\<rparr>)"
    by (rule GetTMPFSChild_empty) (use q in simp)
  show "\<exists>k. walk_component A fs name i sep q s =
      ret (Inl \<lparr>sr_inode = nullptr, sr_lastInode = q, sr_end_index = Some sep, sr_status = Some (- ENOENT)\<rparr>, s\<lparr>tf_kernel := k\<rparr>)"
    using b k2 p name g by (simp add: walk_component_def kernel_call_def kernel_do_def) blast
  show "\<exists>k. walk_last A fs name i sep q s =
      ret (Inl \<lparr>sr_inode = nullptr, sr_lastInode = q, sr_end_index = Some sep, sr_status = Some (- ENOENT)\<rparr>, s\<lparr>tf_kernel := k\<rparr>)"
    using b k2 p g by (simp add: walk_last_def kernel_call_def kernel_do_def) blast
qed

text \<open>A path whose first part ends at an empty folder: the walk stops there, in front of the rest.\<close>

lemma GetInode_stops:
  assumes fit: "names_fit A" and names: "list_all good_name (n # ns)" "list_all good_name (m # ms)"
    and root: "root_named s fs n r" "r \<noteq> nullptr" and path: "is_path s r ns q" and q: "empty_folder s q"
  shows "\<exists>k. GetInode A fs (Some (path_of (n # ns) @ path_of (m # ms))) s =
    ret (\<lparr>sr_inode = nullptr, sr_lastInode = q, sr_end_index = Some (int (length (path_of (n # ns)))), sr_status = Some (- ENOENT)\<rparr>, s\<lparr>tf_kernel := k\<rparr>)"
proof -
  let ?path = "path_of (n # ns) @ path_of (m # ms)" and ?l = "int (length (path_of (n # ns)))"
  let ?stop = "\<lparr>sr_inode = nullptr, sr_lastInode = q, sr_end_index = Some ?l, sr_status = Some (- ENOENT)\<rparr>"
  have n: "good_name n" and m: "good_name m" using names by auto
  have rest: "path_of ns @ PATH_SEPARATOR # m @ path_of ms = PATH_SEPARATOR # tl (path_of ns @ PATH_SEPARATOR # m @ path_of ms)" by (cases ns) simp_all
  have "drop (nat (0 + 1)) ?path = n @ PATH_SEPARATOR # tl (path_of ns @ PATH_SEPARATOR # m @ path_of ms)" using rest by simp
  from walk_through [OF fit this order_refl n walk_component_root [OF fit good_nameD [OF n] root(1)]]
  obtain k1 where k1: "walk_loop A fs ?path (n @ path_of ns @ PATH_SEPARATOR # m @ path_of ms) 1 0 nullptr s =
      walk_loop A fs ?path (tl (path_of ns @ PATH_SEPARATOR # m @ path_of ms)) (1 + int (length n) + 1) (1 + int (length n)) r (s\<lparr>tf_kernel := k1\<rparr>)"
    using rest by (auto simp: algebra_simps)
  have "\<exists>k. walk_loop A fs ?path (tl (path_of ns @ PATH_SEPARATOR # m @ path_of ms)) (1 + int (length n) + 1) (1 + int (length n)) r (s\<lparr>tf_kernel := k1\<rparr>) =
      walk_loop A fs ?path (m @ path_of ms) (1 + int (length n) + int (length (path_of ns)) + 1) (1 + int (length n) + int (length (path_of ns))) q
        (s\<lparr>tf_kernel := k1\<rparr>\<lparr>tf_kernel := k\<rparr>)"
    by (rule walk_prefix) (use fit names path in \<open>auto simp: nat_add_distrib\<close>)
  then obtain k2 where k2: "walk_loop A fs ?path (n @ path_of ns @ PATH_SEPARATOR # m @ path_of ms) 1 0 nullptr s =
      walk_loop A fs ?path (m @ path_of ms) (?l + 1) ?l q (s\<lparr>tf_kernel := k2\<rparr>)"
    unfolding k1 by (auto simp: algebra_simps)
  let ?s = "s\<lparr>tf_kernel := k2\<rparr>" and ?i = "?l + 1 + int (length m)"
  have m': "PATH_SEPARATOR \<notin> set m" "m \<noteq> []" using m by (auto simp: good_name_def)
  have q': "empty_folder ?s q" using q by simp
  have dr: "drop (nat (?l + 1)) ?path = m @ path_of ms" by (simp add: nat_add_distrib)
  show ?thesis
  proof (cases ms)
    case Nil
    obtain k3 where "walk_last A fs m ?i ?l q ?s = ret (Inl ?stop, ?s\<lparr>tf_kernel := k3\<rparr>)"
      using walk_empty(2) [OF fit q' good_nameD [OF m]] by blast
    moreover have "walk_loop A fs ?path (m @ []) (?l + 1) ?l q ?s = ret (Inr (?i, ?l, q), ?s)"
      by (subst walk_skip [OF m'(1)]) simp
    ultimately show ?thesis using k2 dr m'(2) Nil by (auto simp: GetInode_def GetSubInode_def)
  next
    case (Cons x xs)
    obtain k3 where k3: "walk_component A fs m ?i ?l q ?s = ret (Inl ?stop, ?s\<lparr>tf_kernel := k3\<rparr>)"
      using walk_empty(1) [OF fit q' good_nameD [OF m]] by blast
    have "take (nat (?i - (?l + 1))) (drop (nat (?l + 1)) ?path) = m" unfolding dr by simp
    then have "walk_loop A fs ?path (m @ path_of ms) (?l + 1) ?l q ?s = ret (Inl ?stop, ?s\<lparr>tf_kernel := k3\<rparr>)"
      using k3 m'(2) Cons by (subst walk_skip [OF m'(1)]) simp
    then show ?thesis using k2 by (auto simp: GetInode_def GetSubInode_def)
  qed
qed

section \<open>Across a mount point\<close>

text \<open>\<open>v\<close> has a mount point \<open>p\<close> of the in-memory file system \<open>fs\<close>.\<close>

definition is_point :: "'k vfs \<Rightarrow> ptr \<Rightarrow> ptr \<Rightarrow> bool" where
  "is_point v p fs \<longleftrightarrow> (\<exists>mp. v_points v p = Some mp \<and> p \<noteq> nullptr \<and> mp_type mp = FST_TMPFS \<and> mp_fs mp = fs \<and> fs \<noteq> nullptr)"

text \<open>The folder \<open>q\<close> is covered by the mount point \<open>p\<close>.\<close>

definition mounted_at :: "'k vfs \<Rightarrow> ptr \<Rightarrow> ptr \<Rightarrow> bool" where
  "mounted_at v q p \<longleftrightarrow> \<not> m_mountPoints_lock v \<and> find_point v (\<lambda>mp. mp_RootInode mp = q) (m_mountPoints v) = ret (Some p)"

lemma find_point_tmp [simp]: "find_point (v\<lparr>v_tmp := s\<rparr>) P ms = find_point v P ms"
  by (induction ms) (simp_all cong: if_cong)

lemma is_point_tmp [simp]: "is_point (v\<lparr>v_tmp := s\<rparr>) p fs = is_point v p fs"
  by (simp add: is_point_def)

lemma mounted_at_tmp [simp]: "mounted_at (v\<lparr>v_tmp := s\<rparr>) q p = mounted_at v q p"
  by (simp add: mounted_at_def)

lemma search_point_mounted:
  assumes "mounted_at v q p"
  shows "search_point (\<lambda>mp. mp_RootInode mp = q) v = ret (Some p, v)"
proof -
  have "v\<lparr>m_mountPoints := m_mountPoints v, m_mountPoints_lock := False\<rparr> = v" using assms by (cases v) (simp add: mounted_at_def)
  then show ?thesis using assms by (simp add: search_point_def with_mountPoints_def mounted_at_def)
qed

lemma point_loop_found:
  assumes p: "is_point v p fs" and i: "0 \<le> i" "nat i \<le> length path" "drop (nat i) path = path_of (m # ms)"
    and fit: "names_fit A" and names: "list_all good_name (m # ms)"
    and root: "root_named (v_tmp v) fs m r" "r \<noteq> nullptr" and x: "is_path (v_tmp v) r ms x" "x \<noteq> nullptr"
  shows "\<exists>k. point_loop A path p l i v = ret (\<lparr>pr_mountPoint = p, pr_inode = x, pr_status = ESUCCESS\<rparr>, v\<lparr>v_tmp := (v_tmp v)\<lparr>tf_kernel := k\<rparr>\<rparr>)"
proof -
  obtain k where "GetInode A fs (Some (path_of (m # ms))) (v_tmp v) =
      ret (\<lparr>sr_inode = x, sr_lastInode = x, sr_end_index = Some (int (length (path_of (m # ms)))), sr_status = None\<rparr>, (v_tmp v)\<lparr>tf_kernel := k\<rparr>)"
    using GetInode_found [OF fit names root x(1)] by blast
  then have "walk_system (GetInode A fs) p l nullptr path i v =
      ret (Inl \<lparr>pr_mountPoint = p, pr_inode = x, pr_status = ESUCCESS\<rparr>, v\<lparr>v_tmp := (v_tmp v)\<lparr>tf_kernel := k\<rparr>\<rparr>)"
    using i x(2) unfolding walk_system_def path_at_def by (simp add: tmp_call_def del: path_of_simps)
  then show ?thesis using p by (subst point_loop.simps) (auto simp: is_point_def)
qed

lemma GetMountPoint_across:
  assumes p0: "is_point v (m_root v) fs0" and p1: "is_point v p fs1" "p \<noteq> m_root v" and at: "mounted_at v q p"
    and fit: "names_fit A" and names: "list_all good_name (n # ns)" "list_all good_name (m # ms)"
    and root0: "root_named (v_tmp v) fs0 n r" "r \<noteq> nullptr" and path0: "is_path (v_tmp v) r ns q" "empty_folder (v_tmp v) q"
    and root1: "root_named (v_tmp v) fs1 m r1" "r1 \<noteq> nullptr" and path1: "is_path (v_tmp v) r1 ms x" "x \<noteq> nullptr"
  shows "\<exists>k. GetMountPoint A (Some (path_of ((n # ns) @ (m # ms)))) wd v =
    ret (\<lparr>pr_mountPoint = p, pr_inode = x, pr_status = ESUCCESS\<rparr>, v\<lparr>v_tmp := (v_tmp v)\<lparr>tf_kernel := k\<rparr>\<rparr>)"
proof -
  let ?path = "path_of (n # ns) @ path_of (m # ms)" and ?l = "int (length (path_of (n # ns)))"
  have pth: "path_of ((n # ns) @ (m # ms)) = ?path" by (simp add: path_of_def)
  obtain k where k: "GetInode A fs0 (Some ?path) (v_tmp v) =
      ret (\<lparr>sr_inode = nullptr, sr_lastInode = q, sr_end_index = Some ?l, sr_status = Some (- ENOENT)\<rparr>, (v_tmp v)\<lparr>tf_kernel := k\<rparr>)"
    using GetInode_stops [OF fit names root0 path0] by blast
  let ?v = "v\<lparr>v_tmp := (v_tmp v)\<lparr>tf_kernel := k\<rparr>\<rparr>"
  have q: "q \<noteq> nullptr" using path0(2) by (auto simp: empty_folder_def)
  have w: "walk_system (GetInode A fs0) (m_root v) nullptr nullptr ?path 0 v = ret (Inr (q, ?l), ?v)"
    using k q unfolding walk_system_def path_at_def by (simp add: tmp_call_def del: path_of_simps)
  have nx: "next_point q (m_root v) ?v = ret (Inr p, ?v)"
    using search_point_mounted [of ?v q p] at p1 by (auto simp: next_point_def is_point_def)
  obtain k2 where "point_loop A ?path p q ?l ?v = ret (\<lparr>pr_mountPoint = p, pr_inode = x, pr_status = ESUCCESS\<rparr>, ?v\<lparr>v_tmp := (v_tmp ?v)\<lparr>tf_kernel := k2\<rparr>\<rparr>)"
    using point_loop_found [of ?v p fs1 ?l ?path m ms A r1 x] p1 fit names root1 path1 by (auto simp del: path_of_simps)
  then have lp: "point_loop A ?path (m_root v) nullptr 0 v = ret (\<lparr>pr_mountPoint = p, pr_inode = x, pr_status = ESUCCESS\<rparr>, v\<lparr>v_tmp := (v_tmp v)\<lparr>tf_kernel := k2\<rparr>\<rparr>)"
    using p0 w nx by (subst point_loop.simps) (auto simp: is_point_def simp del: path_of_simps)
  have "?path \<noteq> ''/''" "?path \<noteq> []" "hd ?path = PATH_SEPARATOR" using names by (auto simp: good_name_def)
  then show ?thesis unfolding pth using lp by (simp add: GetMountPoint_def del: path_of_simps append.simps) blast
qed

section \<open>Streams and their heads\<close>

text \<open>The stream \<open>a\<close> is open on the file \<open>n\<close> at \<open>t\<close>, with its position \<open>h\<close> saved at \<open>hp\<close>.\<close>

definition stream_on :: "'k vfs \<Rightarrow> ptr \<Rightarrow> FileStream \<Rightarrow> ptr \<Rightarrow> Head \<Rightarrow> ptr \<Rightarrow> TempFSInode \<Rightarrow> bool" where
  "stream_on v a st hp h t n \<longleftrightarrow> v_files v a = Some st \<and> a \<noteq> nullptr \<and> \<not> st_lock st \<and> (\<exists>fs. is_point v (st_mountPoint st) fs) \<and>
     st_inode st = t \<and> tf_inodes (v_tmp v) t = Some n \<and> t \<noteq> nullptr \<and> p_type n = File \<and> \<not> ti_lock n \<and>
     st_inode_state st = hp \<and> hp \<noteq> nullptr \<and> v_heads v hp = Some h"

lemma is_file_File: "tf_inodes (v_tmp v) t = Some n \<Longrightarrow> t \<noteq> nullptr \<Longrightarrow> p_type n = File \<Longrightarrow> is_file v t = ret True"
  by (simp add: is_file_def) (subst Inode_GetType.simps, simp add: inode_get_def)

text \<open>The inode as the operation of a stream sees it.\<close>

definition with_head :: "Head \<Rightarrow> TempFSInode \<Rightarrow> TempFSInode" where
  "with_head h n = SetCurrentHead h (n\<lparr>ti_lock := True\<rparr>)"

lemma with_head_simps [simp]:
  "p_type (with_head h n) = p_type n" "ti_data (with_head h n) = ti_data n" "ti_size (with_head h n) = ti_size n"
  "ti_privilegeLevel (with_head h n) = ti_privilegeLevel n" "p_blockSize (with_head h n) = p_blockSize n"
  "p_isOpen (with_head h n) = hd_isOpen h" "p_CurrentOffset (with_head h n) = CurrentOffset h"
  "ti_currentBlockIndex (with_head h n) = currentBlockIndex h" "ti_currentBlockOffset (with_head h n) = currentBlockOffset h"
  by (simp_all add: with_head_def SetCurrentHead_def)

lemma stream_call_on:
  assumes st: "stream_on v a st hp h t n"
    and f: "f t (inode_put t (with_head h n) (v_tmp v)) = ret (r, s')" and n': "tf_inodes s' t = Some n'"
  shows "with_stream a (stream_call err f) v =
    ret (r, v\<lparr>v_tmp := inode_put t (n'\<lparr>ti_lock := False\<rparr>) s', v_heads := (v_heads v)(hp \<mapsto> GetCurrentHead n'), v_files := (v_files v)(a \<mapsto> st)\<rparr>)"
proof -
  obtain fs where p: "is_point v (st_mountPoint st) fs" and s: "v_files v a = Some st" "a \<noteq> nullptr" "\<not> st_lock st" "st_inode st = t"
    "tf_inodes (v_tmp v) t = Some n" "t \<noteq> nullptr" "p_type n = File" "\<not> ti_lock n" "st_inode_state st = hp" "hp \<noteq> nullptr" "v_heads v hp = Some h"
    using st by (auto simp: stream_on_def)
  have unlock: "st\<lparr>st_lock := False\<rparr> = st" using s(3) by (cases st) simp
  have ld: "load_head t hp v = ret (v\<lparr>v_tmp := inode_put t (with_head h n) (v_tmp v)\<rparr>)"
    using s by (simp add: load_head_def inode_Lock_def Inode_Lock_def inode_SetCurrentHead_def inode_get_def with_head_def)
  have sv: "save_head t hp (v\<lparr>v_tmp := s'\<rparr>) = ret (v\<lparr>v_tmp := inode_put t (n'\<lparr>ti_lock := False\<rparr>) s', v_heads := (v_heads v)(hp \<mapsto> GetCurrentHead n')\<rparr>)"
    using s n' by (simp add: save_head_def inode_GetCurrentHead_def inode_Unlock_def Inode_Unlock_def inode_get_def)
  have tc: "tmp_call (f t) (v\<lparr>v_tmp := inode_put t (with_head h n) (v_tmp v)\<rparr>) = ret (r, v\<lparr>v_tmp := s'\<rparr>)"
    using f by (simp add: tmp_call_def)
  show ?thesis
    using p s ld sv tc by (auto simp: with_stream_def stream_call_def is_point_def is_file_File unlock)
qed

lemma stream_on_after:
  assumes "stream_on v a st hp h t n" "tf_inodes s' t = Some n'" "p_type n' = File"
  shows "stream_on (v\<lparr>v_tmp := inode_put t (n'\<lparr>ti_lock := False\<rparr>) s', v_heads := (v_heads v)(hp \<mapsto> h'), v_files := (v_files v)(a \<mapsto> st)\<rparr>)
    a st hp h' t (n'\<lparr>ti_lock := False\<rparr>)"
  using assms by (auto simp: stream_on_def is_point_def)

text \<open>Writing, rewinding and reading through a stream.\<close>

lemma with_stream_guard:
  assumes "stream_on v a st hp h t n" and "\<And>st v. P st \<Longrightarrow> f st v = g st v" and "P (st\<lparr>st_lock := True\<rparr>)"
  shows "with_stream a f v = with_stream a g v"
  using assms by (simp add: with_stream_def stream_on_def)

lemma FileStream_WriteStream_on:
  assumes st: "stream_on v a st hp h t n" and m: "st_modes st AND VFS_WRITE \<noteq> 0" and c: "0 \<le> count"
  shows "FileStream_WriteStream A a d count v =
    with_stream a (stream_call (\<lambda>e. (e, None)) (\<lambda>i. WriteStream A i (st_privilege st) d count)) v"
  unfolding FileStream_WriteStream_def using c
  by (simp, intro with_stream_guard [OF st, where P = "\<lambda>x. st_mountPoint x \<noteq> nullptr \<and> st_modes x AND VFS_WRITE \<noteq> 0 \<and> st_privilege x = st_privilege st"])
    (use st m in \<open>auto simp: stream_on_def is_point_def\<close>)

lemma FileStream_ReadStream_on:
  assumes st: "stream_on v a st hp h t n" and m: "st_modes st AND VFS_READ \<noteq> 0" and c: "0 \<le> count"
  shows "FileStream_ReadStream a d count v =
    with_stream a (stream_call (\<lambda>e. (e, None, d)) (\<lambda>i. ReadStream i (st_privilege st) d count)) v"
  unfolding FileStream_ReadStream_def using c
  by (simp, intro with_stream_guard [OF st, where P = "\<lambda>x. st_mountPoint x \<noteq> nullptr \<and> st_modes x AND VFS_READ \<noteq> 0 \<and> st_privilege x = st_privilege st"])
    (use st m in \<open>auto simp: stream_on_def is_point_def\<close>)

lemma FileStream_Rewind_on:
  assumes st: "stream_on v a st hp h t n"
  shows "FileStream_Rewind a v = bindP (with_stream a (stream_call id Rewind) v) (\<lambda>(rc, v). ret (if rc < 0 then rc else ESUCCESS, v))"
  unfolding FileStream_Rewind_def
  by (subst with_stream_guard [OF st, where P = "\<lambda>x. st_mountPoint x \<noteq> nullptr" and g = "stream_call id Rewind"])
    (use st in \<open>auto simp: stream_on_def is_point_def\<close>)

definition fresh_head :: "Head \<Rightarrow> bool" where
  "fresh_head h \<longleftrightarrow> hd_isOpen h \<and> CurrentOffset h = 0 \<and> currentBlockIndex h = 0 \<and> currentBlockOffset h = 0"

lemma GetCurrentHead_simps [simp]:
  "hd_isOpen (GetCurrentHead n) = p_isOpen n" "CurrentOffset (GetCurrentHead n) = p_CurrentOffset n"
  "currentBlockIndex (GetCurrentHead n) = ti_currentBlockIndex n" "currentBlockOffset (GetCurrentHead n) = ti_currentBlockOffset n"
  by (simp_all add: GetCurrentHead_def)

lemma written_simps [simp]:
  "p_type (written n b c) = p_type n" "p_isOpen (written n b c) = p_isOpen n" "ti_data (written n b c) = [b]" "ti_size (written n b c) = c"
  "ti_privilegeLevel (written n b c) = ti_privilegeLevel n" "ti_currentBlockIndex (written n b c) = ti_currentBlockIndex n"
  by (simp_all add: written_def)

lemma rewound_simps [simp]:
  "p_type (rewound n) = p_type n" "p_isOpen (rewound n) = p_isOpen n" "ti_data (rewound n) = ti_data n" "ti_size (rewound n) = ti_size n"
  "ti_privilegeLevel (rewound n) = ti_privilegeLevel n" "fresh_head (GetCurrentHead (rewound n)) = p_isOpen n"
  by (simp_all add: rewound_def fresh_head_def)

lemma stream_Write:
  assumes st: "stream_on v a st hp h t n" and h: "fresh_head h" and n: "ti_data n = []" "ti_size n = 0" "p_blockSize n = 4096"
    and m: "st_modes st AND VFS_WRITE \<noteq> 0" and acc: "\<not> access_denied (st_privilege st) (ti_privilegeLevel n) ACL_USER_WRITE ACL_GROUP_WRITE ACL_OTHER_WRITE"
    and d: "count = int (length d)" "0 < count" "count < 2 ^ 62" "count mod 4096 \<noteq> 0"
    and av: "pages_available A (tf_kernel (v_tmp v)) (ALIGN_UP (of_int count) 4096 div 4096)"
  obtains v' n' h' b where "FileStream_WriteStream A a (Some d) count v = ret ((count, Some ESUCCESS), v')" "stream_on v' a st hp h' t n'"
    "hd_isOpen h'" "ti_data n' = [b]" "holds b d count" "ti_size n' = count" "ti_privilegeLevel n' = ti_privilegeLevel n" "\<forall>g. g \<noteq> hp \<longrightarrow> v_heads v' g = v_heads v g"
proof -
  let ?n = "with_head h n" let ?s = "inode_put t ?n (v_tmp v)"
  have t: "t \<noteq> nullptr" "p_type n = File" using st by (auto simp: stream_on_def)
  have e: "empty_file ?n" using h n t by (simp add: empty_file_def fresh_head_def)
  obtain b k where w: "WriteStream A t (st_privilege st) (Some d) count ?s = ret ((count, Some ESUCCESS), (inode_put t (written ?n b count) ?s)\<lparr>tf_kernel := k\<rparr>)"
    and b: "holds b d count"
    by (rule WriteStream_fits [of ?s t ?n "st_privilege st" count d A]) (use e t acc d av in auto)
  let ?m = "written ?n b count" let ?s' = "(inode_put t ?m ?s)\<lparr>tf_kernel := k\<rparr>"
  let ?v = "v\<lparr>v_tmp := inode_put t (?m\<lparr>ti_lock := False\<rparr>) ?s', v_heads := (v_heads v)(hp \<mapsto> GetCurrentHead ?m), v_files := (v_files v)(a \<mapsto> st)\<rparr>"
  have "FileStream_WriteStream A a (Some d) count v = ret ((count, Some ESUCCESS), ?v)"
    using FileStream_WriteStream_on [OF st m] d(2) stream_call_on [OF st, of "\<lambda>i. WriteStream A i (st_privilege st) (Some d) count", OF w] by simp
  moreover have "stream_on ?v a st hp (GetCurrentHead ?m) t (?m\<lparr>ti_lock := False\<rparr>)"
    by (rule stream_on_after [OF st]) (use t in simp_all)
  ultimately show thesis using that [of ?v "GetCurrentHead ?m" "?m\<lparr>ti_lock := False\<rparr>" b] b h by (auto simp: fresh_head_def)
qed

lemma stream_Rewind:
  assumes st: "stream_on v a st hp h t n" and h: "hd_isOpen h"
  obtains v' n' h' where "FileStream_Rewind a v = ret (ESUCCESS, v')" "stream_on v' a st hp h' t n'" "fresh_head h'"
    "ti_data n' = ti_data n" "ti_size n' = ti_size n" "ti_privilegeLevel n' = ti_privilegeLevel n" "\<forall>g. g \<noteq> hp \<longrightarrow> v_heads v' g = v_heads v g"
proof -
  let ?n = "with_head h n" let ?s = "inode_put t ?n (v_tmp v)" let ?m = "rewound ?n"
  have t: "t \<noteq> nullptr" "p_type n = File" using st by (auto simp: stream_on_def)
  have r: "Rewind t ?s = ret (ESUCCESS, inode_put t ?m ?s)" by (rule Rewind_file) (use t h in simp_all)
  let ?v = "v\<lparr>v_tmp := inode_put t (?m\<lparr>ti_lock := False\<rparr>) (inode_put t ?m ?s), v_heads := (v_heads v)(hp \<mapsto> GetCurrentHead ?m), v_files := (v_files v)(a \<mapsto> st)\<rparr>"
  have "FileStream_Rewind a v = ret (ESUCCESS, ?v)"
    using FileStream_Rewind_on [OF st] stream_call_on [OF st, of Rewind, OF r] by simp
  moreover have "stream_on ?v a st hp (GetCurrentHead ?m) t (?m\<lparr>ti_lock := False\<rparr>)"
    by (rule stream_on_after [OF st]) (use t in simp_all)
  ultimately show thesis using that [of ?v "GetCurrentHead ?m" "?m\<lparr>ti_lock := False\<rparr>"] h by auto
qed

lemma stream_Read:
  assumes st: "stream_on v a st hp h t n" and h: "fresh_head h" and n: "ti_data n = [b]" "ti_size n = count"
    and m: "st_modes st AND VFS_READ \<noteq> 0" and acc: "\<not> access_denied (st_privilege st) (ti_privilegeLevel n) ACL_USER_READ ACL_GROUP_READ ACL_OTHER_READ"
    and c: "0 < count" "count < 2 ^ 62" "holds b d count" and buf: "length buf = nat count"
  obtains v' where "FileStream_ReadStream a (Some buf) count v = ret ((count, Some ESUCCESS, Some d), v')" "\<forall>g. g \<noteq> hp \<longrightarrow> v_heads v' g = v_heads v g"
proof -
  let ?n = "with_head h n" let ?s = "inode_put t ?n (v_tmp v)"
  have t: "t \<noteq> nullptr" "p_type n = File" using st by (auto simp: stream_on_def)
  have "\<exists>s'. ReadStream t (st_privilege st) (Some buf) count ?s = ret ((count, Some ESUCCESS, Some d), s') \<and> (\<exists>n'. s' = inode_put t n' ?s)"
    by (rule ReadStream_fits [where n = ?n and b = b]) (use t h n acc c buf in \<open>auto simp: fresh_head_def\<close>)
  then obtain n' where r: "ReadStream t (st_privilege st) (Some buf) count ?s = ret ((count, Some ESUCCESS, Some d), inode_put t n' ?s)" by blast
  let ?v = "v\<lparr>v_tmp := inode_put t (n'\<lparr>ti_lock := False\<rparr>) (inode_put t n' ?s), v_heads := (v_heads v)(hp \<mapsto> GetCurrentHead n'), v_files := (v_files v)(a \<mapsto> st)\<rparr>"
  have "FileStream_ReadStream a (Some buf) count v = ret ((count, Some ESUCCESS, Some d), ?v)"
    using FileStream_ReadStream_on [OF st m] c(1) stream_call_on [OF st, of "\<lambda>i. ReadStream i (st_privilege st) (Some buf) count", OF r] by simp
  then show thesis by (rule that) simp
qed

section \<open>Listing a directory\<close>

text \<open>The first \<open>k\<close> answers of a directory stream.\<close>

primrec next_inodes :: "nat \<Rightarrow> ptr \<Rightarrow> 'k vfs \<Rightarrow> ((ptr \<times> int) list \<times> 'k vfs) prog" where
  "next_inodes 0 d v = ret ([], v)"
| "next_inodes (Suc k) d v = bindP (GetNextInode d v) (\<lambda>(r, v). bindP (next_inodes k d v) (\<lambda>(rs, v). ret (r # rs, v)))"

definition folder_with :: "'k vfs \<Rightarrow> ptr \<Rightarrow> ptr list \<Rightarrow> bool" where
  "folder_with v q cs \<longleftrightarrow> (\<exists>n. tf_inodes (v_tmp v) q = Some n \<and> q \<noteq> nullptr \<and> p_type n = Folder \<and> \<not> ti_children_lock n \<and>
     ti_children n = cs \<and> nullptr \<notin> set cs)"

definition dir_at :: "'k vfs \<Rightarrow> ptr \<Rightarrow> ptr \<Rightarrow> nat \<Rightarrow> bool" where
  "dir_at v d q i \<longleftrightarrow> (\<exists>ds. v_dirs v d = Some ds \<and> d \<noteq> nullptr \<and> \<not> ds_lock ds \<and> ds_isOpen ds \<and> ds_inode ds = q \<and> ds_index ds = int i)"

lemma folder_children:
  assumes "folder_with v q cs"
  shows "tmp_call (GetChildCount q) v = ret (length cs, v)"
    and "i < length cs \<Longrightarrow> length cs < 2 ^ 63 \<Longrightarrow> tmp_call (GetChild_index q (of_nat i)) v = ret ((cs ! i, None), v)"
proof -
  obtain n where n: "tf_inodes (v_tmp v) q = Some n" "q \<noteq> nullptr" "p_type n = Folder" "\<not> ti_children_lock n" "ti_children n = cs" "nullptr \<notin> set cs"
    using assms by (auto simp: folder_with_def)
  have same: "n\<lparr>ti_children := cs, ti_children_lock := False\<rparr> = n" using n(4,5) by (cases n) simp
  show "tmp_call (GetChildCount q) v = ret (length cs, v)"
    using n same by (simp add: tmp_call_def GetChildCount_def on_target_self with_children_def inode_get_def inode_put_same)
  assume i: "i < length cs" "length cs < 2 ^ 63"
  then have "unat (of_nat i :: u64) = i" by (intro unat_of_nat64) simp
  moreover have "cs ! i \<noteq> nullptr" using n(6) i(1) nth_mem by fastforce
  ultimately show "tmp_call (GetChild_index q (of_nat i)) v = ret ((cs ! i, None), v)"
    using n same i(1) by (simp add: tmp_call_def GetChild_index_def on_target_self with_children_def inode_get_def inode_put_same)
qed

lemma GetNextInode_step:
  assumes f: "folder_with v q cs" "length cs < 2 ^ 63" and d: "dir_at v d q i"
  shows "i < length cs \<Longrightarrow> \<exists>v'. GetNextInode d v = ret ((cs ! i, ESUCCESS), v') \<and> folder_with v' q cs \<and> dir_at v' d q (Suc i)"
    and "i = length cs \<Longrightarrow> \<exists>v'. GetNextInode d v = ret ((nullptr, - EINVAL), v')"
proof -
  obtain ds where ds: "v_dirs v d = Some ds" "d \<noteq> nullptr" "\<not> ds_lock ds" "ds_isOpen ds" "ds_inode ds = q" "ds_index ds = int i"
    using d by (auto simp: dir_at_def)
  have q: "q \<noteq> nullptr" using f(1) by (auto simp: folder_with_def)
  {
    assume i: "i < length cs"
    then have u: "unat (of_nat i :: u64) = i" using f(2) by (intro unat_of_nat64) simp
    let ?v = "v\<lparr>v_dirs := (v_dirs v)(d \<mapsto> ds\<lparr>ds_index := int i + 1, ds_lock := False\<rparr>)\<rparr>"
    have "GetNextInode d v = ret ((cs ! i, ESUCCESS), ?v)"
      using ds q u i folder_children [OF f(1)] f(2) by (simp add: GetNextInode_def with_dir_def)
    then show "\<exists>v'. GetNextInode d v = ret ((cs ! i, ESUCCESS), v') \<and> folder_with v' q cs \<and> dir_at v' d q (Suc i)"
      using f(1) ds by (intro exI [of _ ?v]) (simp add: folder_with_def dir_at_def)
  }
  assume i: "i = length cs"
  then have "unat (of_nat i :: u64) = i" using f(2) by (intro unat_of_nat64) simp
  then show "\<exists>v'. GetNextInode d v = ret ((nullptr, - EINVAL), v')"
    using ds q i folder_children(1) [OF f(1)] by (simp add: GetNextInode_def with_dir_def)
qed

lemma next_inodes_from:
  assumes "folder_with v q cs" "length cs < 2 ^ 63" "dir_at v d q i" "i \<le> length cs"
  shows "\<exists>v'. next_inodes (Suc (length cs - i)) d v = ret (map (\<lambda>c. (c, ESUCCESS)) (drop i cs) @ [(nullptr, - EINVAL)], v')"
  using assms
proof (induction "length cs - i" arbitrary: i v)
  case 0
  then have i: "i = length cs" by simp
  then obtain v' where "GetNextInode d v = ret ((nullptr, - EINVAL), v')" using GetNextInode_step(2) [OF 0(2-4)] by blast
  then show ?case unfolding i by simp
next
  case (Suc k)
  then have i: "i < length cs" by simp
  obtain v' where v': "GetNextInode d v = ret ((cs ! i, ESUCCESS), v')" "folder_with v' q cs" "dir_at v' d q (Suc i)"
    using GetNextInode_step(1) [OF Suc.prems(1-3) i] by blast
  have e: "length cs - i = Suc (length cs - Suc i)" using i by simp
  obtain v'' where "next_inodes (Suc (length cs - Suc i)) d v' = ret (map (\<lambda>c. (c, ESUCCESS)) (drop (Suc i) cs) @ [(nullptr, - EINVAL)], v'')"
    using Suc.hyps(1) [of "Suc i" v', OF _ v'(2) Suc.prems(2) v'(3)] Suc.hyps(2) i by (metis Suc_leI diff_Suc_1 e)
  then show ?case using v'(1) i unfolding e by (simp add: Cons_nth_drop_Suc [symmetric])
qed

section \<open>Properties\<close>


text \<open>A root file system with the empty folder \<open>mnt\<close>, a second file system with \<open>etc/rc\<close> mounted there, a stream on \<open>rc\<close> and a
  directory stream on \<open>etc\<close>.\<close>

definition test_vfs :: "unit vfs" where
  "test_vfs = (VFS_make (test_fs\<lparr>tf_inodes := (tf_inodes test_fs)(0x40 \<mapsto> test_inode ''mnt'' Folder [] nullptr),
       tf_systems := (tf_systems test_fs)(0x50 \<mapsto> (TempFileSystem_make 4096 \<lparr>UID = 0, GID = 0, ACL = 493\<rparr>)\<lparr>m_rootInodes := [0x40]\<rparr>)\<rparr>))
     \<lparr>v_points := [0x60 \<mapsto> \<lparr>mp_type = FST_TMPFS, mp_fs = 0x50, mp_RootInode = nullptr, mp_parent = nullptr\<rparr>,
        0x70 \<mapsto> \<lparr>mp_type = FST_TMPFS, mp_fs = 0x10, mp_RootInode = 0x40, mp_parent = 0x60\<rparr>],
      m_root := 0x60, m_mountPoints := [0x60, 0x70],
      v_files := [0x80 \<mapsto> (FileStream_make 0x30 0x70 3 \<lparr>UID = 5, GID = 1, ACL = 0\<rparr>)\<lparr>st_open := True, st_inode_state := 0x90\<rparr>],
      v_heads := [0x90 \<mapsto> \<lparr>CurrentOffset = 0, hd_isOpen = True, currentBlock = nullptr, currentBlockIndex = 0, currentBlockOffset = 0\<rparr>],
      v_dirs := [0xA0 \<mapsto> (DirectoryStream_make 0x20 \<lparr>UID = 5, GID = 1, ACL = 0\<rparr> FST_TMPFS 0x10)\<lparr>ds_isOpen := True\<rparr>]\<rparr>"

lemmas test_vfs_defs = test_vfs_def VFS_make_def test_fs_def test_inode_def TempFileSystem_make_def FileStream_make_def DirectoryStream_make_def

lemma test_points:
  "is_point test_vfs (m_root test_vfs) 0x50" "is_point test_vfs 0x70 0x10" "0x70 \<noteq> m_root test_vfs" "mounted_at test_vfs 0x40 0x70"
  by (simp_all add: is_point_def mounted_at_def deref_def test_vfs_defs)

lemma test_walk:
  "root_named (v_tmp test_vfs) 0x50 ''mnt'' 0x40" "empty_folder (v_tmp test_vfs) 0x40"
  "root_named (v_tmp test_vfs) 0x10 ''etc'' 0x20" "is_path (v_tmp test_vfs) 0x20 [''rc''] 0x30" "good_name ''mnt''"
  by (simp_all add: root_named_def is_child_def empty_folder_def good_name_def inode_get_def test_vfs_defs)



lemma test_stream:
  "stream_on test_vfs 0x80 ((FileStream_make 0x30 0x70 3 \<lparr>UID = 5, GID = 1, ACL = 0\<rparr>)\<lparr>st_open := True, st_inode_state := 0x90\<rparr>) 0x90
     \<lparr>CurrentOffset = 0, hd_isOpen = True, currentBlock = nullptr, currentBlockIndex = 0, currentBlockOffset = 0\<rparr> 0x30 (test_inode ''rc'' File [] 0x20)"
  by (simp add: stream_on_def is_point_def test_vfs_defs)


text \<open>C31. An open directory stream on a folder answers with the children of the folder in their order, and then with EINVAL.\<close>

theorem directory_lists:
  assumes "folder_with v q cs" and "length cs < 2 ^ 63" and "dir_at v d q 0"
  shows "\<exists>v'. next_inodes (Suc (length cs)) d v = ret (map (\<lambda>c. (c, ESUCCESS)) cs @ [(nullptr, - EINVAL)], v')"
  using next_inodes_from [OF assms] by simp

lemma test_dir: "folder_with test_vfs 0x20 [0x30]" "dir_at test_vfs 0xA0 0x20 0"
  by (simp_all add: folder_with_def dir_at_def test_vfs_defs)

theorem directory_lists_witness: "\<exists>v'. next_inodes (Suc 1) 0xA0 test_vfs = ret ([(0x30, ESUCCESS), (nullptr, - EINVAL)], v')"
  using directory_lists [OF test_dir(1) _ test_dir(2)] by (simp del: next_inodes.simps)

text \<open>A directory stream that has been positioned is locked for good: after \<open>Seek\<close> has returned success neither reading nor closing
  nor another \<open>Seek\<close> returns.\<close>

lemma DirectoryStream_Seek_deadlock:
  assumes "DirectoryStream_Seek d i v = ret (ESUCCESS, v')"
  shows "GetNextInode d v' = None \<and> DirectoryStream_Close d v' = None \<and> DirectoryStream_Open d v' = None \<and> DirectoryStream_Seek d i v' = None"
proof -
  obtain ds where "v_dirs v' d = Some ds" "ds_lock ds" "d \<noteq> nullptr" "\<not> i < 0"
    using assms by (auto simp: DirectoryStream_Seek_def bindP_eq_ret deref_def spinlock_acquire_def split: if_splits option.splits)
  then show ?thesis
    by (simp add: GetNextInode_def DirectoryStream_Close_def DirectoryStream_Open_def DirectoryStream_Seek_def with_dir_def)
qed

end
