(* ===== verification/ThreadList.thy ===== *)
theory ThreadList
  imports Prelude Errno
begin

text \<open>
  The queues of threads of src/kernel/src/Scheduling/Scheduler.cpp, class \<open>ThreadList\<close>: a doubly linked list through the fields
  \<open>m_next_thread\<close> and \<open>m_previous_thread\<close> of the threads themselves (Thread.hpp). Threads are objects in a store.
\<close>

section \<open>Threads\<close>

record CPU_Registers =
  RAX :: u64
  RBX :: u64
  RCX :: u64
  RDX :: u64
  RSI :: u64
  RDI :: u64
  RSP :: u64
  RBP :: u64
  R8 :: u64
  R9 :: u64
  R10 :: u64
  R11 :: u64
  R12 :: u64
  R13 :: u64
  R14 :: u64
  R15 :: u64
  RIP :: u64
  CS :: u16
  DS :: u16
  RFLAGS :: u64
  CR3 :: u64

definition no_registers :: CPU_Registers where
  "no_registers = \<lparr>RAX = 0, RBX = 0, RCX = 0, RDX = 0, RSI = 0, RDI = 0, RSP = 0, RBP = 0, R8 = 0,
     R9 = 0, R10 = 0, R11 = 0, R12 = 0, R13 = 0, R14 = 0, R15 = 0, RIP = 0, CS = 0, DS = 0, RFLAGS = 0, CR3 = 0\<rparr>"

record Thread =
  th_Parent :: ptr
  th_entry :: u64
  th_entry_data :: ptr
  th_flags :: u8
  th_stack :: u64
  th_regs :: CPU_Registers
  th_sleeping :: bool
  th_remaining_sleep_time :: u64
  th_idle :: bool
  th_blocked :: bool
  th_next :: ptr
  th_previous :: ptr

type_synonym threads = "ptr \<rightharpoonup> Thread"

definition thread_set :: "threads \<Rightarrow> ptr \<Rightarrow> (Thread \<Rightarrow> Thread) \<Rightarrow> threads prog" where
  "thread_set m p f = bindP (deref m p) (\<lambda>t. ret (m(p \<mapsto> f t)))"

definition SetNextThread :: "threads \<Rightarrow> ptr \<Rightarrow> ptr \<Rightarrow> threads prog" where
  "SetNextThread m p next_thread = thread_set m p (\<lambda>t. t\<lparr>th_next := next_thread\<rparr>)"

definition SetPreviousThread :: "threads \<Rightarrow> ptr \<Rightarrow> ptr \<Rightarrow> threads prog" where
  "SetPreviousThread m p previous_thread = thread_set m p (\<lambda>t. t\<lparr>th_previous := previous_thread\<rparr>)"

definition GetNextThread :: "threads \<Rightarrow> ptr \<Rightarrow> ptr prog" where
  "GetNextThread m p = bindP (deref m p) (\<lambda>t. ret (th_next t))"

definition GetPreviousThread :: "threads \<Rightarrow> ptr \<Rightarrow> ptr prog" where
  "GetPreviousThread m p = bindP (deref m p) (\<lambda>t. ret (th_previous t))"

section \<open>Lists\<close>

record ThreadList =
  tl_start :: ptr
  tl_end :: ptr
  tl_count :: u64
  tl_lock :: spinlock_t

definition ThreadList_make :: ThreadList where
  "ThreadList_make = \<lparr>tl_start = nullptr, tl_end = nullptr, tl_count = 0, tl_lock = False\<rparr>"

text \<open>Every operation returns the list and the threads.\<close>

definition PushBack :: "ptr \<Rightarrow> ThreadList \<Rightarrow> threads \<Rightarrow> (ThreadList \<times> threads) prog" where
  "PushBack thread l m =
     bindP (if tl_end l \<noteq> nullptr then SetNextThread m (tl_end l) thread else ret m) (\<lambda>m.
     bindP (SetPreviousThread m thread (tl_end l)) (\<lambda>m.
     ret (l\<lparr>tl_end := thread, tl_start := (if tl_start l = nullptr then thread else tl_start l), tl_count := tl_count l + 1\<rparr>, m)))"

definition PushFront :: "ptr \<Rightarrow> ThreadList \<Rightarrow> threads \<Rightarrow> (ThreadList \<times> threads) prog" where
  "PushFront thread l m =
     bindP (SetNextThread m thread (tl_start l)) (\<lambda>m.
     bindP (if tl_start l \<noteq> nullptr then SetPreviousThread m (tl_start l) thread else ret m) (\<lambda>m.
     ret (l\<lparr>tl_start := thread, tl_end := (if tl_end l = nullptr then thread else tl_end l), tl_count := tl_count l + 1\<rparr>, m)))"

definition PopBack :: "ThreadList \<Rightarrow> threads \<Rightarrow> (ptr \<times> ThreadList \<times> threads) prog" where
  "PopBack l m =
     (if tl_count l = 0 then ret (nullptr, l, m)
      else if tl_count l = 1 then ret (tl_end l, l\<lparr>tl_start := nullptr, tl_end := nullptr, tl_count := 0\<rparr>, m)
      else
        bindP (GetPreviousThread m (tl_end l)) (\<lambda>e.
        bindP (SetNextThread m e nullptr) (\<lambda>m.
        bindP (SetPreviousThread m (tl_end l) nullptr) (\<lambda>m.
        ret (tl_end l, l\<lparr>tl_end := e, tl_count := tl_count l - 1\<rparr>, m)))))"

definition PopFront :: "ThreadList \<Rightarrow> threads \<Rightarrow> (ptr \<times> ThreadList \<times> threads) prog" where
  "PopFront l m =
     (if tl_count l = 0 then ret (nullptr, l, m)
      else if tl_count l = 1 then ret (tl_start l, l\<lparr>tl_start := nullptr, tl_end := nullptr, tl_count := 0\<rparr>, m)
      else
        bindP (GetNextThread m (tl_start l)) (\<lambda>s.
        bindP (SetPreviousThread m s nullptr) (\<lambda>m.
        bindP (SetNextThread m (tl_start l) nullptr) (\<lambda>m.
        ret (tl_start l, l\<lparr>tl_start := s, tl_count := tl_count l - 1\<rparr>, m)))))"

text \<open>The search from \<open>current\<close>: it does not return on a cyclic list.\<close>

partial_function (option) thread_search :: "threads \<Rightarrow> ptr \<Rightarrow> ptr \<Rightarrow> bool prog" where
  "thread_search m current thread =
     (if current = nullptr then ret False
      else if current = thread then ret True
      else bindP (GetNextThread m current) (\<lambda>n. thread_search m n thread))"

text \<open>The count is not decremented, and the end of the list is not updated when the first thread is removed.\<close>

definition ThreadList_RemoveThread :: "ptr \<Rightarrow> ThreadList \<Rightarrow> threads \<Rightarrow> (bool \<times> ThreadList \<times> threads) prog" where
  "ThreadList_RemoveThread thread l m =
     bindP (thread_search m (tl_start l) thread) (\<lambda>found.
     if \<not> found then ret (False, l, m)
     else
       bindP (GetNextThread m thread) (\<lambda>nx.
       bindP (GetPreviousThread m thread) (\<lambda>pv.
       bindP (if thread = tl_start l then
                bindP (if nx \<noteq> nullptr then SetPreviousThread m nx nullptr else ret m) (\<lambda>m. ret (l\<lparr>tl_start := nx\<rparr>, m))
              else if thread = tl_end l then
                bindP (if pv \<noteq> nullptr then SetNextThread m pv nullptr else ret m) (\<lambda>m. ret (l\<lparr>tl_end := pv\<rparr>, m))
              else
                bindP (SetNextThread m pv nx) (\<lambda>m. bindP (SetPreviousThread m nx pv) (\<lambda>m. ret (l, m)))) (\<lambda>(l, m).
       bindP (SetNextThread m thread nullptr) (\<lambda>m.
       bindP (SetPreviousThread m thread nullptr) (\<lambda>m.
       ret (True, l, m)))))))"

primrec thread_get_loop :: "nat \<Rightarrow> threads \<Rightarrow> ptr \<Rightarrow> ptr prog" where
  "thread_get_loop 0 m current = ret current"
| "thread_get_loop (Suc i) m current = bindP (GetNextThread m current) (thread_get_loop i m)"

definition ThreadList_Get :: "u64 \<Rightarrow> ThreadList \<Rightarrow> threads \<Rightarrow> ptr prog" where
  "ThreadList_Get index l m = (if index \<ge> tl_count l then ret nullptr else thread_get_loop (unat index) m (tl_start l))"

definition Contains :: "ptr \<Rightarrow> ThreadList \<Rightarrow> threads \<Rightarrow> bool prog" where
  "Contains thread l m = thread_search m (tl_start l) thread"

definition ThreadList_Lock :: "ThreadList \<Rightarrow> ThreadList prog" where
  "ThreadList_Lock l = bindP (spinlock_acquire (tl_lock l)) (\<lambda>k. ret (l\<lparr>tl_lock := k\<rparr>))"

definition ThreadList_Unlock :: "ThreadList \<Rightarrow> ThreadList" where
  "ThreadList_Unlock l = l\<lparr>tl_lock := spinlock_release (tl_lock l)\<rparr>"

section \<open>The threads a list holds\<close>

fun chain :: "threads \<Rightarrow> ptr \<Rightarrow> ptr list \<Rightarrow> bool" where
  "chain m pv [] \<longleftrightarrow> True"
| "chain m pv (x # xs) \<longleftrightarrow> x \<noteq> nullptr \<and>
     (\<exists>t. m x = Some t \<and> th_previous t = pv \<and> th_next t = (case xs of [] \<Rightarrow> nullptr | y # _ \<Rightarrow> y)) \<and> chain m x xs"

definition tlist :: "threads \<Rightarrow> ThreadList \<Rightarrow> ptr list \<Rightarrow> bool" where
  "tlist m l xs \<longleftrightarrow> distinct xs \<and> chain m nullptr xs \<and> length xs < 2 ^ 64 \<and> tl_count l = of_nat (length xs) \<and>
     tl_start l = (case xs of [] \<Rightarrow> nullptr | x # _ \<Rightarrow> x) \<and> tl_end l = (if xs = [] then nullptr else last xs)"

text \<open>All of a thread but its links; the operations change only links, and only those of threads in the list.\<close>

definition core :: "Thread \<Rightarrow> Thread" where
  "core t = t\<lparr>th_next := nullptr, th_previous := nullptr\<rparr>"

definition same_core :: "threads \<Rightarrow> threads \<Rightarrow> bool" where
  "same_core m m' \<longleftrightarrow> (\<forall>p. map_option core (m' p) = map_option core (m p))"

definition unlinked :: "threads \<Rightarrow> ptr \<Rightarrow> bool" where
  "unlinked m x \<longleftrightarrow> x \<noteq> nullptr \<and> (\<exists>t. m x = Some t \<and> th_next t = nullptr)"

lemma core_links [simp]: "core (t\<lparr>th_next := a\<rparr>) = core t" "core (t\<lparr>th_previous := a\<rparr>) = core t"
  by (cases t, simp add: core_def)+

lemma same_core_refl [simp]: "same_core m m"
  by (simp add: same_core_def)

lemma same_core_trans: "same_core m m' \<Longrightarrow> same_core m' m'' \<Longrightarrow> same_core m m''"
  by (simp add: same_core_def)

lemma same_core_upd: "m p = Some t \<Longrightarrow> core t' = core t \<Longrightarrow> same_core m (m(p \<mapsto> t'))"
  by (simp add: same_core_def)

lemma same_coreD: "same_core m m' \<Longrightarrow> m p = Some t \<Longrightarrow> \<exists>t'. m' p = Some t' \<and> core t' = core t"
  unfolding same_core_def by (metis map_option_eq_Some option.simps(9))

lemma chain_cong: "(\<And>p. p \<in> set xs \<Longrightarrow> m' p = m p) \<Longrightarrow> chain m' pv xs = chain m pv xs"
  by (induction xs arbitrary: pv) auto

lemma chain_mem: "chain m pv xs \<Longrightarrow> x \<in> set xs \<Longrightarrow> x \<noteq> nullptr \<and> (\<exists>t. m x = Some t)"
  by (induction xs arbitrary: pv) auto

lemma chain_last: "chain m pv (us @ [e]) \<Longrightarrow> \<exists>t. m e = Some t \<and> th_next t = nullptr \<and> e \<noteq> nullptr"
  by (induction us arbitrary: pv) auto

lemma chain_snoc:
  assumes "chain m pv (us @ [e])" "distinct (us @ [e, x])" "m e = Some te" "x \<noteq> nullptr" "th_next th = nullptr"
  shows "chain (m(e \<mapsto> te\<lparr>th_next := x\<rparr>, x \<mapsto> th\<lparr>th_previous := e\<rparr>)) pv (us @ [e, x])"
  using assms
proof (induction us arbitrary: pv)
  case Nil
  then show ?case by auto
next
  case (Cons u us)
  define m' where "m' = m(e \<mapsto> te\<lparr>th_next := x\<rparr>, x \<mapsto> th\<lparr>th_previous := e\<rparr>)"
  have "chain m' u (us @ [e, x])" unfolding m'_def by (rule Cons.IH) (use Cons.prems in auto)
  moreover have "m' u = m u" using Cons.prems(2) by (simp add: m'_def)
  moreover have "(case us @ [e, x] of [] \<Rightarrow> nullptr | y # _ \<Rightarrow> y) = (case us @ [e] of [] \<Rightarrow> nullptr | y # _ \<Rightarrow> y)" by (cases us) simp_all
  ultimately have "chain m' pv (u # us @ [e, x])" using Cons.prems(1) by simp
  then show ?case unfolding m'_def by (simp only: append.simps)
qed

lemma tlist_cong: "(\<And>p. p \<in> set xs \<Longrightarrow> m' p = m p) \<Longrightarrow> tlist m' l xs = tlist m l xs"
  using chain_cong [of xs m' m nullptr] by (simp add: tlist_def)

lemma tlist_lock [simp]: "tlist m (l\<lparr>tl_lock := k\<rparr>) xs = tlist m l xs"
  by (simp add: tlist_def)

lemma PushBack_tlist:
  assumes l: "tlist m l xs" "Suc (length xs) < 2 ^ 64" and x: "unlinked m x" "x \<notin> set xs"
  obtains l' m' where "PushBack x l m = ret (l', m')" "tlist m' l' (xs @ [x])" "tl_lock l' = tl_lock l" "same_core m m'"
    "\<And>p. p \<notin> set xs \<Longrightarrow> p \<noteq> x \<Longrightarrow> m' p = m p"
proof (cases xs rule: rev_cases)
  case Nil
  obtain t where t: "m x = Some t" "th_next t = nullptr" "x \<noteq> nullptr" using x(1) by (auto simp: unlinked_def)
  let ?m = "m(x \<mapsto> t\<lparr>th_previous := nullptr\<rparr>)" let ?l = "l\<lparr>tl_end := x, tl_start := x, tl_count := tl_count l + 1\<rparr>"
  have "PushBack x l m = ret (?l, ?m)" "tlist ?m ?l (xs @ [x])"
    using l t Nil by (auto simp: PushBack_def SetPreviousThread_def thread_set_def tlist_def)
  then show thesis by (rule that) (use t in \<open>auto intro: same_core_upd\<close>)
next
  case (snoc us e)
  obtain t where t: "m x = Some t" "th_next t = nullptr" "x \<noteq> nullptr" using x(1) by (auto simp: unlinked_def)
  have c: "chain m nullptr (us @ [e])" "distinct (us @ [e])" "tl_end l = e" "tl_start l \<noteq> nullptr"
    using l(1) chain_mem [of m nullptr xs "hd xs"] snoc by (auto simp: tlist_def split: list.splits)
  obtain te where te: "m e = Some te" "e \<noteq> nullptr" using chain_last [OF c(1)] by blast
  define m' where "m' = m(e \<mapsto> te\<lparr>th_next := x\<rparr>, x \<mapsto> t\<lparr>th_previous := e\<rparr>)"
  let ?l = "l\<lparr>tl_end := x, tl_count := tl_count l + 1\<rparr>"
  have ne: "e \<noteq> x" using x(2) snoc by auto
  have r: "PushBack x l m = ret (?l, m')"
    using t te c(3,4) ne by (simp add: PushBack_def SetNextThread_def SetPreviousThread_def thread_set_def m'_def)
  have "chain m' nullptr (us @ [e, x])" unfolding m'_def by (rule chain_snoc) (use c t te x(2) snoc in auto)
  then have ch: "chain m' nullptr (xs @ [x])" using snoc by simp
  have st: "tl_start l = (case xs @ [x] of [] \<Rightarrow> nullptr | y # _ \<Rightarrow> y)" using l(1) snoc by (cases us) (simp_all add: tlist_def)
  have tl: "tlist m' ?l (xs @ [x])" unfolding tlist_def
    by (intro conjI ch) (use l x(2) st in \<open>simp_all add: tlist_def\<close>)
  have "same_core m (m(e \<mapsto> te\<lparr>th_next := x\<rparr>))" "same_core (m(e \<mapsto> te\<lparr>th_next := x\<rparr>)) m'"
    unfolding m'_def using t te ne by (auto intro!: same_core_upd)
  then have sc: "same_core m m'" by (rule same_core_trans)
  show thesis by (rule that [OF r tl _ sc]) (use snoc in \<open>auto simp: m'_def\<close>)
qed

lemma PopFront_tlist:
  assumes l: "tlist m l (x # xs)"
  obtains l' m' where "PopFront l m = ret (x, l', m')" "tlist m' l' xs" "tl_lock l' = tl_lock l" "same_core m m'" "unlinked m' x"
    "\<And>p. p \<notin> set (x # xs) \<Longrightarrow> m' p = m p"
proof (cases xs)
  case Nil
  let ?l = "l\<lparr>tl_start := nullptr, tl_end := nullptr, tl_count := 0\<rparr>"
  have "PopFront l m = ret (x, ?l, m)" "tlist m ?l xs" "unlinked m x"
    using l Nil by (auto simp: PopFront_def tlist_def unlinked_def)
  then show thesis by (intro that [of ?l m]) simp_all
next
  case (Cons y ys)
  obtain t where t: "m x = Some t" "th_next t = y" "x \<noteq> nullptr" "tl_start l = x" using l Cons by (auto simp: tlist_def)
  obtain u where u: "m y = Some u" "th_next u = (case ys of [] \<Rightarrow> nullptr | z # _ \<Rightarrow> z)" "y \<noteq> nullptr" using l Cons by (auto simp: tlist_def)
  have xy: "x \<noteq> y" "y \<notin> set ys" "x \<notin> set ys" "distinct ys" using l Cons by (auto simp: tlist_def)
  have len: "length xs < 2 ^ 64" "Suc (length xs) < 2 ^ 64" "tl_count l = of_nat (Suc (length xs))" using l by (auto simp: tlist_def)
  have "unat (tl_count l) = Suc (length xs)" unfolding len(3) by (rule unat_of_nat64 [OF len(2)])
  then have cnt: "tl_count l \<noteq> 0" "tl_count l \<noteq> 1" using Cons by auto
  let ?m = "m(y \<mapsto> u\<lparr>th_previous := nullptr\<rparr>, x \<mapsto> t\<lparr>th_next := nullptr\<rparr>)" let ?l = "l\<lparr>tl_start := y, tl_count := tl_count l - 1\<rparr>"
  have r: "PopFront l m = ret (x, ?l, ?m)"
    using cnt t u xy by (simp add: PopFront_def GetNextThread_def SetNextThread_def SetPreviousThread_def thread_set_def)
  have "chain m y ys" using l Cons by (auto simp: tlist_def)
  then have "chain ?m y ys" using xy by (subst chain_cong [of _ _ m]) auto
  then have tl: "tlist ?m ?l xs" using l u xy len Cons by (auto simp: tlist_def)
  have "same_core m (m(y \<mapsto> u\<lparr>th_previous := nullptr\<rparr>))" "same_core (m(y \<mapsto> u\<lparr>th_previous := nullptr\<rparr>)) ?m"
    using t u xy by (auto intro!: same_core_upd)
  then have sc: "same_core m ?m" by (rule same_core_trans)
  show thesis by (rule that [OF r tl _ sc]) (use t Cons in \<open>auto simp: unlinked_def\<close>)
qed

end
