(* ===== verification/Scheduler.thy ===== *)
theory Scheduler
  imports ThreadList
begin

unbundle bit_operations_syntax

text \<open>
  The scheduler of src/kernel/src/Scheduling/Scheduler.cpp over the queues of ThreadList: one queue for each priority, one for the idle
  threads and one for the sleeping ones. The state holds the threads, processes and processor descriptions the code reaches through
  pointers. \<open>Next\<close> does not return in the code: it loads the registers of a thread, and its result here is that thread. What
  the scheduler calls for addresses and new stacks is a record of operations. Interrupts sent to other processors, the frame copied for the
  interrupt handler and the acknowledgement of the timer change nothing of this state.
\<close>

section \<open>State\<close>

datatype Priority = KERNEL | HIGH | NORMAL | LOW

definition PriorityLessThan :: "Priority \<Rightarrow> Priority \<Rightarrow> bool" where
  "PriorityLessThan lhs rhs =
     (if lhs = rhs then False else if lhs = KERNEL then False else if rhs = KERNEL then True else if rhs = HIGH then True
      else if rhs = NORMAL \<and> lhs = LOW then True else False)"

definition PriorityGreaterThan :: "Priority \<Rightarrow> Priority \<Rightarrow> bool" where
  "PriorityGreaterThan lhs rhs =
     (if lhs = rhs then False else if lhs = KERNEL then True else if rhs = KERNEL then False else if lhs = HIGH then True
      else if lhs = NORMAL \<and> rhs = LOW then True else False)"

definition PriorityLessOrEqual :: "Priority \<Rightarrow> Priority \<Rightarrow> bool" where
  "PriorityLessOrEqual lhs rhs =
     (if lhs = rhs then True else if lhs = KERNEL then True else if rhs = KERNEL then False else if rhs = HIGH then True
      else if rhs = NORMAL \<and> lhs = LOW then True else False)"

definition PriorityGreaterOrEqual :: "Priority \<Rightarrow> Priority \<Rightarrow> bool" where
  "PriorityGreaterOrEqual lhs rhs =
     (if lhs = rhs then True else if lhs = KERNEL then False else if rhs = KERNEL then True else if lhs = HIGH then True
      else if lhs = NORMAL \<and> rhs = LOW then True else False)"

record Process =
  pr_Priority :: Priority
  pr_pm :: ptr
  pr_PID :: int

record ProcessorInfo =
  pi_processor :: ptr
  pi_id :: u64
  kernel_run_count :: u8
  high_run_count :: u8
  normal_run_count :: u8
  current_thread :: ptr
  pi_running :: bool
  pi_ticks :: u64
  pi_start_allowed :: u32

datatype queue = Q Priority | Idle | Sleeping

record sched =
  s_threads :: threads
  s_procs :: "ptr \<rightharpoonup> Process"
  s_infos :: "ptr \<rightharpoonup> ProcessorInfo"
  s_queues :: "queue \<Rightarrow> ThreadList"
  s_mem :: "u64 \<Rightarrow> u64"
  s_this :: ptr
  g_processors :: "ptr list"
  g_processors_lock :: spinlock_t
  g_processes :: "ptr list"
  g_processes_lock :: spinlock_t
  g_total_threads :: u64
  g_NextPID :: int
  g_scheduler_running :: bool
  g_global_lock :: spinlock_t

record arch_ops =
  ao_new_stack :: "ptr \<Rightarrow> u64"
  ao_stack_ptr :: u64
  ao_root_table :: "ptr \<Rightarrow> u64"
  ao_End :: u64
  ao_kernel_thread_end :: u64
  ao_idle_loop :: u64
  ao_lapic_id :: "ptr \<Rightarrow> u8 option"
  ao_processor_id :: u8

abbreviation (input) CREATE_STACK :: u8 where "CREATE_STACK \<equiv> 1"
abbreviation (input) MS_PER_TICK :: u64 where "MS_PER_TICK \<equiv> 1"
abbreviation (input) TICKS_PER_SCHEDULER_CYCLE :: u64 where "TICKS_PER_SCHEDULER_CYCLE \<equiv> 40"

definition GetPriority :: "sched \<Rightarrow> ptr \<Rightarrow> Priority prog" where
  "GetPriority s thread = bindP (deref (s_threads s) thread) (\<lambda>t. bindP (deref (s_procs s) (th_Parent t)) (\<lambda>p. ret (pr_Priority p)))"

definition thread_do :: "ptr \<Rightarrow> (Thread \<Rightarrow> Thread) \<Rightarrow> sched \<Rightarrow> sched prog" where
  "thread_do p f s = bindP (thread_set (s_threads s) p f) (\<lambda>m. ret (s\<lparr>s_threads := m\<rparr>))"

text \<open>An operation on a queue between \<open>Lock\<close> and \<open>Unlock\<close>.\<close>

definition with_queue :: "queue \<Rightarrow> (ThreadList \<Rightarrow> threads \<Rightarrow> ('a \<times> ThreadList \<times> threads) prog) \<Rightarrow> sched \<Rightarrow> ('a \<times> sched) prog" where
  "with_queue q f s =
     bindP (ThreadList_Lock (s_queues s q)) (\<lambda>l.
     bindP (f l (s_threads s)) (\<lambda>(x, l, m).
     ret (x, s\<lparr>s_threads := m, s_queues := (s_queues s)(q := ThreadList_Unlock l)\<rparr>)))"

definition push_queue :: "queue \<Rightarrow> ptr \<Rightarrow> sched \<Rightarrow> sched prog" where
  "push_queue q thread s = bindP (with_queue q (\<lambda>l m. bindP (PushBack thread l m) (\<lambda>(l, m). ret ((), l, m))) s) (\<lambda>(_, s). ret s)"

definition with_global :: "(sched \<Rightarrow> sched) \<Rightarrow> sched \<Rightarrow> sched prog" where
  "with_global f s = bindP (spinlock_acquire (g_global_lock s)) (\<lambda>l. ret ((f s)\<lparr>g_global_lock := spinlock_release l\<rparr>))"

definition info_put :: "ptr \<Rightarrow> ProcessorInfo \<Rightarrow> sched \<Rightarrow> sched" where
  "info_put p i s = s\<lparr>s_infos := (s_infos s)(p \<mapsto> i)\<rparr>"

section \<open>Initial state and processors\<close>

text \<open>The queue of the idle threads is not cleared.\<close>

definition ClearGlobalData :: "sched \<Rightarrow> sched" where
  "ClearGlobalData s = s\<lparr>g_processors_lock := False, g_processes_lock := False, g_total_threads := 0, g_NextPID := 0, g_scheduler_running := False,
     g_global_lock := False,
     s_queues := (s_queues s)(Q KERNEL := ThreadList_make, Q HIGH := ThreadList_make, Q NORMAL := ThreadList_make, Q LOW := ThreadList_make,
       Sleeping := ThreadList_make)\<rparr>"

definition ProcessorInfo_make :: "ptr \<Rightarrow> u64 \<Rightarrow> ProcessorInfo" where
  "ProcessorInfo_make processor ident = \<lparr>pi_processor = processor, pi_id = ident, kernel_run_count = 0, high_run_count = 0, normal_run_count = 0,
     current_thread = nullptr, pi_running = False, pi_ticks = 0, pi_start_allowed = 0\<rparr>"

definition InitBSPInfo :: "ptr \<Rightarrow> ptr \<Rightarrow> sched \<Rightarrow> sched" where
  "InitBSPInfo bsp bsp_info s = (info_put bsp_info (ProcessorInfo_make bsp 0) s)\<lparr>g_processors := g_processors s @ [bsp_info], s_this := bsp_info\<rparr>"

text \<open>The first processor of the list whose description satisfies a test, null when there is none.\<close>

primrec find_info :: "sched \<Rightarrow> (ProcessorInfo \<Rightarrow> bool) \<Rightarrow> ptr list \<Rightarrow> ptr prog" where
  "find_info s P [] = ret nullptr"
| "find_info s P (p # ps) = bindP (deref (s_infos s) p) (\<lambda>i. if P i then ret p else find_info s P ps)"

definition with_processors :: "(sched \<Rightarrow> ('a \<times> sched) prog) \<Rightarrow> sched \<Rightarrow> ('a \<times> sched) prog" where
  "with_processors f s =
     bindP (spinlock_acquire (g_processors_lock s)) (\<lambda>l.
     bindP (f (s\<lparr>g_processors_lock := l\<rparr>)) (\<lambda>(x, s).
     ret (x, s\<lparr>g_processors_lock := spinlock_release (g_processors_lock s)\<rparr>)))"

definition GetProcessorInfo :: "ptr \<Rightarrow> sched \<Rightarrow> (ptr \<times> sched) prog" where
  "GetProcessorInfo processor =
     with_processors (\<lambda>s. bindP (find_info s (\<lambda>i. pi_processor i = processor) (g_processors s)) (\<lambda>p. ret (p, s)))"

definition GetProcessorInfo_ID :: "arch_ops \<Rightarrow> u8 \<Rightarrow> sched \<Rightarrow> (ptr \<times> sched) prog" where
  "GetProcessorInfo_ID A ID =
     with_processors (\<lambda>s. bindP (find_info s (\<lambda>i. ao_lapic_id A (pi_processor i) = Some ID) (g_processors s)) (\<lambda>p. ret (p, s)))"

definition GetProcessor :: "arch_ops \<Rightarrow> u8 \<Rightarrow> sched \<Rightarrow> (ptr \<times> sched) prog" where
  "GetProcessor A ID =
     with_processors (\<lambda>s.
       bindP (find_info s (\<lambda>i. ao_lapic_id A (pi_processor i) = Some ID) (g_processors s)) (\<lambda>p.
       if p = nullptr then ret (nullptr, s) else bindP (deref (s_infos s) p) (\<lambda>i. ret (pi_processor i, s))))"

definition RemoveProcessor :: "ptr \<Rightarrow> sched \<Rightarrow> sched prog" where
  "RemoveProcessor processor s =
     bindP (with_processors (\<lambda>s.
       bindP (find_info s (\<lambda>i. pi_processor i = processor) (g_processors s)) (\<lambda>p. ret ((), s\<lparr>g_processors := remove1 p (g_processors s)\<rparr>))) s)
     (\<lambda>(_, s). ret s)"

definition GetProcessorCount :: "sched \<Rightarrow> (u8 \<times> sched) prog" where
  "GetProcessorCount = with_processors (\<lambda>s. ret (of_nat (length (g_processors s)), s))"

primrec each_processor :: "(ptr \<Rightarrow> sched \<Rightarrow> sched prog) \<Rightarrow> ptr list \<Rightarrow> sched \<Rightarrow> sched prog" where
  "each_processor callback [] s = ret s"
| "each_processor callback (p # ps) s = bindP (callback p s) (each_processor callback ps)"

definition EnumerateProcessors :: "(ptr \<Rightarrow> sched \<Rightarrow> sched prog) \<Rightarrow> sched \<Rightarrow> sched prog" where
  "EnumerateProcessors callback s =
     bindP (with_processors (\<lambda>s. bindP (each_processor callback (g_processors s) s) (\<lambda>s. ret ((), s))) s) (\<lambda>(_, s). ret s)"

section \<open>Processes\<close>

definition AddProcess :: "ptr \<Rightarrow> sched \<Rightarrow> sched prog" where
  "AddProcess process s =
     bindP (spinlock_acquire (g_processes_lock s)) (\<lambda>_.
     bindP (spinlock_acquire (g_global_lock s)) (\<lambda>_.
     bindP (deref (s_procs s) process) (\<lambda>p.
     ret (s\<lparr>g_processes := g_processes s @ [process], s_procs := (s_procs s)(process \<mapsto> p\<lparr>pr_PID := g_NextPID s\<rparr>), g_NextPID := g_NextPID s + 1,
       g_global_lock := spinlock_release True, g_processes_lock := spinlock_release True\<rparr>))))"

definition RemoveProcess :: "ptr \<Rightarrow> sched \<Rightarrow> sched prog" where
  "RemoveProcess process s =
     bindP (spinlock_acquire (g_processes_lock s)) (\<lambda>l. ret (s\<lparr>g_processes := remove1 process (g_processes s), g_processes_lock := spinlock_release l\<rparr>))"

text \<open>A process that is not known yet is added with the lock of the list of processes held.\<close>

definition ensure_process :: "ptr \<Rightarrow> sched \<Rightarrow> sched prog" where
  "ensure_process parent s =
     bindP (spinlock_acquire (g_processes_lock s)) (\<lambda>l.
     bindP (if parent \<notin> set (g_processes s) then AddProcess parent (s\<lparr>g_processes_lock := l\<rparr>) else ret (s\<lparr>g_processes_lock := l\<rparr>)) (\<lambda>s.
     ret (s\<lparr>g_processes_lock := spinlock_release (g_processes_lock s)\<rparr>)))"

section \<open>Choosing a thread\<close>

definition ReaddThread :: "ptr \<Rightarrow> sched \<Rightarrow> sched prog" where
  "ReaddThread thread s =
     (if thread = nullptr then stop (AssertFailed ''thread != nullptr'')
      else bindP (GetPriority s thread) (\<lambda>p. push_queue (Q p) thread s))"

text \<open>The thread that was running goes to the end of its queue, and its class is charged one run.\<close>

definition count_run :: "Priority \<Rightarrow> ProcessorInfo \<Rightarrow> ProcessorInfo" where
  "count_run p i = (case p of
     KERNEL \<Rightarrow> i\<lparr>kernel_run_count := kernel_run_count i + 1\<rparr>
   | HIGH \<Rightarrow> i\<lparr>high_run_count := high_run_count i + 1\<rparr>
   | NORMAL \<Rightarrow> i\<lparr>normal_run_count := normal_run_count i + 1\<rparr>
   | LOW \<Rightarrow> i)"

definition requeue_current :: "ptr \<Rightarrow> sched \<Rightarrow> sched prog" where
  "requeue_current info s =
     bindP (deref (s_infos s) info) (\<lambda>i.
     if current_thread i = nullptr then ret s
     else
       bindP (deref (s_threads s) (current_thread i)) (\<lambda>t.
       if th_idle t then push_queue Idle (current_thread i) s
       else
         bindP (GetPriority s (current_thread i)) (\<lambda>p.
         bindP (push_queue (Q p) (current_thread i) s) (\<lambda>s. ret (info_put info (count_run p i) s)))))"

definition queue_count :: "sched \<Rightarrow> queue \<Rightarrow> u64" where
  "queue_count s q = tl_count (s_queues s q)"

text \<open>Which class runs next; None when only the idle threads are left.\<close>

definition choose_class :: "(Priority \<Rightarrow> bool) \<Rightarrow> ProcessorInfo \<Rightarrow> Priority option" where
  "choose_class ready i =
     (if (kernel_run_count i \<ge> 4 \<or> \<not> ready KERNEL) \<and> (ready HIGH \<or> ready NORMAL \<or> ready LOW) then
        if (high_run_count i \<ge> 4 \<or> \<not> ready HIGH) \<and> (ready NORMAL \<or> ready LOW) then
          if (normal_run_count i \<ge> 4 \<or> \<not> ready NORMAL) \<and> ready LOW then Some LOW else Some NORMAL
        else Some HIGH
      else if \<not> ready KERNEL then None else Some KERNEL)"

definition reset_runs :: "Priority option \<Rightarrow> ProcessorInfo \<Rightarrow> ProcessorInfo" where
  "reset_runs c i = (case c of
     Some LOW \<Rightarrow> i\<lparr>normal_run_count := 0, high_run_count := 0, kernel_run_count := 0\<rparr>
   | Some NORMAL \<Rightarrow> i\<lparr>high_run_count := 0, kernel_run_count := 0\<rparr>
   | Some HIGH \<Rightarrow> i\<lparr>kernel_run_count := 0\<rparr>
   | _ \<Rightarrow> i)"

definition lock_queues :: "sched \<Rightarrow> unit prog" where
  "lock_queues s =
     bindP (spinlock_acquire (tl_lock (s_queues s (Q KERNEL)))) (\<lambda>_.
     bindP (spinlock_acquire (tl_lock (s_queues s (Q HIGH)))) (\<lambda>_.
     bindP (spinlock_acquire (tl_lock (s_queues s (Q NORMAL)))) (\<lambda>_.
     bindP (spinlock_acquire (tl_lock (s_queues s (Q LOW)))) (\<lambda>_. ret ()))))"

definition choose_next :: "ptr \<Rightarrow> sched \<Rightarrow> sched prog" where
  "choose_next info s =
     bindP (lock_queues s) (\<lambda>_.
     bindP (deref (s_infos s) info) (\<lambda>i.
     let c = choose_class (\<lambda>p. queue_count s (Q p) > 0) i in
     bindP (with_queue (case c of Some p \<Rightarrow> Q p | None \<Rightarrow> Idle) PopFront s) (\<lambda>(t, s).
     ret (info_put info ((reset_runs c i)\<lparr>current_thread := t\<rparr>) s))))"

definition PickNext :: "ptr \<Rightarrow> sched \<Rightarrow> sched prog" where
  "PickNext info s =
     (let info = (if info = nullptr then s_this s else info) in
      bindP (spinlock_acquire (g_global_lock s)) (\<lambda>_.
      if g_total_threads s = 0 then stop (Panic ''Scheduler: No available threads.'')
      else
        bindP (if g_total_threads s = 1 then bindP (deref (s_infos s) info) (\<lambda>i. ret (current_thread i \<noteq> nullptr)) else ret False) (\<lambda>only.
        if only then ret s else bindP (requeue_current info s) (choose_next info))))"

section \<open>Adding and removing threads\<close>

text \<open>The registers a new thread starts with. A kernel thread finds the addresses it returns to on its stack.\<close>

definition start_registers :: "arch_ops \<Rightarrow> Thread \<Rightarrow> Process \<Rightarrow> u64 \<Rightarrow> ptr \<Rightarrow> CPU_Registers" where
  "start_registers A t p entry arg =
     no_registers\<lparr>RSP := (if th_flags t AND CREATE_STACK \<noteq> 0 then ao_new_stack A (pr_pm p) else ao_stack_ptr A), RIP := entry, RFLAGS := 514,
       CR3 := ao_root_table A (pr_pm p) AND 0x000FFFFFFFFFF000, RDI := arg\<rparr>"

definition ScheduleThread :: "arch_ops \<Rightarrow> ptr \<Rightarrow> sched \<Rightarrow> sched prog" where
  "ScheduleThread A thread s =
     (if thread = nullptr then stop (AssertFailed ''thread != nullptr'')
      else
        bindP (deref (s_threads s) thread) (\<lambda>t.
        bindP (ensure_process (th_Parent t) s) (\<lambda>s.
        bindP (deref (s_procs s) (th_Parent t)) (\<lambda>p.
        let regs = start_registers A t p (th_entry t) (th_entry_data t); t = t\<lparr>th_stack := RSP regs\<rparr> in
        bindP (if pr_Priority p = KERNEL then
                 let sp = RSP regs in
                 ret (s\<lparr>s_mem := (s_mem s)(sp - 8 := ao_End A, sp - 16 := ao_kernel_thread_end A),
                   s_threads := (s_threads s)(thread \<mapsto> t\<lparr>th_regs := regs\<lparr>RSP := sp - 16, CS := 0x08, DS := 0x10\<rparr>\<rparr>)\<rparr>)
               else ret (s\<lparr>s_threads := (s_threads s)(thread \<mapsto> t\<lparr>th_regs := regs\<lparr>CS := 0x23, DS := 0x1b\<rparr>\<rparr>)\<rparr>)) (\<lambda>s.
        bindP (push_queue (Q (pr_Priority p)) thread s)
          (with_global (\<lambda>s. s\<lparr>g_total_threads := g_total_threads s + 1\<rparr>)))))))"

definition AddIdleThread :: "arch_ops \<Rightarrow> ptr \<Rightarrow> sched \<Rightarrow> sched prog" where
  "AddIdleThread A thread s =
     (if thread = nullptr then stop (AssertFailed ''thread != nullptr'')
      else
        bindP (deref (s_threads s) thread) (\<lambda>t.
        bindP (ensure_process (th_Parent t) s) (\<lambda>s.
        bindP (deref (s_procs s) (th_Parent t)) (\<lambda>p.
        let regs = start_registers A t p (ao_idle_loop A) 0;
            t = t\<lparr>th_stack := RSP regs, th_regs := regs\<lparr>CS := 0x08, DS := 0x10\<rparr>, th_idle := True\<rparr> in
        bindP (push_queue Idle thread (s\<lparr>s_threads := (s_threads s)(thread \<mapsto> t)\<rparr>))
          (with_global (\<lambda>s. s\<lparr>g_total_threads := g_total_threads s + 1\<rparr>))))))"

text \<open>The processor a thread runs on, null when there is none.\<close>

primrec find_running :: "sched \<Rightarrow> ptr \<Rightarrow> ptr list \<Rightarrow> ptr prog" where
  "find_running s thread [] = ret nullptr"
| "find_running s thread (p # ps) = bindP (deref (s_infos s) p) (\<lambda>i. if current_thread i = thread then ret p else find_running s thread ps)"

definition take_off :: "ptr \<Rightarrow> sched \<Rightarrow> sched prog" where
  "take_off p s = bindP (deref (s_infos s) p) (\<lambda>i. ret (info_put p (i\<lparr>current_thread := nullptr\<rparr>) s))"

definition RemoveThread :: "ptr \<Rightarrow> sched \<Rightarrow> sched prog" where
  "RemoveThread thread s =
     (if thread = nullptr then ret s
      else
        bindP (GetPriority s thread) (\<lambda>p.
        bindP (with_queue (Q p) (ThreadList_RemoveThread thread) s) (\<lambda>(success, s).
        if success then ret (s\<lparr>g_total_threads := g_total_threads s - 1\<rparr>)
        else
          bindP (spinlock_acquire (g_processors_lock s)) (\<lambda>l.
          bindP (find_running s thread (g_processors s)) (\<lambda>proc.
          bindP (if proc = nullptr then ret (s\<lparr>g_processors_lock := l\<rparr>)
                 else
                   bindP (take_off proc (s\<lparr>g_processors_lock := l\<rparr>)) (\<lambda>s.
                   bindP (with_global (\<lambda>s. s\<lparr>g_total_threads := g_total_threads s - 1\<rparr>) s) (PickNext proc))) (\<lambda>s.
          ret (s\<lparr>g_processors_lock := spinlock_release (g_processors_lock s)\<rparr>)))))))"

section \<open>Running, sleeping and the timer\<close>

definition GetCurrent :: "sched \<Rightarrow> ptr prog" where
  "GetCurrent s =
     (if \<not> g_scheduler_running s then ret nullptr
      else bindP (deref (s_infos s) (s_this s)) (\<lambda>i. ret (if \<not> pi_running i then nullptr else current_thread i)))"

definition Next :: "sched \<Rightarrow> (ptr \<times> sched) prog" where
  "Next s =
     (if \<not> g_scheduler_running s then stop (Panic ''Scheduler: Scheduler is not running.'')
      else
        bindP (deref (s_infos s) (s_this s)) (\<lambda>i.
        if current_thread i = nullptr then stop (Panic ''Scheduler: No available threads.'')
        else
          bindP (deref (s_threads s) (current_thread i)) (\<lambda>_.
          ret (current_thread i, info_put (s_this s) (i\<lparr>pi_ticks := 0\<rparr>) s))))"

definition Next_thread :: "ptr \<Rightarrow> sched \<Rightarrow> (ptr \<times> sched) prog" where
  "Next_thread thread s =
     (if \<not> g_scheduler_running s then stop (Panic ''Scheduler: Scheduler is not running.'')
      else
        bindP (deref (s_infos s) (s_this s)) (\<lambda>i.
        if thread = nullptr then stop (AssertFailed ''thread != nullptr'')
        else bindP (deref (s_threads s) thread) (\<lambda>_. ret (thread, info_put (s_this s) (i\<lparr>pi_ticks := 0\<rparr>) s))))"

text \<open>The first loop of \<open>Start\<close> resets the processors, the second one gives each a thread and finds the one the code runs on.\<close>

definition start_processor :: "ptr \<Rightarrow> sched \<Rightarrow> sched prog" where
  "start_processor p s =
     bindP (deref (s_infos s) p) (\<lambda>i. ret (info_put p (i\<lparr>pi_running := True, current_thread := nullptr, pi_ticks := 0\<rparr>) s))"

primrec start_picks :: "arch_ops \<Rightarrow> ptr list \<Rightarrow> ptr \<Rightarrow> sched \<Rightarrow> (ptr \<times> sched) prog" where
  "start_picks A [] cur s = ret (cur, s)"
| "start_picks A (p # ps) cur s =
     bindP (PickNext p s) (\<lambda>s.
     bindP (deref (s_infos s) p) (\<lambda>i.
     case ao_lapic_id A (pi_processor i) of
       None \<Rightarrow> stop (Panic ''FATAL: Processor does not have a Local APIC!'')
     | Some ident \<Rightarrow>
         if ident = ao_processor_id A then start_picks A ps p s
         else start_picks A ps cur (info_put p (i\<lparr>pi_start_allowed := 1\<rparr>) s)))"

definition Start :: "arch_ops \<Rightarrow> sched \<Rightarrow> (ptr \<times> sched) prog" where
  "Start A s =
     bindP (with_processors (\<lambda>s.
       bindP (each_processor start_processor (g_processors s) s) (\<lambda>s.
       start_picks A (g_processors s) nullptr (s\<lparr>g_scheduler_running := True\<rparr>))) s) (\<lambda>(cur, s).
     if cur = nullptr then stop (Panic ''Scheduler: Invalid current processor.'')
     else
       bindP (deref (s_infos s) cur) (\<lambda>i.
       if current_thread i = nullptr then stop (Panic ''Scheduler: No available threads.'')
       else bindP (deref (s_threads s) (current_thread i)) (\<lambda>_. ret (current_thread i, s))))"

text \<open>The pages of the stack that \<open>End\<close> gives back are not part of this state; the count of the threads stays as it is.\<close>

definition End :: "sched \<Rightarrow> (ptr \<times> sched) prog" where
  "End s =
     bindP (deref (s_infos s) (s_this s)) (\<lambda>i.
     bindP (deref (s_threads s) (current_thread i)) (\<lambda>t.
     bindP (if th_flags t AND CREATE_STACK \<noteq> 0 then bindP (deref (s_procs s) (th_Parent t)) (\<lambda>_. ret ()) else ret ()) (\<lambda>_.
     bindP (take_off (s_this s) s) (\<lambda>s.
     bindP (PickNext (s_this s) s) Next))))"

definition go_to_sleep :: "ptr \<Rightarrow> u64 \<Rightarrow> sched \<Rightarrow> sched prog" where
  "go_to_sleep thread ms s =
     bindP (thread_do thread (\<lambda>t. t\<lparr>th_sleeping := True, th_remaining_sleep_time := ALIGN_UP ms MS_PER_TICK\<rparr>) s) (push_queue Sleeping thread)"

text \<open>The result is the thread that runs now when the processor has switched, and null when the function returned.\<close>

definition SleepThread :: "ptr \<Rightarrow> u64 \<Rightarrow> sched \<Rightarrow> (ptr \<times> sched) prog" where
  "SleepThread thread ms s =
     (if thread = nullptr then stop (AssertFailed ''thread != nullptr'')
      else
        bindP (GetPriority s thread) (\<lambda>p.
        bindP (with_queue (Q p) (ThreadList_RemoveThread thread) s) (\<lambda>(found, s).
        if found then bindP (go_to_sleep thread ms s) (\<lambda>s. ret (nullptr, s))
        else
          bindP (spinlock_acquire (g_processors_lock s)) (\<lambda>l.
          bindP (find_running s thread (g_processors s)) (\<lambda>info.
          if info = nullptr then ret (nullptr, s\<lparr>g_processors_lock := spinlock_release l\<rparr>)
          else
            bindP (take_off info (s\<lparr>g_processors_lock := l, g_total_threads := g_total_threads s - 1\<rparr>)) (\<lambda>s.
            bindP (go_to_sleep thread ms s) (\<lambda>s.
            bindP (PickNext info s) (\<lambda>s.
            bindP (deref (s_infos s) info) (\<lambda>i.
            bindP (deref (s_infos s) (s_this s)) (\<lambda>cur.
            let s = s\<lparr>g_processors_lock := spinlock_release l\<rparr> in
            if pi_id i = pi_id cur then Next s else ret (nullptr, s)))))))))))"

text \<open>The loop over the sleeping threads, with their lock held.\<close>

partial_function (option) wake_loop :: "u64 \<Rightarrow> sched \<Rightarrow> sched prog" where
  "wake_loop i s =
     (if \<not> i < queue_count s Sleeping then ret s
      else
        bindP (ThreadList_Get i (s_queues s Sleeping) (s_threads s)) (\<lambda>thread.
        bindP (deref (s_threads s) thread) (\<lambda>t.
        let rest = th_remaining_sleep_time t - MS_PER_TICK in
        bindP (thread_do thread (\<lambda>t. t\<lparr>th_remaining_sleep_time := rest\<rparr>) s) (\<lambda>s.
        if rest = 0 then
          bindP (thread_do thread (\<lambda>t. t\<lparr>th_sleeping := False\<rparr>) s) (\<lambda>s.
          bindP (ThreadList_RemoveThread thread (s_queues s Sleeping) (s_threads s)) (\<lambda>r.
          bindP (ReaddThread thread (s\<lparr>s_threads := snd (snd r), s_queues := (s_queues s)(Sleeping := fst (snd r))\<rparr>)) (wake_loop i)))
        else wake_loop (i + 1) s))))"

definition TimerTick :: "sched \<Rightarrow> (ptr \<times> sched) prog" where
  "TimerTick s =
     bindP (deref (s_infos s) (s_this s)) (\<lambda>i.
     let s = info_put (s_this s) (i\<lparr>pi_ticks := pi_ticks i + 1\<rparr>) s in
     bindP (ThreadList_Lock (s_queues s Sleeping)) (\<lambda>l.
     bindP (wake_loop 0 (s\<lparr>s_queues := (s_queues s)(Sleeping := l)\<rparr>)) (\<lambda>s.
     let s = s\<lparr>s_queues := (s_queues s)(Sleeping := ThreadList_Unlock (s_queues s Sleeping))\<rparr> in
     bindP (deref (s_infos s) (s_this s)) (\<lambda>i.
     if pi_ticks i = TICKS_PER_SCHEDULER_CYCLE then
       let s = info_put (s_this s) (i\<lparr>pi_ticks := 0\<rparr>) s in
       if \<not> pi_running i then ret (nullptr, s)
       else if current_thread i = nullptr then stop (Panic ''Scheduler: No available threads.'')
       else
         bindP (PickNext (s_this s) s) (\<lambda>s.
         bindP (deref (s_infos s) (s_this s)) (\<lambda>i.
         bindP (GetPriority s (current_thread i)) (\<lambda>_. Next s)))
     else ret (nullptr, s)))))"

definition Stop :: "sched \<Rightarrow> sched prog" where
  "Stop s = bindP (deref (s_infos s) (s_this s)) (\<lambda>i. ret (info_put (s_this s) (i\<lparr>pi_running := False\<rparr>) s))"

definition StopGlobal :: "sched \<Rightarrow> sched prog" where
  "StopGlobal = with_global (\<lambda>s. s\<lparr>g_scheduler_running := False\<rparr>)"

definition Resume :: "sched \<Rightarrow> (ptr \<times> sched) prog" where
  "Resume s =
     bindP (deref (s_infos s) (s_this s)) (\<lambda>i.
     let s = info_put (s_this s) (i\<lparr>pi_running := True\<rparr>) s in
     bindP (if current_thread i = nullptr then PickNext (s_this s) s else ret s) (\<lambda>s.
     bindP (deref (s_infos s) (s_this s)) (\<lambda>i.
     if current_thread i = nullptr then stop (Panic ''Scheduler: No available threads.'') else Next s)))"

definition ResumeGlobal :: "sched \<Rightarrow> sched prog" where
  "ResumeGlobal s = stop (Panic ''Scheduler: Global resume not supported yet.'')"

definition GlobalIsRunning :: "sched \<Rightarrow> bool" where
  "GlobalIsRunning s = g_scheduler_running s"

definition isRunning :: "sched \<Rightarrow> bool prog" where
  "isRunning s = bindP (deref (s_infos s) (s_this s)) (\<lambda>i. ret (pi_running i))"

definition ForceUnlockEverything :: "sched \<Rightarrow> sched" where
  "ForceUnlockEverything s = s\<lparr>g_processors_lock := False, g_processes_lock := False,
     s_queues := (\<lambda>q. if q = Idle then s_queues s q else ThreadList_Unlock (s_queues s q))\<rparr>"

end
