(* ===== verification/Semaphore.thy ===== *)
theory Semaphore
  imports Scheduler
begin

text \<open>
  The semaphores of src/kernel/src/Scheduling/Semaphore.cpp, their registry in Scheduler.cpp and the system calls on them in
  SystemCalls/Synchronisation.cpp, over the scheduler. A semaphore keeps its waiting threads in a queue linked through the threads, so every operation
  also takes the state of the scheduler. An operation that may switch to another thread returns that thread, and null when it returned to its caller.
\<close>

section \<open>Semaphores\<close>

record Semaphore =
  sem_value :: u64
  sem_id :: int
  sem_lock :: spinlock_t
  sem_waiting :: ThreadList
  sem_holders :: "ptr list"
  sem_holders_lock :: spinlock_t

definition Semaphore_make :: "u32 \<Rightarrow> Semaphore" where
  "Semaphore_make v = \<lparr>sem_value = ucast v, sem_id = - 1, sem_lock = False, sem_waiting = ThreadList_make, sem_holders = [], sem_holders_lock = False\<rparr>"

definition add_holder :: "ptr \<Rightarrow> Semaphore \<Rightarrow> Semaphore prog" where
  "add_holder thread sem =
     bindP (spinlock_acquire (sem_holders_lock sem)) (\<lambda>l.
     ret (sem\<lparr>sem_holders := sem_holders sem @ [thread], sem_holders_lock := spinlock_release l\<rparr>))"

definition add_value :: "u64 \<Rightarrow> Semaphore \<Rightarrow> Semaphore prog" where
  "add_value d sem = bindP (spinlock_acquire (sem_lock sem)) (\<lambda>l. ret (sem\<lparr>sem_value := sem_value sem + d, sem_lock := spinlock_release l\<rparr>))"

definition wait_on :: "ptr \<Rightarrow> Semaphore \<Rightarrow> sched \<Rightarrow> (Semaphore \<times> sched) prog" where
  "wait_on thread sem s =
     bindP (ThreadList_Lock (sem_waiting sem)) (\<lambda>w.
     bindP (PushBack thread w (s_threads s)) (\<lambda>(w, m).
     ret (sem\<lparr>sem_waiting := ThreadList_Unlock w\<rparr>, s\<lparr>s_threads := m\<rparr>)))"

text \<open>What \<open>acquire\<close> does on the processors that run a thread other than the current one; the interrupt it sends is left out.\<close>

definition preempt :: "ptr \<Rightarrow> ptr \<Rightarrow> sched \<Rightarrow> sched prog" where
  "preempt thread info s =
     bindP (deref (s_infos s) info) (\<lambda>i.
     if current_thread i = thread then PickNext info (info_put info (i\<lparr>current_thread := nullptr\<rparr>) s) else ret s)"

definition Semaphore_acquire :: "ptr \<Rightarrow> Semaphore \<Rightarrow> sched \<Rightarrow> (ptr \<times> Semaphore \<times> sched) prog" where
  "Semaphore_acquire thread sem s =
     bindP (spinlock_acquire (sem_lock sem)) (\<lambda>l.
     let sem = sem\<lparr>sem_lock := l\<rparr> in
     if sem_value sem = 0 then
       bindP (wait_on thread sem s) (\<lambda>(sem, s).
       bindP (GetCurrent s) (\<lambda>current.
       bindP (RemoveThread thread s) (\<lambda>s.
       bindP (thread_do thread (\<lambda>t. t\<lparr>th_blocked := True\<rparr>) s) (\<lambda>s.
       let free = sem\<lparr>sem_lock := spinlock_release l\<rparr> in
       if current = thread then
         bindP (PickNext nullptr s) (\<lambda>s. bindP (Next s) (\<lambda>(t, s). ret (t, free, s)))
       else bindP (EnumerateProcessors (preempt thread) s) (\<lambda>s. ret (nullptr, free, s))))))
     else
       bindP (add_holder thread (sem\<lparr>sem_value := sem_value sem - 1\<rparr>)) (\<lambda>sem.
       ret (nullptr, sem\<lparr>sem_lock := spinlock_release l\<rparr>, s)))"

text \<open>The first waiting thread takes the unit that is given back and becomes ready.\<close>

definition hand_over :: "Semaphore \<Rightarrow> sched \<Rightarrow> (Semaphore \<times> sched) prog" where
  "hand_over sem s =
     bindP (ThreadList_Lock (sem_waiting sem)) (\<lambda>w.
     if tl_count w > 0 then
       bindP (PopFront w (s_threads s)) (\<lambda>(nextThread, w, m).
       bindP (add_value (- 1) (sem\<lparr>sem_waiting := ThreadList_Unlock w\<rparr>)) (\<lambda>sem.
       bindP (add_holder nextThread sem) (\<lambda>sem.
       bindP (thread_do nextThread (\<lambda>t. t\<lparr>th_blocked := False\<rparr>) (s\<lparr>s_threads := m\<rparr>)) (\<lambda>s.
       bindP (ReaddThread nextThread s) (\<lambda>s. ret (sem, s))))))
     else ret (sem\<lparr>sem_waiting := ThreadList_Unlock w\<rparr>, s))"

definition Semaphore_release :: "ptr \<Rightarrow> Semaphore \<Rightarrow> sched \<Rightarrow> (Semaphore \<times> sched) prog" where
  "Semaphore_release thread sem s =
     bindP (spinlock_acquire (sem_holders_lock sem)) (\<lambda>l.
     if thread \<in> set (sem_holders sem) then
       bindP (add_value 1 (sem\<lparr>sem_holders := remove1 thread (sem_holders sem), sem_holders_lock := spinlock_release l\<rparr>)) (\<lambda>sem. hand_over sem s)
     else ret (sem\<lparr>sem_holders_lock := spinlock_release l\<rparr>, s))"

definition acquire_nolock :: "ptr \<Rightarrow> Semaphore \<Rightarrow> Semaphore prog" where
  "acquire_nolock thread sem = (if sem_value sem \<noteq> 0 then add_holder thread (sem\<lparr>sem_value := sem_value sem - 1\<rparr>) else ret sem)"

definition isHeldByThread :: "ptr \<Rightarrow> Semaphore \<Rightarrow> bool prog" where
  "isHeldByThread thread sem = bindP (spinlock_acquire (sem_holders_lock sem)) (\<lambda>_. ret (thread \<in> set (sem_holders sem)))"

definition isWaiting :: "ptr \<Rightarrow> Semaphore \<Rightarrow> threads \<Rightarrow> bool prog" where
  "isWaiting thread sem m = bindP (ThreadList_Lock (sem_waiting sem)) (\<lambda>w. Contains thread w m)"

partial_function (option) wake_waiting :: "ThreadList \<Rightarrow> sched \<Rightarrow> sched prog" where
  "wake_waiting w s =
     (if tl_count w > 0 then
        bindP (PopFront w (s_threads s)) (\<lambda>r.
        bindP (thread_do (fst r) (\<lambda>t. t\<lparr>th_blocked := False\<rparr>) (s\<lparr>s_threads := snd (snd r)\<rparr>)) (\<lambda>s.
        bindP (ReaddThread (fst r) s) (wake_waiting (fst (snd r)))))
      else ret s)"

definition Semaphore_destroy :: "Semaphore \<Rightarrow> sched \<Rightarrow> sched prog" where
  "Semaphore_destroy sem s = bindP (ThreadList_Lock (sem_waiting sem)) (\<lambda>w. wake_waiting w s)"

section \<open>The registry and the system calls\<close>

record sem_state =
  ss_sched :: sched
  ss_sems :: "ptr \<rightharpoonup> Semaphore"
  g_semaphores :: "ptr list"
  g_semaphores_lock :: spinlock_t
  g_NextSemaphoreID :: int

definition RegisterSemaphore :: "ptr \<Rightarrow> sem_state \<Rightarrow> (int \<times> sem_state) prog" where
  "RegisterSemaphore p st =
     (if p = nullptr then ret (- EINVAL, st)
      else
        bindP (spinlock_acquire (g_semaphores_lock st)) (\<lambda>_.
        bindP (spinlock_acquire (g_global_lock (ss_sched st))) (\<lambda>_.
        bindP (deref (ss_sems st) p) (\<lambda>sem.
        let ID = g_NextSemaphoreID st in
        ret (ID, st\<lparr>g_semaphores := g_semaphores st @ [p], ss_sems := (ss_sems st)(p \<mapsto> sem\<lparr>sem_id := ID\<rparr>), g_NextSemaphoreID := ID + 1\<rparr>)))))"

primrec find_semaphore :: "sem_state \<Rightarrow> int \<Rightarrow> ptr list \<Rightarrow> ptr prog" where
  "find_semaphore st ID [] = ret nullptr"
| "find_semaphore st ID (p # ps) = bindP (deref (ss_sems st) p) (\<lambda>sem. if sem_id sem = ID then ret p else find_semaphore st ID ps)"

definition GetSemaphore :: "int \<Rightarrow> sem_state \<Rightarrow> ptr prog" where
  "GetSemaphore ID st =
     (if ID < 0 then ret nullptr else bindP (spinlock_acquire (g_semaphores_lock st)) (\<lambda>_. find_semaphore st ID (g_semaphores st)))"

definition UnregisterSemaphore_ID :: "int \<Rightarrow> sem_state \<Rightarrow> (int \<times> sem_state) prog" where
  "UnregisterSemaphore_ID ID st =
     (if ID < 0 then ret (- EINVAL, st)
      else
        bindP (spinlock_acquire (g_semaphores_lock st)) (\<lambda>_.
        bindP (find_semaphore st ID (g_semaphores st)) (\<lambda>p.
        if p = nullptr then ret (- EINVAL, st) else ret (ESUCCESS, st\<lparr>g_semaphores := remove1 p (g_semaphores st)\<rparr>))))"

definition UnregisterSemaphore :: "ptr \<Rightarrow> sem_state \<Rightarrow> (int \<times> sem_state) prog" where
  "UnregisterSemaphore p st =
     (if p = nullptr then ret (- EINVAL, st)
      else
        bindP (spinlock_acquire (g_semaphores_lock st)) (\<lambda>_.
        if p \<notin> set (g_semaphores st) then ret (- EINVAL, st) else ret (ESUCCESS, st\<lparr>g_semaphores := remove1 p (g_semaphores st)\<rparr>)))"

text \<open>\<open>p\<close> is what \<open>new\<close> returned.\<close>

definition sys_createSemaphore :: "ptr \<Rightarrow> u32 \<Rightarrow> sem_state \<Rightarrow> (int \<times> sem_state) prog" where
  "sys_createSemaphore p v st =
     (if p = nullptr then ret (- ENOMEM, st)
      else
        bindP (RegisterSemaphore p (st\<lparr>ss_sems := (ss_sems st)(p \<mapsto> Semaphore_make v)\<rparr>)) (\<lambda>(ID, st).
        if ID < 0 then ret (ID, st\<lparr>ss_sems := (ss_sems st)(p := None)\<rparr>) else ret (ID, st)))"

text \<open>The registers of a thread that has to wait are saved so that it continues after the call.\<close>

definition x86_64_HandleSemaphoreAcquire :: "ptr \<Rightarrow> CPU_Registers option \<Rightarrow> Semaphore \<Rightarrow> sched \<Rightarrow> (ptr \<times> Semaphore \<times> sched) prog" where
  "x86_64_HandleSemaphoreAcquire thread regs sem s = (case regs of
     None \<Rightarrow> ret (nullptr, sem, s)
   | Some r \<Rightarrow> bindP (thread_do thread (\<lambda>t. t\<lparr>th_regs := r\<rparr>) s) (Semaphore_acquire thread sem))"

definition sys_acquireSemaphore :: "CPU_Registers \<Rightarrow> int \<Rightarrow> sem_state \<Rightarrow> (ptr \<times> int \<times> sem_state) prog" where
  "sys_acquireSemaphore regs ID st =
     bindP (GetSemaphore ID st) (\<lambda>p.
     if p = nullptr then ret (nullptr, - EINVAL, st)
     else
       bindP (GetCurrent (ss_sched st)) (\<lambda>thread.
       bindP (deref (ss_sems st) p) (\<lambda>sem.
       bindP (spinlock_acquire (sem_lock sem)) (\<lambda>l.
       bindP (if sem_value sem = 0 then x86_64_HandleSemaphoreAcquire thread (Some regs) (sem\<lparr>sem_lock := spinlock_release l\<rparr>) (ss_sched st)
              else bindP (acquire_nolock thread sem) (\<lambda>sem. ret (nullptr, sem\<lparr>sem_lock := spinlock_release l\<rparr>, ss_sched st))) (\<lambda>(t, sem, s).
       ret (t, ESUCCESS, st\<lparr>ss_sched := s, ss_sems := (ss_sems st)(p \<mapsto> sem)\<rparr>))))))"

definition sys_releaseSemaphore :: "int \<Rightarrow> sem_state \<Rightarrow> (int \<times> sem_state) prog" where
  "sys_releaseSemaphore ID st =
     bindP (GetSemaphore ID st) (\<lambda>p.
     if p = nullptr then ret (- EINVAL, st)
     else
       bindP (GetCurrent (ss_sched st)) (\<lambda>thread.
       bindP (deref (ss_sems st) p) (\<lambda>sem.
       bindP (Semaphore_release thread sem (ss_sched st)) (\<lambda>(sem, s).
       ret (ESUCCESS, st\<lparr>ss_sched := s, ss_sems := (ss_sems st)(p \<mapsto> sem)\<rparr>)))))"

definition sys_destroySemaphore :: "int \<Rightarrow> sem_state \<Rightarrow> (int \<times> sem_state) prog" where
  "sys_destroySemaphore ID st =
     bindP (GetSemaphore ID st) (\<lambda>p.
     if p = nullptr then ret (- EINVAL, st)
     else
       bindP (UnregisterSemaphore_ID ID st) (\<lambda>(_, st).
       bindP (deref (ss_sems st) p) (\<lambda>sem.
       bindP (Semaphore_destroy sem (ss_sched st)) (\<lambda>s.
       ret (ESUCCESS, st\<lparr>ss_sched := s, ss_sems := (ss_sems st)(p := None)\<rparr>)))))"

definition sys_createMutex :: "ptr \<Rightarrow> sem_state \<Rightarrow> (int \<times> sem_state) prog" where
  "sys_createMutex p = sys_createSemaphore p 1"

end
