(* ===== verification/SchedulerCorrect.thy ===== *)
theory SchedulerCorrect
  imports Scheduler
begin

unbundle bit_operations_syntax

text \<open>
  The scheduler against queues that are sequences of threads: \<open>PickNext\<close> puts the running thread at the end of its queue and takes the
  first thread of the class that is due, and no class that has a ready thread waits for more than 125 picks. A thread that is taken out of a
  queue leaves the queue with a wrong count: what is left of it cannot be taken out, and a thread that wakes up stops the kernel.
\<close>

section \<open>The queues as sequences\<close>

definition queues_rel :: "sched \<Rightarrow> (queue \<Rightarrow> ptr list) \<Rightarrow> bool" where
  "queues_rel s L \<longleftrightarrow> (\<forall>q. tlist (s_threads s) (s_queues s q) (L q) \<and> \<not> tl_lock (s_queues s q)) \<and>
     (\<forall>q q'. q \<noteq> q' \<longrightarrow> set (L q) \<inter> set (L q') = {})"

definition queued :: "(queue \<Rightarrow> ptr list) \<Rightarrow> ptr set" where
  "queued L = (\<Union>q. set (L q))"

text \<open>Threads outside of \<open>S\<close> stay as they are.\<close>

definition same_out :: "ptr set \<Rightarrow> threads \<Rightarrow> threads \<Rightarrow> bool" where
  "same_out S m m' \<longleftrightarrow> (\<forall>p. p \<notin> S \<longrightarrow> m' p = m p)"

lemma same_out_refl [simp]: "same_out S m m"
  by (simp add: same_out_def)

lemma same_out_trans: "same_out S m m' \<Longrightarrow> same_out S' m' m'' \<Longrightarrow> S \<subseteq> T \<Longrightarrow> S' \<subseteq> T \<Longrightarrow> same_out T m m''"
  unfolding same_out_def by (metis subsetD)

lemma queues_relD:
  assumes "queues_rel s L"
  shows "tlist (s_threads s) (s_queues s q) (L q)" "\<not> tl_lock (s_queues s q)" "q \<noteq> q' \<Longrightarrow> set (L q) \<inter> set (L q') = {}"
  using assms by (auto simp: queues_rel_def)

lemma queues_rel_upd:
  assumes rel: "queues_rel s L" and q: "tlist m l xs" "\<not> tl_lock l"
    and frame: "\<And>p. p \<in> queued L \<Longrightarrow> p \<notin> set (L q) \<Longrightarrow> m p = s_threads s p"
    and disj: "\<And>q'. q' \<noteq> q \<Longrightarrow> set xs \<inter> set (L q') = {}"
  shows "queues_rel (s\<lparr>s_threads := m, s_queues := (s_queues s)(q := l)\<rparr>) (L(q := xs))"
proof -
  have "tlist m (s_queues s r) (L r)" if "r \<noteq> q" for r
  proof -
    have "m p = s_threads s p" if "p \<in> set (L r)" for p
      using frame [of p] queues_relD(3) [OF rel \<open>r \<noteq> q\<close>] that by (auto simp: queued_def)
    then have "tlist m (s_queues s r) (L r) = tlist (s_threads s) (s_queues s r) (L r)" by (rule tlist_cong)
    then show ?thesis using queues_relD(1) [OF rel] by simp
  qed
  moreover have "set ((L(q := xs)) r) \<inter> set ((L(q := xs)) r') = {}" if "r \<noteq> r'" for r r'
    using that disj [of r] disj [of r'] queues_relD(3) [OF rel that] by (auto split: if_splits)
  ultimately show ?thesis using rel q by (auto simp: queues_rel_def)
qed

lemma push_queue_rel:
  assumes rel: "queues_rel s L" and x: "unlinked (s_threads s) x" "x \<notin> queued L" and len: "Suc (length (L q)) < 2 ^ 64"
  obtains m l where "push_queue q x s = ret (s\<lparr>s_threads := m, s_queues := (s_queues s)(q := l)\<rparr>)"
    "queues_rel (s\<lparr>s_threads := m, s_queues := (s_queues s)(q := l)\<rparr>) (L(q := L q @ [x]))" "same_core (s_threads s) m"
    "\<And>p. p \<notin> set (L q) \<Longrightarrow> p \<noteq> x \<Longrightarrow> m p = s_threads s p"
proof -
  let ?l = "(s_queues s q)\<lparr>tl_lock := True\<rparr>"
  have lk: "ThreadList_Lock (s_queues s q) = ret ?l" using queues_relD(2) [OF rel] by (simp add: ThreadList_Lock_def)
  have xs: "x \<notin> set (L q)" using x(2) by (auto simp: queued_def)
  have "tlist (s_threads s) ?l (L q)" using queues_relD(1) [OF rel] by simp
  from PushBack_tlist [OF this len x(1) xs]
  obtain l' m' where p: "PushBack x ?l (s_threads s) = ret (l', m')" "tlist m' l' (L q @ [x])" "same_core (s_threads s) m'"
    "\<And>p. p \<notin> set (L q) \<Longrightarrow> p \<noteq> x \<Longrightarrow> m' p = s_threads s p" by metis
  let ?u = "ThreadList_Unlock l'"
  have r: "push_queue q x s = ret (s\<lparr>s_threads := m', s_queues := (s_queues s)(q := ?u)\<rparr>)"
    using lk p(1) by (simp add: push_queue_def with_queue_def)
  have rel': "queues_rel (s\<lparr>s_threads := m', s_queues := (s_queues s)(q := ?u)\<rparr>) (L(q := L q @ [x]))"
  proof (rule queues_rel_upd [OF rel])
    show "tlist m' ?u (L q @ [x])" "\<not> tl_lock ?u" using p(2) by (simp_all add: ThreadList_Unlock_def)
    show "m' p = s_threads s p" if "p \<in> queued L" "p \<notin> set (L q)" for p using that p(4) x(2) by blast
    show "set (L q @ [x]) \<inter> set (L q') = {}" if "q' \<noteq> q" for q'
      using queues_relD(3) [OF rel, of q q'] that x(2) by (auto simp: queued_def)
  qed
  show thesis by (rule that [OF r rel' p(3,4)])
qed

lemma pop_queue_rel:
  assumes rel: "queues_rel s L" and L: "L q = x # xs"
  obtains m l where "with_queue q PopFront s = ret (x, s\<lparr>s_threads := m, s_queues := (s_queues s)(q := l)\<rparr>)"
    "queues_rel (s\<lparr>s_threads := m, s_queues := (s_queues s)(q := l)\<rparr>) (L(q := xs))" "same_core (s_threads s) m"
    "unlinked m x" "x \<notin> queued (L(q := xs))" "same_out (queued L) (s_threads s) m"
proof -
  let ?l = "(s_queues s q)\<lparr>tl_lock := True\<rparr>"
  have lk: "ThreadList_Lock (s_queues s q) = ret ?l" using queues_relD(2) [OF rel] by (simp add: ThreadList_Lock_def)
  have "tlist (s_threads s) ?l (x # xs)" using queues_relD(1) [OF rel, of q] L by simp
  from PopFront_tlist [OF this]
  obtain l' m' where p: "PopFront ?l (s_threads s) = ret (x, l', m')" "tlist m' l' xs" "same_core (s_threads s) m'" "unlinked m' x"
    "\<And>p. p \<notin> set (x # xs) \<Longrightarrow> m' p = s_threads s p" by metis
  let ?u = "ThreadList_Unlock l'"
  have r: "with_queue q PopFront s = ret (x, s\<lparr>s_threads := m', s_queues := (s_queues s)(q := ?u)\<rparr>)"
    using lk p(1) by (simp add: with_queue_def)
  have rel': "queues_rel (s\<lparr>s_threads := m', s_queues := (s_queues s)(q := ?u)\<rparr>) (L(q := xs))"
  proof (rule queues_rel_upd [OF rel])
    show "tlist m' ?u xs" "\<not> tl_lock ?u" using p(2) by (simp_all add: ThreadList_Unlock_def)
    show "m' p = s_threads s p" if "p \<in> queued L" "p \<notin> set (L q)" for p using that p(5) L by simp
    show "set xs \<inter> set (L q') = {}" if "q' \<noteq> q" for q' using queues_relD(3) [OF rel, of q q'] that L by auto
  qed
  have "x \<notin> set xs" using queues_relD(1) [OF rel, of q] L by (simp add: tlist_def)
  moreover have "x \<notin> set (L q')" if "q' \<noteq> q" for q' using queues_relD(3) [OF rel, of q q'] that L by auto
  ultimately have xq: "x \<notin> queued (L(q := xs))" by (auto simp: queued_def split: if_splits)
  have "set (x # xs) \<subseteq> queued L" using L unfolding queued_def by (metis UN_upper UNIV_I)
  then have "same_out (queued L) (s_threads s) m'" using p(5) unfolding same_out_def by (metis subsetD)
  with xq show thesis by (rule that [OF r rel' p(3,4)])
qed

section \<open>Picking a thread\<close>

text \<open>Only the threads, the queues and the processors of a state change.\<close>

definition same_rest :: "sched \<Rightarrow> sched \<Rightarrow> bool" where
  "same_rest s s' \<longleftrightarrow> s' = s\<lparr>s_threads := s_threads s', s_queues := s_queues s', s_infos := s_infos s'\<rparr>"

lemma same_rest_refl [simp]: "same_rest s s"
  by (simp add: same_rest_def)

lemma same_rest_trans: "same_rest s s' \<Longrightarrow> same_rest s' s'' \<Longrightarrow> same_rest s s''"
  unfolding same_rest_def by (cases s; cases s'; cases s'') simp

lemma same_rest_fields:
  assumes "same_rest s s'"
  shows "s_procs s' = s_procs s" "s_this s' = s_this s" "g_total_threads s' = g_total_threads s" "g_global_lock s' = g_global_lock s"
    "g_scheduler_running s' = g_scheduler_running s" "g_processors s' = g_processors s" "g_processors_lock s' = g_processors_lock s"
  using assms unfolding same_rest_def by (cases s; cases s'; simp)+

text \<open>The queue a thread belongs to: the one of the idle threads, or the one of the priority of its process.\<close>

definition home :: "sched \<Rightarrow> ptr \<Rightarrow> queue \<Rightarrow> bool" where
  "home s x q \<longleftrightarrow> (\<exists>t. s_threads s x = Some t \<and> (if th_idle t then q = Idle else \<exists>p. GetPriority s x = ret p \<and> q = Q p))"

definition next_class :: "(queue \<Rightarrow> ptr list) \<Rightarrow> ProcessorInfo \<Rightarrow> Priority option" where
  "next_class L i = choose_class (\<lambda>p. L (Q p) \<noteq> []) i"

definition next_queue :: "Priority option \<Rightarrow> queue" where
  "next_queue c = (case c of Some p \<Rightarrow> Q p | None \<Rightarrow> Idle)"

definition head_of :: "ptr list \<Rightarrow> ptr" where
  "head_of xs = (case xs of [] \<Rightarrow> nullptr | x # _ \<Rightarrow> x)"

text \<open>The effect of \<open>PickNext\<close> on sequences, when the running thread belongs to \<open>q\<close> or there is none.\<close>

definition put_back :: "queue option \<Rightarrow> (queue \<Rightarrow> ptr list) \<Rightarrow> ProcessorInfo \<Rightarrow> (queue \<Rightarrow> ptr list) \<times> ProcessorInfo" where
  "put_back h L i = (case h of
     None \<Rightarrow> (L, i)
   | Some q \<Rightarrow> (L(q := L q @ [current_thread i]), case q of Q p \<Rightarrow> count_run p i | _ \<Rightarrow> i))"

definition abs_pick :: "queue option \<Rightarrow> (queue \<Rightarrow> ptr list) \<Rightarrow> ProcessorInfo \<Rightarrow> (queue \<Rightarrow> ptr list) \<times> ProcessorInfo" where
  "abs_pick h L i =
     (let (L, i) = put_back h L i; c = next_class L i; q = next_queue c
      in (L(q := tl (L q)), (reset_runs c i)\<lparr>current_thread := head_of (L q)\<rparr>))"

lemma queue_count_ready:
  assumes "queues_rel s L"
  shows "queue_count s q > 0 \<longleftrightarrow> L q \<noteq> []"
proof -
  have t: "tlist (s_threads s) (s_queues s q) (L q)" by (rule queues_relD(1) [OF assms])
  then have "unat (queue_count s q) = length (L q)" by (simp add: queue_count_def tlist_def unat_of_nat64)
  then show ?thesis by (metis length_0_conv unat_eq_zero word_gt_0)
qed

lemma with_queue_pop:
  assumes rel: "queues_rel s L"
  obtains m l where "with_queue q PopFront s = ret (head_of (L q), s\<lparr>s_threads := m, s_queues := (s_queues s)(q := l)\<rparr>)"
    "queues_rel (s\<lparr>s_threads := m, s_queues := (s_queues s)(q := l)\<rparr>) (L(q := tl (L q)))" "same_core (s_threads s) m"
    "same_out (queued L) (s_threads s) m"
proof (cases "L q")
  case Nil
  have t: "tlist (s_threads s) (s_queues s q) (L q)" "\<not> tl_lock (s_queues s q)" by (rule queues_relD [OF rel])+
  have l: "(s_queues s q)\<lparr>tl_lock := False\<rparr> = s_queues s q" using t(2) by (cases "s_queues s q") simp
  have "with_queue q PopFront s = ret (head_of (L q), s\<lparr>s_threads := s_threads s, s_queues := (s_queues s)(q := s_queues s q)\<rparr>)"
    using t Nil by (simp add: with_queue_def ThreadList_Lock_def ThreadList_Unlock_def PopFront_def tlist_def head_of_def l)
  then show thesis by (rule that) (use rel Nil in \<open>simp_all add: fun_upd_idem\<close>)
next
  case (Cons x xs)
  show thesis using pop_queue_rel [OF rel Cons] that Cons by (metis head_of_def list.sel(3) list.simps(5))
qed

lemma choose_next_rel:
  assumes rel: "queues_rel s L" and i: "s_infos s info = Some i" "info \<noteq> nullptr"
  obtains s' where "choose_next info s = ret s'" "queues_rel s' (L(next_queue (next_class L i) := tl (L (next_queue (next_class L i)))))"
    "s_infos s' = (s_infos s)(info \<mapsto> (reset_runs (next_class L i) i)\<lparr>current_thread := head_of (L (next_queue (next_class L i)))\<rparr>)"
    "same_core (s_threads s) (s_threads s')" "same_rest s s'" "same_out (queued L) (s_threads s) (s_threads s')"
proof -
  let ?q = "next_queue (next_class L i)"
  have c: "choose_class (\<lambda>p. queue_count s (Q p) > 0) i = next_class L i" using queue_count_ready [OF rel] by (simp add: next_class_def)
  obtain m l where p: "with_queue ?q PopFront s = ret (head_of (L ?q), s\<lparr>s_threads := m, s_queues := (s_queues s)(?q := l)\<rparr>)"
    "queues_rel (s\<lparr>s_threads := m, s_queues := (s_queues s)(?q := l)\<rparr>) (L(?q := tl (L ?q)))" "same_core (s_threads s) m"
    "same_out (queued L) (s_threads s) m"
    by (rule with_queue_pop [OF rel])
  let ?s = "info_put info ((reset_runs (next_class L i) i)\<lparr>current_thread := head_of (L ?q)\<rparr>) (s\<lparr>s_threads := m, s_queues := (s_queues s)(?q := l)\<rparr>)"
  have "lock_queues s = ret ()" using queues_relD(2) [OF rel] by (simp add: lock_queues_def)
  then have "choose_next info s = ret ?s" using i p(1) by (simp add: choose_next_def Let_def c next_queue_def [symmetric])
  moreover have "queues_rel ?s (L(?q := tl (L ?q)))" using p(2) by (simp add: queues_rel_def info_put_def)
  ultimately show thesis using that [of ?s] p(3,4) by (simp add: info_put_def same_rest_def)
qed

text \<open>What \<open>PickNext\<close> is called with.\<close>

definition running :: "sched \<Rightarrow> (queue \<Rightarrow> ptr list) \<Rightarrow> ptr \<Rightarrow> queue option \<Rightarrow> bool" where
  "running s L x h \<longleftrightarrow> (case h of None \<Rightarrow> x = nullptr
     | Some q \<Rightarrow> unlinked (s_threads s) x \<and> x \<notin> queued L \<and> home s x q \<and> Suc (length (L q)) < 2 ^ 64)"

lemma requeue_rel:
  assumes rel: "queues_rel s L" and i: "s_infos s info = Some i" "info \<noteq> nullptr" and x: "running s L (current_thread i) h"
  obtains s' where "requeue_current info s = ret s'" "queues_rel s' (fst (put_back h L i))" "s_infos s' = (s_infos s)(info \<mapsto> snd (put_back h L i))"
    "same_core (s_threads s) (s_threads s')" "same_rest s s'" "same_out (insert (current_thread i) (queued L)) (s_threads s) (s_threads s')"
    "queued (fst (put_back h L i)) \<subseteq> insert (current_thread i) (queued L)"
proof (cases h)
  case None
  then show thesis using that [of s] rel i x by (simp add: requeue_current_def put_back_def running_def fun_upd_idem subset_insertI)
next
  case (Some q)
  let ?x = "current_thread i"
  have u: "unlinked (s_threads s) ?x" "?x \<notin> queued L" "home s ?x q" "Suc (length (L q)) < 2 ^ 64" using x Some by (auto simp: running_def)
  obtain m l where p: "push_queue q ?x s = ret (s\<lparr>s_threads := m, s_queues := (s_queues s)(q := l)\<rparr>)"
    "queues_rel (s\<lparr>s_threads := m, s_queues := (s_queues s)(q := l)\<rparr>) (L(q := L q @ [?x]))" "same_core (s_threads s) m"
    "\<And>p. p \<notin> set (L q) \<Longrightarrow> p \<noteq> ?x \<Longrightarrow> m p = s_threads s p"
    using push_queue_rel [OF rel u(1,2,4)] by metis
  obtain t where t: "s_threads s ?x = Some t" "?x \<noteq> nullptr" using u(1) by (auto simp: unlinked_def)
  let ?s = "info_put info (snd (put_back h L i)) (s\<lparr>s_threads := m, s_queues := (s_queues s)(q := l)\<rparr>)"
  have same: "(s\<lparr>s_threads := m, s_queues := (s_queues s)(q := l)\<rparr>) = info_put info i (s\<lparr>s_threads := m, s_queues := (s_queues s)(q := l)\<rparr>)"
    using i(1) by (cases s) (simp add: info_put_def fun_upd_idem)
  have r: "requeue_current info s = ret ?s"
  proof (cases "th_idle t")
    case True
    then show ?thesis using i t p(1) u(3) Some same by (simp add: requeue_current_def home_def put_back_def)
  next
    case False
    then obtain pr where "GetPriority s ?x = ret pr" "q = Q pr" using u(3) t by (auto simp: home_def)
    then show ?thesis using False i t p(1) Some by (simp add: requeue_current_def put_back_def)
  qed
  have "queues_rel ?s (fst (put_back h L i))" using p(2) Some by (simp add: queues_rel_def info_put_def put_back_def)
  moreover have "same_out (insert ?x (queued L)) (s_threads s) m" using p(4) by (auto simp: same_out_def queued_def)
  moreover have "queued (fst (put_back h L i)) \<subseteq> insert ?x (queued L)" using Some by (auto simp: put_back_def queued_def split: if_splits)
  ultimately show thesis using that [OF r] p(3) by (simp add: info_put_def same_rest_def)
qed

lemma PickNext_rel:
  assumes rel: "queues_rel s L" and i: "s_infos s info = Some i" "info \<noteq> nullptr" and x: "running s L (current_thread i) h"
    and g: "\<not> g_global_lock s" "g_total_threads s \<noteq> 0" "g_total_threads s = 1 \<Longrightarrow> current_thread i = nullptr"
  obtains s' where "PickNext info s = ret s'" "queues_rel s' (fst (abs_pick h L i))" "s_infos s' = (s_infos s)(info \<mapsto> snd (abs_pick h L i))"
    "same_core (s_threads s) (s_threads s')" "same_rest s s'" "same_out (insert (current_thread i) (queued L)) (s_threads s) (s_threads s')"
proof -
  let ?L = "fst (put_back h L i)" and ?i = "snd (put_back h L i)"
  obtain s1 where s1: "requeue_current info s = ret s1" "queues_rel s1 ?L" "s_infos s1 = (s_infos s)(info \<mapsto> ?i)"
    "same_core (s_threads s) (s_threads s1)" "same_rest s s1" "same_out (insert (current_thread i) (queued L)) (s_threads s) (s_threads s1)"
    "queued ?L \<subseteq> insert (current_thread i) (queued L)"
    by (rule requeue_rel [OF rel i x])
  have i1: "s_infos s1 info = Some ?i" using s1(3) by simp
  obtain s2 where s2: "choose_next info s1 = ret s2" "queues_rel s2 (?L(next_queue (next_class ?L ?i) := tl (?L (next_queue (next_class ?L ?i)))))"
    "s_infos s2 = (s_infos s1)(info \<mapsto> (reset_runs (next_class ?L ?i) ?i)\<lparr>current_thread := head_of (?L (next_queue (next_class ?L ?i)))\<rparr>)"
    "same_core (s_threads s1) (s_threads s2)" "same_rest s1 s2" "same_out (queued ?L) (s_threads s1) (s_threads s2)"
    by (rule choose_next_rel [OF s1(2) i1 i(2)])
  have r: "PickNext info s = ret s2" using g i s1(1) s2(1) by (simp add: PickNext_def Let_def)
  have fr: "same_out (insert (current_thread i) (queued L)) (s_threads s) (s_threads s2)"
    by (rule same_out_trans [OF s1(6) s2(6) subset_refl s1(7)])
  show thesis
    by (rule that [OF r _ _ _ _ fr]) (use s1 s2 in \<open>auto simp: abs_pick_def Let_def split: prod.splits intro: same_core_trans same_rest_trans\<close>)
qed

section \<open>No class starves\<close>

text \<open>The classes that are picked one after the other, beginning with a thread of class \<open>p\<close> on the processor; \<open>ready n\<close> says which
  classes have a thread at the pick \<open>n\<close>.\<close>

primrec runs :: "(nat \<Rightarrow> Priority \<Rightarrow> bool) \<Rightarrow> ProcessorInfo \<Rightarrow> Priority \<Rightarrow> nat \<Rightarrow> ProcessorInfo \<times> Priority" where
  "runs ready i p 0 = (i, p)"
| "runs ready i p (Suc n) =
     (let (i, p) = runs ready i p n; j = count_run p i
      in case choose_class (ready n) j of None \<Rightarrow> (j, p) | Some c \<Rightarrow> (reset_runs (Some c) j, c))"

text \<open>How many picks may still pass before a thread of the lowest class is due.\<close>

definition left :: "u8 \<Rightarrow> nat" where
  "left k = 4 - unat k"

definition due :: "ProcessorInfo \<Rightarrow> nat" where
  "due i = left (kernel_run_count i) + 5 * left (high_run_count i) + 25 * left (normal_run_count i)"

lemma left_Suc: "\<not> k \<ge> 4 \<Longrightarrow> left k = Suc (left (k + 1))"
proof -
  assume "\<not> k \<ge> 4"
  then have k: "unat k < 4" by (simp add: not_le word_less_nat_alt)
  then have "unat (k + 1) = unat k + 1" by (simp add: unat_word_ariths)
  then show ?thesis using k by (simp add: left_def)
qed

lemma left_le [simp]: "left k \<le> 4" and left_0 [simp]: "left 0 = 4"
  by (simp_all add: left_def)

lemma choose_due:
  assumes "ready LOW" "choose_class ready j = Some c" "c \<noteq> LOW"
  shows "due (count_run c (reset_runs (Some c) j)) < due j"
proof (cases c)
  case KERNEL
  then have "\<not> kernel_run_count j \<ge> 4" using assms by (auto simp: choose_class_def split: if_splits)
  then show ?thesis using KERNEL left_Suc [of "kernel_run_count j"] by (simp add: due_def count_run_def reset_runs_def)
next
  case HIGH
  then have "\<not> high_run_count j \<ge> 4" using assms by (auto simp: choose_class_def split: if_splits)
  then show ?thesis using HIGH left_Suc [of "high_run_count j"] by (simp add: due_def count_run_def reset_runs_def)
next
  case NORMAL
  then have "\<not> normal_run_count j \<ge> 4" using assms by (auto simp: choose_class_def split: if_splits)
  then show ?thesis using NORMAL left_Suc [of "normal_run_count j"] by (simp add: due_def count_run_def reset_runs_def)
qed (use assms in simp)

lemma choose_some: "ready LOW \<Longrightarrow> \<exists>c. choose_class ready j = Some c"
  by (simp add: choose_class_def)

lemma runs_due:
  assumes low: "\<And>n. ready n LOW" and n: "\<forall>k. 0 < k \<and> k \<le> n \<longrightarrow> snd (runs ready i p k) \<noteq> LOW"
  shows "due (count_run (snd (runs ready i p n)) (fst (runs ready i p n))) + n \<le> 124"
  using n
proof (induction n)
  case 0
  have "due (count_run p i) \<le> 4 + 5 * 4 + 25 * 4" unfolding due_def by (intro add_mono mult_le_mono2 left_le)
  then show ?case by simp
next
  case (Suc n)
  let ?i = "fst (runs ready i p n)" and ?p = "snd (runs ready i p n)"
  obtain c where c: "choose_class (ready n) (count_run ?p ?i) = Some c" using choose_some [of "ready n"] low by blast
  then have r: "runs ready i p (Suc n) = (reset_runs (Some c) (count_run ?p ?i), c)" by (simp add: Let_def case_prod_beta)
  have "snd (runs ready i p (Suc n)) \<noteq> LOW" using Suc.prems by blast
  then have "c \<noteq> LOW" using r by simp
  from choose_due [of "ready n", OF low c this] have "due (count_run c (reset_runs (Some c) (count_run ?p ?i))) < due (count_run ?p ?i)" .
  moreover have "due (count_run ?p ?i) + n \<le> 124" using Suc.IH Suc.prems by simp
  ultimately show ?case unfolding r by simp
qed

lemma runs_reach_low:
  assumes "\<And>n. ready n LOW"
  shows "\<exists>n. 0 < n \<and> n \<le> 125 \<and> snd (runs ready i p n) = LOW"
proof (rule ccontr)
  assume "\<not> ?thesis"
  then have "\<forall>k. 0 < k \<and> k \<le> 125 \<longrightarrow> snd (runs ready i p k) \<noteq> LOW" by blast
  from runs_due [OF assms this] show False by simp
qed

section \<open>Removing a thread\<close>

lemma thread_search_absent:
  "chain m pv xs \<Longrightarrow> x \<notin> set xs \<Longrightarrow> thread_search m (case xs of [] \<Rightarrow> nullptr | y # _ \<Rightarrow> y) x = ret False"
proof (induction xs arbitrary: pv)
  case Nil
  then show ?case by (subst thread_search.simps) simp
next
  case (Cons y ys)
  then obtain t where "m y = Some t" "y \<noteq> nullptr" "th_next t = (case ys of [] \<Rightarrow> nullptr | z # _ \<Rightarrow> z)" by auto
  then show ?case using Cons by (subst thread_search.simps) (auto simp: GetNextThread_def)
qed

lemma with_queue_absent:
  assumes rel: "queues_rel s L" and x: "x \<notin> set (L q)"
  shows "with_queue q (ThreadList_RemoveThread x) s = ret (False, s)"
proof -
  have t: "tlist (s_threads s) (s_queues s q) (L q)" "\<not> tl_lock (s_queues s q)" by (rule queues_relD [OF rel])+
  have l: "(s_queues s q)\<lparr>tl_lock := False\<rparr> = s_queues s q" using t(2) by (cases "s_queues s q") simp
  have "thread_search (s_threads s) (tl_start (s_queues s q)) x = ret False"
    using t(1) thread_search_absent [of "s_threads s" nullptr "L q" x] x by (simp add: tlist_def)
  then show ?thesis
    using t(2) by (simp add: with_queue_def ThreadList_Lock_def ThreadList_Unlock_def ThreadList_RemoveThread_def l)
qed

text \<open>A thread that runs on the processor \<open>c\<close> is taken off it.\<close>

lemma RemoveThread_running:
  assumes rel: "queues_rel s L" and x: "x \<noteq> nullptr" "GetPriority s x = ret p" "x \<notin> set (L (Q p))"
    and c: "find_running s x (g_processors s) = ret c" "c \<noteq> nullptr" "s_infos s c = Some i" and l: "\<not> g_processors_lock s" "\<not> g_global_lock s"
  shows "RemoveThread x s =
    bindP (PickNext c ((info_put c (i\<lparr>current_thread := nullptr\<rparr>) (s\<lparr>g_processors_lock := True\<rparr>))\<lparr>g_total_threads := g_total_threads s - 1\<rparr>))
      (\<lambda>s. ret (s\<lparr>g_processors_lock := False\<rparr>))"
proof -
  have u: "(g_global_lock_update (\<lambda>_. False) r) = r" if "\<not> g_global_lock r" for r :: sched using that by (cases r) simp
  show ?thesis using x c l with_queue_absent [OF rel x(3)]
    by (simp add: RemoveThread_def take_off_def with_global_def info_put_def u)
qed

lemma remove_of_two:
  assumes l: "tlist m l [a, b]" and x: "x \<in> {a, b}"
  obtains l' m' where "ThreadList_RemoveThread x l m = ret (True, l', m')" "PopFront l' m' = stop NullDeref"
proof -
  obtain ta tb where t: "m a = Some ta" "m b = Some tb" "th_next ta = b" "th_previous tb = a" "th_previous ta = nullptr" "th_next tb = nullptr"
    "a \<noteq> nullptr" "b \<noteq> nullptr" "a \<noteq> b" "tl_start l = a" "tl_end l = b" "tl_count l = 2"
    using l by (auto simp: tlist_def)
  show thesis
  proof (cases "x = a")
    case True
    have "thread_search m a a = ret True" using t by (subst thread_search.simps) simp
    then have "ThreadList_RemoveThread x l m =
        ret (True, l\<lparr>tl_start := b\<rparr>, m(b \<mapsto> tb\<lparr>th_previous := nullptr\<rparr>, a \<mapsto> ta\<lparr>th_next := nullptr, th_previous := nullptr\<rparr>))"
      using True t by (simp add: ThreadList_RemoveThread_def GetNextThread_def GetPreviousThread_def SetNextThread_def SetPreviousThread_def thread_set_def)
    then show thesis
      by (rule that) (use t in \<open>simp add: PopFront_def GetNextThread_def SetPreviousThread_def thread_set_def deref_def\<close>)
  next
    case False
    then have x: "x = b" using assms(2) by simp
    have "thread_search m b b = ret True" using t by (subst thread_search.simps) simp
    then have "thread_search m a b = ret True" using t by (subst thread_search.simps) (simp add: GetNextThread_def)
    then have "ThreadList_RemoveThread x l m =
        ret (True, l\<lparr>tl_end := a\<rparr>, m(a \<mapsto> ta\<lparr>th_next := nullptr\<rparr>, b \<mapsto> tb\<lparr>th_next := nullptr, th_previous := nullptr\<rparr>))"
      using x t by (simp add: ThreadList_RemoveThread_def GetNextThread_def GetPreviousThread_def SetNextThread_def SetPreviousThread_def thread_set_def)
    then show thesis
      by (rule that) (use t in \<open>simp add: PopFront_def GetNextThread_def SetPreviousThread_def thread_set_def deref_def\<close>)
  qed
qed

lemma remove_single:
  assumes "tlist m l [x]" "m x = Some t"
  shows "ThreadList_RemoveThread x l m = ret (True, l\<lparr>tl_start := nullptr\<rparr>, m(x \<mapsto> t\<lparr>th_next := nullptr, th_previous := nullptr\<rparr>))"
proof -
  have l: "x \<noteq> nullptr" "tl_start l = x" "th_next t = nullptr" using assms by (auto simp: tlist_def)
  then have "thread_search m x x = ret True" by (subst thread_search.simps) simp
  then show ?thesis
    using l assms(2) by (simp add: ThreadList_RemoveThread_def GetNextThread_def GetPreviousThread_def SetNextThread_def SetPreviousThread_def thread_set_def)
qed

text \<open>A state in which the queue of the priority of a thread can take it.\<close>

lemma ReaddThread_ready:
  assumes t: "s_threads s x = Some t" "x \<noteq> nullptr" "th_next t = nullptr" and p: "s_procs s (th_Parent t) = Some p" "th_Parent t \<noteq> nullptr"
    and q: "tlist (s_threads s) (s_queues s (Q (pr_Priority p))) xs" "\<not> tl_lock (s_queues s (Q (pr_Priority p)))" "x \<notin> set xs" "Suc (length xs) < 2 ^ 64"
  obtains m l where "ReaddThread x s = ret (s\<lparr>s_threads := m, s_queues := (s_queues s)(Q (pr_Priority p) := l)\<rparr>)"
proof -
  let ?q = "s_queues s (Q (pr_Priority p))"
  have "unlinked (s_threads s) x" using t by (simp add: unlinked_def)
  moreover have "tlist (s_threads s) (?q\<lparr>tl_lock := True\<rparr>) xs" using q(1) by simp
  ultimately obtain l m where "PushBack x (?q\<lparr>tl_lock := True\<rparr>) (s_threads s) = ret (l, m)"
    using PushBack_tlist q(3,4) by metis
  then show thesis
    using that t p q(2) by (simp add: ReaddThread_def GetPriority_def push_queue_def with_queue_def ThreadList_Lock_def)
qed

lemma wake_single:
  assumes x: "tlist (s_threads s) (s_queues s Sleeping) [x]" "s_threads s x = Some t" "th_remaining_sleep_time t = 1"
    and p: "s_procs s (th_Parent t) = Some p" "th_Parent t \<noteq> nullptr"
    and q: "tlist (s_threads s) (s_queues s (Q (pr_Priority p))) xs" "\<not> tl_lock (s_queues s (Q (pr_Priority p)))" "x \<notin> set xs" "Suc (length xs) < 2 ^ 64"
  shows "wake_loop 0 s = stop NullDeref"
proof -
  have l: "x \<noteq> nullptr" "tl_start (s_queues s Sleeping) = x" "tl_count (s_queues s Sleeping) = 1" using x(1) by (simp_all add: tlist_def)
  let ?t = "t\<lparr>th_remaining_sleep_time := 0, th_sleeping := False\<rparr>"
  let ?m = "(s_threads s)(x \<mapsto> ?t)" let ?s1 = "s\<lparr>s_threads := ?m\<rparr>"
  have links: "th_next t = nullptr" "th_previous t = nullptr" using x(1,2) by (auto simp: tlist_def)
  have "tlist ?m (s_queues s Sleeping) [x]" using x(1) l links by (simp add: tlist_def)
  then have rm: "ThreadList_RemoveThread x (s_queues s Sleeping) ?m =
      ret (True, (s_queues s Sleeping)\<lparr>tl_start := nullptr\<rparr>, ?m(x \<mapsto> ?t\<lparr>th_next := nullptr, th_previous := nullptr\<rparr>))"
    by (rule remove_single) simp
  define s2 where "s2 = ?s1\<lparr>s_threads := ?m(x \<mapsto> ?t\<lparr>th_next := nullptr, th_previous := nullptr\<rparr>),
    s_queues := (s_queues s)(Sleeping := (s_queues s Sleeping)\<lparr>tl_start := nullptr\<rparr>)\<rparr>"
  have "tlist (s_threads s2) (s_queues s (Q (pr_Priority p))) xs = tlist (s_threads s) (s_queues s (Q (pr_Priority p))) xs"
    by (rule tlist_cong) (use q(3) in \<open>auto simp: s2_def\<close>)
  then have q2: "tlist (s_threads s2) (s_queues s2 (Q (pr_Priority p))) xs" "\<not> tl_lock (s_queues s2 (Q (pr_Priority p)))"
    using q by (simp_all add: s2_def)
  have t2: "s_threads s2 x = Some (?t\<lparr>th_next := nullptr, th_previous := nullptr\<rparr>)" "s_procs s2 (th_Parent t) = Some p" using p by (simp_all add: s2_def)
  obtain m l where re: "ReaddThread x s2 = ret (s2\<lparr>s_threads := m, s_queues := (s_queues s2)(Q (pr_Priority p) := l)\<rparr>)"
    by (rule ReaddThread_ready [OF t2(1) \<open>x \<noteq> nullptr\<close> _ _ _ q2 q(3,4)]) (use t2(2) p(2) in simp_all)
  let ?s3 = "s2\<lparr>s_threads := m, s_queues := (s_queues s2)(Q (pr_Priority p) := l)\<rparr>"
  have "wake_loop 0 ?s3 = stop NullDeref"
    using l(3) by (subst wake_loop.simps) (simp add: queue_count_def s2_def ThreadList_Get_def deref_def)
  moreover have "wake_loop 0 s = bindP (ReaddThread x s2) (wake_loop 0)"
    using l x(2,3) rm by (subst wake_loop.simps) (simp add: queue_count_def ThreadList_Get_def thread_do_def thread_set_def s2_def)
  ultimately show ?thesis using re by simp
qed

section \<open>Properties\<close>

text \<open>C8. \<open>PickNext\<close> implements the choice on sequences: the running thread goes to the end of its queue, the class that is due gives its
  first thread, the queues stay well linked and disjoint, and of the threads only the links change. It is the choice whenever there is a thread to choose: with one thread in all, only when none is running.\<close>

theorem PickNext_refines:
  assumes "queues_rel s L" and "s_infos s info = Some i" and "info \<noteq> nullptr" and "running s L (current_thread i) h"
    and "\<not> g_global_lock s" and "g_total_threads s \<noteq> 0" and "g_total_threads s = 1 \<Longrightarrow> current_thread i = nullptr"
  shows "\<exists>s'. PickNext info s = ret s' \<and> queues_rel s' (fst (abs_pick h L i)) \<and> s_infos s' = (s_infos s)(info \<mapsto> snd (abs_pick h L i)) \<and>
    same_core (s_threads s) (s_threads s') \<and> same_rest s s' \<and>
    same_out (insert (current_thread i) (queued L)) (s_threads s) (s_threads s')"
  using PickNext_rel [OF assms(1-6)] assms(7) by metis

text \<open>Two normal threads, one running and one waiting, and a third one that sleeps.\<close>

definition test_thread :: "ptr \<Rightarrow> ptr \<Rightarrow> Thread" where
  "test_thread nx pv = \<lparr>th_Parent = 0x100, th_entry = 0, th_entry_data = 0, th_flags = 0, th_stack = 0,
     th_regs = no_registers, th_sleeping = False, th_remaining_sleep_time = 1,
     th_idle = False, th_blocked = False, th_next = nx, th_previous = pv\<rparr>"

definition single :: "ptr \<Rightarrow> ThreadList" where
  "single x = \<lparr>tl_start = x, tl_end = x, tl_count = 1, tl_lock = False\<rparr>"

definition test_info :: ProcessorInfo where
  "test_info = \<lparr>pi_processor = 0, pi_id = 0, kernel_run_count = 0, high_run_count = 0, normal_run_count = 0, current_thread = 0x10, pi_running = True, pi_ticks = 0, pi_start_allowed = 0\<rparr>"

definition test_sched :: sched where
  "test_sched = \<lparr>s_threads = [0x10 \<mapsto> test_thread 0 0, 0x20 \<mapsto> test_thread 0 0, 0x30 \<mapsto> test_thread 0 0],
     s_procs = [0x100 \<mapsto> \<lparr>pr_Priority = NORMAL, pr_pm = 0, pr_PID = 0\<rparr>], s_infos = [0x200 \<mapsto> test_info],
     s_queues = (\<lambda>_. ThreadList_make)(Q NORMAL := single 0x20, Sleeping := single 0x30), s_mem = (\<lambda>_. 0), s_this = 0x200, g_processors = [0x200],
     g_processors_lock = False, g_processes = [0x100], g_processes_lock = False, g_total_threads = 3, g_NextPID = 1, g_scheduler_running = True, g_global_lock = False\<rparr>"

definition test_queues :: "queue \<Rightarrow> ptr list" where
  "test_queues = (\<lambda>_. [])(Q NORMAL := [0x20], Sleeping := [0x30])"

lemma test_sched_rel: "queues_rel test_sched test_queues"
  by (auto simp: queues_rel_def tlist_def test_sched_def test_queues_def single_def ThreadList_make_def test_thread_def)

lemma test_running: "running test_sched test_queues 0x10 (Some (Q NORMAL))"
  by (auto simp: running_def unlinked_def queued_def home_def GetPriority_def test_sched_def test_queues_def test_thread_def split: if_splits)

theorem PickNext_refines_witness:
  "\<exists>s'. PickNext 0x200 test_sched = ret s' \<and> queues_rel s' (fst (abs_pick (Some (Q NORMAL)) test_queues test_info)) \<and>
    s_infos s' = (s_infos test_sched)(0x200 \<mapsto> snd (abs_pick (Some (Q NORMAL)) test_queues test_info)) \<and> same_core (s_threads test_sched) (s_threads s') \<and> same_rest test_sched s' \<and>
    same_out (insert (current_thread test_info) (queued test_queues)) (s_threads test_sched) (s_threads s')"
  by (rule PickNext_refines [OF test_sched_rel _ _ _]) (use test_running in \<open>simp_all add: test_sched_def test_info_def\<close>)



text \<open>Taking a thread out of a queue of two does not update the count of the queue: the next attempt to take the thread that is left
  dereferences null.\<close>

lemma RemoveThread_breaks_queue:
  assumes "tlist m l [a, b]" and "x = a \<or> x = b"
  shows "\<exists>l' m'. ThreadList_RemoveThread x l m = ret (True, l', m') \<and> PopFront l' m' = stop NullDeref"
  using remove_of_two [OF assms(1), of x] assms(2) by (metis insertCI)

text \<open>C39. The timer tick at which the only sleeping thread is due to wake up dereferences null: the queue of the sleeping threads still
  counts the thread that was taken out.\<close>

theorem TimerTick_wake_crash:
  assumes rel: "queues_rel s L" and x: "L Sleeping = [x]" "s_threads s x = Some t" "th_remaining_sleep_time t = 1"
    and p: "s_procs s (th_Parent t) = Some p" "th_Parent t \<noteq> nullptr" "Suc (length (L (Q (pr_Priority p)))) < 2 ^ 64"
    and i: "s_infos s (s_this s) = Some i" "s_this s \<noteq> nullptr"
  shows "TimerTick s = stop NullDeref"
proof -
  let ?l = "(s_queues s Sleeping)\<lparr>tl_lock := True\<rparr>"
  let ?s = "(info_put (s_this s) (i\<lparr>pi_ticks := pi_ticks i + 1\<rparr>) s)\<lparr>s_queues := (s_queues s)(Sleeping := ?l)\<rparr>"
  have "wake_loop 0 ?s = stop NullDeref"
  proof (rule wake_single)
    show "tlist (s_threads ?s) (s_queues ?s Sleeping) [x]" using queues_relD(1) [OF rel, of Sleeping] x(1) by (simp add: info_put_def)
    show "tlist (s_threads ?s) (s_queues ?s (Q (pr_Priority p))) (L (Q (pr_Priority p)))" "\<not> tl_lock (s_queues ?s (Q (pr_Priority p)))"
      using queues_relD(1,2) [OF rel, of "Q (pr_Priority p)"] by (simp_all add: info_put_def)
    show "x \<notin> set (L (Q (pr_Priority p)))" using queues_relD(3) [OF rel, of Sleeping "Q (pr_Priority p)"] x(1) by auto
  qed (use x p in \<open>simp_all add: info_put_def\<close>)
  then show ?thesis
    using i queues_relD(2) [OF rel, of Sleeping] by (simp add: TimerTick_def Let_def ThreadList_Lock_def info_put_def)
qed

theorem TimerTick_wake_crash_witness: "TimerTick test_sched = stop NullDeref"
  by (rule TimerTick_wake_crash [OF test_sched_rel, where x = "0x30" and t = "test_thread 0 0" and i = test_info
      and p = "\<lparr>pr_Priority = NORMAL, pr_pm = 0, pr_PID = 0\<rparr>"])
    (simp_all add: test_sched_def test_queues_def test_thread_def)

text \<open>\<open>PriorityLessThan\<close> is \<open>PriorityGreaterThan\<close> with its arguments swapped, and \<open>PriorityLessOrEqual\<close> agrees with the negation of
  \<open>PriorityGreaterThan\<close> exactly when its arguments are equal or neither of them is the kernel priority, which it orders the wrong way round.\<close>

lemma priority_comparisons:
  "PriorityLessThan a b = PriorityGreaterThan b a \<and> PriorityLessOrEqual a b = PriorityGreaterOrEqual b a \<and>
   ((PriorityLessOrEqual a b = (\<not> PriorityGreaterThan a b)) = (a = b \<or> (a \<noteq> KERNEL \<and> b \<noteq> KERNEL)))"
  by (cases a; cases b)
    (simp_all add: PriorityLessThan_def PriorityGreaterThan_def PriorityLessOrEqual_def PriorityGreaterOrEqual_def)

end
