(* ===== verification/SemaphoreCorrect.thy ===== *)
theory SemaphoreCorrect
  imports Semaphore SchedulerCorrect
begin

text \<open>
  The units of a semaphore are never lost or made up: those that are free and those that are held add up to what it was created with, in every state
  its operations reach. A release hands the unit to the thread that waits longest. The scheduler does not count a thread again that has
  waited: with two threads, the one that waited holds the semaphore and is never picked.
\<close>

section \<open>Units\<close>

definition sem_ok :: "u32 \<Rightarrow> Semaphore \<Rightarrow> bool" where
  "sem_ok v sem \<longleftrightarrow> unat (sem_value sem) + length (sem_holders sem) = unat v \<and>
     \<not> sem_lock sem \<and> \<not> sem_holders_lock sem \<and> \<not> tl_lock (sem_waiting sem)"

inductive sem_reach :: "u32 \<Rightarrow> Semaphore \<Rightarrow> sched \<Rightarrow> bool" for v where
  sem_init: "sem_reach v (Semaphore_make v) s"
| sem_acquire: "sem_reach v sem s \<Longrightarrow> Semaphore_acquire thread sem s = ret (t, sem', s') \<Longrightarrow> sem_reach v sem' s'"
| sem_nolock: "sem_reach v sem s \<Longrightarrow> acquire_nolock thread sem = ret sem' \<Longrightarrow> sem_reach v sem' s"
| sem_release: "sem_reach v sem s \<Longrightarrow> Semaphore_release thread sem s = ret (sem', s') \<Longrightarrow> sem_reach v sem' s'"
| sem_other: "sem_reach v sem s \<Longrightarrow> sem_reach v sem s'"

lemma unat_ucast_32_64: "unat (ucast (v :: u32) :: u64) = unat v"
proof -
  have "unat v < 2 ^ 32" using unsigned_less [of v] by simp
  then show ?thesis by (simp add: unsigned_ucast_eq take_bit_nat_eq_self)
qed

lemma sem_ok_make: "sem_ok v (Semaphore_make v)"
  by (simp add: sem_ok_def Semaphore_make_def ThreadList_make_def unat_ucast_32_64)

lemma unat_pred: "(x::u64) \<noteq> 0 \<Longrightarrow> Suc (unat (x - 1)) = unat x"
  by (metis Suc_pred' unat_gt_0 unat_minus_one)

lemma wait_on_ok: "wait_on x sem s = ret (sem', s') \<Longrightarrow> \<exists>w. sem' = sem\<lparr>sem_waiting := w\<rparr> \<and> \<not> tl_lock w"
  by (auto simp: wait_on_def bindP_eq_ret ThreadList_Unlock_def)

lemma acquire_nolock_ok: "sem_ok v sem \<Longrightarrow> acquire_nolock x sem = ret sem' \<Longrightarrow> sem_ok v sem'"
  using unat_pred [of "sem_value sem"] by (auto simp: acquire_nolock_def add_holder_def sem_ok_def split: if_splits)

lemma Semaphore_acquire_ok:
  assumes ok: "sem_ok v sem" and r: "Semaphore_acquire x sem s = ret (t, sem', s')"
  shows "sem_ok v sem'"
proof (cases "sem_value sem = 0")
  case True
  then obtain s1 sem1 where "wait_on x (sem\<lparr>sem_lock := True\<rparr>) s = ret (sem1, s1)" "sem' = sem1\<lparr>sem_lock := False\<rparr>"
    using ok r by (auto simp: Semaphore_acquire_def Let_def bindP_eq_ret sem_ok_def split: if_splits prod.splits)
  then show ?thesis using wait_on_ok [of x "sem\<lparr>sem_lock := True\<rparr>" s sem1 s1] ok by (auto simp: sem_ok_def)
next
  case False
  then show ?thesis using ok r unat_pred [OF False] by (auto simp: Semaphore_acquire_def Let_def add_holder_def sem_ok_def)
qed

lemma hand_over_ok: "sem_ok v sem \<Longrightarrow> sem_value sem \<noteq> 0 \<Longrightarrow> hand_over sem s = ret (sem', s') \<Longrightarrow> sem_ok v sem'"
  using unat_pred [of "sem_value sem"]
  by (auto simp: hand_over_def bindP_eq_ret add_value_def add_holder_def sem_ok_def ThreadList_Unlock_def split: if_splits prod.splits)

text \<open>A unit that is given back does not wrap around.\<close>

lemma give_back_ok:
  assumes ok: "sem_ok v sem" and x: "x \<in> set (sem_holders sem)"
  shows "sem_ok v (sem\<lparr>sem_holders := remove1 x (sem_holders sem), sem_value := sem_value sem + 1\<rparr>)" "sem_value sem + 1 \<noteq> 0"
proof -
  have l: "length (remove1 x (sem_holders sem)) + 1 = length (sem_holders sem)"
    using x by (metis One_nat_def Suc_pred add.commute length_pos_if_in_set length_remove1 plus_1_eq_Suc)
  have "unat v < 2 ^ 32" using unsigned_less [of v] by simp
  then have "unat (sem_value sem) + 1 < 2 ^ 64" using ok l by (simp add: sem_ok_def)
  then have u: "unat (sem_value sem + 1) = unat (sem_value sem) + 1" by (simp add: unat_word_ariths)
  then show "sem_value sem + 1 \<noteq> 0" by auto
  show "sem_ok v (sem\<lparr>sem_holders := remove1 x (sem_holders sem), sem_value := sem_value sem + 1\<rparr>)"
    using ok l u by (simp add: sem_ok_def)
qed

text \<open>The state of a semaphore between taking a unit back and handing it over.\<close>

lemma Semaphore_release_eq:
  assumes "x \<in> set (sem_holders sem)" "\<not> sem_lock sem" "\<not> sem_holders_lock sem"
  shows "Semaphore_release x sem s = hand_over (sem\<lparr>sem_holders := remove1 x (sem_holders sem), sem_value := sem_value sem + 1\<rparr>) s"
proof -
  have eq: "sem\<lparr>sem_holders := remove1 x (sem_holders sem), sem_holders_lock := False, sem_value := sem_value sem + 1, sem_lock := False\<rparr> =
      sem\<lparr>sem_holders := remove1 x (sem_holders sem), sem_value := sem_value sem + 1\<rparr>"
    using assms(2,3) by (cases sem) simp
  show ?thesis using assms by (simp add: Semaphore_release_def add_value_def eq)
qed

lemma Semaphore_release_ok:
  assumes ok: "sem_ok v sem" and r: "Semaphore_release x sem s = ret (sem', s')"
  shows "sem_ok v sem'"
proof (cases "x \<in> set (sem_holders sem)")
  case True
  let ?sem = "sem\<lparr>sem_holders := remove1 x (sem_holders sem), sem_value := sem_value sem + 1\<rparr>"
  have "hand_over ?sem s = ret (sem', s')" using r Semaphore_release_eq [OF True] ok by (simp add: sem_ok_def)
  then show ?thesis using hand_over_ok [OF give_back_ok(1) [OF ok True]] give_back_ok(2) [OF ok True] by simp
next
  case False
  then show ?thesis using ok r by (auto simp: Semaphore_release_def sem_ok_def)
qed

lemma sem_reach_ok: "sem_reach v sem s \<Longrightarrow> sem_ok v sem"
  by (induction rule: sem_reach.induct) (blast intro: sem_ok_make Semaphore_acquire_ok acquire_nolock_ok Semaphore_release_ok)+

section \<open>Handing a unit over\<close>

text \<open>The ready queues hold \<open>L\<close>, the waiting queue holds \<open>xs\<close>, no thread is in both, and the locks are free.\<close>

definition sem_rel :: "sched \<Rightarrow> Semaphore \<Rightarrow> (queue \<Rightarrow> ptr list) \<Rightarrow> ptr list \<Rightarrow> bool" where
  "sem_rel s sem L xs \<longleftrightarrow> queues_rel s L \<and> tlist (s_threads s) (sem_waiting sem) xs \<and> set xs \<inter> queued L = {} \<and>
     \<not> sem_lock sem \<and> \<not> sem_holders_lock sem \<and> \<not> tl_lock (sem_waiting sem)"

lemma queues_rel_frame:
  assumes "queues_rel s L" and "\<And>p. p \<in> queued L \<Longrightarrow> m p = s_threads s p"
  shows "queues_rel (s\<lparr>s_threads := m\<rparr>) L"
proof -
  have "tlist m (s_queues s q) (L q) = tlist (s_threads s) (s_queues s q) (L q)" for q
    by (rule tlist_cong) (use assms(2) in \<open>auto simp: queued_def\<close>)
  then show ?thesis using assms(1) by (simp add: queues_rel_def)
qed

lemma queued_snoc: "queued (L(q := L q @ [x])) = insert x (queued L)"
  by (auto simp: queued_def split: if_splits)

lemma core_fields: "core t' = core t \<Longrightarrow> th_Parent t' = th_Parent t \<and> th_idle t' = th_idle t \<and> th_blocked t' = th_blocked t"
  by (cases t; cases t') (simp add: core_def)

text \<open>A thread goes to the end of the queue of the priority of its process.\<close>

lemma ReaddThread_rel:
  assumes rel: "queues_rel s L" and x: "unlinked (s_threads s) x" "x \<notin> queued L" "s_threads s x = Some t"
    and p: "s_procs s (th_Parent t) = Some p" "th_Parent t \<noteq> nullptr" "Suc (length (L (Q (pr_Priority p)))) < 2 ^ 64"
  obtains s' where "ReaddThread x s = ret s'" "queues_rel s' (L(Q (pr_Priority p) := L (Q (pr_Priority p)) @ [x]))" "same_core (s_threads s) (s_threads s')"
    "same_rest s s'" "s_infos s' = s_infos s" "\<And>y. y \<notin> queued L \<Longrightarrow> y \<noteq> x \<Longrightarrow> s_threads s' y = s_threads s y"
proof -
  obtain m l where r: "push_queue (Q (pr_Priority p)) x s = ret (s\<lparr>s_threads := m, s_queues := (s_queues s)(Q (pr_Priority p) := l)\<rparr>)"
    "queues_rel (s\<lparr>s_threads := m, s_queues := (s_queues s)(Q (pr_Priority p) := l)\<rparr>) (L(Q (pr_Priority p) := L (Q (pr_Priority p)) @ [x]))"
    "same_core (s_threads s) m" "\<And>y. y \<notin> set (L (Q (pr_Priority p))) \<Longrightarrow> y \<noteq> x \<Longrightarrow> m y = s_threads s y"
    using push_queue_rel [OF rel x(1,2) p(3)] by metis
  have "x \<noteq> nullptr" using x(1) by (simp add: unlinked_def)
  then have "ReaddThread x s = ret (s\<lparr>s_threads := m, s_queues := (s_queues s)(Q (pr_Priority p) := l)\<rparr>)"
    using x(3) p(1,2) r(1) by (simp add: ReaddThread_def GetPriority_def)
  then show thesis by (rule that) (use r in \<open>auto simp: same_rest_def queued_def\<close>)
qed

lemma tlist_count:
  assumes "tlist m l (x # xs)"
  shows "tl_count l > 0"
proof -
  have "length (x # xs) < 2 ^ 64" "tl_count l = of_nat (length (x # xs))" using assms by (simp_all only: tlist_def)
  then have "unat (tl_count l) = length (x # xs)" using unat_of_nat64 by metis
  then show ?thesis by (metis length_Cons nat.distinct(1) unat_eq_zero word_gt_0)
qed

lemma hand_over_rel:
  assumes rel: "sem_rel s sem L (x # xs)" and t: "s_threads s x = Some t"
    and p: "s_procs s (th_Parent t) = Some p" "th_Parent t \<noteq> nullptr" "Suc (length (L (Q (pr_Priority p)))) < 2 ^ 64"
  obtains sem' s' t' where "hand_over sem s = ret (sem', s')" "sem_value sem' = sem_value sem - 1" "sem_holders sem' = sem_holders sem @ [x]"
    "sem_rel s' sem' (L(Q (pr_Priority p) := L (Q (pr_Priority p)) @ [x])) xs" "same_rest s s'" "s_infos s' = s_infos s"
    "s_threads s' x = Some t'" "\<not> th_blocked t'"
proof -
  let ?w = "(sem_waiting sem)\<lparr>tl_lock := True\<rparr>" and ?q = "Q (pr_Priority p)"
  have w: "tlist (s_threads s) ?w (x # xs)" "queues_rel s L" and d: "x \<notin> queued L" "set xs \<inter> queued L = {}" "x \<notin> set xs"
    using rel by (auto simp: sem_rel_def tlist_def)
  obtain w' m where m: "PopFront ?w (s_threads s) = ret (x, w', m)" "tlist m w' xs" "same_core (s_threads s) m" "unlinked m x"
    "\<And>y. y \<notin> set (x # xs) \<Longrightarrow> m y = s_threads s y"
    using PopFront_tlist [OF w(1)] by metis
  obtain u where u: "m x = Some u" "th_Parent u = th_Parent t" "x \<noteq> nullptr" "th_next u = nullptr"
    using same_coreD [OF m(3) t] core_fields [of _ t] m(4) unfolding unlinked_def by (metis option.inject)
  define s1 where "s1 = s\<lparr>s_threads := m(x \<mapsto> u\<lparr>th_blocked := False\<rparr>)\<rparr>"
  have s1: "queues_rel s1 L" unfolding s1_def by (rule queues_rel_frame [OF w(2)]) (use m(5) d in auto)
  have x1: "unlinked (s_threads s1) x" "s_threads s1 x = Some (u\<lparr>th_blocked := False\<rparr>)" "s_procs s1 = s_procs s"
    using u by (simp_all add: s1_def unlinked_def)
  have pr: "s_procs s1 (th_Parent (u\<lparr>th_blocked := False\<rparr>)) = Some p" "th_Parent (u\<lparr>th_blocked := False\<rparr>) \<noteq> nullptr" using p u(2) x1(3) by simp_all
  obtain s' where s': "ReaddThread x s1 = ret s'" "queues_rel s' (L(?q := L ?q @ [x]))" "same_core (s_threads s1) (s_threads s')"
    "same_rest s1 s'" "s_infos s' = s_infos s1" "\<And>y. y \<notin> queued L \<Longrightarrow> y \<noteq> x \<Longrightarrow> s_threads s' y = s_threads s1 y"
    using ReaddThread_rel [OF s1 x1(1) d(1) x1(2) pr p(3)] by metis
  define sem' where "sem' = sem\<lparr>sem_waiting := ThreadList_Unlock w', sem_value := sem_value sem - 1, sem_holders := sem_holders sem @ [x]\<rparr>"
  have locks: "\<not> sem_lock sem" "\<not> sem_holders_lock sem" "\<not> tl_lock (sem_waiting sem)" using rel by (simp_all add: sem_rel_def)
  have sm: "sem\<lparr>sem_waiting := ThreadList_Unlock w', sem_value := sem_value sem - 1, sem_lock := False, sem_holders := sem_holders sem @ [x], sem_holders_lock := False\<rparr> = sem'"
    using locks by (cases sem) (simp add: sem'_def)
  have lk: "ThreadList_Lock (sem_waiting sem) = ret ?w" using locks(3) by (simp add: ThreadList_Lock_def)
  have "thread_do x (\<lambda>t. t\<lparr>th_blocked := False\<rparr>) (s\<lparr>s_threads := m\<rparr>) = ret s1" using u by (simp add: thread_do_def thread_set_def s1_def)
  then have r: "hand_over sem s = ret (sem', s')"
    using lk tlist_count [OF w(1)] m(1) locks s'(1) by (simp add: hand_over_def add_value_def add_holder_def sm)
  have xs': "s_threads s' y = m y" if "y \<in> set xs" for y using s'(6) [of y] that d by (auto simp: s1_def)
  have "tlist (s_threads s') w' xs = tlist m w' xs" by (rule tlist_cong) (rule xs')
  then have rel': "sem_rel s' sem' (L(?q := L ?q @ [x])) xs"
    using s'(2) m(2) locks d by (auto simp: sem_rel_def sem'_def ThreadList_Unlock_def queued_snoc)
  have "same_rest s s1" by (simp add: same_rest_def s1_def)
  then have sr: "same_rest s s'" using s'(4) by (rule same_rest_trans)
  obtain t' where t': "s_threads s' x = Some t'" "core t' = core (u\<lparr>th_blocked := False\<rparr>)" using same_coreD [OF s'(3) x1(2)] by blast
  have b: "\<not> th_blocked t'" using core_fields [OF t'(2)] by simp
  have f: "sem_value sem' = sem_value sem - 1" "sem_holders sem' = sem_holders sem @ [x]" "s_infos s' = s_infos s"
    using s'(5) by (simp_all add: sem'_def s1_def)
  show thesis by (rule that [OF r f(1,2) rel' sr f(3) t'(1) b])
qed

lemma Semaphore_release_rel:
  assumes rel: "sem_rel s sem L (x # xs)" and y: "y \<in> set (sem_holders sem)" and t: "s_threads s x = Some t"
    and p: "s_procs s (th_Parent t) = Some p" "th_Parent t \<noteq> nullptr" "Suc (length (L (Q (pr_Priority p)))) < 2 ^ 64"
  obtains sem' s' t' where "Semaphore_release y sem s = ret (sem', s')" "sem_value sem' = sem_value sem" "sem_holders sem' = remove1 y (sem_holders sem) @ [x]"
    "sem_rel s' sem' (L(Q (pr_Priority p) := L (Q (pr_Priority p)) @ [x])) xs" "same_rest s s'" "s_infos s' = s_infos s"
    "s_threads s' x = Some t'" "\<not> th_blocked t'"
proof -
  let ?sem = "sem\<lparr>sem_holders := remove1 y (sem_holders sem), sem_value := sem_value sem + 1\<rparr>"
  have rel': "sem_rel s ?sem L (x # xs)" using rel by (simp add: sem_rel_def)
  have "Semaphore_release y sem s = hand_over ?sem s" by (rule Semaphore_release_eq) (use rel y in \<open>simp_all add: sem_rel_def\<close>)
  moreover have "sem_value ?sem - 1 = sem_value sem" "sem_holders ?sem = remove1 y (sem_holders sem)" by simp_all
  ultimately show thesis using hand_over_rel [OF rel' t p] that by metis
qed

section \<open>Two threads\<close>

text \<open>The waiting thread of an empty semaphore.\<close>

lemma wait_on_rel:
  assumes rel: "sem_rel s sem L []" and x: "unlinked (s_threads s) x" "x \<notin> queued L"
  obtains w m where "wait_on x (sem\<lparr>sem_lock := True\<rparr>) s = ret (sem\<lparr>sem_lock := True, sem_waiting := w\<rparr>, s\<lparr>s_threads := m\<rparr>)"
    "tlist m w [x]" "\<not> tl_lock w" "queues_rel (s\<lparr>s_threads := m\<rparr>) L" "same_core (s_threads s) m"
proof -
  let ?w = "(sem_waiting sem)\<lparr>tl_lock := True\<rparr>"
  have w: "tlist (s_threads s) ?w []" "queues_rel s L" "\<not> tl_lock (sem_waiting sem)" using rel by (simp_all add: sem_rel_def)
  have n: "Suc (length ([] :: ptr list)) < 2 ^ 64" "x \<notin> set []" by simp_all
  obtain l m where m: "PushBack x ?w (s_threads s) = ret (l, m)" "tlist m l ([] @ [x])" "same_core (s_threads s) m" "\<And>y. y \<notin> set [] \<Longrightarrow> y \<noteq> x \<Longrightarrow> m y = s_threads s y"
    using PushBack_tlist [OF w(1) n(1) x(1) n(2)] by metis
  have "queues_rel (s\<lparr>s_threads := m\<rparr>) L" by (rule queues_rel_frame [OF w(2)]) (use m(4) x(2) in \<open>metis empty_iff list.set(1)\<close>)
  then show thesis using that [of "ThreadList_Unlock l" m] m w(3) by (simp add: wait_on_def ThreadList_Lock_def ThreadList_Unlock_def)
qed

lemma choose_only: "choose_class (\<lambda>p. p = c) i = Some c"
  by (cases c) (simp_all add: choose_class_def)

lemma pick_only:
  assumes "L = (\<lambda>_. [])(Q c := [b])"
  shows "abs_pick None L i = (\<lambda>_. [], (reset_runs (Some c) i)\<lparr>current_thread := b\<rparr>)"
proof -
  have "(\<lambda>p. L (Q p) \<noteq> []) = (\<lambda>p. p = c)" using assms by (auto simp: fun_eq_iff)
  then have "next_class L i = Some c" by (simp add: next_class_def choose_only)
  moreover have "L(Q c := []) = (\<lambda>_. [])" "L (Q c) = [b]" using assms by (auto simp: fun_eq_iff)
  ultimately show ?thesis by (simp add: abs_pick_def put_back_def next_queue_def head_of_def Let_def)
qed

text \<open>Thread \<open>a\<close> runs on the only processor, \<open>b\<close> is ready and holds the last unit, nobody waits, and there are no other threads.\<close>

definition contended :: "sched \<Rightarrow> Semaphore \<Rightarrow> ptr \<Rightarrow> ptr \<Rightarrow> Priority \<Rightarrow> ProcessorInfo \<Rightarrow> bool" where
  "contended s sem a b c i \<longleftrightarrow> sem_rel s sem ((\<lambda>_. [])(Q c := [b])) [] \<and> sem_value sem = 0 \<and> b \<in> set (sem_holders sem) \<and>
     unlinked (s_threads s) a \<and> a \<noteq> b \<and> s_infos s (s_this s) = Some i \<and> s_this s \<noteq> nullptr \<and> current_thread i = a \<and> pi_running i \<and>
     g_scheduler_running s \<and> g_processors s = [s_this s] \<and> \<not> g_processors_lock s \<and> \<not> g_global_lock s \<and> g_total_threads s = 2"

text \<open>The processor takes \<open>b\<close> when \<open>a\<close> is removed.\<close>

lemma remove_contended:
  assumes c: "contended s sem a b c i" and m: "queues_rel s ((\<lambda>_. [])(Q c := [b]))"
    and t: "s_threads s a = Some t" "s_procs s (th_Parent t) = Some p" "th_Parent t \<noteq> nullptr"
  obtains s' where "RemoveThread a s = ret s'" "queues_rel s' (\<lambda>_. [])" "s_infos s' (s_this s) = Some ((reset_runs (Some c) (i\<lparr>current_thread := nullptr\<rparr>))\<lparr>current_thread := b\<rparr>)"
    "s_threads s' a = Some t" "s_threads s' b \<noteq> None" "s_procs s' = s_procs s" "s_this s' = s_this s" "g_total_threads s' = 1"
    "\<not> g_global_lock s'" "g_scheduler_running s'" "\<not> g_processors_lock s'"
proof -
  let ?L = "(\<lambda>_. [])(Q c := [b])" and ?i = "i\<lparr>current_thread := nullptr\<rparr>"
  define s1 where "s1 = (info_put (s_this s) ?i (s\<lparr>g_processors_lock := True\<rparr>))\<lparr>g_total_threads := 1\<rparr>"
  have h: "a \<noteq> nullptr" "a \<noteq> b" "s_infos s (s_this s) = Some i" "s_this s \<noteq> nullptr" "current_thread i = a" "g_processors s = [s_this s]"
    "\<not> g_processors_lock s" "\<not> g_global_lock s" "g_total_threads s = 2" "g_scheduler_running s" using c by (auto simp: contended_def unlinked_def)
  have "find_running s a (g_processors s) = ret (s_this s)" "GetPriority s a = ret (pr_Priority p)" "a \<notin> set (?L (Q (pr_Priority p)))"
    using h t by (simp_all add: GetPriority_def)
  from RemoveThread_running [OF m h(1) this(2,3,1) h(4,3,7,8)]
  have rm: "RemoveThread a s = bindP (PickNext (s_this s) s1) (\<lambda>s. ret (s\<lparr>g_processors_lock := False\<rparr>))" using h(9) by (simp add: s1_def)
  have "queues_rel s1 ?L" "s_infos s1 (s_this s) = Some ?i" "running s1 ?L (current_thread ?i) None" "\<not> g_global_lock s1" "g_total_threads s1 \<noteq> 0"
    using m h by (simp_all add: s1_def info_put_def queues_rel_def running_def)
  from PickNext_rel [OF this(1,2) h(4) this(3,4,5)]
  obtain s2 where s2: "PickNext (s_this s) s1 = ret s2" "queues_rel s2 (fst (abs_pick None ?L ?i))" "s_infos s2 = (s_infos s1)(s_this s \<mapsto> snd (abs_pick None ?L ?i))"
    "same_core (s_threads s1) (s_threads s2)" "same_rest s1 s2" "same_out (insert (current_thread ?i) (queued ?L)) (s_threads s1) (s_threads s2)"
    by auto
  note f = same_rest_fields [OF s2(5)]
  have "a \<notin> insert (current_thread ?i) (queued ?L)" using h(1,2) by (auto simp: queued_def split: if_splits)
  then have a: "s_threads s2 a = Some t" using s2(6) t(1) by (simp add: same_out_def s1_def info_put_def)
  have "chain (s_threads s) nullptr [b]" using queues_relD(1) [OF m, of "Q c"] by (simp add: tlist_def)
  then have "s_threads s1 b \<noteq> None" by (auto simp: s1_def info_put_def)
  then have b: "s_threads s2 b \<noteq> None" using same_coreD [OF s2(4), of b] by auto
  have q: "queues_rel (s2\<lparr>g_processors_lock := False\<rparr>) (\<lambda>_. [])" using s2(2) pick_only [OF refl] by (simp add: queues_rel_def)
  have "RemoveThread a s = ret (s2\<lparr>g_processors_lock := False\<rparr>)" using rm s2(1) by simp
  then show thesis by (rule that [OF _ q]) (use s2(3) a b f h pick_only [OF refl] in \<open>simp_all add: s1_def info_put_def\<close>)
qed

text \<open>\<open>a\<close> waits and the processor switches to \<open>b\<close>; the count of the threads is one.\<close>

lemma acquire_contended:
  assumes c: "contended s sem a b c i" and t: "s_threads s a = Some t" "s_procs s (th_Parent t) = Some p" "th_Parent t \<noteq> nullptr"
  obtains sem' s' t' j where "Semaphore_acquire a sem s = ret (b, sem', s')" "sem_rel s' sem' (\<lambda>_. []) [a]" "sem_holders sem' = sem_holders sem"
    "s_threads s' a = Some t'" "th_Parent t' = th_Parent t" "s_procs s' = s_procs s" "s_infos s' (s_this s') = Some j" "current_thread j = b"
    "s_this s' = s_this s" "g_total_threads s' = 1" "\<not> g_global_lock s'"
proof -
  let ?L = "(\<lambda>_. [])(Q c := [b])"
  have h: "sem_rel s sem ?L []" "unlinked (s_threads s) a" "a \<noteq> b" "sem_value sem = 0" "s_infos s (s_this s) = Some i" "s_this s \<noteq> nullptr"
    "current_thread i = a" "pi_running i" "g_scheduler_running s" "\<not> sem_lock sem" "a \<noteq> nullptr" using c by (auto simp: contended_def sem_rel_def unlinked_def)
  have "a \<notin> queued ?L" using h(3) by (auto simp: queued_def split: if_splits)
  from wait_on_rel [OF h(1,2) this]
  obtain w m where w: "wait_on a (sem\<lparr>sem_lock := True\<rparr>) s = ret (sem\<lparr>sem_lock := True, sem_waiting := w\<rparr>, s\<lparr>s_threads := m\<rparr>)"
    "tlist m w [a]" "\<not> tl_lock w" "queues_rel (s\<lparr>s_threads := m\<rparr>) ?L" "same_core (s_threads s) m" by metis
  let ?s = "s\<lparr>s_threads := m\<rparr>"
  obtain u where u: "m a = Some u" "th_next u = nullptr" "th_previous u = nullptr" using w(2) by (auto simp: tlist_def)
  have u2: "th_Parent u = th_Parent t" using same_coreD [OF w(5) t(1)] u(1) core_fields [of u t] by auto
  have c1: "contended ?s sem a b c i" using c u h(11) w(4) by (auto simp: contended_def sem_rel_def unlinked_def tlist_def)
  have u': "s_threads ?s a = Some u" "s_procs ?s (th_Parent u) = Some p" "th_Parent u \<noteq> nullptr" using u u2 t by simp_all
  obtain s1 where s1: "RemoveThread a ?s = ret s1" "queues_rel s1 (\<lambda>_. [])"
    "s_infos s1 (s_this ?s) = Some ((reset_runs (Some c) (i\<lparr>current_thread := nullptr\<rparr>))\<lparr>current_thread := b\<rparr>)"
    "s_threads s1 a = Some u" "s_threads s1 b \<noteq> None" "s_procs s1 = s_procs ?s" "s_this s1 = s_this ?s" "g_total_threads s1 = 1"
    "\<not> g_global_lock s1" "g_scheduler_running s1" "\<not> g_processors_lock s1" by (rule remove_contended [OF c1 w(4) u'])
  define j where "j = (reset_runs (Some c) (i\<lparr>current_thread := nullptr\<rparr>))\<lparr>current_thread := b\<rparr>"
  define s2 where "s2 = s1\<lparr>s_threads := (s_threads s1)(a \<mapsto> u\<lparr>th_blocked := True\<rparr>)\<rparr>"
  define s3 where "s3 = info_put (s_this s) (j\<lparr>pi_ticks := 0\<rparr>) s2"
  define sem' where "sem' = sem\<lparr>sem_lock := False, sem_waiting := w\<rparr>"
  have bn: "b \<noteq> nullptr" using h(1) queues_relD(1) [of s ?L "Q c"] by (simp add: sem_rel_def tlist_def)
  have cur: "GetCurrent ?s = ret a" using h by (simp add: GetCurrent_def)
  have blk: "thread_do a (\<lambda>t. t\<lparr>th_blocked := True\<rparr>) s1 = ret s2" using s1(4) h(11) by (simp add: thread_do_def thread_set_def s2_def)
  have pick: "PickNext nullptr s2 = ret s2" using s1 h(6) bn by (simp add: PickNext_def s2_def)
  have nx: "Next s2 = ret (b, s3)" using s1 h(3,6) bn by (auto simp: Next_def s2_def s3_def j_def)
  have sm: "sem\<lparr>sem_lock := True, sem_waiting := w, sem_lock := False\<rparr> = sem'" by (simp add: sem'_def)
  have r: "Semaphore_acquire a sem s = ret (b, sem', s3)"
    using h(4,10) w(1) cur s1(1) blk pick nx by (simp add: Semaphore_acquire_def Let_def sm)
  have f: "s_threads s3 a = Some (u\<lparr>th_blocked := True\<rparr>)" "s_procs s3 = s_procs s" "s_this s3 = s_this s" "g_total_threads s3 = 1" "\<not> g_global_lock s3"
    "s_infos s3 (s_this s3) = Some (j\<lparr>pi_ticks := 0\<rparr>)" using s1 by (simp_all add: s3_def s2_def info_put_def)
  have "queues_rel s3 (\<lambda>_. [])" using s1(2) by (simp add: queues_rel_def tlist_def s3_def s2_def info_put_def)
  moreover have "tlist (s_threads s3) w [a]" using w(2) f(1) u by (simp add: tlist_def)
  ultimately have rel: "sem_rel s3 sem' (\<lambda>_. []) [a]" using w(3) h(1) by (simp add: sem_rel_def sem'_def queued_def)
  show thesis by (rule that [OF r rel _ f(1) _ f(2,6) _ f(3,4,5)]) (use u2 in \<open>simp_all add: sem'_def j_def\<close>)
qed

section \<open>Properties\<close>

text \<open>C11. In every state that the operations of a semaphore reach from its creation with \<open>v\<close> units, the free units and the holders
  add up to \<open>v\<close> and the locks are free: no unit is lost or made up, however acquires, releases and scheduler steps interleave.\<close>

theorem semaphore_units:
  assumes "sem_reach v sem s"
  shows "unat (sem_value sem) + length (sem_holders sem) = unat v \<and> \<not> sem_lock sem \<and> \<not> sem_holders_lock sem \<and> \<not> tl_lock (sem_waiting sem)"
  using sem_reach_ok [OF assms] by (simp add: sem_ok_def)

definition test_pair :: sched where
  "test_pair = test_sched\<lparr>s_queues := (\<lambda>_. ThreadList_make)(Q NORMAL := single 0x20), g_total_threads := 2\<rparr>"

definition test_sem :: Semaphore where
  "test_sem = (Semaphore_make 0)\<lparr>sem_holders := [0x20]\<rparr>"

abbreviation test_proc :: Process where
  "test_proc \<equiv> \<lparr>pr_Priority = NORMAL, pr_pm = 0, pr_PID = 0\<rparr>"

definition test_held :: Semaphore where
  "test_held = (Semaphore_make 1)\<lparr>sem_value := 0, sem_holders := [0x10]\<rparr>"

lemma test_reach: "sem_reach 1 test_held test_pair"
  by (rule sem_nolock [OF sem_init, where thread = "0x10"]) (simp add: acquire_nolock_def add_holder_def Semaphore_make_def test_held_def)

theorem semaphore_units_witness:
  "unat (sem_value test_held) + length (sem_holders test_held) = unat (1 :: u32) \<and> \<not> sem_lock test_held \<and> \<not> sem_holders_lock test_held \<and>
    \<not> tl_lock (sem_waiting test_held)"
  by (rule semaphore_units [OF test_reach])

text \<open>C10. A release by a holder when threads wait returns, hands the unit to the thread that waits longest, which holds the
  semaphore, is not blocked and stands at the end of the ready queue of its priority; the number of free units does not change.\<close>

theorem release_hands_over:
  assumes "sem_rel s sem L (x # xs)" and "y \<in> set (sem_holders sem)" and "s_threads s x = Some t" and "s_procs s (th_Parent t) = Some p"
    and "th_Parent t \<noteq> nullptr" and "Suc (length (L (Q (pr_Priority p)))) < 2 ^ 64"
  shows "\<exists>sem' s' t'. Semaphore_release y sem s = ret (sem', s') \<and> sem_value sem' = sem_value sem \<and> sem_holders sem' = remove1 y (sem_holders sem) @ [x] \<and>
    sem_rel s' sem' (L(Q (pr_Priority p) := L (Q (pr_Priority p)) @ [x])) xs \<and> s_threads s' x = Some t' \<and> \<not> th_blocked t'"
  using Semaphore_release_rel [OF assms] by metis

definition test_waiting :: Semaphore where
  "test_waiting = test_sem\<lparr>sem_waiting := single 0x10\<rparr>"

lemma test_pair_rel: "queues_rel test_pair ((\<lambda>_. [])(Q NORMAL := [0x20]))"
  by (auto simp: queues_rel_def tlist_def test_pair_def test_sched_def single_def ThreadList_make_def test_thread_def)

lemma test_waiting_rel: "sem_rel test_pair test_waiting ((\<lambda>_. [])(Q NORMAL := [0x20])) [0x10]"
  using test_pair_rel
  by (auto simp: sem_rel_def test_waiting_def test_sem_def Semaphore_make_def tlist_def single_def test_pair_def test_sched_def test_thread_def queued_def
      split: if_splits)

lemma test_pair_threads: "s_threads test_pair 0x10 = Some (test_thread 0 0)" "s_procs test_pair (th_Parent (test_thread 0 0)) = Some test_proc"
    "th_Parent (test_thread 0 0) \<noteq> nullptr"
  by (simp_all add: test_pair_def test_sched_def test_thread_def)

theorem release_hands_over_witness:
  "\<exists>sem' s' t'. Semaphore_release 0x20 test_waiting test_pair = ret (sem', s') \<and> sem_value sem' = sem_value test_waiting \<and>
    sem_holders sem' = remove1 0x20 (sem_holders test_waiting) @ [0x10] \<and>
    sem_rel s' sem' (((\<lambda>_. [])(Q NORMAL := [0x20]))(Q (pr_Priority test_proc) := ((\<lambda>_. [])(Q NORMAL := [0x20])) (Q (pr_Priority test_proc)) @ [0x10])) [] \<and>
    s_threads s' 0x10 = Some t' \<and> \<not> th_blocked t'"
  by (rule release_hands_over [OF test_waiting_rel _ test_pair_threads]) (simp_all add: test_waiting_def test_sem_def)

text \<open>C12. With two threads, one that has waited for a semaphore is never picked again: it holds the semaphore and is ready, but
  the scheduler, which does not count it again, leaves the other thread on the processor at every pick.\<close>

theorem waiter_lost:
  assumes "contended s sem a b c i" and "s_threads s a = Some t" and "s_procs s (th_Parent t) = Some p" and "th_Parent t \<noteq> nullptr"
  shows "\<exists>sem1 s1 sem2 s2. Semaphore_acquire a sem s = ret (b, sem1, s1) \<and> Semaphore_release b sem1 s1 = ret (sem2, s2) \<and>
    sem_holders sem2 = remove1 b (sem_holders sem) @ [a] \<and> queues_rel s2 ((\<lambda>_. [])(Q (pr_Priority p) := [a])) \<and> PickNext (s_this s2) s2 = ret s2"
proof -
  obtain sem1 s1 t1 j where r: "Semaphore_acquire a sem s = ret (b, sem1, s1)" "sem_rel s1 sem1 (\<lambda>_. []) [a]" "sem_holders sem1 = sem_holders sem"
    "s_threads s1 a = Some t1" "th_Parent t1 = th_Parent t" "s_procs s1 = s_procs s" "s_infos s1 (s_this s1) = Some j" "current_thread j = b"
    "s_this s1 = s_this s" "g_total_threads s1 = 1" "\<not> g_global_lock s1" by (rule acquire_contended [OF assms])
  have b: "b \<in> set (sem_holders sem1)" "b \<noteq> nullptr" "s_this s \<noteq> nullptr"
    using assms(1) r(3) queues_relD(1) [of s "(\<lambda>_. [])(Q c := [b])" "Q c"] by (simp_all add: contended_def sem_rel_def tlist_def)
  have p: "s_procs s1 (th_Parent t1) = Some p" "th_Parent t1 \<noteq> nullptr" "Suc (length ((\<lambda>_. []) (Q (pr_Priority p)) :: ptr list)) < 2 ^ 64"
    using assms(3,4) r(5,6) by simp_all
  obtain sem2 s2 where q: "Semaphore_release b sem1 s1 = ret (sem2, s2)" "sem_holders sem2 = remove1 b (sem_holders sem1) @ [a]"
    "sem_rel s2 sem2 ((\<lambda>_. [])(Q (pr_Priority p) := (\<lambda>_. []) (Q (pr_Priority p)) @ [a])) []" "same_rest s1 s2" "s_infos s2 = s_infos s1"
    using Semaphore_release_rel [OF r(2) b(1) r(4) p] by metis
  have "PickNext (s_this s2) s2 = ret s2"
    using same_rest_fields [OF q(4)] q(5) r(7-11) b(2,3) by (simp add: PickNext_def)
  then show ?thesis using r(1,3) q(1-3) by (auto simp: sem_rel_def)
qed

lemma test_contended: "contended test_pair test_sem 0x10 0x20 NORMAL test_info"
  using test_pair_rel
  by (simp add: contended_def sem_rel_def test_sem_def Semaphore_make_def ThreadList_make_def tlist_def unlinked_def test_pair_def test_sched_def
      test_thread_def test_info_def)

theorem waiter_lost_witness:
  "\<exists>sem1 s1 sem2 s2. Semaphore_acquire 0x10 test_sem test_pair = ret (0x20, sem1, s1) \<and> Semaphore_release 0x20 sem1 s1 = ret (sem2, s2) \<and>
    sem_holders sem2 = remove1 0x20 (sem_holders test_sem) @ [0x10] \<and> queues_rel s2 ((\<lambda>_. [])(Q (pr_Priority test_proc) := [0x10])) \<and>
    PickNext (s_this s2) s2 = ret s2"
  by (rule waiter_lost [OF test_contended test_pair_threads])

end
