(* ===== verification/Printf.thy ===== *)
theory Printf
  imports CString
begin

text \<open>
  Formatted output: \<open>vfprintf\<close> and \<open>vsnprintf\<close> of src/kernel/lib/src/stdio.cpp and of src/Userland/Libraries/LibC/src/stdio.cpp. The four are
  the same code but for the function that puts one character, which is \<open>internal_fputc\<close> or \<open>fputc\<close> for a file and \<open>snputc\<close> for a buffer; here it
  is an argument, and what it changes is the state \<open>'o\<close> of the output. Format and string arguments are given by their contents, since C leaves
  a buffer that overlaps them undefined; the arguments are a list of what \<open>va_arg\<close> takes off, and taking one of another kind is undefined. What \<open>%n\<close>
  stores is recorded. A width or precision that leaves the type \<open>int\<close> is a fault; the numbers of characters printed are not bounded.
\<close>

section \<open>Numbers\<close>

definition g_HexCharsLOWER :: string where
  "g_HexCharsLOWER = ''0123456789abcdef'' @ [CHR 0x00]"

definition g_HexCharsUPPER :: string where
  "g_HexCharsUPPER = ''0123456789ABCDEF'' @ [CHR 0x00]"

definition hex_char :: "bool \<Rightarrow> u64 \<Rightarrow> char prog" where
  "hex_char uppercase r =
     (if unat r < 17 then ret ((if uppercase then g_HexCharsUPPER else g_HexCharsLOWER) ! unat r) else stop (Undefined ''read past the digits''))"

text \<open>The digits from the last one on; the first argument is the room that is left in the buffer of 64 characters.\<close>

primrec digit_loop :: "nat \<Rightarrow> u64 \<Rightarrow> u64 \<Rightarrow> bool \<Rightarrow> string \<Rightarrow> string prog" where
  "digit_loop 0 num radix uppercase buffer = stop (Undefined ''write past the buffer'')"
| "digit_loop (Suc k) num radix uppercase buffer =
     (if radix = 0 then stop (Undefined ''division by zero'')
      else
        bindP (hex_char uppercase (num mod radix)) (\<lambda>c.
        if num div radix > 0 then digit_loop k (num div radix) radix uppercase (buffer @ [c]) else ret (buffer @ [c])))"

text \<open>Output with the number of characters printed.\<close>

primrec put_string :: "(char \<Rightarrow> 'o \<Rightarrow> 'o) \<Rightarrow> string \<Rightarrow> 'o \<times> int \<Rightarrow> 'o \<times> int" where
  "put_string put [] s = s"
| "put_string put (c # cs) s = put_string put cs (put c (fst s), snd s + 1)"

primrec pad_loop :: "(char \<Rightarrow> 'o \<Rightarrow> 'o) \<Rightarrow> nat \<Rightarrow> bool \<Rightarrow> int \<Rightarrow> 'o \<times> int \<Rightarrow> 'o \<times> int" where
  "pad_loop put 0 padding_type min_digits s = s"
| "pad_loop put (Suc n) padding_type min_digits s =
     (if padding_type \<or> min_digits > 0 then pad_loop put n padding_type (min_digits - 1) (put_string put ''0'' s)
      else pad_loop put n padding_type min_digits (put_string put '' '' s))"

text \<open>The part of \<open>fprintf_uint\<close> for zero; \<open>padding_orientation\<close> is true for padding on the right.\<close>

definition print_zero :: "(char \<Rightarrow> 'o \<Rightarrow> 'o) \<Rightarrow> int \<Rightarrow> int \<Rightarrow> bool \<Rightarrow> bool \<Rightarrow> 'o \<Rightarrow> 'o \<times> int" where
  "print_zero put min_length min_digits padding_type padding_orientation out =
     (if min_length > 1 then
        if padding_orientation then
          let s = put_string put (replicate (nat min_digits) CHR ''0'') (out, 0);
              min_length = min_length - int (nat min_digits);
              (s, min_length) = (if min_digits \<noteq> 0 then (put_string put ''0'' s, min_length - 1) else (s, min_length))
          in put_string put (replicate (nat min_length) (if padding_type then CHR ''0'' else CHR '' '')) s
        else
          let (zero, min_digits, min_length) = (if min_digits \<noteq> 0 then (True, min_digits - 1, min_length - 1) else (False, min_digits, min_length));
              s = pad_loop put (nat min_length) padding_type min_digits (out, 0)
          in if zero then put_string put ''0'' s else s
      else if min_digits \<noteq> 0 then put_string put ''0'' (out, 0) else (out, 0))"

definition print_uint :: "(char \<Rightarrow> 'o \<Rightarrow> 'o) \<Rightarrow> int \<Rightarrow> int \<Rightarrow> u64 \<Rightarrow> u64 \<Rightarrow> bool \<Rightarrow> bool \<Rightarrow> bool \<Rightarrow> 'o \<Rightarrow> ('o \<times> int) prog" where
  "print_uint put min_length min_digits num radix padding_type padding_orientation uppercase out =
     (if num = 0 then ret (print_zero put min_length min_digits padding_type padding_orientation out)
      else
        bindP (digit_loop 64 num radix uppercase []) (\<lambda>buffer.
        let pos = int (length buffer) in
        ret (if min_length > pos then
               if padding_orientation then
                 let min_length = min_length - pos; min_digits = min_digits - pos;
                     s = put_string put (replicate (nat min_digits) CHR ''0'') (out, 0);
                     min_length = min_length - int (nat min_digits);
                     s = put_string put (rev buffer) s
                 in put_string put (replicate (nat min_length) (if padding_type then CHR ''0'' else CHR '' '')) s
               else put_string put (rev buffer) (pad_loop put (nat (min_length - pos)) padding_type (min_digits - pos) (out, 0))
             else put_string put (rev buffer) (out, 0))))"

definition print_int ::
  "(char \<Rightarrow> 'o \<Rightarrow> 'o) \<Rightarrow> u64 \<Rightarrow> bool \<Rightarrow> bool \<Rightarrow> int \<Rightarrow> int \<Rightarrow> u64 \<Rightarrow> bool \<Rightarrow> bool \<Rightarrow> bool \<Rightarrow> 'o \<Rightarrow> ('o \<times> int) prog" where
  "print_int put num force_sign pad_sign min_length min_digits radix padding_type padding_orientation uppercase out =
     (let (out, chars_printed, min_length, num) =
        (if sint num < 0 then (put CHR ''-'' out, 1, min_length - 1, num * (- 1))
         else if force_sign then (put CHR ''+'' out, 1, min_length - 1, num)
         else if pad_sign then (put CHR '' '' out, 1, min_length - 1, num)
         else (out, 0, min_length, num))
      in bindP (print_uint put min_length min_digits num radix padding_type padding_orientation uppercase out) (\<lambda>(out, n). ret (out, n + chars_printed)))"

section \<open>The format\<close>

datatype PRINTF_MODES = M_NORMAL | M_FLAGS | M_WIDTH | M_PREC | M_LEN | M_SPEC

datatype PRINTF_LENGTH = L_CHAR | L_SHORT | L_NORMAL | L_LONG | L_LONG_LONG | L_INTMAX | L_SIZET | L_PTRDIFFT | L_LDOUB

datatype va = VInt u64 | VStr string | VPtr ptr

record 'o fmt =
  f_out :: 'o
  f_args :: "va list"
  f_stores :: "(ptr \<times> PRINTF_LENGTH \<times> int) list"
  f_mode :: PRINTF_MODES
  f_radix :: u64
  f_len :: PRINTF_LENGTH
  f_sign :: bool
  f_left_justify :: bool
  f_force_sign :: bool
  f_add_blank :: bool
  f_flags_extra :: bool
  f_zero_pad :: bool
  f_gotoNextChar :: bool
  f_number :: bool
  f_upper :: bool
  f_floating :: bool
  f_symbols :: int
  f_width :: int
  f_precision :: int

definition fmt_init :: "'o \<Rightarrow> va list \<Rightarrow> 'o fmt" where
  "fmt_init out args = \<lparr>f_out = out, f_args = args, f_stores = [], f_mode = M_NORMAL, f_radix = 10, f_len = L_NORMAL, f_sign = False,
     f_left_justify = False, f_force_sign = False, f_add_blank = False, f_flags_extra = False, f_zero_pad = False, f_gotoNextChar = False, f_number = False,
     f_upper = False, f_floating = False, f_symbols = 0, f_width = 0, f_precision = - 1\<rparr>"

definition va_int :: "'o fmt \<Rightarrow> (u64 \<times> 'o fmt) prog" where
  "va_int st = (case f_args st of VInt w # as \<Rightarrow> ret (w, st\<lparr>f_args := as\<rparr>) | _ \<Rightarrow> stop (Undefined ''va_arg''))"

definition va_str :: "'o fmt \<Rightarrow> (string \<times> 'o fmt) prog" where
  "va_str st = (case f_args st of VStr w # as \<Rightarrow> ret (w, st\<lparr>f_args := as\<rparr>) | _ \<Rightarrow> stop (Undefined ''va_arg''))"

definition va_ptr :: "'o fmt \<Rightarrow> (ptr \<times> 'o fmt) prog" where
  "va_ptr st = (case f_args st of VPtr w # as \<Rightarrow> ret (w, st\<lparr>f_args := as\<rparr>) | _ \<Rightarrow> stop (Undefined ''va_arg''))"

definition as_int :: "u64 \<Rightarrow> int" where
  "as_int w = sint (ucast w :: u32)"

definition emit :: "(char \<Rightarrow> 'o \<Rightarrow> 'o) \<Rightarrow> char \<Rightarrow> 'o fmt \<Rightarrow> 'o fmt" where
  "emit put c st = st\<lparr>f_out := put c (f_out st), f_symbols := f_symbols st + 1\<rparr>"

definition is_digit :: "char \<Rightarrow> bool" where
  "is_digit c \<longleftrightarrow> 48 \<le> (of_char c :: nat) \<and> (of_char c :: nat) \<le> 57"

definition digit_of :: "char \<Rightarrow> int" where
  "digit_of c = of_char c - 48"

text \<open>One round of the loop in each mode.\<close>

definition step_normal :: "(char \<Rightarrow> 'o \<Rightarrow> 'o) \<Rightarrow> char \<Rightarrow> 'o fmt \<Rightarrow> 'o fmt" where
  "step_normal put c st =
     (if c = CHR ''%'' then st\<lparr>f_mode := M_FLAGS, f_gotoNextChar := True\<rparr> else (emit put c st)\<lparr>f_gotoNextChar := True\<rparr>)"

definition step_flags :: "char \<Rightarrow> 'o fmt \<Rightarrow> 'o fmt" where
  "step_flags c st =
     (if c = CHR ''-'' then st\<lparr>f_left_justify := True, f_gotoNextChar := True\<rparr>
      else if c = CHR ''+'' then st\<lparr>f_force_sign := True, f_gotoNextChar := True\<rparr>
      else if c = CHR '' '' then st\<lparr>f_add_blank := True, f_gotoNextChar := True\<rparr>
      else if c = CHR ''#'' then st\<lparr>f_flags_extra := True, f_gotoNextChar := True\<rparr>
      else if c = CHR ''0'' then st\<lparr>f_zero_pad := True, f_gotoNextChar := True\<rparr>
      else st\<lparr>f_gotoNextChar := False, f_mode := M_WIDTH\<rparr>)"

definition step_width :: "char \<Rightarrow> 'o fmt \<Rightarrow> 'o fmt prog" where
  "step_width c st =
     (if c = CHR ''*'' then bindP (va_int st) (\<lambda>(w, st). ret (st\<lparr>f_width := as_int w, f_mode := M_LEN, f_gotoNextChar := True\<rparr>))
      else if is_digit c then
        bindP (checked 32 (f_width st * 10)) (\<lambda>w. bindP (checked 32 (w + digit_of c)) (\<lambda>w. ret (st\<lparr>f_width := w, f_gotoNextChar := True\<rparr>)))
      else ret (st\<lparr>f_mode := M_LEN, f_gotoNextChar := False\<rparr>))"

definition step_prec :: "char \<Rightarrow> 'o fmt \<Rightarrow> 'o fmt prog" where
  "step_prec c st =
     (if c = CHR ''*'' then bindP (va_int st) (\<lambda>(w, st). ret (st\<lparr>f_precision := as_int w, f_mode := M_LEN, f_gotoNextChar := True\<rparr>))
      else if is_digit c then
        bindP (checked 32 (f_precision st * 10)) (\<lambda>w. bindP (checked 32 (w + digit_of c)) (\<lambda>w. ret (st\<lparr>f_precision := w, f_gotoNextChar := True\<rparr>)))
      else ret (st\<lparr>f_mode := M_LEN, f_gotoNextChar := False\<rparr>))"

definition step_len :: "char \<Rightarrow> 'o fmt \<Rightarrow> 'o fmt prog" where
  "step_len c st =
     (if c = CHR ''.'' then
        if f_precision st = - 1 then ret (st\<lparr>f_mode := M_PREC, f_gotoNextChar := True, f_precision := 0\<rparr>) else stop (AssertFailed ''false'')
      else if c = CHR ''h'' then ret (st\<lparr>f_len := (if f_len st = L_SHORT then L_CHAR else L_SHORT), f_gotoNextChar := True\<rparr>)
      else if c = CHR ''l'' then ret (st\<lparr>f_len := (if f_len st = L_LONG then L_LONG_LONG else L_LONG), f_gotoNextChar := True\<rparr>)
      else if c = CHR ''j'' then ret (st\<lparr>f_len := L_INTMAX, f_gotoNextChar := True\<rparr>)
      else if c = CHR ''z'' then ret (st\<lparr>f_len := L_SIZET, f_gotoNextChar := True\<rparr>)
      else if c = CHR ''t'' then ret (st\<lparr>f_len := L_PTRDIFFT, f_gotoNextChar := True\<rparr>)
      else if c = CHR ''L'' then ret (st\<lparr>f_len := L_LDOUB, f_gotoNextChar := True\<rparr>)
      else ret (st\<lparr>f_mode := M_SPEC, f_gotoNextChar := False\<rparr>))"

text \<open>The specifiers of a number; None for the others.\<close>

definition spec_number :: "char \<Rightarrow> 'o fmt \<Rightarrow> 'o fmt option" where
  "spec_number c st =
     (let num = (\<lambda>radix sign upper floating st. st\<lparr>f_radix := radix, f_number := True, f_sign := sign, f_upper := upper, f_floating := floating\<rparr>) in
      if c = CHR ''d'' \<or> c = CHR ''i'' then Some (num 10 True (f_upper st) False st)
      else if c = CHR ''u'' then Some (num 10 False (f_upper st) False st)
      else if c = CHR ''o'' then Some (num 8 False (f_upper st) False st)
      else if c = CHR ''p'' then Some (num 16 False False False (st\<lparr>f_len := (if f_len st = L_NORMAL then L_LONG else f_len st)\<rparr>))
      else if c = CHR ''x'' then Some (num 16 False False False st)
      else if c = CHR ''X'' then Some (num 16 False True False st)
      else if c \<in> {CHR ''f'', CHR ''e'', CHR ''g''} then Some (num 10 True False True st)
      else if c \<in> {CHR ''F'', CHR ''E'', CHR ''G''} then Some (num 10 True True True st)
      else if c = CHR ''a'' then Some (num 16 True False True st)
      else if c = CHR ''A'' then Some (num 16 True True True st)
      else None)"

primrec put_str :: "(char \<Rightarrow> 'o \<Rightarrow> 'o) \<Rightarrow> string \<Rightarrow> nat \<Rightarrow> 'o fmt \<Rightarrow> 'o fmt" where
  "put_str put [] j st = st"
| "put_str put (c # cs) j st =
     (if c = CHR 0x00 then st
      else if f_precision st > 0 \<and> int j \<ge> f_precision st then st
      else put_str put cs (j + 1) ((emit put c st)\<lparr>f_width := f_width st - 1\<rparr>))"

definition spec_other :: "(char \<Rightarrow> 'o \<Rightarrow> 'o) \<Rightarrow> char \<Rightarrow> 'o fmt \<Rightarrow> 'o fmt prog" where
  "spec_other put c st =
     (if c = CHR ''c'' then bindP (va_int st) (\<lambda>(w, st). ret (emit put (char_of (unat w)) st))
      else if c = CHR ''s'' then
        bindP (va_str st) (\<lambda>(str, st).
        let st = put_str put str 0 st in
        ret ((emit put CHR '' '' ^^ nat (f_width st)) st))
      else if c = CHR ''n'' then bindP (va_ptr st) (\<lambda>(p, st). ret (st\<lparr>f_stores := f_stores st @ [(p, f_len st, f_symbols st)]\<rparr>))
      else if c = CHR ''%'' then ret (emit put CHR ''%'' st)
      else ret st)"

definition spec_extra :: "(char \<Rightarrow> 'o \<Rightarrow> 'o) \<Rightarrow> 'o fmt \<Rightarrow> 'o fmt" where
  "spec_extra put st =
     (if \<not> f_flags_extra st then st
      else if f_radix st = 16 then
        (emit put (if f_upper st then CHR ''X'' else CHR ''x'') (emit put CHR ''0'' st))\<lparr>f_width := max 0 (f_width st - 2)\<rparr>
      else if f_radix st = 8 then (emit put CHR ''0'' st)\<lparr>f_width := max 0 (f_width st - 1)\<rparr>
      else st)"

text \<open>The argument as a number of 64 bits: extended by its sign or by zeros when it is an \<open>int\<close>.\<close>

definition va_number :: "bool \<Rightarrow> PRINTF_LENGTH \<Rightarrow> u64 \<Rightarrow> u64" where
  "va_number sign len w =
     (if len \<in> {L_LONG, L_LONG_LONG, L_INTMAX, L_SIZET, L_PTRDIFFT} then w
      else if sign then word_of_int (as_int w) else ucast (ucast w :: u32))"

definition spec_print :: "(char \<Rightarrow> 'o \<Rightarrow> 'o) \<Rightarrow> 'o fmt \<Rightarrow> 'o fmt prog" where
  "spec_print put st =
     (if \<not> f_number st then ret st
      else if f_floating st then stop (AssertFailed ''false'')
      else
        bindP (va_int st) (\<lambda>(w, st).
        let num = va_number (f_sign st) (f_len st) w; length = max (f_width st) (f_precision st) in
        bindP (if f_sign st then
                 print_int put num (f_force_sign st) (f_add_blank st) length (f_precision st) (f_radix st) (f_zero_pad st) (f_left_justify st) (f_upper st) (f_out st)
               else print_uint put length (f_precision st) num (f_radix st) (f_zero_pad st) (f_left_justify st) (f_upper st) (f_out st)) (\<lambda>(out, n).
        ret (st\<lparr>f_out := out, f_symbols := f_symbols st + n\<rparr>))))"

definition fmt_reset :: "'o fmt \<Rightarrow> 'o fmt" where
  "fmt_reset st = st\<lparr>f_mode := M_NORMAL, f_radix := 10, f_len := L_NORMAL, f_sign := False, f_left_justify := False, f_force_sign := False,
     f_add_blank := False, f_flags_extra := False, f_zero_pad := False, f_number := False, f_upper := False, f_floating := False, f_width := 0,
     f_precision := - 1, f_gotoNextChar := True\<rparr>"

definition step_spec :: "(char \<Rightarrow> 'o \<Rightarrow> 'o) \<Rightarrow> char \<Rightarrow> 'o fmt \<Rightarrow> 'o fmt prog" where
  "step_spec put c st =
     bindP (case spec_number c st of Some st \<Rightarrow> ret st | None \<Rightarrow> spec_other put c st) (\<lambda>st.
     bindP (spec_print put (spec_extra put st)) (\<lambda>st. ret (fmt_reset st)))"

definition fmt_step :: "(char \<Rightarrow> 'o \<Rightarrow> 'o) \<Rightarrow> char \<Rightarrow> 'o fmt \<Rightarrow> 'o fmt prog" where
  "fmt_step put c st = (case f_mode st of
     M_NORMAL \<Rightarrow> ret (step_normal put c st)
   | M_FLAGS \<Rightarrow> ret (step_flags c st)
   | M_WIDTH \<Rightarrow> step_width c st
   | M_PREC \<Rightarrow> step_prec c st
   | M_LEN \<Rightarrow> step_len c st
   | M_SPEC \<Rightarrow> step_spec put c st)"

text \<open>A round that does not take the character moves to a later mode.\<close>

definition mode_rank :: "PRINTF_MODES \<Rightarrow> nat" where
  "mode_rank m = (case m of M_NORMAL \<Rightarrow> 0 | M_FLAGS \<Rightarrow> 3 | M_WIDTH \<Rightarrow> 2 | M_PREC \<Rightarrow> 2 | M_LEN \<Rightarrow> 1 | M_SPEC \<Rightarrow> 0)"

lemma fmt_step_rank:
  assumes "fmt_step put c st = ret st'" "\<not> f_gotoNextChar st'"
  shows "mode_rank (f_mode st') < mode_rank (f_mode st)"
  using assms
  by (cases "f_mode st")
    (auto simp: fmt_step_def step_normal_def step_flags_def step_width_def step_prec_def step_len_def step_spec_def fmt_reset_def mode_rank_def bindP_eq_ret
      split: if_splits)

function fmt_loop :: "(char \<Rightarrow> 'o \<Rightarrow> 'o) \<Rightarrow> string \<Rightarrow> 'o fmt \<Rightarrow> 'o fmt prog" where
  "fmt_loop put [] st = ret st"
| "fmt_loop put (c # cs) st =
     (if c = CHR 0x00 then ret st
      else bindP (fmt_step put c st) (\<lambda>st. if f_gotoNextChar st then fmt_loop put cs st else fmt_loop put (c # cs) st))"
  by pat_completeness auto
termination
  by (relation "measures [\<lambda>(_, cs, _). length cs, \<lambda>(_, _, st). mode_rank (f_mode st)]") (auto intro: fmt_step_rank)

declare fmt_loop.simps(2) [simp del]

section \<open>The functions of the library\<close>

definition vfprintf :: "(char \<Rightarrow> 'o \<Rightarrow> 'o) \<Rightarrow> string \<Rightarrow> va list \<Rightarrow> 'o \<Rightarrow> ('o \<times> (ptr \<times> PRINTF_LENGTH \<times> int) list \<times> int) prog" where
  "vfprintf fputc format args out =
     bindP (fmt_loop fputc format (fmt_init out args)) (\<lambda>st. ret (f_out st, f_stores st, f_symbols st))"

definition snputc :: "ptr \<Rightarrow> u64 \<Rightarrow> char \<Rightarrow> memory \<times> u64 \<Rightarrow> memory \<times> u64" where
  "snputc s max_size c o' =
     (let (mem, current_size) = o' in
      if current_size < max_size then (mem(s + current_size := of_char c), current_size + 1) else (mem, current_size))"

definition vsnprintf :: "ptr \<Rightarrow> u64 \<Rightarrow> string \<Rightarrow> va list \<Rightarrow> memory \<Rightarrow> (memory \<times> (ptr \<times> PRINTF_LENGTH \<times> int) list \<times> int) prog" where
  "vsnprintf s n format args mem =
     (let n = n - 1 in
      bindP (fmt_loop (snputc s n) format (fmt_init (mem, 0) args)) (\<lambda>st.
      ret (fst (snputc s (- 1) CHR 0x00 (f_out st)), f_stores st, f_symbols st)))"

definition vsprintf :: "ptr \<Rightarrow> string \<Rightarrow> va list \<Rightarrow> memory \<Rightarrow> (memory \<times> (ptr \<times> PRINTF_LENGTH \<times> int) list \<times> int) prog" where
  "vsprintf s = vsnprintf s (- 1)"

definition snprintf_uint :: "ptr \<Rightarrow> u64 \<Rightarrow> int \<Rightarrow> int \<Rightarrow> u64 \<Rightarrow> u64 \<Rightarrow> bool \<Rightarrow> bool \<Rightarrow> bool \<Rightarrow> memory \<times> u64 \<Rightarrow> ((memory \<times> u64) \<times> int) prog" where
  "snprintf_uint s max_size = print_uint (snputc s max_size)"

definition snprintf_int ::
  "ptr \<Rightarrow> u64 \<Rightarrow> u64 \<Rightarrow> bool \<Rightarrow> bool \<Rightarrow> int \<Rightarrow> int \<Rightarrow> u64 \<Rightarrow> bool \<Rightarrow> bool \<Rightarrow> bool \<Rightarrow> memory \<times> u64 \<Rightarrow> ((memory \<times> u64) \<times> int) prog" where
  "snprintf_int s max_size = print_int (snputc s max_size)"

section \<open>The library of the programs\<close>

text \<open>The same functions, with \<open>fputc\<close> of the library as the sink of a file.\<close>

definition user_fprintf_uint :: "(char \<Rightarrow> 'o \<Rightarrow> 'o) \<Rightarrow> int \<Rightarrow> int \<Rightarrow> u64 \<Rightarrow> u64 \<Rightarrow> bool \<Rightarrow> bool \<Rightarrow> bool \<Rightarrow> 'o \<Rightarrow> ('o \<times> int) prog" where
  "user_fprintf_uint fputc = print_uint fputc"

definition user_vfprintf :: "(char \<Rightarrow> 'o \<Rightarrow> 'o) \<Rightarrow> string \<Rightarrow> va list \<Rightarrow> 'o \<Rightarrow> ('o \<times> (ptr \<times> PRINTF_LENGTH \<times> int) list \<times> int) prog" where
  "user_vfprintf fputc format args out =
     bindP (fmt_loop fputc format (fmt_init out args)) (\<lambda>st. ret (f_out st, f_stores st, f_symbols st))"

definition user_vsnprintf :: "ptr \<Rightarrow> u64 \<Rightarrow> string \<Rightarrow> va list \<Rightarrow> memory \<Rightarrow> (memory \<times> (ptr \<times> PRINTF_LENGTH \<times> int) list \<times> int) prog" where
  "user_vsnprintf s n format args mem =
     (let n = n - 1 in
      bindP (fmt_loop (snputc s n) format (fmt_init (mem, 0) args)) (\<lambda>st.
      ret (fst (snputc s (- 1) CHR 0x00 (f_out st)), f_stores st, f_symbols st)))"

end
