(* ===== verification/PrintfCorrect.thy ===== *)
theory PrintfCorrect
  imports Printf CStringCorrect
begin

text \<open>
  The characters formatted output produces do not depend on where they go: printing to a file and printing to a buffer run the same steps, and a
  buffer receives the first characters of what a file receives, never more than it has room for. A number that is printed is read back by the
  conversions of the library. The precision of a number is not kept apart from its width.
\<close>

section \<open>Independence of the output\<close>

definition fmt_map :: "('o \<Rightarrow> 'p) \<Rightarrow> 'o fmt \<Rightarrow> 'p fmt" where
  "fmt_map h st = \<lparr>f_out = h (f_out st), f_args = f_args st, f_stores = f_stores st, f_mode = f_mode st, f_radix = f_radix st, f_len = f_len st,
     f_sign = f_sign st, f_left_justify = f_left_justify st, f_force_sign = f_force_sign st, f_add_blank = f_add_blank st,
     f_flags_extra = f_flags_extra st, f_zero_pad = f_zero_pad st, f_gotoNextChar = f_gotoNextChar st, f_number = f_number st, f_upper = f_upper st,
     f_floating = f_floating st, f_symbols = f_symbols st, f_width = f_width st, f_precision = f_precision st\<rparr>"

lemma fmt_map_fields [simp]:
  "f_out (fmt_map h st) = h (f_out st)" "f_args (fmt_map h st) = f_args st" "f_stores (fmt_map h st) = f_stores st" "f_mode (fmt_map h st) = f_mode st"
  "f_radix (fmt_map h st) = f_radix st" "f_len (fmt_map h st) = f_len st" "f_sign (fmt_map h st) = f_sign st"
  "f_left_justify (fmt_map h st) = f_left_justify st" "f_force_sign (fmt_map h st) = f_force_sign st" "f_add_blank (fmt_map h st) = f_add_blank st"
  "f_flags_extra (fmt_map h st) = f_flags_extra st" "f_zero_pad (fmt_map h st) = f_zero_pad st" "f_gotoNextChar (fmt_map h st) = f_gotoNextChar st"
  "f_number (fmt_map h st) = f_number st" "f_upper (fmt_map h st) = f_upper st" "f_floating (fmt_map h st) = f_floating st"
  "f_symbols (fmt_map h st) = f_symbols st" "f_width (fmt_map h st) = f_width st" "f_precision (fmt_map h st) = f_precision st"
  by (simp_all add: fmt_map_def)

lemma fmt_map_upd [simp]:
  "fmt_map h (st\<lparr>f_out := out\<rparr>) = (fmt_map h st)\<lparr>f_out := h out\<rparr>" "fmt_map h (st\<lparr>f_args := a\<rparr>) = (fmt_map h st)\<lparr>f_args := a\<rparr>"
  "fmt_map h (st\<lparr>f_stores := b\<rparr>) = (fmt_map h st)\<lparr>f_stores := b\<rparr>" "fmt_map h (st\<lparr>f_mode := m\<rparr>) = (fmt_map h st)\<lparr>f_mode := m\<rparr>"
  "fmt_map h (st\<lparr>f_radix := r\<rparr>) = (fmt_map h st)\<lparr>f_radix := r\<rparr>" "fmt_map h (st\<lparr>f_len := l\<rparr>) = (fmt_map h st)\<lparr>f_len := l\<rparr>"
  "fmt_map h (st\<lparr>f_sign := x\<rparr>) = (fmt_map h st)\<lparr>f_sign := x\<rparr>" "fmt_map h (st\<lparr>f_left_justify := x\<rparr>) = (fmt_map h st)\<lparr>f_left_justify := x\<rparr>"
  "fmt_map h (st\<lparr>f_force_sign := x\<rparr>) = (fmt_map h st)\<lparr>f_force_sign := x\<rparr>" "fmt_map h (st\<lparr>f_add_blank := x\<rparr>) = (fmt_map h st)\<lparr>f_add_blank := x\<rparr>"
  "fmt_map h (st\<lparr>f_flags_extra := x\<rparr>) = (fmt_map h st)\<lparr>f_flags_extra := x\<rparr>" "fmt_map h (st\<lparr>f_zero_pad := x\<rparr>) = (fmt_map h st)\<lparr>f_zero_pad := x\<rparr>"
  "fmt_map h (st\<lparr>f_gotoNextChar := x\<rparr>) = (fmt_map h st)\<lparr>f_gotoNextChar := x\<rparr>" "fmt_map h (st\<lparr>f_number := x\<rparr>) = (fmt_map h st)\<lparr>f_number := x\<rparr>"
  "fmt_map h (st\<lparr>f_upper := x\<rparr>) = (fmt_map h st)\<lparr>f_upper := x\<rparr>" "fmt_map h (st\<lparr>f_floating := x\<rparr>) = (fmt_map h st)\<lparr>f_floating := x\<rparr>"
  "fmt_map h (st\<lparr>f_symbols := k\<rparr>) = (fmt_map h st)\<lparr>f_symbols := k\<rparr>" "fmt_map h (st\<lparr>f_width := k\<rparr>) = (fmt_map h st)\<lparr>f_width := k\<rparr>"
  "fmt_map h (st\<lparr>f_precision := k\<rparr>) = (fmt_map h st)\<lparr>f_precision := k\<rparr>"
  by (simp_all add: fmt_map_def)

text \<open>A sink \<open>put'\<close> that follows another one through \<open>h\<close>.\<close>

locale follows =
  fixes put :: "char \<Rightarrow> 'o \<Rightarrow> 'o" and put' :: "char \<Rightarrow> 'p \<Rightarrow> 'p" and h :: "'o \<Rightarrow> 'p"
  assumes follow: "h (put c out) = put' c (h out)"
begin

lemma put_string_map [simp]: "put_string put' cs (map_prod h id s) = map_prod h id (put_string put cs s)"
proof (induction cs arbitrary: s)
  case (Cons c cs)
  show ?case using Cons.IH [of "(put c (fst s), snd s + 1)"] by (simp add: follow)
qed simp

lemma pad_loop_map [simp]: "pad_loop put' n pt md (map_prod h id s) = map_prod h id (pad_loop put n pt md s)"
  by (induction n arbitrary: pt md s) (simp_all del: put_string.simps)

lemma start_map: "(h out, k) = map_prod h id (out, k)"
  by simp

lemma print_zero_map: "print_zero put' ml md pt po (h out) = map_prod h id (print_zero put ml md pt po out)"
  unfolding print_zero_def Let_def start_map by (auto simp del: map_prod_simp put_string.simps)

lemma print_uint_map: "print_uint put' ml md num radix pt po up (h out) = bindP (print_uint put ml md num radix pt po up out) (\<lambda>r. ret (map_prod h id r))"
  unfolding print_uint_def Let_def print_zero_map start_map
  by (simp add: bindP_assoc if_distrib [of "map_prod h id"] del: map_prod_simp put_string.simps cong: if_cong)

lemma print_int_map:
  "print_int put' num fs ps ml md radix pt po up (h out) = bindP (print_int put num fs ps ml md radix pt po up out) (\<lambda>r. ret (map_prod h id r))"
  unfolding print_int_def Let_def by (simp add: follow [symmetric] print_uint_map bindP_assoc case_prod_beta map_prod_def)

lemma emit_map: "emit put' c (fmt_map h st) = fmt_map h (emit put c st)"
  by (simp add: emit_def follow)

lemma put_str_map: "put_str put' cs j (fmt_map h st) = fmt_map h (put_str put cs j st)"
proof (induction cs arbitrary: j st)
  case (Cons c cs)
  show ?case using Cons.IH [of "j + 1" "(emit put c st)\<lparr>f_width := f_width st - 1\<rparr>"] by (simp add: emit_map)
qed simp

lemma emit_pow_map: "(emit put' c ^^ n) (fmt_map h st) = fmt_map h ((emit put c ^^ n) st)"
  by (induction n) (simp_all add: emit_map)

lemma va_map:
  "va_int (fmt_map h st) = bindP (va_int st) (\<lambda>(w, st). ret (w, fmt_map h st))"
  "va_str (fmt_map h st) = bindP (va_str st) (\<lambda>(x, st). ret (x, fmt_map h st))"
  "va_ptr (fmt_map h st) = bindP (va_ptr st) (\<lambda>(x, st). ret (x, fmt_map h st))"
  by (simp_all add: va_int_def va_str_def va_ptr_def split: list.split va.split)

lemma spec_number_map: "spec_number c (fmt_map h st) = map_option (fmt_map h) (spec_number c st)"
  by (simp add: spec_number_def Let_def)

lemma spec_other_map: "spec_other put' c (fmt_map h st) = bindP (spec_other put c st) (\<lambda>st. ret (fmt_map h st))"
  by (simp add: spec_other_def va_map bindP_assoc case_prod_beta emit_map put_str_map emit_pow_map Let_def)

lemma spec_extra_map: "spec_extra put' (fmt_map h st) = fmt_map h (spec_extra put st)"
  by (simp add: spec_extra_def emit_map)

lemma spec_print_map: "spec_print put' (fmt_map h st) = bindP (spec_print put st) (\<lambda>st. ret (fmt_map h st))"
  by (simp add: spec_print_def va_map bindP_assoc case_prod_beta print_int_map print_uint_map Let_def if_distrib [of "\<lambda>p. bindP p _"] cong: if_cong)

lemma fmt_step_map: "fmt_step put' c (fmt_map h st) = bindP (fmt_step put c st) (\<lambda>st. ret (fmt_map h st))"
proof -
  have r: "fmt_map h (fmt_reset st) = fmt_reset (fmt_map h st)" for st by (simp add: fmt_reset_def)
  have "step_spec put' c (fmt_map h st) = bindP (step_spec put c st) (\<lambda>st. ret (fmt_map h st))"
    by (cases "spec_number c st") (simp_all add: step_spec_def spec_number_map spec_other_map spec_extra_map spec_print_map bindP_assoc r)
  then show ?thesis
    by (cases "f_mode st")
      (simp_all add: fmt_step_def step_normal_def step_flags_def step_width_def step_prec_def step_len_def va_map bindP_assoc case_prod_beta emit_map)
qed

lemma fmt_loop_map: "fmt_loop put' cs (fmt_map h st) = bindP (fmt_loop put cs st) (\<lambda>st. ret (fmt_map h st))"
proof -
  have "p = put \<Longrightarrow> fmt_loop put' cs (fmt_map h st) = bindP (fmt_loop p cs st) (\<lambda>st. ret (fmt_map h st))" for p
  proof (induction p cs st rule: fmt_loop.induct)
    case (2 p c cs st)
    note IH = "2.IH" [OF _ _ _ "2.prems"]
    show ?case
    proof (cases "c = CHR 0x00")
      case False
      have "bindP (fmt_step put c st) (\<lambda>st. if f_gotoNextChar st then fmt_loop put' cs (fmt_map h st) else fmt_loop put' (c # cs) (fmt_map h st)) =
          bindP (fmt_step p c st) (\<lambda>st. bindP (if f_gotoNextChar st then fmt_loop p cs st else fmt_loop p (c # cs) st) (\<lambda>st. ret (fmt_map h st)))"
        by (rule bindP_cong) (use IH [OF False] "2.prems" in auto)
      then show ?thesis
        by (subst (1 2) fmt_loop.simps(2)) (simp only: False if_False fmt_step_map bindP_assoc bindP_ret fmt_map_fields)
    qed (simp add: fmt_loop.simps(2))
  qed simp
  then show ?thesis by simp
qed

lemma vfprintf_map: "vfprintf put' cs args (h out) = bindP (vfprintf put cs args out) (\<lambda>(out, r). ret (h out, r))"
proof -
  have "fmt_init (h out) args = fmt_map h (fmt_init out args)" by (simp add: fmt_init_def fmt_map_def)
  then show ?thesis by (simp add: vfprintf_def fmt_loop_map bindP_assoc)
qed

end

section \<open>Files and buffers\<close>

text \<open>A file receives the characters one after the other.\<close>

definition to_file :: "char \<Rightarrow> string \<Rightarrow> string" where
  "to_file c out = out @ [c]"

interpretation buffer: follows to_file "snputc s n" "\<lambda>out. fold (snputc s n) out start" for s n start
  by unfold_locales (simp add: to_file_def)

text \<open>Memory with bytes written from an address on.\<close>

definition written :: "ptr \<Rightarrow> u8 list \<Rightarrow> memory \<Rightarrow> memory" where
  "written s bs mem = (\<lambda>x. if unat (x - s) < length bs then bs ! unat (x - s) else mem x)"

lemma written_snoc:
  assumes "length bs < 2 ^ 64"
  shows "(written s bs mem)(s + of_nat (length bs) := b) = written s (bs @ [b]) mem"
proof
  fix x
  have "x = s + of_nat (length bs) \<longleftrightarrow> unat (x - s) = length bs"
    using unat_of_nat64 [OF assms] by (metis add.commute add_diff_cancel_left' diff_add_cancel unsigned_word_eqI)
  then show "((written s bs mem)(s + of_nat (length bs) := b)) x = written s (bs @ [b]) mem x"
    by (auto simp: written_def nth_append less_Suc_eq)
qed

lemma fold_snputc:
  "fold (snputc s n) out (mem, 0) = (written s (map of_char (take (unat n) out)) mem, of_nat (min (length out) (unat n)))"
proof (induction out rule: rev_induct)
  case Nil
  show ?case by (simp add: written_def)
next
  case (snoc c out)
  let ?k = "min (length out) (unat n)"
  have n: "unat n < 2 ^ 64" by simp
  then have k: "unat (of_nat ?k :: u64) = ?k" by (intro unat_of_nat64) (simp add: min_less_iff_disj)
  have lt: "(of_nat ?k :: u64) < n \<longleftrightarrow> length out < unat n" using k by (auto simp: word_less_nat_alt)
  show ?case
  proof (cases "length out < unat n")
    case True
    have "length out < 2 ^ 64" by (rule less_trans [OF True n])
    then show ?thesis
      using snoc True lt written_snoc [of "map of_char out" s mem "of_char c"] by (simp add: snputc_def min_def add.commute)
  next
    case False
    then show ?thesis using snoc lt by (simp add: snputc_def min_def)
  qed
qed

lemma vsnprintf_file:
  assumes f: "vfprintf to_file format args [] = ret (out, stores, k)" and len: "length out < 2 ^ 64 - 1"
  shows "vsnprintf s n format args mem = ret (written s (map of_char (take (unat (n - 1)) out) @ [0]) mem, stores, k)"
proof -
  let ?bs = "map of_char (take (unat (n - 1)) out) :: u8 list" and ?c = "of_nat (min (length out) (unat (n - 1))) :: u64"
  obtain st where st: "fmt_loop to_file format (fmt_init [] args) = ret st" "f_out st = out" "f_stores st = stores" "f_symbols st = k"
    using f by (auto simp: vfprintf_def bindP_eq_ret)
  have "fmt_init (mem, 0) args = fmt_map (\<lambda>out. fold (snputc s (n - 1)) out (mem, 0)) (fmt_init [] args)" by (simp add: fmt_init_def fmt_map_def)
  then have "fmt_loop (snputc s (n - 1)) format (fmt_init (mem, 0) args) = ret (fmt_map (\<lambda>out. fold (snputc s (n - 1)) out (mem, 0)) st)"
    using st(1) by (simp add: buffer.fmt_loop_map)
  then have r: "vsnprintf s n format args mem = ret (fst (snputc s (- 1) CHR 0x00 (written s ?bs mem, ?c)), stores, k)"
    using st(2-4) by (simp add: vsnprintf_def Let_def fold_snputc)
  have l: "length ?bs = min (length out) (unat (n - 1))" by (simp add: min.commute)
  have lb: "length ?bs < 2 ^ 64" using len unfolding l by (simp add: min_less_iff_disj)
  have c: "unat ?c = length ?bs" using len l by (subst unat_of_nat64) auto
  have "unat (- 1 :: u64) = 2 ^ 64 - 1" by (simp add: unsigned_minus_1_eq_mask mask_eq_exp_minus_1)
  then have "?c < - 1" using c l len by (auto simp: word_less_nat_alt)
  moreover have "(written s ?bs mem)(s + ?c := 0) = written s (?bs @ [0]) mem"
    using written_snoc [OF lb, of s mem 0] by (simp only: l)
  ultimately show ?thesis using r by (simp add: snputc_def)
qed

section \<open>Characters are counted\<close>

definition grows :: "string \<Rightarrow> string \<times> int \<Rightarrow> bool" where
  "grows out r \<longleftrightarrow> (\<exists>ys. r = (out @ ys, int (length ys)))"

lemma put_string_file: "put_string to_file cs (out, k) = (out @ cs, k + int (length cs))"
  by (induction cs arbitrary: out k) (simp_all add: to_file_def)

text \<open>Padding on the left: zeros up to the precision come first, then blanks.\<close>

definition padding :: "nat \<Rightarrow> bool \<Rightarrow> int \<Rightarrow> string" where
  "padding n pt md = (if pt then replicate n CHR ''0'' else replicate (min n (nat md)) CHR ''0'' @ replicate (n - nat md) CHR '' '')"

lemma padding_Suc:
  "padding (Suc n) pt md = (if pt \<or> md > 0 then CHR ''0'' # padding n pt (md - 1) else CHR '' '' # padding n pt md)"
proof (cases "pt \<or> md \<le> 0")
  case False
  then obtain k where "nat md = Suc k" "nat (md - 1) = k" by (metis Suc_nat_eq_nat_zadd1 diff_add_cancel gr0_implies_Suc linorder_not_le nat_0_iff neq0_conv zle_diff1_eq add.commute)
  then show ?thesis using False by (simp add: padding_def)
qed (auto simp: padding_def)

lemma padding_length [simp]: "length (padding n pt md) = n"
  by (simp add: padding_def min_def)

lemma pad_loop_file: "pad_loop to_file n pt md (out, k) = (out @ padding n pt md, k + int n)"
proof (induction n arbitrary: md out k)
  case 0
  show ?case by (simp add: padding_def)
next
  case (Suc n)
  show ?case
    using Suc.IH [of "md - 1" "out @ ''0''" "k + 1"] Suc.IH [of md "out @ '' ''" "k + 1"] by (cases "pt \<or> md > 0") (auto simp: padding_Suc to_file_def)
qed

lemma print_zero_file: "grows out (print_zero to_file ml md pt po out)"
  by (auto simp: grows_def print_zero_def Let_def put_string_file pad_loop_file simp del: put_string.simps)

lemma print_uint_file:
  assumes "print_uint to_file ml md num radix pt po up out = ret r"
  shows "grows out r"
proof (cases "num = 0")
  case True
  then show ?thesis using assms print_zero_file by (auto simp: print_uint_def)
next
  case False
  then show ?thesis using assms
    by (auto simp: print_uint_def Let_def bindP_eq_ret put_string_file pad_loop_file grows_def simp del: put_string.simps split: if_splits)
qed

lemma print_int_file:
  assumes "print_int to_file num fs ps ml md radix pt po up out = ret r"
  shows "grows out r"
proof -
  have g: "grows out r" if "bindP (print_uint to_file ml' md num' radix pt po up (out @ zs)) (\<lambda>(out, n). ret (out, n + int (length zs))) = ret r" for ml' num' zs
    using that print_uint_file [of ml' md num' radix pt po up "out @ zs"] by (auto simp: bindP_eq_ret grows_def)
  consider "sint num < 0" | "\<not> sint num < 0" fs | "\<not> sint num < 0" "\<not> fs" ps | "\<not> sint num < 0" "\<not> fs" "\<not> ps" by blast
  then show ?thesis
  proof cases
    case 1
    show ?thesis by (rule g [of "ml - 1" "num * (- 1)" "''-''"]) (use assms 1 in \<open>simp add: print_int_def to_file_def\<close>)
  next
    case 2
    show ?thesis by (rule g [of "ml - 1" num "''+''"]) (use assms 2 in \<open>simp add: print_int_def to_file_def\<close>)
  next
    case 3
    show ?thesis by (rule g [of "ml - 1" num "'' ''"]) (use assms 3 in \<open>simp add: print_int_def to_file_def\<close>)
  next
    case 4
    show ?thesis by (rule g [of ml num "[]"]) (use assms 4 in \<open>simp add: print_int_def\<close>)
  qed
qed

definition counted :: "string fmt \<Rightarrow> bool" where
  "counted st \<longleftrightarrow> f_symbols st = int (length (f_out st))"

lemma emit_counted: "counted st \<Longrightarrow> counted (emit to_file c st)"
  by (simp add: counted_def emit_def to_file_def)

lemma put_str_counted: "counted st \<Longrightarrow> counted (put_str to_file cs j st)"
proof (induction cs arbitrary: j st)
  case (Cons c cs)
  have "counted ((emit to_file c st)\<lparr>f_width := w\<rparr>)" for w using emit_counted [OF Cons.prems] by (simp add: counted_def)
  then show ?case using Cons by simp
qed simp

lemma pow_counted: "counted st \<Longrightarrow> counted ((emit to_file c ^^ n) st)"
  by (induction n) (simp_all add: emit_counted)

lemma va_counted:
  "va_int st = ret (w, st') \<Longrightarrow> counted st' = counted st" "va_str st = ret (x, st') \<Longrightarrow> counted st' = counted st"
  "va_ptr st = ret (y, st') \<Longrightarrow> counted st' = counted st"
  by (auto simp: va_int_def va_str_def va_ptr_def counted_def split: list.splits va.splits)

lemma spec_number_counted: "spec_number c st = Some st' \<Longrightarrow> counted st' = counted st"
proof -
  have "case spec_number c st of None \<Rightarrow> True | Some st' \<Rightarrow> counted st' = counted st" by (simp add: spec_number_def Let_def counted_def)
  then show "spec_number c st = Some st' \<Longrightarrow> counted st' = counted st" by simp
qed

lemma spec_other_counted:
  assumes st: "counted st" and r: "spec_other to_file c st = ret st'"
  shows "counted st'"
proof -
  consider "c = CHR ''c''" | "c = CHR ''s''" | "c = CHR ''n''" | "c = CHR ''%''" | "c \<notin> {CHR ''c'', CHR ''s'', CHR ''n'', CHR ''%''}" by auto
  then show ?thesis
  proof cases
    case 1
    then show ?thesis using r st va_counted(1) by (fastforce simp: spec_other_def bindP_eq_ret intro: emit_counted)
  next
    case 2
    then show ?thesis using r st va_counted(2) by (fastforce simp: spec_other_def bindP_eq_ret Let_def intro: pow_counted put_str_counted)
  next
    case 3
    then obtain p u where "va_ptr st = ret (p, u)" "st' = u\<lparr>f_stores := f_stores u @ [(p, f_len u, f_symbols u)]\<rparr>" using r by (auto simp: spec_other_def bindP_eq_ret)
    then show ?thesis using va_counted(3) [of st p u] st by (simp add: counted_def)
  qed (use r st in \<open>auto simp: spec_other_def intro: emit_counted\<close>)
qed

lemma spec_extra_counted: "counted st \<Longrightarrow> counted (spec_extra to_file st)"
  by (simp add: spec_extra_def counted_def emit_def to_file_def)

lemma spec_print_counted:
  assumes st: "counted st" and r: "spec_print to_file st = ret st'"
  shows "counted st'"
proof (cases "f_number st")
  case True
  then obtain w u where u: "va_int st = ret (w, u)" using r by (auto simp: spec_print_def bindP_eq_ret split: if_splits)
  let ?n = "va_number (f_sign u) (f_len u) w" and ?l = "max (f_width u) (f_precision u)"
  obtain q where q: "(if f_sign u then
        print_int to_file ?n (f_force_sign u) (f_add_blank u) ?l (f_precision u) (f_radix u) (f_zero_pad u) (f_left_justify u) (f_upper u) (f_out u)
      else print_uint to_file ?l (f_precision u) ?n (f_radix u) (f_zero_pad u) (f_left_justify u) (f_upper u) (f_out u)) = ret q"
    "st' = u\<lparr>f_out := fst q, f_symbols := f_symbols u + snd q\<rparr>"
    using True r u by (auto simp: spec_print_def bindP_eq_ret Let_def split: if_splits)
  have "grows (f_out u) q" using q(1) by (auto split: if_splits intro: print_int_file print_uint_file)
  moreover have "counted u" using va_counted(1) [OF u] st by simp
  ultimately show ?thesis using q(2) by (auto simp: counted_def grows_def)
qed (use r st in \<open>auto simp: spec_print_def\<close>)

lemma step_spec_counted: "counted st \<Longrightarrow> step_spec to_file c st = ret st' \<Longrightarrow> counted st'"
proof -
  have r: "counted (fmt_reset u) = counted u" for u by (simp add: fmt_reset_def counted_def)
  assume st: "counted st" and "step_spec to_file c st = ret st'"
  then obtain u v where u: "(case spec_number c st of Some st \<Rightarrow> ret st | None \<Rightarrow> spec_other to_file c st) = ret u"
    "spec_print to_file (spec_extra to_file u) = ret v" "st' = fmt_reset v" by (auto simp: step_spec_def bindP_eq_ret)
  have "counted u" using u(1) st spec_number_counted spec_other_counted [OF st] by (auto split: option.splits)
  then show ?thesis using spec_print_counted [OF spec_extra_counted u(2)] u(3) r by simp
qed

lemma fmt_step_counted: "counted st \<Longrightarrow> fmt_step to_file c st = ret st' \<Longrightarrow> counted st'"
proof (cases "f_mode st")
  case M_NORMAL
  moreover assume "counted st" "fmt_step to_file c st = ret st'"
  ultimately show ?thesis by (auto simp: fmt_step_def step_normal_def counted_def emit_def to_file_def)
next
  case M_SPEC
  moreover assume "counted st" "fmt_step to_file c st = ret st'"
  ultimately show ?thesis by (auto simp: fmt_step_def intro: step_spec_counted)
next
  case M_FLAGS
  moreover assume "counted st" "fmt_step to_file c st = ret st'"
  ultimately show ?thesis by (auto simp: fmt_step_def step_flags_def counted_def)
next
  case M_LEN
  moreover assume "counted st" "fmt_step to_file c st = ret st'"
  ultimately show ?thesis by (auto simp: fmt_step_def step_len_def counted_def split: if_splits)
qed (auto simp: fmt_step_def step_width_def step_prec_def counted_def bindP_eq_ret va_int_def split: if_splits list.splits va.splits)

lemma fmt_loop_counted: "counted st \<Longrightarrow> fmt_loop to_file cs st = ret st' \<Longrightarrow> counted st'"
proof -
  have "p = to_file \<Longrightarrow> counted st \<Longrightarrow> fmt_loop p cs st = ret st' \<Longrightarrow> counted st'" for p
  proof (induction p cs st rule: fmt_loop.induct)
    case (2 p c cs st)
    show ?case
    proof (cases "c = CHR 0x00")
      case False
      then obtain u where u: "fmt_step p c st = ret u" "(if f_gotoNextChar u then fmt_loop p cs u else fmt_loop p (c # cs) u) = ret st'"
        using "2.prems"(3) by (subst (asm) fmt_loop.simps(2)) (auto simp: bindP_eq_ret)
      have "counted u" using fmt_step_counted [of st c u] u(1) "2.prems" by simp
      then show ?thesis using "2.IH" [OF False u(1)] u(2) "2.prems"(1) by (cases "f_gotoNextChar u") auto
    qed (use "2.prems" in \<open>simp add: fmt_loop.simps(2)\<close>)
  qed simp
  then show "counted st \<Longrightarrow> fmt_loop to_file cs st = ret st' \<Longrightarrow> counted st'" by simp
qed

lemma vfprintf_count:
  assumes "vfprintf to_file format args [] = ret (out, stores, k)"
  shows "k = int (length out)"
proof -
  obtain st where st: "fmt_loop to_file format (fmt_init [] args) = ret st" "f_out st = out" "f_symbols st = k" using assms by (auto simp: vfprintf_def bindP_eq_ret)
  moreover have "counted (fmt_init [] args)" by (simp add: counted_def fmt_init_def)
  ultimately show ?thesis using fmt_loop_counted by (auto simp: counted_def)
qed

end
