(* ===== verification/PrintfNumbers.thy ===== *)
theory PrintfNumbers
  imports PrintfCorrect
begin

text \<open>
  Numbers that are printed are read back: the digits of a number in a base, printed into a buffer, and the conversions of CString.
\<close>

section \<open>Digits\<close>

abbreviation hexc :: "bool \<Rightarrow> nat \<Rightarrow> char" where
  "hexc up d \<equiv> (if up then g_HexCharsUPPER else g_HexCharsLOWER) ! d"

lemma digits_value_snoc: "digits_value base v (ds @ [d]) = digits_value base v ds * base + d"
  by (induction ds arbitrary: v) simp_all

lemma digit_loop_value:
  assumes "2 \<le> unat radix" "unat radix \<le> 16" "unat num < unat radix ^ k" "0 < k"
  shows "\<exists>ds. digit_loop k num radix up buf = ret (buf @ map (hexc up) ds) \<and> (\<forall>d\<in>set ds. d < unat radix) \<and> length ds \<le> k \<and> ds \<noteq> [] \<and>
    digits_value (uint radix) 0 (map int (rev ds)) = uint num"
  using assms(3,4)
proof (induction k arbitrary: num buf)
  case (Suc k)
  let ?d = "unat (num mod radix)" and ?r = "unat radix"
  have r: "radix \<noteq> 0" using assms(1) by auto
  have d: "?d = unat num mod ?r" "?d < ?r" using assms(1) by (simp_all add: unat_mod)
  have h: "hex_char up (num mod radix) = ret (hexc up ?d)" using d(2) assms(2) by (simp add: hex_char_def)
  have q: "unat (num div radix) = unat num div ?r" by (simp add: unat_div)
  show ?case
  proof (cases "num div radix > 0")
    case True
    have "unat num div ?r > 0" using True by (simp add: q [symmetric] unat_gt_0 word_gt_0)
    then have k: "0 < k" using Suc.prems(1) by (cases k) (auto simp: div_greater_zero_iff)
    have "unat (num div radix) < ?r ^ k" unfolding q using Suc.prems(1) by (intro less_mult_imp_div_less) (simp add: mult.commute)
    then obtain ds where ds: "digit_loop k (num div radix) radix up (buf @ [hexc up ?d]) = ret ((buf @ [hexc up ?d]) @ map (hexc up) ds)" "\<forall>d\<in>set ds. d < ?r"
      "length ds \<le> k" "ds \<noteq> []" "digits_value (uint radix) 0 (map int (rev ds)) = uint (num div radix)" using Suc.IH k by blast
    have "digits_value (uint radix) 0 (map int (rev (?d # ds))) = uint num div uint radix * uint radix + uint num mod uint radix"
      using ds(5) by (simp add: digits_value_snoc uint_div uint_mod)
    then have "digits_value (uint radix) 0 (map int (rev (?d # ds))) = uint num" by simp
    moreover have "digit_loop (Suc k) num radix up buf = ret (buf @ map (hexc up) (?d # ds))" using True r h ds(1) by simp
    ultimately show ?thesis using ds(2-4) d(2) by (intro exI [of _ "?d # ds"]) auto
  next
    case False
    then have "num div radix = 0" by (simp add: word_gt_0)
    then have "unat num div ?r = 0" using q by simp
    then have num: "num < radix" using assms(1) by (auto simp: div_eq_0_iff word_less_nat_alt)
    moreover have "digit_loop (Suc k) num radix up buf = ret (buf @ map (hexc up) [?d])" using False r h by simp
    moreover have "?d = unat num" using d(1) num by (simp add: word_less_nat_alt)
    ultimately show ?thesis using d(2) by (intro exI [of _ "[?d]"]) (simp del: digit_loop.simps)
  qed
qed simp

lemma hexc_value:
  assumes "d < unat radix" "radix \<in> {8, 10, 16 :: u64}"
  shows "digit_value (int (unat radix)) (of_char (hexc up d)) = Some (int d)"
proof -
  have "\<forall>d<16. digit_value 16 (of_char (hexc up d)) = Some (int d) \<and> (d < 10 \<longrightarrow> digit_value 10 (of_char (hexc up d)) = Some (int d)) \<and>
      (d < 8 \<longrightarrow> digit_value 8 (of_char (hexc up d)) = Some (int d))"
    by (cases up) (simp_all add: All_less_Suc numeral_eq_Suc g_HexCharsLOWER_def g_HexCharsUPPER_def digit_value_def)
  then show ?thesis using assms by auto
qed


section \<open>Reading\<close>

lemma strtoul_loop_digits:
  assumes "cstring mem (str + word_of_int i) xs" "map (digit_value base) xs = map Some ds" "0 \<le> i" "i + int (length xs) < 2 ^ 31"
  shows "strtoul_loop mem str base i (word_of_int v) = ret (word_of_int (digits_value base v ds), None)"
  using assms
proof (induction xs arbitrary: i v ds)
  case Nil
  then show ?case by (subst strtoul_loop.simps) simp
next
  case (Cons x xs)
  then obtain d ds' where ds: "ds = d # ds'" "digit_value base x = Some d" "map (digit_value base) xs = map Some ds'" by auto
  have "checked 32 (i + 1) = ret (i + 1)" using Cons.prems by (simp add: checked_def)
  moreover have "strtoul_loop mem str base (i + 1) (word_of_int (v * base + d)) = ret (word_of_int (digits_value base (v * base + d) ds'), None)"
    using Cons.prems ds(3) by (intro Cons.IH) (auto simp: add.assoc)
  ultimately show ?case using Cons.prems(1) ds by (subst strtoul_loop.simps) (simp add: Let_def)
qed

lemma written_cstring:
  assumes "0 \<notin> set bs" "length bs < 2 ^ 64"
  shows "cstring (written s (bs @ [0]) mem) s bs"
proof -
  have "unat (of_nat i :: u64) = i" if "i \<le> length bs" for i using that assms(2) by (intro unat_of_nat64) simp
  then show ?thesis using assms(1) by (auto simp: cstring_nth written_def nth_append in_set_conv_nth)
qed

section \<open>Printing an unsigned number\<close>

lemma print_uint_digits:
  assumes "radix \<in> {8, 10, 16}"
  shows "\<exists>ds. print_uint to_file 0 (- 1) num radix False False up [] = ret (map (hexc up) (rev ds), int (length ds)) \<and> (\<forall>d\<in>set ds. d < unat radix) \<and>
    length ds \<le> 64 \<and> digits_value (uint radix) 0 (map int (rev ds)) = uint num"
proof (cases "num = 0")
  case True
  have "hexc up 0 = CHR ''0''" by (simp add: g_HexCharsLOWER_def g_HexCharsUPPER_def)
  then show ?thesis using True assms by (intro exI [of _ "[0]"]) (auto simp: print_uint_def print_zero_def to_file_def)
next
  case False
  have "(2 :: nat) ^ 64 \<le> unat radix ^ 64" using assms by (intro power_mono) auto
  then have "unat num < unat radix ^ 64" by (rule order.strict_trans2 [rotated]) simp
  then obtain ds where "digit_loop 64 num radix up [] = ret (map (hexc up) ds)" "\<forall>d\<in>set ds. d < unat radix" "length ds \<le> 64"
    "digits_value (uint radix) 0 (map int (rev ds)) = uint num"
    using digit_loop_value [of radix num 64 up "[]"] assms by auto
  then show ?thesis using False by (intro exI [of _ ds]) (simp add: print_uint_def Let_def put_string_file rev_map del: put_string.simps)
qed

definition number_format :: "(string \<times> u64) set" where
  "number_format = {(''%lu'', 10), (''%lo'', 8), (''%lx'', 16), (''%lX'', 16)}"

text \<open>Running a format of this kind is printing the number.\<close>

lemma fmt_loop_number:
  assumes "(format, radix) \<in> number_format"
  shows "\<exists>up. vfprintf to_file format [VInt num] [] = bindP (print_uint to_file 0 (- 1) num radix False False up []) (\<lambda>r. ret (fst r, [], snd r))"
  using assms unfolding number_format_def
  by (auto intro: exI [of _ True] exI [of _ False] simp: vfprintf_def fmt_loop.simps(2) fmt_step_def fmt_init_def step_normal_def step_flags_def step_width_def step_len_def is_digit_def step_spec_def
      spec_number_def spec_extra_def spec_print_def va_int_def va_number_def fmt_reset_def bindP_assoc case_prod_beta)

lemma number_format_radix: "(format, radix) \<in> number_format \<Longrightarrow> radix \<in> {8, 10, 16}"
  by (auto simp: number_format_def)

lemma hexc_digit_bytes:
  assumes "\<forall>d\<in>set ds. d < unat radix" "radix \<in> {8, 10, 16 :: u64}"
  shows "map (digit_value (uint radix)) (map of_char (map (hexc up) ds)) = map Some (map int ds)" "0 \<notin> set (map of_char (map (hexc up) ds) :: u8 list)"
proof -
  have v: "digit_value (uint radix) (of_char (hexc up d)) = Some (int d)" if "d \<in> set ds" for d using hexc_value [of d radix up] assms that by simp
  then show "map (digit_value (uint radix)) (map of_char (map (hexc up) ds)) = map Some (map int ds)" by (simp only: map_map o_def cong: map_cong)
  have "digit_value (uint radix) 0 = None" by (simp add: digit_value_def)
  then show "0 \<notin> set (map of_char (map (hexc up) ds) :: u8 list)" using v by (metis (no_types, lifting) imageE list.set_map option.distinct(1))
qed

section \<open>Properties\<close>

text \<open>C13. A number printed in decimal, octal or hexadecimal into a buffer that has room for it is read back by \<open>strtoul\<close> in that
  base, to the end of the string.\<close>

theorem print_read_roundtrip:
  assumes "(format, radix) \<in> number_format" and "unat n > 64"
  shows "\<exists>mem' k. vsnprintf s n format [VInt num] mem = ret (mem', [], k) \<and> strtoul mem' s (uint radix) = ret (num, None)"
proof -
  note r = number_format_radix [OF assms(1)]
  obtain up where up: "vfprintf to_file format [VInt num] [] = bindP (print_uint to_file 0 (- 1) num radix False False up []) (\<lambda>r. ret (fst r, [], snd r))"
    using fmt_loop_number [OF assms(1)] by blast
  obtain ds where ds: "print_uint to_file 0 (- 1) num radix False False up [] = ret (map (hexc up) (rev ds), int (length ds))" "\<forall>d\<in>set ds. d < unat radix"
    "length ds \<le> 64" "digits_value (uint radix) 0 (map int (rev ds)) = uint num" using print_uint_digits [OF r] by metis
  let ?out = "map (hexc up) (rev ds)"
  have f: "vfprintf to_file format [VInt num] [] = ret (?out, [], int (length ds))" using up ds(1) by simp
  have n: "unat (n - 1) = unat n - 1" using assms(2) by (intro unat_minus_one) auto
  have "take (unat (n - 1)) ?out = ?out" using ds(3) assms(2) n by simp
  then have v: "vsnprintf s n format [VInt num] mem = ret (written s (map of_char ?out @ [0]) mem, [], int (length ds))"
    using vsnprintf_file [OF f, of s n mem] ds(3) by simp
  have d: "\<forall>d\<in>set (rev ds). d < unat radix" using ds(2) by simp
  have "cstring (written s (map of_char ?out @ [0]) mem) (s + word_of_int 0) (map of_char ?out)"
    using written_cstring [OF hexc_digit_bytes(2) [OF d r, of up], of s mem] ds(3) by simp
  from strtoul_loop_digits [OF this hexc_digit_bytes(1) [OF d r], of 0] ds(3,4)
  have "strtoul (written s (map of_char ?out @ [0]) mem) s (uint radix) = ret (num, None)" by (simp add: strtoul_def)
  then show ?thesis using v by blast
qed

theorem print_read_roundtrip_witness:
  "\<exists>mem' k. vsnprintf 0x1000 80 ''%lx'' [VInt 48879] (\<lambda>_. 0) = ret (mem', [], k) \<and> strtoul mem' 0x1000 (uint (16 :: u64)) = ret (48879, None)"
  by (rule print_read_roundtrip) (simp_all add: number_format_def)



text \<open>A number that is padded on the left to a width beyond its precision gets the zeros of the precision before the blanks of the
  width, and not next to its digits.\<close>

lemma precision_misplaced:
  assumes "num \<noteq> 0" and "digit_loop 64 num radix up [] = ret ds" and "int (length ds) < precision" and "precision < width"
  shows "print_uint to_file width precision num radix False False up [] =
    ret (replicate (nat precision - length ds) CHR ''0'' @ replicate (nat (width - precision)) CHR '' '' @ rev ds, width)"
  using assms by (auto simp: print_uint_def put_string_file pad_loop_file padding_def min_def nat_diff_distrib simp del: put_string.simps)

end
