(* ===== verification/UserFiles.thy ===== *)
theory UserFiles
  imports CString
begin

unbundle bit_operations_syntax

text \<open>
  The table of open files of src/Userland/Libraries/LibC/src/stdio.cpp: \<open>fopen\<close> and \<open>fclose\<close> with the slots they use. The system
  calls that open and close a descriptor are arguments, given by what they return. \<open>FreeFile\<close> compares the address of an element of the array that
  begins at the file with the file itself, so it always gives the first slot back.
\<close>

section \<open>The table\<close>

record FILE =
  descriptor :: int
  file_flags :: u64

record file_table =
  g_files :: "FILE list"
  g_used_files :: u8
  ft_base :: ptr
  ft_errno :: int

abbreviation (input) FOPEN_MAX :: nat where "FOPEN_MAX \<equiv> 8"
abbreviation (input) sizeof_FILE :: u64 where "sizeof_FILE \<equiv> 16"

definition set_errno :: "int \<Rightarrow> file_table \<Rightarrow> file_table" where
  "set_errno v t = t\<lparr>ft_errno := (if v < 0 then - v else 0)\<rparr>"

definition AllocateFile :: "file_table \<Rightarrow> nat \<times> file_table" where
  "AllocateFile t =
     (if g_used_files t < 255 then
        case find (\<lambda>i. g_used_files t AND push_bit i 1 = 0) [0..<8] of
          Some i \<Rightarrow> (i, t\<lparr>g_used_files := g_used_files t OR push_bit i 1\<rparr>)
        | None \<Rightarrow> (FOPEN_MAX, t)
      else (FOPEN_MAX, t))"

definition FreeFile :: "ptr \<Rightarrow> file_table \<Rightarrow> bool \<times> file_table" where
  "FreeFile file t =
     (case find (\<lambda>i. file + of_nat i * sizeof_FILE = file) [0..<8] of
        Some i \<Rightarrow> (True, t\<lparr>g_used_files := g_used_files t AND NOT (push_bit i 1)\<rparr>)
      | None \<Rightarrow> (False, t))"

definition open_flags :: "string \<Rightarrow> u64 option" where
  "open_flags mode =
     (if mode = ''r'' then Some 1
      else if mode = ''w'' then Some (2 OR 4)
      else if mode = ''a'' then Some 8
      else if mode = ''r+'' then Some (1 OR 2)
      else if mode = ''w+'' then Some (1 OR 2 OR 4)
      else None)"

definition user_fopen :: "(string \<Rightarrow> u64 \<Rightarrow> int) \<Rightarrow> string option \<Rightarrow> string option \<Rightarrow> file_table \<Rightarrow> ptr \<times> file_table" where
  "user_fopen sys_open file mode t = (case (file, mode) of
     (Some path, Some m) \<Rightarrow> (case open_flags m of
         None \<Rightarrow> (nullptr, set_errno (- EINVAL) t)
       | Some flags \<Rightarrow>
           let fd = sys_open path flags in
           if fd < 0 then (nullptr, set_errno (fd) t)
           else
             let (index, t) = AllocateFile t in
             if index = FOPEN_MAX then (nullptr, set_errno (- EMFILE) t)
             else
               (ft_base t + of_nat index * sizeof_FILE,
                t\<lparr>g_files := (g_files t)[index := \<lparr>descriptor = fd, file_flags = flags\<rparr>], ft_errno := 0\<rparr>))
   | _ \<Rightarrow> (nullptr, set_errno (- EFAULT) t))"

definition file_at :: "ptr \<Rightarrow> file_table \<Rightarrow> FILE option" where
  "file_at file t =
     (let i = unat ((file - ft_base t) div sizeof_FILE) in
      if i < length (g_files t) \<and> file = ft_base t + of_nat i * sizeof_FILE then Some (g_files t ! i) else None)"

definition user_fclose :: "(int \<Rightarrow> int) \<Rightarrow> ptr \<Rightarrow> file_table \<Rightarrow> (int \<times> file_table) prog" where
  "user_fclose sys_close file t =
     (if file = nullptr then ret (- EFAULT, set_errno (- EFAULT) t)
      else
        let (ok, t) = FreeFile file t in
        if \<not> ok then ret (- EBADF, set_errno (- EBADF) t)
        else case file_at file t of
          None \<Rightarrow> stop (Dangling file)
        | Some f \<Rightarrow> let rc = sys_close (descriptor f) in ret (rc, set_errno (rc) t))"

section \<open>Properties\<close>

lemma FreeFile_first: "FreeFile file t = (True, t\<lparr>g_used_files := g_used_files t AND NOT 1\<rparr>)"
  by (simp add: FreeFile_def upt_rec)

lemma AllocateFile_first:
  assumes "\<not> bit (g_used_files t) 0"
  shows "AllocateFile t = (0, t\<lparr>g_used_files := g_used_files t OR 1\<rparr>)"
proof -
  have z: "g_used_files t AND 1 = 0" using assms by (simp add: and_one_eq even_bit_succ_iff bit_0 odd_iff_mod_2_eq_one even_iff_mod_2_eq_zero)
  have "g_used_files t \<noteq> 255" using z by auto
  moreover have "(255 :: u8) = - 1" by simp
  ultimately have "g_used_files t < 255" using word_order.not_eq_extremum by metis
  with z show ?thesis by (simp add: AllocateFile_def upt_rec)
qed

text \<open>C40. After any file has been closed, the next file that is opened gets the first slot of the table, also when that slot belongs to a
  file that is still open: the two share it, and the descriptor of the older one is lost.\<close>

theorem fopen_reuses_open_slot:
  assumes "open_flags m = Some flags" and "sys_open path flags = fd" and "0 \<le> fd" and "file \<noteq> nullptr" and "file_at file t = Some f" and "g_files t \<noteq> []"
  shows "\<exists>t1 t2. user_fclose sys_close file t = ret (sys_close (descriptor f), t1) \<and> user_fopen sys_open (Some path) (Some m) t1 = (ft_base t, t2) \<and>
    g_files t2 ! 0 = \<lparr>descriptor = fd, file_flags = flags\<rparr>"
proof -
  let ?t = "t\<lparr>g_used_files := g_used_files t AND NOT 1\<rparr>"
  let ?t1 = "set_errno (sys_close (descriptor f)) ?t"
  have "file_at file ?t = Some f" using assms(5) by (simp add: file_at_def Let_def split: if_splits)
  then have c: "user_fclose sys_close file t = ret (sys_close (descriptor f), ?t1)" using assms(4) by (simp add: user_fclose_def FreeFile_first Let_def)
  have "\<not> bit (g_used_files ?t1) 0" by (simp add: set_errno_def bit_simps)
  define t2 where "t2 = (?t1\<lparr>g_used_files := g_used_files ?t1 OR 1\<rparr>)\<lparr>g_files := (g_files t)[0 := \<lparr>descriptor = fd, file_flags = flags\<rparr>], ft_errno := 0\<rparr>"
  have "user_fopen sys_open (Some path) (Some m) ?t1 = (ft_base t, t2)"
    using assms(1-3) AllocateFile_first [OF \<open>\<not> bit (g_used_files ?t1) 0\<close>] by (simp add: user_fopen_def set_errno_def t2_def)
  moreover have "g_files t2 ! 0 = \<lparr>descriptor = fd, file_flags = flags\<rparr>" using assms(6) by (simp add: t2_def)
  ultimately show ?thesis using c by blast
qed

definition test_table :: file_table where
  "test_table = \<lparr>g_files = replicate 8 \<lparr>descriptor = 4, file_flags = 1\<rparr>, g_used_files = 3, ft_base = 0x5000, ft_errno = 0\<rparr>"

theorem fopen_reuses_open_slot_witness:
  "\<exists>t1 t2. user_fclose (\<lambda>_. 0) 0x5010 test_table = ret (0, t1) \<and> user_fopen (\<lambda>_ _. 6) (Some ''/a'') (Some ''r'') t1 = (ft_base test_table, t2) \<and>
    g_files t2 ! 0 = \<lparr>descriptor = 6, file_flags = 1\<rparr>"
  by (rule fopen_reuses_open_slot [where f = "\<lparr>descriptor = 4, file_flags = 1\<rparr>"])
    (simp_all add: open_flags_def file_at_def test_table_def)

end
