(* ===== verification/FileDescriptor.thy ===== *)
theory FileDescriptor
  imports VFS Bitmap
begin

text \<open>
  File descriptors (src/kernel/src/fs/FileDescriptor.cpp) and their managers (FileDescriptorManager.cpp), over the streams of the virtual
  file system. A descriptor is an object in a store, with its lock; the list of a manager is a sequence of such objects, and its bitmap lies
  in memory. The terminal and \<open>krealloc\<close> are operations in the record \<open>fd_ops\<close>; so are the bytes an inode occupies. Asserts and debug
  output are those of the debug build.
\<close>

unbundle bit_operations_syntax

datatype FileDescriptorType = FD_UNKNOWN | FILE_STREAM | DIRECTORY_STREAM | FD_TTY | FD_DEBUG

datatype FileDescriptorMode = FDM_READ | FDM_WRITE | FDM_APPEND | FDM_READ_WRITE

record FileDescriptor =
  m_TTY :: ptr
  m_Stream :: ptr
  m_is_open :: bool
  fd_type :: FileDescriptorType
  fd_mode :: FileDescriptorMode
  fd_ID :: int
  m_init_successful :: bool
  fd_lock :: spinlock_t

record FileDescriptorManager =
  m_auto_expand :: bool
  m_descriptors :: "ptr list"
  m_bitmap :: Bitmap
  fm_lock :: spinlock_t

record ('k, 't) fd_ops =
  fd_fs :: "'k fs_ops"
  fd_krealloc :: "ptr \<Rightarrow> u64 \<Rightarrow> memory \<times> 'k \<Rightarrow> (ptr \<times> memory \<times> 'k) prog"
  tty_getc :: "ptr \<Rightarrow> 't \<Rightarrow> (int \<times> 't) prog"
  tty_putc :: "ptr \<Rightarrow> u8 \<Rightarrow> 't \<Rightarrow> 't prog"
  tty_SetCursorPosition :: "ptr \<Rightarrow> u64 \<times> u64 \<Rightarrow> 't \<Rightarrow> 't prog"
  tty_AmountOfTextRows :: "ptr \<Rightarrow> 't \<Rightarrow> u64 prog"
  inode_bytes :: "TempFSInode \<Rightarrow> u8 list"

record ('k, 't) fds =
  f_vfs :: "'k vfs"
  f_descs :: "ptr \<rightharpoonup> FileDescriptor"
  f_mgr :: FileDescriptorManager
  f_mem :: memory
  f_tty :: 't
  f_debug :: "u8 list"

abbreviation (input) EOF :: int where "EOF \<equiv> - 1"

definition vfs_call :: "('k vfs \<Rightarrow> ('a \<times> 'k vfs) prog) \<Rightarrow> ('k, 't) fds \<Rightarrow> ('a \<times> ('k, 't) fds) prog" where
  "vfs_call f s = bindP (f (f_vfs s)) (\<lambda>(x, v). ret (x, s\<lparr>f_vfs := v\<rparr>))"

definition tty_do :: "('t \<Rightarrow> 't prog) \<Rightarrow> ('k, 't) fds \<Rightarrow> ('k, 't) fds prog" where
  "tty_do f s = bindP (f (f_tty s)) (\<lambda>t. ret (s\<lparr>f_tty := t\<rparr>))"

section \<open>Descriptors\<close>

definition FileDescriptor_empty :: FileDescriptor where
  "FileDescriptor_empty = \<lparr>m_TTY = nullptr, m_Stream = nullptr, m_is_open = False, fd_type = FD_UNKNOWN, fd_mode = FDM_READ, fd_ID = - 1,
     m_init_successful = False, fd_lock = False\<rparr>"

text \<open>The constructor. A debug descriptor that is to be read is left locked.\<close>

definition FileDescriptor_make ::
  "('k, 't) fd_ops \<Rightarrow> FileDescriptorType \<Rightarrow> ptr \<Rightarrow> FileDescriptorMode \<Rightarrow> int \<Rightarrow> ('k, 't) fds \<Rightarrow> (FileDescriptor \<times> ('k, 't) fds) prog" where
  "FileDescriptor_make F ty data mode ID s =
     (let d = FileDescriptor_empty\<lparr>fd_type := ty, fd_mode := mode, fd_ID := ID\<rparr>; good = d\<lparr>m_init_successful := True\<rparr> in
      case ty of
        FILE_STREAM \<Rightarrow> ret (good\<lparr>m_Stream := data\<rparr>, s)
      | DIRECTORY_STREAM \<Rightarrow> ret (if mode = FDM_READ then good\<lparr>m_Stream := data\<rparr> else d, s)
      | FD_TTY \<Rightarrow>
          if mode = FDM_READ_WRITE \<or> mode = FDM_WRITE then
            if data = nullptr then stop NullDeref
            else bindP (tty_do (tty_SetCursorPosition F data (0, 0)) s) (\<lambda>s. ret (good\<lparr>m_TTY := data, m_is_open := True\<rparr>, s))
          else ret (good\<lparr>m_TTY := data, m_is_open := True\<rparr>, s)
      | FD_DEBUG \<Rightarrow>
          ret (if mode = FDM_READ \<or> mode = FDM_READ_WRITE then d\<lparr>fd_lock := True\<rparr> else good\<lparr>m_is_open := True\<rparr>, s)
      | FD_UNKNOWN \<Rightarrow> ret (d, s))"

text \<open>A method that takes the lock of the descriptor at \<open>this\<close>; the descriptor it leaves says whether the lock is released.\<close>

definition with_desc ::
  "ptr \<Rightarrow> (FileDescriptor \<Rightarrow> ('k, 't) fds \<Rightarrow> ('a \<times> FileDescriptor \<times> ('k, 't) fds) prog) \<Rightarrow> ('k, 't) fds \<Rightarrow> ('a \<times> ('k, 't) fds) prog" where
  "with_desc this f s =
     bindP (deref (f_descs s) this) (\<lambda>d.
     bindP (spinlock_acquire (fd_lock d)) (\<lambda>l.
     bindP (f (d\<lparr>fd_lock := l\<rparr>) s) (\<lambda>(x, d, s).
     ret (x, s\<lparr>f_descs := (f_descs s)(this \<mapsto> d)\<rparr>))))"

definition released :: "FileDescriptor \<Rightarrow> FileDescriptor" where
  "released d = d\<lparr>fd_lock := spinlock_release (fd_lock d)\<rparr>"

definition open_append :: "ptr \<Rightarrow> 'k vfs \<Rightarrow> (int \<times> 'k vfs) prog" where
  "open_append stream v =
     bindP (FileStream_GetSize stream v) (\<lambda>((sz, _), v).
     bindP (FileStream_Seek stream (sint (sz - 1)) v) (\<lambda>(rc, v).
     ret (if rc \<noteq> ESUCCESS then - ENOSYS else ESUCCESS, v)))"

definition FileDescriptor_Open :: "('k, 't) fd_ops \<Rightarrow> ptr \<Rightarrow> ('k, 't) fds \<Rightarrow> (int \<times> ('k, 't) fds) prog" where
  "FileDescriptor_Open F this = with_desc this (\<lambda>d s.
     case fd_type d of
       FD_DEBUG \<Rightarrow> ret (ESUCCESS, released d\<lparr>m_is_open := True\<rparr>, s)
     | FD_TTY \<Rightarrow> ret (ESUCCESS, released d\<lparr>m_is_open := True\<rparr>, s)
     | FILE_STREAM \<Rightarrow>
         bindP (vfs_call (FileStream_Open (fd_fs F) (m_Stream d)) s) (\<lambda>(rc, s).
         if rc \<noteq> ESUCCESS then ret (rc, released d, s)
         else
           bindP (if fd_mode d = FDM_APPEND then vfs_call (open_append (m_Stream d)) s else ret (ESUCCESS, s)) (\<lambda>(rc, s).
           if rc \<noteq> ESUCCESS then ret (rc, released d, s) else ret (ESUCCESS, released d\<lparr>m_is_open := True\<rparr>, s)))
     | DIRECTORY_STREAM \<Rightarrow>
         bindP (vfs_call (DirectoryStream_Open (m_Stream d)) s) (\<lambda>(rc, s).
         ret (if rc \<noteq> ESUCCESS then (rc, released d, s) else (ESUCCESS, released d\<lparr>m_is_open := True\<rparr>, s)))
     | FD_UNKNOWN \<Rightarrow> ret (- ENOSYS, d, s))"

definition FileDescriptor_Close :: "('k, 't) fd_ops \<Rightarrow> ptr \<Rightarrow> ('k, 't) fds \<Rightarrow> (int \<times> ('k, 't) fds) prog" where
  "FileDescriptor_Close F this = with_desc this (\<lambda>d s.
     let closed = (\<lambda>(rc, s). ret (if rc \<noteq> ESUCCESS then (- ENOSYS, released d, s) else (ESUCCESS, released d\<lparr>m_is_open := False\<rparr>, s))) in
     case fd_type d of
       FD_DEBUG \<Rightarrow> ret (ESUCCESS, released d\<lparr>m_is_open := False\<rparr>, s)
     | FD_TTY \<Rightarrow> ret (ESUCCESS, released d\<lparr>m_is_open := False\<rparr>, s)
     | FILE_STREAM \<Rightarrow> bindP (vfs_call (FileStream_Close (fd_fs F) (m_Stream d)) s) closed
     | DIRECTORY_STREAM \<Rightarrow> bindP (vfs_call (DirectoryStream_Close (m_Stream d)) s) closed
     | FD_UNKNOWN \<Rightarrow> ret (- ENOSYS, released d, s))"

text \<open>The characters the terminal gives until it reports the end, at most \<open>n\<close> of them.\<close>

primrec tty_read :: "('k, 't) fd_ops \<Rightarrow> ptr \<Rightarrow> nat \<Rightarrow> u8 list \<Rightarrow> 't \<Rightarrow> (u8 list \<times> 't) prog" where
  "tty_read F p 0 acc t = ret (acc, t)"
| "tty_read F p (Suc n) acc t =
     bindP (tty_getc F p t) (\<lambda>(c, t). if c = EOF then ret (acc, t) else tty_read F p n (acc @ [of_int c]) t)"

definition store_at :: "u8 list option \<Rightarrow> u8 list \<Rightarrow> u8 list option prog" where
  "store_at buffer bytes =
     (case buffer of
        None \<Rightarrow> if bytes = [] then ret None else stop NullDeref
      | Some buf \<Rightarrow> bindP (copy_into buf 0 bytes) (\<lambda>buf. ret (Some buf)))"

definition transfer_status :: "nat \<Rightarrow> int \<Rightarrow> int" where
  "transfer_status n count = (if int n < count then - EAGAIN else ESUCCESS)"

text \<open>The result of a read is the count or an error, the status when it is set, and the buffer.\<close>

definition read_tty :: "('k, 't) fd_ops \<Rightarrow> u8 list option \<Rightarrow> int \<Rightarrow> FileDescriptor \<Rightarrow> ('k, 't) fds
    \<Rightarrow> ((int \<times> int option \<times> u8 list option) \<times> FileDescriptor \<times> ('k, 't) fds) prog" where
  "read_tty F buffer count d s =
     bindP (tty_read F (m_TTY d) (nat count) [] (f_tty s)) (\<lambda>(bytes, t).
     bindP (store_at buffer bytes) (\<lambda>buffer.
     ret ((int (length bytes), Some (transfer_status (length bytes) count), buffer), released d, s\<lparr>f_tty := t\<rparr>)))"

definition read_directory :: "('k, 't) fd_ops \<Rightarrow> u8 list option \<Rightarrow> int \<Rightarrow> FileDescriptor \<Rightarrow> ('k, 't) fds
    \<Rightarrow> ((int \<times> int option \<times> u8 list option) \<times> FileDescriptor \<times> ('k, 't) fds) prog" where
  "read_directory F buffer count d s =
     bindP (vfs_call (GetNextInode (m_Stream d)) s) (\<lambda>((p, st), s).
     if p = nullptr then ret ((st, None, buffer), released d, s)
     else
       bindP (deref (v_dirs (f_vfs s)) (m_Stream d)) (\<lambda>ds.
       if ds_fs_type ds \<noteq> FST_TMPFS then ret ((- ENOSYS, None, buffer), released d, s)
       else
         bindP (deref (tf_inodes (v_tmp (f_vfs s))) p) (\<lambda>n.
         if count \<noteq> int (length (inode_bytes F n)) then ret ((- EINVAL, None, buffer), released d, s)
         else
           bindP (store_at buffer (inode_bytes F n)) (\<lambda>buffer.
           ret ((count, Some ESUCCESS, buffer), released d, s)))))"

text \<open>Reading a file stream returns without releasing the lock; so does a descriptor of unknown type.\<close>

definition FileDescriptor_Read ::
  "('k, 't) fd_ops \<Rightarrow> ptr \<Rightarrow> u8 list option \<Rightarrow> int \<Rightarrow> ('k, 't) fds \<Rightarrow> ((int \<times> int option \<times> u8 list option) \<times> ('k, 't) fds) prog" where
  "FileDescriptor_Read F this buffer count = with_desc this (\<lambda>d s.
     if \<not> (fd_mode d = FDM_READ \<or> fd_mode d = FDM_READ_WRITE) then ret ((- EBADF, None, buffer), released d, s)
     else case fd_type d of
       FD_TTY \<Rightarrow> read_tty F buffer count d s
     | FD_DEBUG \<Rightarrow> ret ((- ENOSYS, None, buffer), released d, s)
     | FILE_STREAM \<Rightarrow>
         bindP (vfs_call (FileStream_ReadStream (m_Stream d) buffer count) s) (\<lambda>((rc, st, buffer), s).
         ret ((rc, if rc \<ge> 0 then Some (case st of None \<Rightarrow> 0 | Some x \<Rightarrow> x) else None, buffer), d, s))
     | DIRECTORY_STREAM \<Rightarrow> read_directory F buffer count d s
     | FD_UNKNOWN \<Rightarrow> ret ((- ENOSYS, None, buffer), d, s))"

primrec tty_write :: "('k, 't) fd_ops \<Rightarrow> ptr \<Rightarrow> u8 list \<Rightarrow> 't \<Rightarrow> 't prog" where
  "tty_write F p [] t = ret t"
| "tty_write F p (c # cs) t = bindP (tty_putc F p c t) (tty_write F p cs)"

text \<open>The first \<open>count\<close> bytes of a buffer.\<close>

definition load_from :: "u8 list option \<Rightarrow> int \<Rightarrow> u8 list prog" where
  "load_from buffer count =
     (if count \<le> 0 then ret []
      else case buffer of None \<Rightarrow> stop NullDeref | Some buf \<Rightarrow> copy_out buf 0 (of_int count))"

definition FileDescriptor_Write ::
  "('k, 't) fd_ops \<Rightarrow> ptr \<Rightarrow> u8 list option \<Rightarrow> int \<Rightarrow> ('k, 't) fds \<Rightarrow> ((int \<times> int option) \<times> ('k, 't) fds) prog" where
  "FileDescriptor_Write F this buffer count = with_desc this (\<lambda>d s.
     if fd_mode d = FDM_READ then ret ((- EBADF, None), released d, s)
     else case fd_type d of
       FD_TTY \<Rightarrow>
         bindP (load_from buffer count) (\<lambda>bytes.
         bindP (tty_do (tty_write F (m_TTY d) bytes) s) (\<lambda>s.
         ret ((count, Some (transfer_status (length bytes) count)), released d, s)))
     | FILE_STREAM \<Rightarrow>
         bindP (vfs_call (FileStream_WriteStream (fd_fs F) (m_Stream d) buffer count) s) (\<lambda>((rc, st), s).
         ret ((rc, if rc \<ge> 0 then Some (case st of None \<Rightarrow> 0 | Some x \<Rightarrow> x) else None), released d, s))
     | DIRECTORY_STREAM \<Rightarrow> ret ((- EACCES, None), released d, s)
     | FD_DEBUG \<Rightarrow>
         bindP (load_from buffer count) (\<lambda>bytes.
         ret ((int (length bytes), Some (transfer_status (length bytes) count)), released d, s\<lparr>f_debug := f_debug s @ bytes\<rparr>))
     | FD_UNKNOWN \<Rightarrow> ret ((- ENOSYS, None), released d, s))"

definition seek_tty :: "('k, 't) fd_ops \<Rightarrow> ptr \<Rightarrow> u64 \<Rightarrow> ('k, 't) fds \<Rightarrow> ('k, 't) fds prog" where
  "seek_tty F tty offset s =
     bindP (tty_AmountOfTextRows F tty (f_tty s)) (\<lambda>rows.
     if rows = 0 then stop (Undefined ''division by zero'')
     else tty_do (tty_SetCursorPosition F tty (offset mod rows * 10, offset div rows * 16)) s)"

text \<open>A descriptor of unknown type is left locked.\<close>

definition FileDescriptor_Seek :: "('k, 't) fd_ops \<Rightarrow> ptr \<Rightarrow> int \<Rightarrow> ('k, 't) fds \<Rightarrow> (int \<times> ('k, 't) fds) prog" where
  "FileDescriptor_Seek F this offset s =
     (if offset < 0 then ret (- EINVAL, s)
      else with_desc this (\<lambda>d s.
        if fd_mode d = FDM_APPEND then ret (- EBADF, released d, s)
        else case fd_type d of
          FD_DEBUG \<Rightarrow> ret (- ENOSYS, released d, s)
        | FD_TTY \<Rightarrow> bindP (seek_tty F (m_TTY d) (of_int offset) s) (\<lambda>s. ret (ESUCCESS, released d, s))
        | FILE_STREAM \<Rightarrow> bindP (vfs_call (FileStream_Seek (m_Stream d) offset) s) (\<lambda>(rc, s). ret (rc, released d, s))
        | DIRECTORY_STREAM \<Rightarrow> bindP (vfs_call (DirectoryStream_Seek (m_Stream d) offset) s) (\<lambda>(rc, s). ret (rc, released d, s))
        | FD_UNKNOWN \<Rightarrow> ret (- ENOSYS, d, s)) s)"

definition FileDescriptor_Rewind :: "('k, 't) fd_ops \<Rightarrow> ptr \<Rightarrow> ('k, 't) fds \<Rightarrow> (int \<times> ('k, 't) fds) prog" where
  "FileDescriptor_Rewind F this = with_desc this (\<lambda>d s.
     if fd_mode d = FDM_APPEND then ret (- EBADF, released d, s)
     else case fd_type d of
       FD_DEBUG \<Rightarrow> ret (- ENOSYS, released d, s)
     | FD_TTY \<Rightarrow> bindP (tty_do (tty_putc F (m_TTY d) 12) s) (\<lambda>s. ret (ESUCCESS, released d, s))
     | FILE_STREAM \<Rightarrow> bindP (vfs_call (FileStream_Rewind (m_Stream d)) s) (\<lambda>(rc, s). ret (rc, released d, s))
     | DIRECTORY_STREAM \<Rightarrow> bindP (vfs_call (DirectoryStream_Seek (m_Stream d) 0) s) (\<lambda>(rc, s). ret (rc, released d, s))
     | FD_UNKNOWN \<Rightarrow> ret (- ENOSYS, released d, s))"

definition FileDescriptor_GetData :: "FileDescriptor \<Rightarrow> ptr" where
  "FileDescriptor_GetData d =
     (case fd_type d of FILE_STREAM \<Rightarrow> m_Stream d | DIRECTORY_STREAM \<Rightarrow> m_Stream d | FD_TTY \<Rightarrow> m_TTY d | _ \<Rightarrow> nullptr)"

definition FileDescriptor_ForceUnlock :: "FileDescriptor \<Rightarrow> FileDescriptor" where
  "FileDescriptor_ForceUnlock d = released d"

text \<open>\<open>new FileDescriptor(...)\<close> and \<open>delete\<close>, with the destructor.\<close>

definition new_descriptor ::
  "('k, 't) fd_ops \<Rightarrow> FileDescriptorType \<Rightarrow> ptr \<Rightarrow> FileDescriptorMode \<Rightarrow> int \<Rightarrow> ('k, 't) fds \<Rightarrow> (ptr \<times> ('k, 't) fds) prog" where
  "new_descriptor F ty data mode ID s =
     bindP (kernel_call (fs_new (fd_fs F)) (v_tmp (f_vfs s))) (\<lambda>(p, t).
     if p = nullptr then stop NullDeref
     else
       bindP (FileDescriptor_make F ty data mode ID (s\<lparr>f_vfs := (f_vfs s)\<lparr>v_tmp := t\<rparr>\<rparr>)) (\<lambda>(d, s).
       ret (p, s\<lparr>f_descs := (f_descs s)(p \<mapsto> d)\<rparr>)))"

definition delete_descriptor :: "('k, 't) fd_ops \<Rightarrow> ptr \<Rightarrow> ('k, 't) fds \<Rightarrow> ('k, 't) fds prog" where
  "delete_descriptor F p s =
     bindP (deref (f_descs s) p) (\<lambda>d.
     bindP (if m_is_open d then FileDescriptor_Close F p s else ret (ESUCCESS, s)) (\<lambda>(_, s).
     bindP (kernel_do (fs_delete (fd_fs F) p) (v_tmp (f_vfs s))) (\<lambda>t.
     ret (s\<lparr>f_vfs := (f_vfs s)\<lparr>v_tmp := t\<rparr>, f_descs := (f_descs s)(p := None)\<rparr>))))"

end
