(* ===== verification/FileDescriptorManager.thy ===== *)
theory FileDescriptorManager
  imports FileDescriptor Util
begin

text \<open>
  The table of file descriptors (src/kernel/src/fs/FileDescriptorManager.cpp) and the functions the kernel opens, reads and closes files
  with (src/kernel/lib/src/stdio.cpp), over \<open>g_KFDManager\<close> and \<open>g_VFS\<close>.
\<close>

section \<open>The manager\<close>

text \<open>The first constructor leaves the lock as it finds it.\<close>

definition FileDescriptorManager_expanding :: "spinlock_t \<Rightarrow> FileDescriptorManager" where
  "FileDescriptorManager_expanding l = \<lparr>m_auto_expand = True, m_descriptors = [], m_bitmap = Bitmap_empty, fm_lock = l\<rparr>"

definition FileDescriptorManager_fixed :: "ptr \<Rightarrow> u64 \<Rightarrow> memory \<Rightarrow> FileDescriptorManager \<times> memory" where
  "FileDescriptorManager_fixed buffer max_size mem =
     (\<lparr>m_auto_expand = False, m_descriptors = [], m_bitmap = Bitmap_make buffer (ALIGN_UP max_size 8), fm_lock = False\<rparr>, memset mem buffer 0 max_size)"

text \<open>The destructor counts up to a length that shrinks, so half of the list stays.\<close>

definition FileDescriptorManager_destroy :: "('k, 't) fds \<Rightarrow> ('k, 't) fds prog" where
  "FileDescriptorManager_destroy s =
     bindP (spinlock_acquire (fm_lock (f_mgr s))) (\<lambda>l.
     let ds = m_descriptors (f_mgr s) in
     ret (s\<lparr>f_mgr := (f_mgr s)\<lparr>m_descriptors := drop ((length ds + 1) div 2) ds, fm_lock := spinlock_release l\<rparr>\<rparr>))"

definition mgr_lock :: "('k, 't) fds \<Rightarrow> ('k, 't) fds prog" where
  "mgr_lock s = bindP (spinlock_acquire (fm_lock (f_mgr s))) (\<lambda>l. ret (s\<lparr>f_mgr := (f_mgr s)\<lparr>fm_lock := l\<rparr>\<rparr>))"

definition mgr_unlock :: "('k, 't) fds \<Rightarrow> ('k, 't) fds" where
  "mgr_unlock s = s\<lparr>f_mgr := (f_mgr s)\<lparr>fm_lock := spinlock_release (fm_lock (f_mgr s))\<rparr>\<rparr>"

definition mgr_bit :: "u64 \<Rightarrow> ('k, 't) fds \<Rightarrow> bool" where
  "mgr_bit i s = Bitmap_get (f_mem s) (m_bitmap (f_mgr s)) i"

definition mgr_set :: "u64 \<Rightarrow> bool \<Rightarrow> ('k, 't) fds \<Rightarrow> ('k, 't) fds" where
  "mgr_set i b s = s\<lparr>f_mem := Bitmap_Set (f_mem s) (m_bitmap (f_mgr s)) i b\<rparr>"

definition mgr_insert :: "ptr \<Rightarrow> ('k, 't) fds \<Rightarrow> ('k, 't) fds" where
  "mgr_insert p s = s\<lparr>f_mgr := (f_mgr s)\<lparr>m_descriptors := m_descriptors (f_mgr s) @ [p]\<rparr>\<rparr>"

definition mgr_remove :: "ptr \<Rightarrow> ('k, 't) fds \<Rightarrow> ('k, 't) fds" where
  "mgr_remove p s = s\<lparr>f_mgr := (f_mgr s)\<lparr>m_descriptors := remove1 p (m_descriptors (f_mgr s))\<rparr>\<rparr>"

abbreviation mgr_bits :: "('k, 't) fds \<Rightarrow> u64" where
  "mgr_bits s \<equiv> push_bit 3 (m_Size (m_bitmap (f_mgr s)))"

text \<open>\<open>ALIGN_UP\<close> on a \<open>long\<close>, whose division rounds to zero.\<close>

definition ALIGN_UP_long :: "int \<Rightarrow> int \<Rightarrow> int" where
  "ALIGN_UP_long v a = (let x = v + (a - 1) in (if x < 0 then - ((- x) div a) else x div a) * a)"

definition ExpandBitmap :: "('k, 't) fd_ops \<Rightarrow> u64 \<Rightarrow> ('k, 't) fds \<Rightarrow> (bool \<times> ('k, 't) fds) prog" where
  "ExpandBitmap F new_size s =
     (let old_size = m_Size (m_bitmap (f_mgr s)) in
      if new_size \<le> old_size then ret (True, s)
      else if \<not> m_auto_expand (f_mgr s) then ret (False, s)
      else
        bindP (fd_krealloc F (m_Buffer (m_bitmap (f_mgr s))) new_size (f_mem s, tf_kernel (v_tmp (f_vfs s)))) (\<lambda>(p, mem, k).
        let s = s\<lparr>f_mem := mem, f_vfs := (f_vfs s)\<lparr>v_tmp := (v_tmp (f_vfs s))\<lparr>tf_kernel := k\<rparr>\<rparr>\<rparr> in
        if p = nullptr then ret (False, s)
        else ret (True, s\<lparr>f_mem := fast_memset mem (p + old_size) 0 (drop_bit 3 (new_size - old_size)),
                          f_mgr := (f_mgr s)\<lparr>m_bitmap := \<lparr>m_Size = new_size, m_Buffer = p\<rparr>\<rparr>\<rparr>)))"

text \<open>The first index below \<open>n\<close> whose bit is clear, from \<open>i\<close> on.\<close>

primrec free_bit :: "nat \<Rightarrow> u64 \<Rightarrow> ('k, 't) fds \<Rightarrow> u64 option" where
  "free_bit 0 i s = None"
| "free_bit (Suc n) i s = (if \<not> mgr_bit i s then Some i else free_bit n (i + 1) s)"

definition AllocateFileDescriptor ::
  "('k, 't) fd_ops \<Rightarrow> FileDescriptorType \<Rightarrow> ptr \<Rightarrow> FileDescriptorMode \<Rightarrow> ('k, 't) fds \<Rightarrow> (int \<times> ('k, 't) fds) prog" where
  "AllocateFileDescriptor F ty data mode s =
     bindP (mgr_lock s) (\<lambda>s.
     let sz = m_Size (m_bitmap (f_mgr s)) in
     bindP (case free_bit (unat (mgr_bits s)) 0 s of
              Some i \<Rightarrow> ret (Some (sint i), s)
            | None \<Rightarrow> bindP (ExpandBitmap F (ALIGN_UP (sz + 1) 8) s) (\<lambda>(ok, s). ret (if ok then Some (sint sz) else None, s))) (\<lambda>(r, s).
     case r of
       None \<Rightarrow> ret (- 1, mgr_unlock s)
     | Some ID \<Rightarrow>
         bindP (new_descriptor F ty data mode ID s) (\<lambda>(p, s).
         bindP (deref (f_descs s) p) (\<lambda>d.
         if \<not> m_init_successful d then bindP (delete_descriptor F p (mgr_unlock s)) (\<lambda>s. ret (- 1, s))
         else ret (ID, mgr_unlock (mgr_set (of_int ID) True (mgr_insert p s)))))))"

definition ReserveFileDescriptor ::
  "('k, 't) fd_ops \<Rightarrow> FileDescriptorType \<Rightarrow> ptr \<Rightarrow> FileDescriptorMode \<Rightarrow> int \<Rightarrow> ('k, 't) fds \<Rightarrow> (bool \<times> ('k, 't) fds) prog" where
  "ReserveFileDescriptor F ty data mode ID s =
     bindP (mgr_lock s) (\<lambda>s.
     if sint (mgr_bits s) > ID \<and> mgr_bit (of_int ID) s then ret (False, mgr_unlock s)
     else
       bindP (ExpandBitmap F (of_int (ALIGN_UP_long (ID + 1) 8)) s) (\<lambda>(ok, s).
       if \<not> ok then ret (False, mgr_unlock s)
       else
         bindP (new_descriptor F ty data mode ID s) (\<lambda>(p, s).
         bindP (deref (f_descs s) p) (\<lambda>d.
         if \<not> m_init_successful d then bindP (delete_descriptor F p s) (\<lambda>s. ret (False, mgr_unlock s))
         else ret (True, mgr_unlock (mgr_set (of_int ID) True (mgr_insert p s)))))))"

definition ReserveFileDescriptor_object :: "('k, 't) fd_ops \<Rightarrow> ptr \<Rightarrow> ('k, 't) fds \<Rightarrow> (bool \<times> ('k, 't) fds) prog" where
  "ReserveFileDescriptor_object F p s =
     (if p = nullptr then ret (False, s)
      else
        bindP (deref (f_descs s) p) (\<lambda>d.
        let ID = fd_ID d in
        bindP (mgr_lock s) (\<lambda>s.
        if sint (mgr_bits s) > ID \<and> mgr_bit (of_int ID) s then ret (False, mgr_unlock s)
        else
          bindP (ExpandBitmap F (of_int (ALIGN_UP_long (ID + 1) 8)) s) (\<lambda>(ok, s).
          if \<not> ok then ret (False, mgr_unlock s)
          else ret (True, mgr_unlock (mgr_set (of_int ID) True (mgr_insert p s)))))))"

fun find_descriptor :: "int \<Rightarrow> ptr list \<Rightarrow> (ptr \<rightharpoonup> FileDescriptor) \<Rightarrow> ptr prog" where
  "find_descriptor ID [] m = ret nullptr"
| "find_descriptor ID (p # ps) m =
     (if p = nullptr then ret nullptr
      else bindP (deref m p) (\<lambda>d. if fd_ID d = ID then ret p else find_descriptor ID ps m))"

definition GetFileDescriptor :: "int \<Rightarrow> ('k, 't) fds \<Rightarrow> (ptr \<times> ('k, 't) fds) prog" where
  "GetFileDescriptor ID s =
     bindP (mgr_lock s) (\<lambda>s.
     if ID \<ge> sint (mgr_bits s) then ret (nullptr, mgr_unlock s)
     else bindP (find_descriptor ID (m_descriptors (f_mgr s)) (f_descs s)) (\<lambda>p. ret (p, mgr_unlock s)))"

text \<open>\<open>UnreserveFileDescriptor\<close> and \<open>FreeFileDescriptor\<close> have the same body.\<close>

definition FreeFileDescriptor :: "int \<Rightarrow> ('k, 't) fds \<Rightarrow> (bool \<times> ('k, 't) fds) prog" where
  "FreeFileDescriptor ID s =
     bindP (GetFileDescriptor ID s) (\<lambda>(p, s).
     if p = nullptr then ret (False, s)
     else bindP (mgr_lock s) (\<lambda>s. ret (True, mgr_unlock (mgr_set (of_int ID) False (mgr_remove p s)))))"

definition UnreserveFileDescriptor :: "int \<Rightarrow> ('k, 't) fds \<Rightarrow> (bool \<times> ('k, 't) fds) prog" where
  "UnreserveFileDescriptor ID s =
     bindP (GetFileDescriptor ID s) (\<lambda>(p, s).
     if p = nullptr then ret (False, s)
     else bindP (mgr_lock s) (\<lambda>s. ret (True, mgr_unlock (mgr_set (of_int ID) False (mgr_remove p s)))))"

fun unlock_each :: "ptr list \<Rightarrow> (ptr \<rightharpoonup> FileDescriptor) \<Rightarrow> (ptr \<rightharpoonup> FileDescriptor) prog" where
  "unlock_each [] m = ret m"
| "unlock_each (p # ps) m =
     (if p = nullptr then unlock_each ps m
      else bindP (deref m p) (\<lambda>d. unlock_each ps (m(p \<mapsto> FileDescriptor_ForceUnlock d))))"

definition FileDescriptorManager_ForceUnlock :: "('k, 't) fds \<Rightarrow> ('k, 't) fds prog" where
  "FileDescriptorManager_ForceUnlock s =
     bindP (mgr_lock s) (\<lambda>s.
     bindP (unlock_each (m_descriptors (f_mgr s)) (f_descs s)) (\<lambda>m. ret (mgr_unlock (s\<lparr>f_descs := m\<rparr>))))"

section \<open>Files of the kernel\<close>

text \<open>What a transfer of zero bytes returns.\<close>

definition zero_result :: "int \<Rightarrow> int option \<Rightarrow> int" where
  "zero_result rc status = (if rc = 0 then let st = (case status of None \<Rightarrow> 0 | Some x \<Rightarrow> x) in if st = - EINVAL then EOF else st else rc)"

definition internal_read :: "('k, 't) fd_ops \<Rightarrow> int \<Rightarrow> u8 list option \<Rightarrow> u64 \<Rightarrow> ('k, 't) fds \<Rightarrow> ((int \<times> u8 list option) \<times> ('k, 't) fds) prog" where
  "internal_read F file data sz s =
     (if data = None then ret ((- EFAULT, data), s)
      else if sz = 0 then ret ((- EINVAL, data), s)
      else
        bindP (GetFileDescriptor file s) (\<lambda>(p, s).
        if p = nullptr then ret ((- EBADF, data), s)
        else bindP (FileDescriptor_Read F p data (sint sz) s) (\<lambda>((rc, st, data), s). ret ((zero_result rc st, data), s))))"

definition internal_write :: "('k, 't) fd_ops \<Rightarrow> int \<Rightarrow> u8 list option \<Rightarrow> u64 \<Rightarrow> ('k, 't) fds \<Rightarrow> (int \<times> ('k, 't) fds) prog" where
  "internal_write F file data sz s =
     (if data = None then ret (- EFAULT, s)
      else if sz = 0 then ret (- EINVAL, s)
      else
        bindP (GetFileDescriptor file s) (\<lambda>(p, s).
        if p = nullptr then ret (- EBADF, s)
        else bindP (FileDescriptor_Write F p data (sint sz) s) (\<lambda>((rc, st), s). ret (zero_result rc st, s))))"

abbreviation (input) O_READ :: u64 where "O_READ \<equiv> 1"
abbreviation (input) O_WRITE :: u64 where "O_WRITE \<equiv> 2"
abbreviation (input) O_CREATE :: u64 where "O_CREATE \<equiv> 4"
abbreviation (input) O_APPEND :: u64 where "O_APPEND \<equiv> 8"

definition open_modes :: "u64 \<Rightarrow> (FileDescriptorMode \<times> u8) option" where
  "open_modes mode =
     (if mode = O_READ then Some (FDM_READ, VFS_READ)
      else if mode = O_APPEND then Some (FDM_APPEND, VFS_WRITE)
      else if mode = O_WRITE then Some (FDM_WRITE, VFS_WRITE)
      else if mode = O_READ OR O_WRITE then Some (FDM_READ_WRITE, VFS_READ OR VFS_WRITE)
      else None)"

text \<open>A path cut after its last separator.\<close>

definition split_path :: "string \<Rightarrow> (string \<times> string) option" where
  "split_path path =
     (if PATH_SEPARATOR \<in> set path
      then Some (rev (dropWhile (\<lambda>c. c \<noteq> PATH_SEPARATOR) (rev path)), rev (takeWhile (\<lambda>c. c \<noteq> PATH_SEPARATOR) (rev path)))
      else None)"

definition kernel_privilege :: FilePrivilegeLevel where
  "kernel_privilege = \<lparr>UID = 0, GID = 0, ACL = 0xFFF\<rparr>"

definition file_privilege :: FilePrivilegeLevel where
  "file_privilege = \<lparr>UID = 0, GID = 0, ACL = 0x1A4\<rparr>"

text \<open>The file that does not exist yet, in the folder before the last separator.\<close>

definition open_create :: "('k, 't) fd_ops \<Rightarrow> string option \<Rightarrow> 'k vfs \<Rightarrow> (int \<times> 'k vfs) prog" where
  "open_create F path v =
     (let A = fd_fs F; create = (\<lambda>parent name. VFS_CreateFile A kernel_privilege (Some parent) name 0 False file_privilege) in
      case Option.bind path split_path of
        None \<Rightarrow> create ''/'' path v
      | Some (parent, child) \<Rightarrow>
          bindP (kernel_call (fs_kmalloc A (of_nat (length parent) + 1)) (v_tmp v)) (\<lambda>(p, t).
          if p = nullptr then stop NullDeref
          else
            bindP (IsValidPath A (Some parent) None (v\<lparr>v_tmp := t\<rparr>)) (\<lambda>((ok, _), v).
            bindP (if ok then create parent (Some child) v else ret (- ENOENT, v)) (\<lambda>(rc, v).
            bindP (kernel_do (fs_kfree A p) (v_tmp v)) (\<lambda>t. ret (rc, v\<lparr>v_tmp := t\<rparr>))))))"

text \<open>\<open>Open\<close> returns zero for success, which the test takes for a failure.\<close>

definition open_descriptor :: "('k, 't) fd_ops \<Rightarrow> int \<Rightarrow> ptr \<Rightarrow> ('k, 't) fds \<Rightarrow> (int \<times> ('k, 't) fds) prog" where
  "open_descriptor F fd stream s =
     bindP (GetFileDescriptor fd s) (\<lambda>(p, s).
     if p = nullptr then
       bindP (FreeFileDescriptor fd s) (\<lambda>(_, s).
       bindP (vfs_call (CloseStream (fd_fs F) stream) s) (\<lambda>_. stop (AssertFailed ''false'')))
     else
       bindP (FileDescriptor_Open F p s) (\<lambda>(rc, s).
       if rc = 0 then stop (AssertFailed ''false'') else ret (fd, s)))"

definition internal_open :: "('k, 't) fd_ops \<Rightarrow> string option \<Rightarrow> u64 \<Rightarrow> ('k, 't) fds \<Rightarrow> (int \<times> ('k, 't) fds) prog" where
  "internal_open F path mode s =
     (let create = mode AND O_CREATE \<noteq> 0 in
      case open_modes (mode AND NOT O_CREATE) of
        None \<Rightarrow> ret (- EINVAL, s)
      | Some (new_mode, vfs_modes) \<Rightarrow>
          bindP (vfs_call (IsValidPath (fd_fs F) path None) s) (\<lambda>((valid_path, _), s).
          bindP (if valid_path then ret (ESUCCESS, s) else if create then vfs_call (open_create F path) s else ret (- ENOENT, s)) (\<lambda>(rc, s).
          if rc \<noteq> ESUCCESS then ret (rc, s)
          else
            bindP (vfs_call (OpenStream (fd_fs F) kernel_privilege path vfs_modes None) s) (\<lambda>((stream, st), s).
            if stream = nullptr then ret (case st of None \<Rightarrow> 0 | Some x \<Rightarrow> x, s)
            else
              bindP (AllocateFileDescriptor F FILE_STREAM stream new_mode s) (\<lambda>(fd, s).
              if fd < 0 then bindP (vfs_call (CloseStream (fd_fs F) stream) s) (\<lambda>(_, s). ret (- ENOMEM, s))
              else open_descriptor F fd stream s)))))"

text \<open>Closing deletes the stream without taking it out of the list of the virtual file system.\<close>

definition internal_close :: "('k, 't) fd_ops \<Rightarrow> int \<Rightarrow> ('k, 't) fds \<Rightarrow> (int \<times> ('k, 't) fds) prog" where
  "internal_close F file s =
     bindP (GetFileDescriptor file s) (\<lambda>(p, s).
     if p = nullptr then ret (- EBADF, s)
     else
       bindP (FileDescriptor_Close F p s) (\<lambda>(_, s).
       bindP (deref (f_descs s) p) (\<lambda>d.
       bindP (if fd_type d = FILE_STREAM \<and> FileDescriptor_GetData d \<noteq> nullptr
              then vfs_call (\<lambda>v. bindP (delete_stream (fd_fs F) (FileDescriptor_GetData d) v) (\<lambda>v. ret ((), v))) s else ret ((), s)) (\<lambda>(_, s).
       bindP (FreeFileDescriptor file s) (\<lambda>(_, s).
       bindP (delete_descriptor F p s) (\<lambda>s. ret (ESUCCESS, s)))))))"

definition internal_seek :: "('k, 't) fd_ops \<Rightarrow> int \<Rightarrow> int \<Rightarrow> ('k, 't) fds \<Rightarrow> (int \<times> ('k, 't) fds) prog" where
  "internal_seek F file offset s =
     bindP (GetFileDescriptor file s) (\<lambda>(p, s).
     if p = nullptr then ret (- EBADF, s)
     else if offset < 0 then ret (- EINVAL, s)
     else bindP (FileDescriptor_Seek F p offset s) (\<lambda>(rc, s). ret (if rc \<noteq> ESUCCESS then rc else offset, s)))"

end
