(* ===== verification/FileDescriptorCorrect.thy ===== *)
theory FileDescriptorCorrect
  imports FileDescriptorManager VFSCorrect
begin

text \<open>
  The table of descriptors as a map from numbers to objects: what allocating and freeing a number do to it, and where the code departs
  from what it means to do.
\<close>

section \<open>The table as a map\<close>

abbreviation (input) mgr_size :: "('k, 't) fds \<Rightarrow> nat" where
  "mgr_size s \<equiv> unat (m_Size (m_bitmap (f_mgr s)))"

definition id_at :: "(ptr \<rightharpoonup> FileDescriptor) \<Rightarrow> ptr \<Rightarrow> int" where
  "id_at m p = fd_ID (the (m p))"

definition mgr_ok :: "('k, 't) fds \<Rightarrow> bool" where
  "mgr_ok s \<longleftrightarrow> \<not> fm_lock (f_mgr s) \<and> mgr_size s < 2 ^ 59 \<and> nullptr \<notin> set (m_descriptors (f_mgr s)) \<and>
     set (m_descriptors (f_mgr s)) \<subseteq> dom (f_descs s) \<and> distinct (map (id_at (f_descs s)) (m_descriptors (f_mgr s))) \<and>
     id_at (f_descs s) ` set (m_descriptors (f_mgr s)) = int ` used_slots (f_mem s) (m_bitmap (f_mgr s)) (8 * mgr_size s)"

primrec lookup_id :: "ptr list \<Rightarrow> (ptr \<rightharpoonup> FileDescriptor) \<Rightarrow> int \<Rightarrow> ptr" where
  "lookup_id [] m ID = nullptr"
| "lookup_id (p # ps) m ID = (if id_at m p = ID then p else lookup_id ps m ID)"

abbreviation mgr_lookup :: "('k, 't) fds \<Rightarrow> int \<Rightarrow> ptr" where
  "mgr_lookup s \<equiv> lookup_id (m_descriptors (f_mgr s)) (f_descs s)"

lemma unat_bits: "unat (push_bit 3 x) = 8 * unat x" if "unat x < 2 ^ 59" for x :: u64
  using that by (simp add: push_bit_eq_mult unat_mult64)

lemma sint_small: "sint x = int (unat x)" if "unat x < 2 ^ 63" for x :: u64
proof -
  have "int (unat x) < 2 ^ 63" using that by (metis of_nat_less_iff of_nat_numeral of_nat_power)
  then have "sint (of_int (int (unat x)) :: u64) = int (unat x)" by (intro sint_of_int64) simp_all
  then show ?thesis by simp
qed

lemma sint_bits: "sint (push_bit 3 x) = int (8 * unat x)" if "unat x < 2 ^ 59" for x :: u64
  using that by (subst sint_small) (simp_all add: unat_bits)

lemma mgr_lock_free [simp]: "\<not> fm_lock (f_mgr s) \<Longrightarrow> mgr_lock s = ret (s\<lparr>f_mgr := (f_mgr s)\<lparr>fm_lock := True\<rparr>\<rparr>)"
  by (simp add: mgr_lock_def)

lemma mgr_unlock_lock [simp]: "\<not> fm_lock (f_mgr s) \<Longrightarrow> mgr_unlock (s\<lparr>f_mgr := (f_mgr s)\<lparr>fm_lock := True\<rparr>\<rparr>) = s"
  by (simp add: mgr_unlock_def)

lemma find_descriptor_lookup:
  "nullptr \<notin> set ps \<Longrightarrow> set ps \<subseteq> dom m \<Longrightarrow> find_descriptor ID ps m = ret (lookup_id ps m ID)"
  by (induction ps) (auto simp: id_at_def)

lemma lookup_absent: "ID \<notin> id_at m ` set ps \<Longrightarrow> lookup_id ps m ID = nullptr"
  by (induction ps) auto

lemma lookup_present: "ID \<in> id_at m ` set ps \<Longrightarrow> lookup_id ps m ID \<in> set ps \<and> id_at m (lookup_id ps m ID) = ID"
  by (induction ps) auto

lemma id_at_upd: "id_at (m(p \<mapsto> d)) q = (if q = p then fd_ID d else id_at m q)"
  by (simp add: id_at_def)

lemma lookup_snoc:
  "p \<notin> set ps \<Longrightarrow> lookup_id (ps @ [p]) (m(p \<mapsto> d)) ID = (if ID \<in> id_at m ` set ps then lookup_id ps m ID else if ID = fd_ID d then p else nullptr)"
  by (induction ps) (auto simp: id_at_upd)

lemma mgr_okD:
  assumes "mgr_ok s"
  shows "\<not> fm_lock (f_mgr s)" "mgr_size s < 2 ^ 59" "nullptr \<notin> set (m_descriptors (f_mgr s))" "set (m_descriptors (f_mgr s)) \<subseteq> dom (f_descs s)"
    "id_at (f_descs s) ` set (m_descriptors (f_mgr s)) = int ` used_slots (f_mem s) (m_bitmap (f_mgr s)) (8 * mgr_size s)"
    "distinct (map (id_at (f_descs s)) (m_descriptors (f_mgr s)))"
  using assms unfolding mgr_ok_def by blast+

lemma GetFileDescriptor_lookup:
  assumes "mgr_ok s"
  shows "GetFileDescriptor ID s = ret (mgr_lookup s ID, s)"
proof -
  have "mgr_lookup s ID = nullptr" if "ID \<ge> int (8 * mgr_size s)"
  proof (rule lookup_absent)
    have "ID \<noteq> int k" if "k \<in> used_slots (f_mem s) (m_bitmap (f_mgr s)) (8 * mgr_size s)" for k
    proof -
      have "int k < int (8 * mgr_size s)" using that unfolding used_slots_def by (simp only: mem_Collect_eq of_nat_less_iff)
      then show ?thesis using \<open>ID \<ge> int (8 * mgr_size s)\<close> by linarith
    qed
    then show "ID \<notin> id_at (f_descs s) ` set (m_descriptors (f_mgr s))" unfolding mgr_okD(5) [OF assms] by blast
  qed
  moreover have "GetFileDescriptor ID s = ret (if ID \<ge> sint (mgr_bits s) then nullptr else mgr_lookup s ID, s)"
    using find_descriptor_lookup [OF mgr_okD(3,4) [OF assms], of ID] mgr_okD(1) [OF assms] by (simp add: GetFileDescriptor_def)
  ultimately show ?thesis unfolding sint_bits [OF mgr_okD(2) [OF assms]] by presburger
qed

section \<open>Free numbers\<close>

lemma of_nat_next: "(of_nat (Suc i) :: u64) = of_nat i + 1"
  by simp

lemma free_bit_found:
  assumes "\<not> mgr_bit (of_nat k) s" and "\<forall>j. i \<le> j \<and> j < k \<longrightarrow> mgr_bit (of_nat j) s" and "i \<le> k" "k < i + n"
  shows "free_bit n (of_nat i) s = Some (of_nat k)"
  using assms
proof (induction n arbitrary: i)
  case (Suc n)
  show ?case
  proof (cases "i = k")
    case False
    then have "i < k" using Suc.prems(3) by linarith
    then have "free_bit n (of_nat (Suc i)) s = Some (of_nat k)" using Suc.prems by (intro Suc.IH) auto
    moreover have "mgr_bit (of_nat i) s" using Suc.prems(2) \<open>i < k\<close> by blast
    ultimately show ?thesis by (simp only: free_bit.simps of_nat_next simp_thms if_False)
  qed (use Suc.prems in \<open>simp only: free_bit.simps simp_thms if_True\<close>)
qed simp

lemma free_bit_full:
  assumes "\<forall>j. i \<le> j \<and> j < i + n \<longrightarrow> mgr_bit (of_nat j) s"
  shows "free_bit n (of_nat i) s = None"
  using assms
proof (induction n arbitrary: i)
  case (Suc n)
  have "free_bit n (of_nat (Suc i)) s = None" using Suc.prems by (intro Suc.IH) auto
  moreover have "mgr_bit (of_nat i) s" using Suc.prems [rule_format, of i] by simp
  ultimately show ?case by (simp only: free_bit.simps of_nat_next simp_thms if_False)
qed simp

lemma mgr_bit_lock [simp]: "mgr_bit i (s\<lparr>f_mgr := (f_mgr s)\<lparr>fm_lock := l\<rparr>\<rparr>) = mgr_bit i s"
  by (simp add: mgr_bit_def)

section \<open>Allocation\<close>

definition file_desc :: "ptr \<Rightarrow> FileDescriptorMode \<Rightarrow> int \<Rightarrow> FileDescriptor" where
  "file_desc data mode ID = \<lparr>m_TTY = nullptr, m_Stream = data, m_is_open = False, fd_type = FILE_STREAM, fd_mode = mode, fd_ID = ID,
     m_init_successful = True, fd_lock = False\<rparr>"

definition kernel_put :: "'k \<Rightarrow> ('k, 't) fds \<Rightarrow> ('k, 't) fds" where
  "kernel_put k s = s\<lparr>f_vfs := (f_vfs s)\<lparr>v_tmp := (v_tmp (f_vfs s))\<lparr>tf_kernel := k\<rparr>\<rparr>\<rparr>"

lemma kernel_put_fields [simp]:
  "f_descs (kernel_put k s) = f_descs s" "f_mgr (kernel_put k s) = f_mgr s" "f_mem (kernel_put k s) = f_mem s"
  "v_files (f_vfs (kernel_put k s)) = v_files (f_vfs s)"
  by (simp_all add: kernel_put_def)

text \<open>The state in which the number \<open>i\<close> names the new descriptor \<open>d\<close> at \<open>p\<close>.\<close>

definition allocated :: "nat \<Rightarrow> ptr \<Rightarrow> FileDescriptor \<Rightarrow> ('k, 't) fds \<Rightarrow> ('k, 't) fds" where
  "allocated i p d s = s\<lparr>f_descs := (f_descs s)(p \<mapsto> d), f_mgr := (f_mgr s)\<lparr>m_descriptors := m_descriptors (f_mgr s) @ [p]\<rparr>,
     f_mem := Bitmap_Set (f_mem s) (m_bitmap (f_mgr s)) (of_nat i) True\<rparr>"

lemma allocated_fields [simp]:
  "f_descs (allocated i p d s) = (f_descs s)(p \<mapsto> d)" "m_descriptors (f_mgr (allocated i p d s)) = m_descriptors (f_mgr s) @ [p]"
  "m_bitmap (f_mgr (allocated i p d s)) = m_bitmap (f_mgr s)" "fm_lock (f_mgr (allocated i p d s)) = fm_lock (f_mgr s)"
  "f_mem (allocated i p d s) = Bitmap_Set (f_mem s) (m_bitmap (f_mgr s)) (of_nat i) True" "f_vfs (allocated i p d s) = f_vfs s"
  by (simp_all add: allocated_def)

lemma new_descriptor_file:
  assumes "fs_new (fd_fs F) (tf_kernel (v_tmp (f_vfs s))) = ret (p, k)" "p \<noteq> nullptr"
  shows "new_descriptor F FILE_STREAM data mode ID s = ret (p, (kernel_put k s)\<lparr>f_descs := (f_descs s)(p \<mapsto> file_desc data mode ID)\<rparr>)"
  using assms by (simp add: new_descriptor_def kernel_call_def FileDescriptor_make_def FileDescriptor_empty_def file_desc_def kernel_put_def Let_def)

lemma sint_of_nat_small: "i < 2 ^ 63 \<Longrightarrow> sint (of_nat i :: u64) = int i"
  by (subst sint_small) (simp_all add: unat_of_nat64)

text \<open>What follows the choice of the number.\<close>

lemma allocate_number:
  assumes "fs_new (fd_fs F) (tf_kernel (v_tmp (f_vfs s))) = ret (p, k)" "p \<noteq> nullptr" "\<not> fm_lock (f_mgr s)"
  shows "bindP (new_descriptor F FILE_STREAM data mode (int i) (s\<lparr>f_mgr := (f_mgr s)\<lparr>fm_lock := True\<rparr>\<rparr>)) (\<lambda>(p, s).
      bindP (deref (f_descs s) p) (\<lambda>d.
      if \<not> m_init_successful d then bindP (delete_descriptor F p (mgr_unlock s)) (\<lambda>s. ret (- 1, s))
      else ret (int i, mgr_unlock (mgr_set (of_int (int i)) True (mgr_insert p s))))) =
    ret (int i, allocated i p (file_desc data mode (int i)) (kernel_put k s))"
  using assms by (simp add: new_descriptor_file file_desc_def mgr_unlock_def mgr_set_def mgr_insert_def allocated_def kernel_put_def)

lemma AllocateFileDescriptor_free:
  assumes ok: "mgr_ok s" and i: "i < 8 * mgr_size s" "\<not> mgr_bit (of_nat i) s" "\<forall>j<i. mgr_bit (of_nat j) s"
    and new: "fs_new (fd_fs F) (tf_kernel (v_tmp (f_vfs s))) = ret (p, k)" "p \<noteq> nullptr"
  shows "AllocateFileDescriptor F FILE_STREAM data mode s = ret (int i, allocated i p (file_desc data mode (int i)) (kernel_put k s))"
proof -
  let ?s = "s\<lparr>f_mgr := (f_mgr s)\<lparr>fm_lock := True\<rparr>\<rparr>"
  have "free_bit (8 * mgr_size s) (of_nat 0) ?s = Some (of_nat i)" using i by (intro free_bit_found) simp_all
  then have f: "free_bit (unat (mgr_bits ?s)) 0 ?s = Some (of_nat i)" by (simp add: unat_bits [OF mgr_okD(2) [OF ok]])
  have "sint (of_nat i :: u64) = int i" using i(1) mgr_okD(2) [OF ok] by (intro sint_of_nat_small) simp
  then show ?thesis
    unfolding AllocateFileDescriptor_def mgr_lock_free [OF mgr_okD(1) [OF ok]] bindP_ret Let_def f
    by (simp only: option.case bindP_ret prod.case allocate_number [OF new mgr_okD(1) [OF ok]])
qed

lemma number_unused:
  assumes "mgr_ok s" "\<not> mgr_bit (of_nat i) s"
  shows "int i \<notin> id_at (f_descs s) ` set (m_descriptors (f_mgr s))"
  unfolding mgr_okD(5) [OF assms(1)] using assms(2) by (simp add: inj_image_mem_iff used_slots_def mgr_bit_def)

lemma lookup_allocated:
  assumes "mgr_ok s" "\<not> mgr_bit (of_nat i) s" "p \<notin> dom (f_descs s)" "fd_ID d = int i"
  shows "mgr_lookup (allocated i p d s) ID = (if ID = int i then p else mgr_lookup s ID)"
  using number_unused [OF assms(1,2)] mgr_okD(4) [OF assms(1)] assms(3,4) by (subst allocated_fields lookup_snoc; auto simp: lookup_absent)+

lemma mgr_ok_allocated:
  assumes ok: "mgr_ok s" and i: "i < 8 * mgr_size s" "\<not> mgr_bit (of_nat i) s" and p: "p \<noteq> nullptr" "p \<notin> dom (f_descs s)" "fd_ID d = int i"
  shows "mgr_ok (allocated i p d s)"
proof -
  have sub: "p \<notin> set (m_descriptors (f_mgr s))" using mgr_okD(4) [OF ok] p by blast
  have ids: "id_at ((f_descs s)(p \<mapsto> d)) ` set (m_descriptors (f_mgr s)) = id_at (f_descs s) ` set (m_descriptors (f_mgr s))"
    "map (id_at ((f_descs s)(p \<mapsto> d))) (m_descriptors (f_mgr s)) = map (id_at (f_descs s)) (m_descriptors (f_mgr s))"
    using sub by (auto simp: id_at_upd intro!: image_cong)
  have u: "used_slots (Bitmap_Set (f_mem s) (m_bitmap (f_mgr s)) (of_nat i) True) (m_bitmap (f_mgr s)) (8 * mgr_size s) =
      insert i (used_slots (f_mem s) (m_bitmap (f_mgr s)) (8 * mgr_size s))"
    using i(1) mgr_okD(2) [OF ok] by (intro used_slots_Set_True slot_in_range) simp_all
  show ?thesis using number_unused [OF ok i(2)] mgr_okD [OF ok] p unfolding mgr_ok_def by (simp add: ids u) (auto simp: id_at_upd)
qed

section \<open>Growing the table\<close>

lemma GetFileDescriptor_below:
  assumes "\<not> fm_lock (f_mgr s)" "mgr_size s < 2 ^ 59" "nullptr \<notin> set (m_descriptors (f_mgr s))" "set (m_descriptors (f_mgr s)) \<subseteq> dom (f_descs s)"
    and "ID < int (8 * mgr_size s)"
  shows "GetFileDescriptor ID s = ret (mgr_lookup s ID, s)"
  using assms(1,5) find_descriptor_lookup [OF assms(3,4), of ID] by (simp add: GetFileDescriptor_def sint_bits [OF assms(2)] del: of_nat_mult)

definition expanded :: "u64 \<Rightarrow> ptr \<Rightarrow> memory \<Rightarrow> ('k, 't) fds \<Rightarrow> ('k, 't) fds" where
  "expanded n q mem s = s\<lparr>f_mem := fast_memset mem (q + m_Size (m_bitmap (f_mgr s))) 0 (drop_bit 3 (n - m_Size (m_bitmap (f_mgr s)))),
     f_mgr := (f_mgr s)\<lparr>m_bitmap := \<lparr>m_Size = n, m_Buffer = q\<rparr>\<rparr>\<rparr>"

lemma expanded_fields [simp]:
  "f_descs (expanded n q mem s) = f_descs s" "m_descriptors (f_mgr (expanded n q mem s)) = m_descriptors (f_mgr s)"
  "m_bitmap (f_mgr (expanded n q mem s)) = \<lparr>m_Size = n, m_Buffer = q\<rparr>" "fm_lock (f_mgr (expanded n q mem s)) = fm_lock (f_mgr s)"
  "f_vfs (expanded n q mem s) = f_vfs s"
  by (simp_all add: expanded_def)

lemma ExpandBitmap_grows:
  assumes "fd_krealloc F (m_Buffer (m_bitmap (f_mgr s))) n (f_mem s, tf_kernel (v_tmp (f_vfs s))) = ret (q, mem, k)" "q \<noteq> nullptr"
    and "m_Size (m_bitmap (f_mgr s)) < n" "m_auto_expand (f_mgr s)"
  shows "ExpandBitmap F n (s\<lparr>f_mgr := (f_mgr s)\<lparr>fm_lock := l\<rparr>\<rparr>) =
    ret (True, (expanded n q mem (kernel_put k s))\<lparr>f_mgr := (f_mgr (expanded n q mem s))\<lparr>fm_lock := l\<rparr>\<rparr>)"
  using assms by (simp add: ExpandBitmap_def expanded_def kernel_put_def Let_def not_le)

lemma AllocateFileDescriptor_full:
  assumes ok: "mgr_ok s" and full: "\<forall>j < 8 * mgr_size s. mgr_bit (of_nat j) s" and auto: "m_auto_expand (f_mgr s)" "mgr_size s + 8 < 2 ^ 59"
    and re: "fd_krealloc F (m_Buffer (m_bitmap (f_mgr s))) n (f_mem s, tf_kernel (v_tmp (f_vfs s))) = ret (q, mem, k)" "q \<noteq> nullptr"
      "n = ALIGN_UP (m_Size (m_bitmap (f_mgr s)) + 1) 8"
    and new: "fs_new (fd_fs F) k = ret (p, k')" "p \<noteq> nullptr"
  shows "AllocateFileDescriptor F FILE_STREAM data mode s =
    ret (int (mgr_size s), allocated (mgr_size s) p (file_desc data mode (int (mgr_size s))) (kernel_put k' (expanded n q mem (kernel_put k s))))"
    and "mgr_size s < unat n" "unat n < 2 ^ 59"
proof -
  let ?s = "s\<lparr>f_mgr := (f_mgr s)\<lparr>fm_lock := True\<rparr>\<rparr>" and ?t = "expanded n q mem (kernel_put k s)"
  have sz: "unat (m_Size (m_bitmap (f_mgr s)) + 1) = mgr_size s + 1" using auto(2) by (subst unat_add64) simp_all
  have "unat (m_Size (m_bitmap (f_mgr s)) + 1) \<le> unat n" "unat n < unat (m_Size (m_bitmap (f_mgr s)) + 1) + unat (8 :: u64)"
    unfolding re(3) using auto(2) sz by (intro ALIGN_UP_bounds; simp)+
  then show n: "mgr_size s < unat n" "unat n < 2 ^ 59" using sz auto(2) by simp_all
  have "free_bit (8 * mgr_size s) (of_nat 0) ?s = None" using full by (intro free_bit_full) simp
  then have f: "free_bit (unat (mgr_bits s)) 0 ?s = None" by (simp add: unat_bits [OF mgr_okD(2) [OF ok]])
  have e: "ExpandBitmap F n ?s = ret (True, ?t\<lparr>f_mgr := (f_mgr ?t)\<lparr>fm_lock := True\<rparr>\<rparr>)"
    using ExpandBitmap_grows [OF re(1,2) _ auto(1)] n(1) by (simp add: word_less_nat_alt expanded_def kernel_put_def)
  have id: "sint (m_Size (m_bitmap (f_mgr s))) = int (mgr_size s)" using mgr_okD(2) [OF ok] by (intro sint_small) simp
  have t: "fs_new (fd_fs F) (tf_kernel (v_tmp (f_vfs ?t))) = ret (p, k')" "\<not> fm_lock (f_mgr ?t)"
    using new mgr_okD(1) [OF ok] by (simp_all add: kernel_put_def)
  have m: "m_Size (m_bitmap (f_mgr ?s)) = m_Size (m_bitmap (f_mgr s))" by simp
  show "AllocateFileDescriptor F FILE_STREAM data mode s =
    ret (int (mgr_size s), allocated (mgr_size s) p (file_desc data mode (int (mgr_size s))) (kernel_put k' ?t))"
    unfolding AllocateFileDescriptor_def mgr_lock_free [OF mgr_okD(1) [OF ok]] bindP_ret Let_def m f re(3) [symmetric] e id
    by (simp only: option.case bindP_ret prod.case e if_True allocate_number [OF t(1) new(2) t(2)])
qed

section \<open>Methods of a descriptor\<close>

lemma mgr_ok_upd:
  assumes "mgr_ok s" "f_descs s p = Some d" "fd_ID d' = fd_ID d" "f_descs s' = (f_descs s)(p \<mapsto> d')" "f_mgr s' = f_mgr s" "f_mem s' = f_mem s"
  shows "mgr_ok s'" "mgr_lookup s' = mgr_lookup s"
proof -
  have i: "id_at (f_descs s') = id_at (f_descs s)" using assms(2-4) by (auto simp: id_at_def)
  have d: "dom (f_descs s') = dom (f_descs s)" using assms(2,4) by auto
  show "mgr_ok s'" using assms(1) unfolding mgr_ok_def i d assms(5,6) .
  have "lookup_id ps m = lookup_id ps m'" if "id_at m = id_at m'" for ps m m' using that by (induction ps) auto
  then show "mgr_lookup s' = mgr_lookup s" unfolding assms(5) using i by blast
qed

lemma with_desc_held: "f_descs s p = Some d \<Longrightarrow> fd_lock d \<Longrightarrow> p \<noteq> nullptr \<Longrightarrow> with_desc p f s = None"
  by (simp add: with_desc_def)

lemma vfs_call_frame: "vfs_call f s = ret (x, s') \<Longrightarrow> f_descs s' = f_descs s \<and> f_mgr s' = f_mgr s \<and> f_mem s' = f_mem s"
  by (auto simp: vfs_call_def bindP_eq_ret)

lemma Read_keeps_lock:
  assumes "FileDescriptor_Read F p buf n s = ret (r, s')" "p \<noteq> nullptr" "f_descs s p = Some d" "fd_type d = FILE_STREAM" "fd_mode d \<in> {FDM_READ, FDM_READ_WRITE}"
  shows "f_descs s' = (f_descs s)(p \<mapsto> d\<lparr>fd_lock := True\<rparr>)" "f_mgr s' = f_mgr s" "f_mem s' = f_mem s"
  using assms by (auto simp: FileDescriptor_Read_def with_desc_def bindP_eq_ret spinlock_acquire_def split: if_splits dest!: vfs_call_frame)

section \<open>Opening\<close>

lemma bindP_elim: "bindP m f = ret x \<Longrightarrow> (\<And>y. f y = ret x \<Longrightarrow> P) \<Longrightarrow> P"
  by (auto simp: bindP_eq_ret)

lemma with_stream_result:
  assumes "with_stream p f v = ret (r, v')" and "\<And>st v st' v1. f st v = ret (r, st', v1) \<Longrightarrow> Q st'"
  shows "\<exists>st. v_files v' p = Some (st\<lparr>st_lock := False\<rparr>) \<and> Q st"
  using assms(1) by (auto simp: with_stream_def bindP_eq_ret dest: assms(2))

lemma FileStream_Open_result:
  assumes "FileStream_Open A p v = ret (rc, v')"
  shows "rc \<le> 0" "rc = ESUCCESS \<Longrightarrow> \<exists>st. v_files v' p = Some st \<and> st_open st \<and> \<not> st_lock st"
proof -
  have "\<exists>st. v_files v' p = Some (st\<lparr>st_lock := False\<rparr>) \<and> rc \<le> 0 \<and> (rc = ESUCCESS \<longrightarrow> st_open st)"
    using assms unfolding FileStream_Open_def
    by (rule with_stream_result) (auto split: if_splits FileSystemType.splits prod.splits elim!: bindP_elim)
  then show "rc \<le> 0" "rc = ESUCCESS \<Longrightarrow> \<exists>st. v_files v' p = Some st \<and> st_open st \<and> \<not> st_lock st" by auto
qed

lemma FileStream_Open_again:
  "v_files v p = Some st \<Longrightarrow> st_open st \<Longrightarrow> \<not> st_lock st \<Longrightarrow> p \<noteq> nullptr \<Longrightarrow> FileStream_Open A p v = ret (ESUCCESS, v\<lparr>v_files := (v_files v)(p \<mapsto> st\<lparr>st_lock := False\<rparr>)\<rparr>)"
  by (simp add: FileStream_Open_def with_stream_def)

lemma OpenStream_result:
  assumes "OpenStream A priv path modes wd v = ret ((p, st), v')"
  shows "if p = nullptr then \<exists>x<0. st = Some x else \<exists>f. v_files v' p = Some f \<and> st_open f \<and> \<not> st_lock f"
  using assms by (auto simp: OpenStream_def bindP_eq_ret split: if_splits dest: FileStream_Open_result)

lemma allocate_needs_memory:
  assumes ok: "mgr_ok s" and i: "i < 8 * mgr_size s" "\<not> mgr_bit (of_nat i) s" and r: "AllocateFileDescriptor F FILE_STREAM data mode s = ret r"
  shows "\<exists>p k j. fs_new (fd_fs F) (tf_kernel (v_tmp (f_vfs s))) = ret (p, k) \<and> p \<noteq> nullptr \<and> j < 8 * mgr_size s \<and> \<not> mgr_bit (of_nat j) s \<and>
    r = (int j, allocated j p (file_desc data mode (int j)) (kernel_put k s))"
proof -
  let ?s = "s\<lparr>f_mgr := (f_mgr s)\<lparr>fm_lock := True\<rparr>\<rparr>"
  define j where "j = (LEAST j. \<not> mgr_bit (of_nat j) s)"
  have j: "\<not> mgr_bit (of_nat j) s" "\<forall>k<j. mgr_bit (of_nat k) s" "j \<le> i"
    unfolding j_def using LeastI [of "\<lambda>j. \<not> mgr_bit (of_nat j) s", OF i(2)] Least_le [of "\<lambda>j. \<not> mgr_bit (of_nat j) s", OF i(2)] by (auto dest: not_less_Least)
  then have j': "j < 8 * mgr_size s" using i(1) by linarith
  have "free_bit (8 * mgr_size s) (of_nat 0) ?s = Some (of_nat j)" using j j' by (intro free_bit_found) simp_all
  then have "free_bit (unat (mgr_bits ?s)) 0 ?s = Some (of_nat j)" by (simp add: unat_bits [OF mgr_okD(2) [OF ok]])
  then obtain p k where new: "fs_new (fd_fs F) (tf_kernel (v_tmp (f_vfs s))) = ret (p, k)" "p \<noteq> nullptr"
    using r mgr_okD(1) [OF ok] by (auto simp: AllocateFileDescriptor_def new_descriptor_def kernel_call_def bindP_eq_ret Let_def split: if_splits)
  then show ?thesis using AllocateFileDescriptor_free [OF ok j' j(1,2) new, of data mode] r j(1) j' by auto
qed

lemma open_descriptor_stops:
  assumes ok: "mgr_ok s" "i < 8 * mgr_size s" "\<not> mgr_bit (of_nat i) s" and p: "p \<noteq> nullptr" "p \<notin> dom (f_descs s)"
    and st: "v_files (f_vfs s) stream = Some f" "st_open f" "\<not> st_lock f" "stream \<noteq> nullptr" "mode \<noteq> FDM_APPEND"
  shows "open_descriptor F (int i) stream (allocated i p (file_desc stream mode (int i)) s) = stop (AssertFailed ''false'')"
proof -
  let ?d = "file_desc stream mode (int i)"
  have ok': "mgr_ok (allocated i p ?d s)" using ok p by (intro mgr_ok_allocated) (simp_all add: file_desc_def)
  have "mgr_lookup (allocated i p ?d s) (int i) = p" using ok p by (subst lookup_allocated) (simp_all add: file_desc_def)
  then have "GetFileDescriptor (int i) (allocated i p ?d s) = ret (p, allocated i p ?d s)" using GetFileDescriptor_lookup [OF ok'] by simp
  then show ?thesis using p st
    by (simp add: open_descriptor_def FileDescriptor_Open_def with_desc_def vfs_call_def file_desc_def FileStream_Open_again)
qed

text \<open>Whatever allocation returns while a number is free, opening the descriptor of an open stream stops.\<close>

lemma open_allocated_stops:
  assumes ok: "mgr_ok s" and i: "i < 8 * mgr_size s" "\<not> mgr_bit (of_nat i) s" and new: "\<And>k p k'. fs_new (fd_fs F) k = ret (p, k') \<Longrightarrow> p \<notin> dom (f_descs s)"
    and st: "\<exists>f. v_files (f_vfs s) stream = Some f \<and> st_open f \<and> \<not> st_lock f" "stream \<noteq> nullptr" "mode \<noteq> FDM_APPEND"
    and r: "bindP (AllocateFileDescriptor F FILE_STREAM stream mode s) (\<lambda>(fd, s).
        if fd < 0 then bindP (vfs_call (CloseStream (fd_fs F) stream) s) (\<lambda>(_, s). ret (- ENOMEM, s)) else open_descriptor F fd stream s) = ret x"
  shows False
proof -
  obtain y where a: "AllocateFileDescriptor F FILE_STREAM stream mode s = ret y" using r by (auto simp: bindP_eq_ret)
  obtain p k j where j: "fs_new (fd_fs F) (tf_kernel (v_tmp (f_vfs s))) = ret (p, k)" "p \<noteq> nullptr" "j < 8 * mgr_size s" "\<not> mgr_bit (of_nat j) s"
    "y = (int j, allocated j p (file_desc stream mode (int j)) (kernel_put k s))" using allocate_needs_memory [OF ok i a] by blast
  obtain f where f: "v_files (f_vfs s) stream = Some f" "st_open f" "\<not> st_lock f" using st(1) by blast
  have t: "mgr_ok (kernel_put k s)" "\<not> mgr_bit (of_nat j) (kernel_put k s)" using ok j(4) by (simp_all add: mgr_ok_def mgr_bit_def)
  have "open_descriptor F (int j) stream (snd y) = stop (AssertFailed ''false'')" unfolding j(5) snd_conv
    using j(2,3) t new [OF j(1)] f st(2,3) by (intro open_descriptor_stops) simp_all
  then show False using r a j(5) by simp
qed

lemma internal_open_error:
  assumes "mgr_ok s" and "i < 8 * unat (m_Size (m_bitmap (f_mgr s)))" and "\<not> mgr_bit (of_nat i) s"
    and "\<And>k p k'. fs_new (fd_fs F) k = ret (p, k') \<Longrightarrow> p \<notin> dom (f_descs s)"
    and "mode = 1 \<or> mode = 2 \<or> mode = 3" and "internal_open F path mode s = ret (fd, s')"
  shows "fd < 0"
proof -
  obtain m w where m: "open_modes (mode AND NOT O_CREATE) = Some (m, w)" "mode AND O_CREATE = 0" "m \<noteq> FDM_APPEND"
    using assms(5) by (auto simp: open_modes_def)
  consider s1 where "fd = - ENOENT" | s1 ok where "vfs_call (IsValidPath (fd_fs F) path None) s = ret (ok, s1)" and
    "bindP (vfs_call (OpenStream (fd_fs F) kernel_privilege path w None) s1) (\<lambda>((stream, st), s).
       if stream = nullptr then ret (case st of None \<Rightarrow> 0 | Some x \<Rightarrow> x, s)
       else bindP (AllocateFileDescriptor F FILE_STREAM stream m s) (\<lambda>(fd, s).
         if fd < 0 then bindP (vfs_call (CloseStream (fd_fs F) stream) s) (\<lambda>(_, s). ret (- ENOMEM, s))
         else open_descriptor F fd stream s)) = ret (fd, s')"
    using assms(6) m by (auto simp: internal_open_def bindP_eq_ret [of "vfs_call (IsValidPath (fd_fs F) path None) s"] split: if_splits)
  then show ?thesis
  proof cases
    case (2 s1 ok)
    obtain stream st s2 where o: "vfs_call (OpenStream (fd_fs F) kernel_privilege path w None) s1 = ret ((stream, st), s2)"
      and r: "(if stream = nullptr then ret (case st of None \<Rightarrow> 0 | Some x \<Rightarrow> x, s2)
       else bindP (AllocateFileDescriptor F FILE_STREAM stream m s2) (\<lambda>(fd, s).
         if fd < 0 then bindP (vfs_call (CloseStream (fd_fs F) stream) s) (\<lambda>(_, s). ret (- ENOMEM, s))
         else open_descriptor F fd stream s)) = ret (fd, s')"
      using 2(2) by (auto simp: bindP_eq_ret)
    have s2: "f_descs s2 = f_descs s" "f_mgr s2 = f_mgr s" "f_mem s2 = f_mem s" using vfs_call_frame [OF 2(1)] vfs_call_frame [OF o] by simp_all
    have "if stream = nullptr then \<exists>x<0. st = Some x else \<exists>f. v_files (f_vfs s2) stream = Some f \<and> st_open f \<and> \<not> st_lock f"
      using o OpenStream_result [of "fd_fs F" kernel_privilege path w None "f_vfs s1" stream st "f_vfs s2"] by (auto simp: vfs_call_def bindP_eq_ret)
    then show ?thesis using r open_allocated_stops [of s2 i F stream m] s2 assms(1-4) m(3)
      by (auto split: if_splits simp: mgr_ok_def mgr_bit_def)
  qed simp
qed

section \<open>A concrete table\<close>

text \<open>The first \<open>n\<close> numbers in use, in a bitmap of one byte.\<close>

definition test_fops :: "(unit, unit) fd_ops" where
  "test_fops = \<lparr>fd_fs = test_ops, fd_krealloc = (\<lambda>_ _ (mem, k). ret (0x6000, mem, k)), tty_getc = (\<lambda>_ t. ret (EOF, t)), tty_putc = (\<lambda>_ _ t. ret t),
     tty_SetCursorPosition = (\<lambda>_ _ t. ret t), tty_AmountOfTextRows = (\<lambda>_ _. ret 25), inode_bytes = (\<lambda>_. replicate 128 0)\<rparr>"

definition test_fds :: "nat \<Rightarrow> u8 \<Rightarrow> (unit, unit) fds" where
  "test_fds n b = \<lparr>f_vfs = test_vfs, f_descs = map_of (map (\<lambda>i. (0x100 + of_nat i, file_desc 0x80 FDM_READ_WRITE (int i))) [0..<n]),
     f_mgr = \<lparr>m_auto_expand = True, m_descriptors = map (\<lambda>i. 0x100 + of_nat i) [0..<n], m_bitmap = \<lparr>m_Size = 1, m_Buffer = 0x5000\<rparr>, fm_lock = False\<rparr>,
     f_mem = (\<lambda>_. b), f_tty = (), f_debug = []\<rparr>"

lemma used_slots_code: "used_slots mem b n = set (filter (\<lambda>k. Bitmap_get mem b (of_nat k)) [0..<n])"
  by (auto simp: used_slots_def)

lemma test_slots:
  "used_slots (\<lambda>_. 0xF0) \<lparr>m_Size = 1, m_Buffer = 0x5000\<rparr> 8 = {0, 1, 2, 3}" "used_slots (\<lambda>_. 0xFF) \<lparr>m_Size = 1, m_Buffer = 0x5000\<rparr> 8 = {0, 1, 2, 3, 4, 5, 6, 7}"
  unfolding used_slots_code by code_simp+

lemma test_fds_ok: "mgr_ok (test_fds 4 0xF0)" "mgr_ok (test_fds 8 0xFF)"
  by (auto simp: mgr_ok_def test_fds_def test_slots upt_rec id_at_def file_desc_def)

lemma test_bits: "j < 8 \<Longrightarrow> mgr_bit (of_nat j) (test_fds n b) \<longleftrightarrow> j \<in> used_slots (\<lambda>_. b) \<lparr>m_Size = 1, m_Buffer = 0x5000\<rparr> 8"
  by (simp add: used_slots_def mgr_bit_def test_fds_def)

lemma test_fds_fields [simp]:
  "m_Size (m_bitmap (f_mgr (test_fds n b))) = 1" "m_auto_expand (f_mgr (test_fds n b))" "f_vfs (test_fds n b) = test_vfs"
  "fs_new (fd_fs test_fops) k = ret (0x9000, k)"
  by (simp_all add: test_fds_def test_fops_def test_ops_def)

lemma test_free:
  "\<not> mgr_bit (of_nat 4) (test_fds 4 0xF0)" "\<forall>j<4. mgr_bit (of_nat j) (test_fds 4 0xF0)" "\<forall>j<8. mgr_bit (of_nat j) (test_fds 8 0xFF)"
proof -
  show "\<not> mgr_bit (of_nat 4) (test_fds 4 0xF0)" using test_bits [of 4 4 "0xF0"] test_slots(1) by simp
  have "j \<in> {0, 1, 2, 3}" if "j < 4" for j :: nat using that by auto
  then show "\<forall>j<4. mgr_bit (of_nat j) (test_fds 4 0xF0)" using test_bits test_slots(1) by simp
  have "j \<in> {0, 1, 2, 3, 4, 5, 6, 7}" if "j < 8" for j :: nat using that by auto
  then show "\<forall>j<8. mgr_bit (of_nat j) (test_fds 8 0xFF)" using test_bits test_slots(2) by simp
qed

lemma test_new: "0x9000 \<notin> dom (f_descs (test_fds 4 b))" "0x9000 \<notin> dom (f_descs (test_fds 8 b))"
  by (simp_all add: test_fds_def upt_rec)

lemma test_read: "\<exists>v. FileStream_ReadStream 0x80 (Some [0, 0]) 2 test_vfs = ret ((0, Some (- EINVAL), Some [0, 0]), v)"
proof -
  define n where "n = with_head \<lparr>CurrentOffset = 0, hd_isOpen = True, currentBlock = nullptr, currentBlockIndex = 0, currentBlockOffset = 0\<rparr>
    (test_inode ''rc'' File [] 0x20)"
  have n: "p_isOpen n" "p_type n = File" "ti_size n = 0" "p_CurrentOffset n = 0" "ti_privilegeLevel n = \<lparr>UID = 5, GID = 6, ACL = 384\<rparr>"
    by (simp_all add: n_def with_head_def SetCurrentHead_def test_inode_def)
  let ?s = "inode_put 0x30 n (v_tmp test_vfs)"
  have "read_loop 2 0 0 [0, 0] n = ret ((0, - EINVAL, [0, 0]), n)" using n by (subst read_loop.simps) simp
  then have "ReadStream 0x30 \<lparr>UID = 5, GID = 1, ACL = 0\<rparr> (Some [0, 0]) 2 ?s = ret ((0, Some (- EINVAL), Some [0, 0]), inode_put 0x30 n ?s)"
    using n by (simp add: ReadStream_def on_target_self [where n = n] access_denied_def)
  from stream_call_on [OF test_stream, folded n_def, of "\<lambda>i. ReadStream i \<lparr>UID = 5, GID = 1, ACL = 0\<rparr> (Some [0, 0]) 2", OF this]
  show ?thesis by (simp add: FileStream_ReadStream_on [OF test_stream] FileStream_make_def)
qed

section \<open>Properties\<close>

text \<open>C15. Allocating a descriptor while a number is free returns the least one; from then on that number names the new descriptor, every other
  number names what it named before, and the table keeps its invariant.\<close>

theorem AllocateFileDescriptor_least:
  assumes "mgr_ok s" and "i < 8 * unat (m_Size (m_bitmap (f_mgr s)))" and "\<not> mgr_bit (of_nat i) s" and "\<forall>j<i. mgr_bit (of_nat j) s"
    and "fs_new (fd_fs F) (tf_kernel (v_tmp (f_vfs s))) = ret (p, k)" and "p \<noteq> nullptr" and "p \<notin> dom (f_descs s)"
  shows "\<exists>s'. AllocateFileDescriptor F FILE_STREAM stream mode s = ret (int i, s') \<and> mgr_ok s' \<and>
    (\<forall>ID. GetFileDescriptor ID s' = ret (if ID = int i then p else mgr_lookup s ID, s')) \<and> f_descs s' p = Some (file_desc stream mode (int i))"
proof -
  let ?d = "file_desc stream mode (int i)" and ?t = "kernel_put k s"
  have t: "mgr_ok ?t" "\<not> mgr_bit (of_nat i) ?t" "p \<notin> dom (f_descs ?t)" "fd_ID ?d = int i"
    using assms by (simp_all add: mgr_ok_def mgr_bit_def file_desc_def)
  have ok: "mgr_ok (allocated i p ?d ?t)" using t assms(2,6) by (intro mgr_ok_allocated) simp_all
  have "GetFileDescriptor ID (allocated i p ?d ?t) = ret (if ID = int i then p else mgr_lookup s ID, allocated i p ?d ?t)" for ID
    unfolding GetFileDescriptor_lookup [OF ok] lookup_allocated [OF t] by simp
  then show ?thesis using AllocateFileDescriptor_free [OF assms(1-6), of stream mode] ok by (intro exI [of _ "allocated i p ?d ?t"]) simp
qed

theorem AllocateFileDescriptor_least_witness:
  "\<exists>s'. AllocateFileDescriptor test_fops FILE_STREAM 0x80 FDM_WRITE (test_fds 4 0xF0) = ret (4, s') \<and> GetFileDescriptor 4 s' = ret (0x9000, s')"
proof -
  have "\<exists>s'. AllocateFileDescriptor test_fops FILE_STREAM 0x80 FDM_WRITE (test_fds 4 0xF0) = ret (int 4, s') \<and> mgr_ok s' \<and>
      (\<forall>ID. GetFileDescriptor ID s' = ret (if ID = int 4 then 0x9000 else mgr_lookup (test_fds 4 0xF0) ID, s')) \<and>
      f_descs s' 0x9000 = Some (file_desc 0x80 FDM_WRITE (int 4))"
    using test_free(1,2) test_new(1) by (intro AllocateFileDescriptor_least [OF test_fds_ok(1), of 4 test_fops "0x9000" "()"]) simp_all
  then show ?thesis by auto
qed

text \<open>C34. When all numbers are in use, the table grows, but the number that is returned is the old size in bytes, which is in use: it still names
  the older descriptor, and the new one cannot be reached.\<close>

theorem full_table_shadows:
  assumes "mgr_ok s" and "\<forall>j < 8 * unat (m_Size (m_bitmap (f_mgr s))). mgr_bit (of_nat j) s" and "m_auto_expand (f_mgr s)"
    and "0 < m_Size (m_bitmap (f_mgr s))" and "unat (m_Size (m_bitmap (f_mgr s))) + 8 < 2 ^ 59"
    and "fd_krealloc F (m_Buffer (m_bitmap (f_mgr s))) (ALIGN_UP (m_Size (m_bitmap (f_mgr s)) + 1) 8) (f_mem s, tf_kernel (v_tmp (f_vfs s))) = ret (q, mem, k)"
    and "q \<noteq> nullptr" and "fs_new (fd_fs F) k = ret (p, k')" and "p \<noteq> nullptr" and "p \<notin> dom (f_descs s)"
  shows "\<exists>s' old. AllocateFileDescriptor F FILE_STREAM stream mode s = ret (uint (m_Size (m_bitmap (f_mgr s))), s') \<and> old \<noteq> p \<and>
    old \<in> set (m_descriptors (f_mgr s)) \<and> GetFileDescriptor (uint (m_Size (m_bitmap (f_mgr s)))) s' = ret (old, s')"
proof -
  let ?n = "unat (m_Size (m_bitmap (f_mgr s)))" and ?m = "ALIGN_UP (m_Size (m_bitmap (f_mgr s)) + 1) 8"
  let ?d = "file_desc stream mode (int ?n)" and ?t = "kernel_put k' (expanded ?m q mem (kernel_put k s))"
  note a = AllocateFileDescriptor_full [OF assms(1-3,5-7) refl assms(8,9)]
  have "?n \<in> used_slots (f_mem s) (m_bitmap (f_mgr s)) (8 * ?n)" using assms(2) [rule_format, of ?n] assms(4) by (simp add: used_slots_def mgr_bit_def word_less_nat_alt)
  then have id: "int ?n \<in> id_at (f_descs s) ` set (m_descriptors (f_mgr s))" unfolding mgr_okD(5) [OF assms(1)] by (rule imageI)
  have p: "p \<notin> set (m_descriptors (f_mgr s))" using mgr_okD(4) [OF assms(1)] assms(10) by blast
  have lt: "int ?n < int (8 * unat ?m)" using a(2) by (simp only: of_nat_less_iff)
  have "GetFileDescriptor (int ?n) (allocated ?n p ?d ?t) = ret (mgr_lookup (allocated ?n p ?d ?t) (int ?n), allocated ?n p ?d ?t)"
    using mgr_okD(1,3,4) [OF assms(1)] a(2,3) assms(9) lt by (intro GetFileDescriptor_below) auto
  also have "mgr_lookup (allocated ?n p ?d ?t) (int ?n) = mgr_lookup s (int ?n)" using id p by (simp add: lookup_snoc del: uint_nat)
  finally show ?thesis using a(1) [of stream mode] lookup_present [OF id] p
    by (intro exI [of _ "allocated ?n p ?d ?t"] exI [of _ "mgr_lookup s (int ?n)"]) auto
qed

theorem full_table_shadows_witness:
  "\<exists>s' old. AllocateFileDescriptor test_fops FILE_STREAM 0x80 FDM_WRITE (test_fds 8 0xFF) = ret (1, s') \<and> old \<noteq> 0x9000 \<and> GetFileDescriptor 1 s' = ret (old, s')"
proof -
  have "\<exists>s' old. AllocateFileDescriptor test_fops FILE_STREAM 0x80 FDM_WRITE (test_fds 8 0xFF) = ret (uint (m_Size (m_bitmap (f_mgr (test_fds 8 0xFF)))), s') \<and>
      old \<noteq> 0x9000 \<and> old \<in> set (m_descriptors (f_mgr (test_fds 8 0xFF))) \<and> GetFileDescriptor (uint (m_Size (m_bitmap (f_mgr (test_fds 8 0xFF))))) s' = ret (old, s')"
    by (rule full_table_shadows [OF test_fds_ok(2), where q = "0x6000" and mem = "f_mem (test_fds 8 0xFF)" and k = "()" and k' = "()"])
      (simp_all add: test_free(3) test_new(2) test_fops_def test_ops_def)
  then show ?thesis by (simp only: test_fds_fields) auto
qed

text \<open>C35. A read through a descriptor of a file stream keeps the lock of the descriptor: the next read, write, seek or close of that number
  never returns.\<close>

theorem read_blocks_file:
  assumes "mgr_ok s" and "mgr_lookup s file = p" and "p \<noteq> nullptr" and "f_descs s p = Some d" and "fd_type d = FILE_STREAM"
    and "fd_mode d = FDM_READ \<or> fd_mode d = FDM_READ_WRITE" and "n \<noteq> 0" and "internal_read F file (Some buf) n s = ret (r, s')" and "m \<noteq> 0" and "0 \<le> offset"
  shows "internal_read F file (Some buf') m s' = None \<and> internal_write F file (Some buf') m s' = None \<and> internal_seek F file offset s' = None \<and>
    internal_close F file s' = None"
proof -
  obtain r' where "FileDescriptor_Read F p (Some buf) (sint n) s = ret (r', s')"
    using assms(1-3,7,8) by (auto simp: internal_read_def GetFileDescriptor_lookup bindP_eq_ret)
  note u = Read_keeps_lock [OF this assms(3-5)]
  have u: "f_descs s' = (f_descs s)(p \<mapsto> d\<lparr>fd_lock := True\<rparr>)" "f_mgr s' = f_mgr s" "f_mem s' = f_mem s" using u assms(6) by auto
  have ok: "mgr_ok s'" "mgr_lookup s' file = p" using mgr_ok_upd [OF assms(1,4) _ u] assms(2) by simp_all
  have l: "f_descs s' p = Some (d\<lparr>fd_lock := True\<rparr>)" using u(1) by simp
  have "with_desc p f s' = None" for f :: "FileDescriptor \<Rightarrow> ('a, 'b) fds \<Rightarrow> ('c \<times> FileDescriptor \<times> ('a, 'b) fds) prog"
    using l assms(3) by (simp add: with_desc_held)
  then show ?thesis using assms(3,9,10) ok l
    by (simp add: internal_read_def internal_write_def internal_seek_def internal_close_def GetFileDescriptor_lookup FileDescriptor_Read_def
        FileDescriptor_Write_def FileDescriptor_Seek_def FileDescriptor_Close_def with_desc_held)
qed

theorem read_blocks_file_witness:
  "\<exists>r s'. internal_read test_fops 0 (Some [0, 0]) 2 (test_fds 4 0xF0) = ret (r, s') \<and> internal_read test_fops 0 (Some [0, 0]) 2 s' = None"
proof -
  let ?s = "test_fds 4 0xF0"
  have d: "mgr_lookup ?s 0 = 0x100" "f_descs ?s 0x100 = Some (file_desc 0x80 FDM_READ_WRITE 0)" by (simp_all add: test_fds_def upt_rec id_at_def file_desc_def)
  obtain r s' where r: "internal_read test_fops 0 (Some [0, 0]) 2 ?s = ret (r, s')"
    using d GetFileDescriptor_lookup [OF test_fds_ok(1), of 0] test_read
    by (auto simp add: internal_read_def FileDescriptor_Read_def with_desc_def file_desc_def vfs_call_def)
  then show ?thesis using read_blocks_file [OF test_fds_ok(1) d(1) _ d(2) _ _ _ r, of 2 0 "[0, 0]"] by (auto simp: file_desc_def)
qed

text \<open>C36. Opening a file for reading or writing never gives a descriptor: the call returns an error or stops at an assertion, since the
  result of opening the descriptor is tested the wrong way round.\<close>

theorem open_never_succeeds:
  assumes "mgr_ok s" and "i < 8 * unat (m_Size (m_bitmap (f_mgr s)))" and "\<not> mgr_bit (of_nat i) s"
    and "\<And>k p k'. fs_new (fd_fs F) k = ret (p, k') \<Longrightarrow> p \<notin> dom (f_descs s)" and "mode = 1 \<or> mode = 2 \<or> mode = 3"
  shows "\<not> (\<exists>fd s'. internal_open F path mode s = ret (fd, s') \<and> 0 \<le> fd)"
  using internal_open_error [OF assms] by force

theorem open_never_succeeds_witness:
  "\<not> (\<exists>fd s'. internal_open test_fops (Some ''/mnt/etc/rc'') 1 (test_fds 4 0xF0) = ret (fd, s') \<and> 0 \<le> fd)"
  using test_new(1) by (intro open_never_succeeds [OF test_fds_ok(1) _ test_free(1)]) auto

end
