(* ===== verification/PageManager.thy ===== *)
theory PageManager
  imports VirtualPages PageTables
begin

text \<open>
  Page managers (src/kernel/src/Memory/PageManager.cpp) and the objects they keep (PageObject.cpp), over the virtual page manager, the page
  tables and the frame allocator. The state is that of one manager: its fields, the store of page objects with the static pool among them,
  the virtual page manager it points to and the paging state. Flushes of the translation buffer change nothing here.
\<close>

unbundle bit_operations_syntax

section \<open>Page objects\<close>

record PageObject =
  po_virtual_address :: ptr
  po_page_count :: u64
  po_flags :: u64
  po_perms :: PagePermissions
  po_next :: ptr

abbreviation (input) PO_USER :: u64 where "PO_USER \<equiv> 1"
abbreviation (input) PO_ALLOCATED :: u64 where "PO_ALLOCATED \<equiv> 4"
abbreviation (input) PO_INUSE :: u64 where "PO_INUSE \<equiv> 8"
abbreviation (input) PO_STANDBY :: u64 where "PO_STANDBY \<equiv> 16"

definition PageObject_zero :: PageObject where
  "PageObject_zero = \<lparr>po_virtual_address = nullptr, po_page_count = 0, po_flags = 0, po_perms = READ, po_next = nullptr\<rparr>"

definition PageObject_SetFlag :: "u64 \<Rightarrow> PageObject \<Rightarrow> PageObject" where
  "PageObject_SetFlag flag x = x\<lparr>po_flags := po_flags x OR flag\<rparr>"

definition PageObject_UnsetFlag :: "u64 \<Rightarrow> PageObject \<Rightarrow> PageObject" where
  "PageObject_UnsetFlag flag x = x\<lparr>po_flags := po_flags x AND NOT flag\<rparr>"

partial_function (option) PageObject_GetPrevious :: "(ptr \<rightharpoonup> PageObject) \<Rightarrow> ptr \<Rightarrow> ptr \<Rightarrow> ptr prog" where
  "PageObject_GetPrevious m root current =
     (if root = nullptr \<or> root = current then ret nullptr
      else bindP (deref m root) (\<lambda>x.
        if po_next x = nullptr then ret root
        else if po_next x = current then ret root
        else PageObject_GetPrevious m (po_next x) current))"

text \<open>The static pool. Its loops run over one index too many; that bit is outside the bitmap and reads as clear.\<close>

abbreviation (input) PAGE_OBJECT_POOL_SIZE :: nat where "PAGE_OBJECT_POOL_SIZE \<equiv> 64"
abbreviation (input) sizeof_PageObject :: u64 where "sizeof_PageObject \<equiv> 40"

record object_pool =
  g_PageObjectPool :: ptr
  g_PageObjectPool_Bitmap :: Bitmap
  g_PageObjectPool_Bitmap_Buffer :: ptr
  g_PageObjectPool_UsedCount :: u64
  g_PageObjectPool_HasBeenInitialised :: bool
  op_mem :: memory

definition pool_object :: "object_pool \<Rightarrow> nat \<Rightarrow> ptr" where
  "pool_object p i = g_PageObjectPool p + of_nat i * sizeof_PageObject"

text \<open>\<open>Init\<close> clears the first eight bytes of the objects, which are an address, and not the bitmap.\<close>

definition PageObjectPool_Init :: "object_pool \<times> (ptr \<rightharpoonup> PageObject) \<Rightarrow> object_pool \<times> (ptr \<rightharpoonup> PageObject)" where
  "PageObjectPool_Init = (\<lambda>(p, m).
     (p\<lparr>g_PageObjectPool_Bitmap := \<lparr>m_Size = of_nat (PAGE_OBJECT_POOL_SIZE div 8), m_Buffer = g_PageObjectPool_Bitmap_Buffer p\<rparr>,
        g_PageObjectPool_UsedCount := 0, g_PageObjectPool_HasBeenInitialised := True\<rparr>,
      m(g_PageObjectPool p := map_option (\<lambda>x. x\<lparr>po_virtual_address := nullptr\<rparr>) (m (g_PageObjectPool p)))))"

definition PageObjectPool_Destroy :: "object_pool \<Rightarrow> object_pool" where
  "PageObjectPool_Destroy p =
     (let p = fold (\<lambda>i p. if Bitmap_get (op_mem p) (g_PageObjectPool_Bitmap p) (of_nat i)
                then p\<lparr>op_mem := Bitmap_Set (op_mem p) (g_PageObjectPool_Bitmap p) (of_nat i) False,
                       g_PageObjectPool_UsedCount := g_PageObjectPool_UsedCount p - 1\<rparr> else p) [0..<PAGE_OBJECT_POOL_SIZE + 1] p
      in p\<lparr>g_PageObjectPool_Bitmap := Bitmap_destroy (g_PageObjectPool_Bitmap p), g_PageObjectPool_HasBeenInitialised := False\<rparr>)"

definition PageObjectPool_IsInPool :: "object_pool \<Rightarrow> ptr \<Rightarrow> bool" where
  "PageObjectPool_IsInPool p obj \<longleftrightarrow> obj \<ge> g_PageObjectPool p \<and> obj < g_PageObjectPool p + of_nat PAGE_OBJECT_POOL_SIZE * sizeof_PageObject"

definition PageObjectPool_Allocate :: "object_pool \<Rightarrow> ptr \<times> object_pool" where
  "PageObjectPool_Allocate p =
     (if \<not> g_PageObjectPool_HasBeenInitialised p then (nullptr, p)
      else if g_PageObjectPool_UsedCount p = of_nat PAGE_OBJECT_POOL_SIZE then (nullptr, p)
      else case find (\<lambda>i. \<not> Bitmap_get (op_mem p) (g_PageObjectPool_Bitmap p) (of_nat i)) [0..<PAGE_OBJECT_POOL_SIZE + 1] of
        None \<Rightarrow> (nullptr, p)
      | Some i \<Rightarrow> (pool_object p i, p\<lparr>op_mem := Bitmap_Set (op_mem p) (g_PageObjectPool_Bitmap p) (of_nat i) True,
                                        g_PageObjectPool_UsedCount := g_PageObjectPool_UsedCount p + 1\<rparr>))"

definition PageObjectPool_Free :: "ptr \<Rightarrow> object_pool \<Rightarrow> object_pool" where
  "PageObjectPool_Free obj p =
     (if \<not> g_PageObjectPool_HasBeenInitialised p \<or> g_PageObjectPool_UsedCount p = 0 then p
      else case find (\<lambda>i. obj = pool_object p i) [0..<PAGE_OBJECT_POOL_SIZE + 1] of
        None \<Rightarrow> p
      | Some i \<Rightarrow> p\<lparr>op_mem := Bitmap_Set (op_mem p) (g_PageObjectPool_Bitmap p) (of_nat i) False,
                    g_PageObjectPool_UsedCount := g_PageObjectPool_UsedCount p - 1\<rparr>)"

section \<open>The manager\<close>

record 'h PageManager =
  m_allocated_objects :: ptr
  m_allocated_object_count :: u64
  m_Vregion :: VirtualRegion
  m_VPM :: "'h VPM"
  m_PT :: PageTable
  pm_mode :: bool
  m_page_object_pool_used :: bool
  pm_auto_expand :: bool
  pm_lock :: spinlock_t
  pm_objects :: "ptr \<rightharpoonup> PageObject"
  pm_pool :: object_pool
  pm_paging :: paging

abbreviation pm_heap :: "'h PageManager \<Rightarrow> 'h" where
  "pm_heap s \<equiv> vs_heap (vp_store (m_VPM s))"

definition heap_put :: "'h \<Rightarrow> 'h PageManager \<Rightarrow> 'h PageManager" where
  "heap_put h s = s\<lparr>m_VPM := (m_VPM s)\<lparr>vp_store := (vp_store (m_VPM s))\<lparr>vs_heap := h\<rparr>\<rparr>\<rparr>"

definition pm_acquire :: "'h PageManager \<Rightarrow> 'h PageManager prog" where
  "pm_acquire s = bindP (spinlock_acquire (pm_lock s)) (\<lambda>l. ret (s\<lparr>pm_lock := l\<rparr>))"

definition pm_release :: "'h PageManager \<Rightarrow> 'h PageManager" where
  "pm_release s = s\<lparr>pm_lock := spinlock_release (pm_lock s)\<rparr>"

definition leave :: "'a \<Rightarrow> 'h PageManager \<Rightarrow> ('a \<times> 'h PageManager) prog" where
  "leave x s = ret (x, pm_release s)"

definition update_object :: "ptr \<Rightarrow> (PageObject \<Rightarrow> PageObject) \<Rightarrow> 'h PageManager \<Rightarrow> 'h PageManager prog" where
  "update_object p f s = bindP (deref (pm_objects s) p) (\<lambda>x. ret (s\<lparr>pm_objects := (pm_objects s)(p \<mapsto> f x)\<rparr>))"

definition vpm_do :: "('h VPM \<Rightarrow> 'h VPM prog) \<Rightarrow> 'h PageManager \<Rightarrow> 'h PageManager prog" where
  "vpm_do f s = bindP (f (m_VPM s)) (\<lambda>v. ret (s\<lparr>m_VPM := v\<rparr>))"

definition vpm_call :: "('h VPM \<Rightarrow> ('a \<times> 'h VPM) prog) \<Rightarrow> 'h PageManager \<Rightarrow> ('a \<times> 'h PageManager) prog" where
  "vpm_call f s = bindP (f (m_VPM s)) (\<lambda>(x, v). ret (x, s\<lparr>m_VPM := v\<rparr>))"

definition paging_do :: "(paging \<Rightarrow> paging prog) \<Rightarrow> 'h PageManager \<Rightarrow> 'h PageManager prog" where
  "paging_do f s = bindP (f (pm_paging s)) (\<lambda>p. ret (s\<lparr>pm_paging := p\<rparr>))"

text \<open>A page object from the heap, which is cleared, or from the pool, which is as its last use left it.\<close>

definition new_object :: "'h heap_ops \<Rightarrow> 'h PageManager \<Rightarrow> (ptr \<times> 'h PageManager) prog" where
  "new_object A s =
     (if new_initialised A (pm_heap s) then
        bindP (op_new A sizeof_PageObject (pm_heap s)) (\<lambda>(p, h).
        ret (p, if p = nullptr then heap_put h s else (heap_put h s)\<lparr>pm_objects := (pm_objects s)(p \<mapsto> PageObject_zero)\<rparr>))
      else let (p, pool) = PageObjectPool_Allocate (pm_pool s) in ret (p, s\<lparr>pm_pool := pool, m_page_object_pool_used := True\<rparr>))"

definition discard_object :: "'h heap_ops \<Rightarrow> ptr \<Rightarrow> 'h PageManager \<Rightarrow> 'h PageManager prog" where
  "discard_object A p s =
     (if PageObjectPool_IsInPool (pm_pool s) p then ret (s\<lparr>pm_pool := PageObjectPool_Free p (pm_pool s)\<rparr>)
      else if new_initialised A (pm_heap s) then
        bindP (op_delete A p (pm_heap s)) (\<lambda>h. ret ((heap_put h s)\<lparr>pm_objects := (pm_objects s)(p := None)\<rparr>))
      else ret s)"

definition InsertObject :: "ptr \<Rightarrow> 'h PageManager \<Rightarrow> (bool \<times> 'h PageManager) prog" where
  "InsertObject obj s =
     (if m_allocated_object_count s > 0 then
        bindP (PageObject_GetPrevious (pm_objects s) (m_allocated_objects s) obj) (\<lambda>previous.
        if previous = nullptr then ret (False, s)
        else bindP (update_object previous (\<lambda>x. x\<lparr>po_next := obj\<rparr>) s) (\<lambda>s.
          ret (True, s\<lparr>m_allocated_object_count := m_allocated_object_count s + 1\<rparr>)))
      else ret (True, s\<lparr>m_allocated_objects := obj, m_allocated_object_count := m_allocated_object_count s + 1\<rparr>))"

text \<open>A search over as many objects as the manager counts: the list may end before, or hold none that is looked for.\<close>

datatype search = Broken | Absent | Found ptr

primrec find_object :: "nat \<Rightarrow> ptr \<Rightarrow> (PageObject \<Rightarrow> bool) \<Rightarrow> (ptr \<rightharpoonup> PageObject) \<Rightarrow> search prog" where
  "find_object 0 p P m = ret Absent"
| "find_object (Suc n) p P m =
     (if p = nullptr then ret Broken
      else bindP (deref m p) (\<lambda>x. if P x then ret (Found p) else find_object n (po_next x) P m))"

definition search_objects :: "(PageObject \<Rightarrow> bool) \<Rightarrow> 'h PageManager \<Rightarrow> search prog" where
  "search_objects P s = find_object (unat (m_allocated_object_count s)) (m_allocated_objects s) P (pm_objects s)"

definition object_region :: "PageObject \<Rightarrow> VirtualRegion" where
  "object_region x = VirtualRegion_sized (po_virtual_address x) (po_page_count x * 4096)"

definition is_standby :: "ptr \<Rightarrow> u64 \<Rightarrow> PagePermissions \<Rightarrow> PageObject \<Rightarrow> bool" where
  "is_standby addr count perms x \<longleftrightarrow> IsInside (object_region x) addr (count * 4096) \<and> po_flags x AND PO_STANDBY \<noteq> 0 \<and>
     po_flags x AND PO_INUSE = 0 \<and> po_perms x = perms"

text \<open>A part of an object becomes an object of its own.\<close>

definition split_part :: "'h heap_ops \<Rightarrow> ptr \<Rightarrow> u64 \<Rightarrow> u64 \<Rightarrow> PagePermissions \<Rightarrow> 'h PageManager \<Rightarrow> (bool \<times> 'h PageManager) prog" where
  "split_part A va n flags perms s =
     bindP (new_object A s) (\<lambda>(po, s).
     if po = nullptr then ret (False, s)
     else
       bindP (update_object po (\<lambda>x. x\<lparr>po_virtual_address := va, po_perms := perms, po_flags := flags, po_page_count := n\<rparr>) s) (\<lambda>s.
       bindP (InsertObject po s) (\<lambda>(ok, s).
       if ok then ret (True, s) else bindP (discard_object A po s) (\<lambda>s. ret (False, s)))))"

primrec map_pages :: "nat \<Rightarrow> ptr \<Rightarrow> PagePermissions \<Rightarrow> 'h PageManager \<Rightarrow> 'h PageManager prog" where
  "map_pages 0 va perms s = ret s"
| "map_pages (Suc n) va perms s =
     bindP (pt_AllocatePage (pm_paging s)) (\<lambda>(frame, pg).
     bindP (PageTable_MapPage (m_PT s) frame va perms pg) (\<lambda>pg.
     map_pages n (va + 4096) perms (s\<lparr>pm_paging := pg\<rparr>)))"

text \<open>Pages at an address inside an object that is on standby: the object is cut to them, and they are mapped.\<close>

definition claim_standby :: "'h heap_ops \<Rightarrow> ptr \<Rightarrow> ptr \<Rightarrow> u64 \<Rightarrow> PagePermissions \<Rightarrow> 'h PageManager \<Rightarrow> (ptr \<times> 'h PageManager) prog" where
  "claim_standby A p addr count perms s =
     bindP (deref (pm_objects s) p) (\<lambda>x.
     let before = drop_bit 12 (addr - po_virtual_address x) in
     bindP (if addr > po_virtual_address x then
              bindP (split_part A (po_virtual_address x) before (po_flags x) perms s) (\<lambda>(ok, s).
              if ok then bindP (update_object p (\<lambda>x. x\<lparr>po_page_count := po_page_count x - before, po_virtual_address := addr\<rparr>) s) (\<lambda>s. ret (True, s))
              else ret (False, s))
            else ret (True, s)) (\<lambda>(ok, s).
     if \<not> ok then leave nullptr s
     else
       bindP (deref (pm_objects s) p) (\<lambda>x.
       bindP (if count < po_page_count x then
                bindP (split_part A (po_virtual_address x + count * 4096) (po_page_count x - count) (po_flags x) perms s) (\<lambda>(ok, s).
                if ok then bindP (update_object p (\<lambda>x. x\<lparr>po_page_count := count\<rparr>) s) (\<lambda>s. ret (True, s)) else ret (False, s))
              else ret (True, s)) (\<lambda>(ok, s).
       if \<not> ok then leave nullptr s
       else
         bindP (update_object p (\<lambda>x. PageObject_SetFlag PO_INUSE (PageObject_UnsetFlag PO_STANDBY x)) s) (\<lambda>s.
         bindP (map_pages (unat count) addr perms s) (leave addr))))))"

definition PM_ExpandVRegionToRight :: "'h heap_ops \<Rightarrow> u64 \<Rightarrow> 'h PageManager \<Rightarrow> (bool \<times> 'h PageManager) prog" where
  "PM_ExpandVRegionToRight A new_size s =
     bindP (pm_acquire s) (\<lambda>s.
     if new_size \<le> GetSize (m_Vregion s) then leave False s
     else
       bindP (vpm_call (AttemptToExpandRight A new_size) s) (\<lambda>(ok, s).
       if \<not> ok then leave False s else leave True (s\<lparr>m_Vregion := ExpandRight new_size (m_Vregion s)\<rparr>)))"

definition vpm_pages :: "'h heap_ops \<Rightarrow> u64 \<Rightarrow> ptr \<Rightarrow> 'h PageManager \<Rightarrow> (ptr \<times> 'h PageManager) prog" where
  "vpm_pages A count addr = vpm_call (if addr = nullptr then VPM_AllocatePages A count else VPM_AllocatePages_at A addr count)"

text \<open>Virtual pages, after an attempt to make the region larger when there are none. \<open>AllocatePage\<close>, \<open>AllocatePages\<close> and
  \<open>ReservePage\<close> make that attempt with the lock held, which it takes.\<close>

definition obtain_pages :: "'h heap_ops \<Rightarrow> u64 \<Rightarrow> ptr \<Rightarrow> 'h PageManager \<Rightarrow> (ptr \<times> 'h PageManager) prog" where
  "obtain_pages A count addr s =
     bindP (vpm_pages A count addr s) (\<lambda>(va, s).
     if va \<noteq> nullptr \<or> \<not> pm_auto_expand s then ret (va, s)
     else
       bindP (PM_ExpandVRegionToRight A (4096 * count + GetSize (m_Vregion s)) s) (\<lambda>(ok, s).
       if ok then vpm_pages A count addr s else ret (nullptr, s)))"

text \<open>The walk to the end of the list before a new object is made.\<close>

partial_function (option) walk_objects :: "(ptr \<rightharpoonup> PageObject) \<Rightarrow> ptr \<Rightarrow> unit prog" where
  "walk_objects m p = (if p = nullptr then ret () else bindP (deref m p) (\<lambda>x. walk_objects m (po_next x)))"

definition record_pages :: "'h heap_ops \<Rightarrow> ptr \<Rightarrow> u64 \<Rightarrow> u64 \<Rightarrow> PagePermissions \<Rightarrow> 'h PageManager \<Rightarrow> (bool \<times> 'h PageManager) prog" where
  "record_pages A va count use perms s =
     bindP (walk_objects (pm_objects s) (m_allocated_objects s)) (\<lambda>_.
     bindP (new_object A s) (\<lambda>(po, s).
     if po = nullptr then bindP (vpm_do (VPM_UnallocatePages A va count) s) (\<lambda>s. ret (False, s))
     else
       bindP (update_object po (\<lambda>x. (PageObject_SetFlag use (if pm_mode s then PageObject_SetFlag PO_USER (PageObject_SetFlag PO_ALLOCATED x)
           else PageObject_SetFlag PO_ALLOCATED x))\<lparr>po_virtual_address := va, po_page_count := count\<rparr>) s) (\<lambda>s.
       bindP (InsertObject po s) (\<lambda>(ok, s).
       if ok then bindP (update_object po (\<lambda>x. x\<lparr>po_perms := perms\<rparr>) s) (\<lambda>s. ret (True, s))
       else
         bindP (discard_object A po s) (\<lambda>s.
         bindP (vpm_do (VPM_UnallocatePages A va count) s) (\<lambda>s. ret (False, s)))))))"

section \<open>Allocation\<close>

text \<open>The tests for pages at a given address. None for no obstacle.\<close>

definition page_taken :: "ptr \<Rightarrow> 'h PageManager \<Rightarrow> bool prog" where
  "page_taken addr s =
     (if addr = nullptr then ret False
      else bindP (search_objects (\<lambda>x. po_virtual_address x = addr) s) (\<lambda>r. ret (r \<noteq> Absent)))"

definition pages_taken :: "u64 \<Rightarrow> ptr \<Rightarrow> 'h PageManager \<Rightarrow> bool prog" where
  "pages_taken count addr s =
     (if addr = nullptr then ret False
      else if \<not> IsInside (m_Vregion s) addr (count * 4096) then ret True
      else bindP (search_objects (\<lambda>x. IsInside (object_region x) addr (count * 4096)) s) (\<lambda>r. ret (r \<noteq> Absent)))"

definition find_standby :: "ptr \<Rightarrow> u64 \<Rightarrow> PagePermissions \<Rightarrow> 'h PageManager \<Rightarrow> search prog" where
  "find_standby addr count perms s = (if addr = nullptr then ret Absent else search_objects (is_standby addr count perms) s)"

definition allocate_new :: "'h heap_ops \<Rightarrow> u64 \<Rightarrow> PagePermissions \<Rightarrow> ptr \<Rightarrow> 'h PageManager \<Rightarrow> (ptr \<times> 'h PageManager) prog" where
  "allocate_new A count perms addr s =
     bindP (obtain_pages A count addr s) (\<lambda>(va, s).
     if va = nullptr then leave nullptr s
     else
       bindP (record_pages A va count PO_INUSE perms s) (\<lambda>(ok, s).
       if \<not> ok then leave nullptr s else bindP (map_pages (unat count) va perms s) (leave va)))"

definition PM_AllocatePage :: "'h heap_ops \<Rightarrow> PagePermissions \<Rightarrow> ptr \<Rightarrow> 'h PageManager \<Rightarrow> (ptr \<times> 'h PageManager) prog" where
  "PM_AllocatePage A perms addr s =
     bindP (pm_acquire s) (\<lambda>s.
     bindP (find_standby addr 1 perms s) (\<lambda>r.
     case r of
       Broken \<Rightarrow> leave nullptr s
     | Found p \<Rightarrow> claim_standby A p addr 1 perms s
     | Absent \<Rightarrow> bindP (page_taken addr s) (\<lambda>taken. if taken then leave nullptr s else allocate_new A 1 perms addr s)))"

definition PM_AllocatePages :: "'h heap_ops \<Rightarrow> u64 \<Rightarrow> PagePermissions \<Rightarrow> ptr \<Rightarrow> 'h PageManager \<Rightarrow> (ptr \<times> 'h PageManager) prog" where
  "PM_AllocatePages A count perms addr s =
     (if count = 1 then PM_AllocatePage A perms addr s
      else
        bindP (pm_acquire s) (\<lambda>s.
        bindP (find_standby addr count perms s) (\<lambda>r.
        case r of
          Broken \<Rightarrow> leave nullptr s
        | Found p \<Rightarrow> claim_standby A p addr count perms s
        | Absent \<Rightarrow> bindP (pages_taken count addr s) (\<lambda>taken. if taken then leave nullptr s else allocate_new A count perms addr s))))"

text \<open>\<open>ReservePage\<close> returns the page without releasing the lock; \<open>ReservePages\<close> never takes it.\<close>

definition PM_ReservePage :: "'h heap_ops \<Rightarrow> PagePermissions \<Rightarrow> ptr \<Rightarrow> 'h PageManager \<Rightarrow> (ptr \<times> 'h PageManager) prog" where
  "PM_ReservePage A perms addr s =
     bindP (pm_acquire s) (\<lambda>s.
     bindP (page_taken addr s) (\<lambda>taken.
     if taken then leave nullptr s
     else
       bindP (obtain_pages A 1 addr s) (\<lambda>(va, s).
       if va = nullptr then leave nullptr s
       else bindP (record_pages A va 1 PO_STANDBY perms s) (\<lambda>(ok, s). if \<not> ok then leave nullptr s else ret (va, s)))))"

definition PM_ReservePages :: "'h heap_ops \<Rightarrow> u64 \<Rightarrow> PagePermissions \<Rightarrow> ptr \<Rightarrow> 'h PageManager \<Rightarrow> (ptr \<times> 'h PageManager) prog" where
  "PM_ReservePages A count perms addr s =
     (if count = 1 then PM_ReservePage A perms addr s
      else
        bindP (pages_taken count addr s) (\<lambda>taken.
        if taken then leave nullptr s
        else
          bindP (obtain_pages A count addr s) (\<lambda>(va, s).
          if va = nullptr then leave nullptr s
          else bindP (record_pages A va count PO_STANDBY perms s) (\<lambda>(ok, s). leave (if ok then va else nullptr) s))))"

section \<open>Freeing and permissions\<close>

text \<open>The first object of the list with a property, or null.\<close>

partial_function (option) first_object :: "(PageObject \<Rightarrow> bool) \<Rightarrow> (ptr \<rightharpoonup> PageObject) \<Rightarrow> ptr \<Rightarrow> ptr prog" where
  "first_object P m p =
     (if p = nullptr then ret nullptr else bindP (deref m p) (\<lambda>x. if P x then ret p else first_object P m (po_next x)))"

definition remove_object :: "'h heap_ops \<Rightarrow> ptr \<Rightarrow> 'h PageManager \<Rightarrow> 'h PageManager prog" where
  "remove_object A po s =
     bindP (PageObject_GetPrevious (pm_objects s) (m_allocated_objects s) po) (\<lambda>previous.
     bindP (deref (pm_objects s) po) (\<lambda>x.
     bindP (if previous \<noteq> nullptr then update_object previous (\<lambda>y. y\<lparr>po_next := po_next x\<rparr>) s
            else ret (s\<lparr>m_allocated_objects := po_next x\<rparr>)) (\<lambda>s.
     bindP (discard_object A po s) (\<lambda>s.
     ret (s\<lparr>m_allocated_object_count := m_allocated_object_count s - 1\<rparr>)))))"

definition free_frame :: "ptr \<Rightarrow> 'h PageManager \<Rightarrow> 'h PageManager prog" where
  "free_frame va s = bindP (PageTable_GetPhysicalAddress (m_PT s) va (pm_paging s)) (\<lambda>frame. paging_do (pt_FreePage frame) s)"

definition PM_FreePage :: "'h heap_ops \<Rightarrow> ptr \<Rightarrow> 'h PageManager \<Rightarrow> 'h PageManager prog" where
  "PM_FreePage A addr s =
     bindP (pm_acquire s) (\<lambda>s.
     bindP (first_object (\<lambda>x. po_virtual_address x = addr \<and> po_page_count x = 1) (pm_objects s) (m_allocated_objects s)) (\<lambda>po.
     if po = nullptr then ret (pm_release s)
     else
       bindP (free_frame addr s) (\<lambda>s.
       bindP (vpm_do (VPM_UnallocatePages A addr 1) s) (\<lambda>s.
       bindP (paging_do (PageTable_UnmapPage (m_PT s) addr) s) (\<lambda>s.
       bindP (remove_object A po s) (\<lambda>s. ret (pm_release s)))))))"

primrec unmap_pages :: "nat \<Rightarrow> ptr \<Rightarrow> 'h PageManager \<Rightarrow> 'h PageManager prog" where
  "unmap_pages 0 va s = ret s"
| "unmap_pages (Suc n) va s =
     bindP (free_frame va s) (\<lambda>s. bindP (paging_do (PageTable_UnmapPage (m_PT s) va) s) (unmap_pages n (va + 4096)))"

definition PM_FreePages :: "'h heap_ops \<Rightarrow> ptr \<Rightarrow> 'h PageManager \<Rightarrow> 'h PageManager prog" where
  "PM_FreePages A addr s =
     bindP (pm_acquire s) (\<lambda>s.
     bindP (first_object (\<lambda>x. po_virtual_address x = addr \<and> po_page_count x > 1) (pm_objects s) (m_allocated_objects s)) (\<lambda>po.
     if po = nullptr then ret (pm_release s)
     else
       bindP (deref (pm_objects s) po) (\<lambda>x.
       bindP (vpm_do (VPM_UnallocatePages A addr (po_page_count x)) s) (\<lambda>s.
       bindP (unmap_pages (unat (po_page_count x)) addr s) (\<lambda>s.
       bindP (remove_object A po s) (\<lambda>s. ret (pm_release s)))))))"

primrec remap_pages :: "nat \<Rightarrow> ptr \<Rightarrow> PagePermissions \<Rightarrow> 'h PageManager \<Rightarrow> 'h PageManager prog" where
  "remap_pages 0 va perms s = ret s"
| "remap_pages (Suc n) va perms s =
     bindP (paging_do (PageTable_RemapPage (m_PT s) va perms) s) (remap_pages n (va + 4096) perms)"

definition PM_Remap :: "ptr \<Rightarrow> PagePermissions \<Rightarrow> 'h PageManager \<Rightarrow> 'h PageManager prog" where
  "PM_Remap addr perms s =
     bindP (pm_acquire s) (\<lambda>s.
     bindP (first_object (\<lambda>x. po_virtual_address x = addr) (pm_objects s) (m_allocated_objects s)) (\<lambda>po.
     if po = nullptr then ret (pm_release s)
     else
       bindP (update_object po (\<lambda>x. x\<lparr>po_perms := perms\<rparr>) s) (\<lambda>s.
       bindP (deref (pm_objects s) po) (\<lambda>x.
       bindP (remap_pages (unat (po_page_count x)) addr perms s) (\<lambda>s. ret (pm_release s))))))"

text \<open>An object covers an address up to and including its end.\<close>

definition covers :: "ptr \<Rightarrow> PageObject \<Rightarrow> bool" where
  "covers addr x \<longleftrightarrow> addr \<ge> po_virtual_address x \<and> addr \<le> po_virtual_address x + po_page_count x * 4096"

text \<open>The lock is released before the function calls itself for the rest of a range that is longer than the object.\<close>

partial_function (option) isWritable_loop :: "(ptr \<rightharpoonup> PageObject) \<Rightarrow> ptr \<Rightarrow> ptr \<Rightarrow> u64 \<Rightarrow> bool prog" where
  "isWritable_loop m root addr sz =
     bindP (first_object (covers addr) m root) (\<lambda>po.
     if po = nullptr then ret False
     else bindP (deref m po) (\<lambda>x.
       if \<not> (po_perms x = WRITE \<or> po_perms x = READ_WRITE) then ret False
       else if po_page_count x * 4096 < sz then isWritable_loop m root (addr + po_page_count x * 4096) (sz - po_page_count x * 4096)
       else ret True))"

definition PM_isWritable :: "ptr \<Rightarrow> u64 \<Rightarrow> 'h PageManager \<Rightarrow> (bool \<times> 'h PageManager) prog" where
  "PM_isWritable addr sz s =
     bindP (pm_acquire s) (\<lambda>s. bindP (isWritable_loop (pm_objects s) (m_allocated_objects s) addr sz) (\<lambda>r. leave r s))"

definition PM_isValidAllocation :: "ptr \<Rightarrow> u64 \<Rightarrow> 'h PageManager \<Rightarrow> (bool \<times> 'h PageManager) prog" where
  "PM_isValidAllocation addr sz s =
     bindP (pm_acquire s) (\<lambda>s.
     bindP (first_object (\<lambda>x. addr \<ge> po_virtual_address x \<and> sz = po_page_count x * 4096) (pm_objects s) (m_allocated_objects s)) (\<lambda>po.
     leave (po \<noteq> nullptr) s))"

definition PM_GetPermissions :: "ptr \<Rightarrow> 'h PageManager \<Rightarrow> (PagePermissions \<times> 'h PageManager) prog" where
  "PM_GetPermissions addr s =
     bindP (pm_acquire s) (\<lambda>s.
     bindP (first_object (covers addr) (pm_objects s) (m_allocated_objects s)) (\<lambda>po.
     if po = nullptr then leave READ s else bindP (deref (pm_objects s) po) (\<lambda>x. leave (po_perms x) s)))"

section \<open>Construction\<close>

definition init_object_pool :: "'h PageManager \<Rightarrow> 'h PageManager" where
  "init_object_pool s =
     (if g_PageObjectPool_HasBeenInitialised (pm_pool s) then s
      else let (pool, m) = PageObjectPool_Init (pm_pool s, pm_objects s) in s\<lparr>pm_pool := pool, pm_objects := m\<rparr>)"

text \<open>The fields other than the store, the pool and the paging state are those of the new object.\<close>

definition PageManager_make :: "VirtualRegion \<Rightarrow> 'h VPM \<Rightarrow> bool \<Rightarrow> bool \<Rightarrow> 'h PageManager \<Rightarrow> 'h PageManager prog" where
  "PageManager_make region vpm mode auto_expand s =
     bindP (PageTable_make mode True (pm_paging s)) (\<lambda>(pt, pg).
     ret (init_object_pool (s\<lparr>m_allocated_objects := nullptr, m_allocated_object_count := 0, m_Vregion := region, m_VPM := vpm, m_PT := pt, pm_mode := mode,
       m_page_object_pool_used := False, pm_auto_expand := mode \<and> auto_expand, pm_lock := False, pm_paging := pg\<rparr>)))"

text \<open>The table of a user manager is assigned from a temporary, whose destructor gives its root back to the manager. The lock is held then.\<close>

definition InitPageManager :: "'h heap_ops \<Rightarrow> VirtualRegion \<Rightarrow> 'h VPM \<Rightarrow> bool \<Rightarrow> bool \<Rightarrow> 'h PageManager \<Rightarrow> 'h PageManager prog" where
  "InitPageManager A region vpm mode auto_expand s =
     bindP (pm_acquire s) (\<lambda>s.
     bindP (PageTable_make mode True (pm_paging s)) (\<lambda>(pt, pg).
     bindP (let s = s\<lparr>m_allocated_objects := nullptr, m_allocated_object_count := 0, m_Vregion := region, m_VPM := vpm, m_PT := pt, pm_paging := pg\<rparr>
            in if mode then PM_FreePage A (m_root_table pt) s else ret s) (\<lambda>s.
     ret (init_object_pool (pm_release (s\<lparr>pm_mode := mode, m_page_object_pool_used := False, pm_auto_expand := mode \<and> auto_expand\<rparr>))))))"

primrec delete_objects :: "'h heap_ops \<Rightarrow> nat \<Rightarrow> 'h PageManager \<Rightarrow> 'h PageManager prog" where
  "delete_objects A 0 s = ret s"
| "delete_objects A (Suc n) s =
     bindP (deref (pm_objects s) (m_allocated_objects s)) (\<lambda>x.
     bindP (op_delete A (m_allocated_objects s) (pm_heap s)) (\<lambda>h.
     delete_objects A n ((heap_put h s)\<lparr>m_allocated_objects := po_next x, pm_objects := (pm_objects s)(m_allocated_objects s := None)\<rparr>)))"

text \<open>The destructor, with that of the page table after its body. The object count stays.\<close>

definition PageManager_destroy :: "'h heap_ops \<Rightarrow> 'h PageManager \<Rightarrow> 'h PageManager prog" where
  "PageManager_destroy A s =
     (if m_page_object_pool_used s then stop (Panic (if pm_mode s
          then ''USER PageManager illegal destruction. PageManager cannot be destroyed if page object pool has been used.''
          else ''SUPERVISOR PageManager illegal destruction. PageManager cannot be destroyed if page object pool has been used.''))
      else
        bindP (pm_acquire s) (\<lambda>s.
        bindP (delete_objects A (unat (m_allocated_object_count s)) s) (\<lambda>s.
        let s = pm_release s in
        if m_mode (m_PT s) then PM_FreePage A (m_root_table (m_PT s)) s else ret s)))"

end
