(* ===== verification/PageManagerCorrect.thy ===== *)
theory PageManagerCorrect
  imports PageManager PageTablesCorrect VirtualPagesCorrect
begin

text \<open>
  What a page manager does with the components below it: a page it hands out is recorded in its list and translates to a frame that was
  free. The rest shows where it keeps its lock and where its test of user ranges is too weak.
\<close>

section \<open>The list of page objects\<close>

fun linked :: "(ptr \<rightharpoonup> PageObject) \<Rightarrow> ptr \<Rightarrow> ptr list \<Rightarrow> bool" where
  "linked m p [] \<longleftrightarrow> p = nullptr"
| "linked m p (q # qs) \<longleftrightarrow> p = q \<and> q \<noteq> nullptr \<and> (\<exists>x. m q = Some x \<and> linked m (po_next x) qs)"

definition pm_ok :: "'h PageManager \<Rightarrow> ptr list \<Rightarrow> bool" where
  "pm_ok s ps \<longleftrightarrow> \<not> pm_lock s \<and> linked (pm_objects s) (m_allocated_objects s) ps \<and> distinct ps \<and> unat (m_allocated_object_count s) = length ps"

lemma linked_null: "linked m nullptr ps \<longleftrightarrow> ps = []"
  by (cases ps) auto

lemma linked_dom: "linked m p ps \<Longrightarrow> set ps \<subseteq> dom m"
  by (induction ps arbitrary: p) auto

lemma linked_nonnull: "linked m p ps \<Longrightarrow> q \<in> set ps \<Longrightarrow> q \<noteq> nullptr"
  by (induction ps arbitrary: p) auto

lemma linked_cong: "linked m p ps \<Longrightarrow> (\<And>q. q \<in> set ps \<Longrightarrow> m' q = m q) \<Longrightarrow> linked m' p ps"
  by (induction ps arbitrary: p) auto

lemma linked_snoc:
  assumes "linked m p ps" "distinct ps" "ps \<noteq> []" "q \<notin> set ps" "q \<noteq> nullptr" "m (last ps) = Some x" "m q = Some y" "po_next y = nullptr"
  shows "linked (m(last ps \<mapsto> x\<lparr>po_next := q\<rparr>)) p (ps @ [q])"
  using assms
proof (induction ps arbitrary: p)
  case (Cons a ps)
  show ?case
  proof (cases "ps = []")
    case False
    obtain z where z: "m a = Some z" "linked m (po_next z) ps" using Cons.prems(1) by auto
    have "linked (m(last ps \<mapsto> x\<lparr>po_next := q\<rparr>)) (po_next z) (ps @ [q])" using Cons.prems False z(2) by (intro Cons.IH) auto
    moreover have "a \<noteq> last ps" using Cons.prems(2) False by auto
    ultimately show ?thesis using Cons.prems(1) z(1) False by (auto simp: fun_upd_def)
  qed (use Cons.prems in auto)
qed simp

lemma walk_linked: "linked m p ps \<Longrightarrow> walk_objects m p = ret ()"
  by (induction ps arbitrary: p) (subst walk_objects.simps, force)+

lemma GetPrevious_last: "linked m p ps \<Longrightarrow> ps \<noteq> [] \<Longrightarrow> q \<notin> set ps \<Longrightarrow> q \<noteq> nullptr \<Longrightarrow> PageObject_GetPrevious m p q = ret (last ps)"
proof (induction ps arbitrary: p)
  case (Cons a ps)
  obtain z where z: "m a = Some z" "linked m (po_next z) ps" using Cons.prems(1) by auto
  show ?case
  proof (cases ps)
    case Nil
    then show ?thesis using Cons.prems z by (subst PageObject_GetPrevious.simps) auto
  next
    case (Cons b qs)
    then have "PageObject_GetPrevious m (po_next z) q = ret (last ps)" using Cons.IH [OF z(2)] Cons.prems by auto
    then show ?thesis using Cons.prems z Cons by (subst PageObject_GetPrevious.simps) auto
  qed
qed simp

lemma first_object_linked:
  "linked m p ps \<Longrightarrow> first_object P m p = ret (case find (\<lambda>q. P (the (m q))) ps of None \<Rightarrow> nullptr | Some q \<Rightarrow> q)"
proof (induction ps arbitrary: p)
  case Nil
  then show ?case by (subst first_object.simps) simp
next
  case (Cons a ps)
  then show ?case by (subst first_object.simps) auto
qed

section \<open>Mapping a new page\<close>

lemma DecodePageFlags_bits: "\<not> bit (DecodePageFlags pt perms) 7" "bit (DecodePageFlags pt perms) 0"
  by (cases perms; simp add: DecodePageFlags_def bit_or_iff; simp add: bit_iff_odd)+

lemma allocate_and_map:
  assumes inv: "pt_inv s lvl" "lvl root = 4" "no_large s lvl" and flags: "\<not> bit flags 7" "bit flags 0" and free: "4 \<le> card (free_frames (g_PPFA s))"
    and v: "\<not> (v \<ge> g_kernel_virtual s \<and> g_kernel_virtual s + g_kernel_length s > v)" "\<not> (v \<ge> g_HHDM_start s \<and> g_HHDM_start s + GiB 4 > v)"
  obtains f s1 s' lvl' where "pt_AllocatePage s = ret (f, s1)" "f \<notin> ppfa_live (g_PPFA s)" "valid_frame f"
    "x86_64_map_page_noflush (g_HHDM_start s + root) f v flags s1 = ret s'" "pt_inv s' lvl'" "lvl' root = 4"
    "x86_64_get_physaddr s' (g_HHDM_start s + root) v = ret (f OR (v AND 0xFFF))"
proof -
  have ok: "ppfa_ok (g_PPFA s)" "bitmap_bits (g_PPFA s) \<le> 2 ^ 27" using inv(1) by (auto simp: pt_inv_def)
  have "free_frames (g_PPFA s) \<noteq> {}" using free by auto
  then obtain f a where a: "AllocatePage (g_PPFA s) = ret (f, a)" "card (free_frames (g_PPFA s)) \<le> Suc (card (free_frames a))"
    using AllocatePage_free_frames [OF ok(1)] by blast
  note f = fresh_frame [OF ok a(1)]
  let ?s = "s\<lparr>g_PPFA := a\<rparr>"
  have sl: "slot ?s g j = slot s g j" for g j by (simp add: slot_def)
  have live: "f' \<in> ppfa_live a" if "f' \<in> ppfa_live (g_PPFA s)" for f' using that f by blast
  have i: "pt_inv ?s lvl" "no_large ?s lvl" using inv f live unfolding pt_inv_def no_large_def sl hhdm_ok_def by simp_all
  have m: "(0xFFF :: u64) = mask 12" by (simp add: mask_eq_exp_minus_1)
  have "take_bit 52 (push_bit 12 (take_bit 40 x)) = push_bit 12 (take_bit 40 x)" "push_bit 12 x AND NOT 0xFFF = push_bit 12 x" for x :: u64
    unfolding m by (auto intro!: bit_eqI simp: bit_simps)
  then have q: "take_bit 52 f = f" "f AND NOT 0xFFF = f" using f by metis+
  have "3 \<le> card (free_frames (g_PPFA ?s))" using a(2) free by simp
  then have "\<exists>s' lvl'. x86_64_map_page_noflush (g_HHDM_start ?s + root) f v flags ?s = ret s' \<and> pt_inv s' lvl' \<and> lvl' root = 4 \<and>
      x86_64_get_physaddr s' (g_HHDM_start ?s + root) v = ret ((f AND NOT 0xFFF) OR (v AND 0xFFF))"
    by (rule map_page_maps [OF i(1) inv(2) i(2) flags q(1)]) (use v in simp_all)
  then show thesis using that [of f ?s] f a(1) unfolding q by (auto simp: pt_AllocatePage_def)
qed

section \<open>Recording pages\<close>

definition heap_object :: "bool \<Rightarrow> u64 \<Rightarrow> ptr \<Rightarrow> u64 \<Rightarrow> PagePermissions \<Rightarrow> PageObject" where
  "heap_object user use va count perms = \<lparr>po_virtual_address = va, po_page_count = count,
     po_flags = (if user then 5 OR use else 4 OR use), po_perms = perms, po_next = nullptr\<rparr>"

lemma record_pages_new:
  assumes "walk_objects (pm_objects s) (m_allocated_objects s) = ret ()" "new_initialised A (pm_heap s)" "op_new A 40 (pm_heap s) = ret (p, h)" "p \<noteq> nullptr"
  shows "record_pages A va count use perms s =
    bindP (InsertObject p ((heap_put h s)\<lparr>pm_objects := (pm_objects s)(p \<mapsto> heap_object (pm_mode s) use va count READ)\<rparr>)) (\<lambda>(ok, s).
      if ok then bindP (update_object p (\<lambda>x. x\<lparr>po_perms := perms\<rparr>) s) (\<lambda>s. ret (True, s))
      else bindP (discard_object A p s) (\<lambda>s. bindP (vpm_do (VPM_UnallocatePages A va count) s) (\<lambda>s. ret (False, s))))"
  using assms
  by (cases "pm_mode s") (simp_all add: record_pages_def new_object_def update_object_def heap_put_def heap_object_def PageObject_zero_def PageObject_SetFlag_def)

text \<open>A new object goes to the end of the list.\<close>

lemma record_pages_appends:
  assumes ok: "linked (pm_objects s) (m_allocated_objects s) ps" "distinct ps" "unat (m_allocated_object_count s) = length ps" "length ps < 2 ^ 64 - 1"
    and new: "new_initialised A (pm_heap s)" "op_new A 40 (pm_heap s) = ret (p, h)" "p \<noteq> nullptr" "p \<notin> dom (pm_objects s)"
  obtains s' where "record_pages A va count use perms s = ret (True, s')" "linked (pm_objects s') (m_allocated_objects s') (ps @ [p])"
    "pm_objects s' p = Some (heap_object (pm_mode s) use va count perms)" "unat (m_allocated_object_count s') = Suc (length ps)"
    "pm_lock s' = pm_lock s" "m_PT s' = m_PT s" "pm_paging s' = pm_paging s"
proof (cases "ps = []")
  case True
  let ?s = "(heap_put h s)\<lparr>m_allocated_objects := p, m_allocated_object_count := 1, pm_objects := (pm_objects s)(p \<mapsto> heap_object (pm_mode s) use va count perms)\<rparr>"
  have "m_allocated_object_count s = 0" "m_allocated_objects s = nullptr" using ok True by (simp_all add: unat_eq_0)
  then have "record_pages A va count use perms s = ret (True, ?s)" using new(3)
    by (simp add: record_pages_new [OF walk_linked [OF ok(1)] new(1-3)] update_object_def InsertObject_def heap_put_def heap_object_def)
  then show thesis using that [of ?s] new(3) True by (simp add: heap_put_def heap_object_def)
next
  case False
  let ?m = "(pm_objects s)(p \<mapsto> heap_object (pm_mode s) use va count perms)" and ?old = "(pm_objects s)(p \<mapsto> heap_object (pm_mode s) use va count READ)"
  have ps: "set ps \<subseteq> dom (pm_objects s)" "p \<notin> set ps" using linked_dom [OF ok(1)] new(4) by auto
  then obtain x where x: "pm_objects s (last ps) = Some x" "last ps \<noteq> p" "last ps \<noteq> nullptr" using False last_in_set [OF False] ok(1) linked_nonnull by blast
  have l: "linked ?m (m_allocated_objects s) ps" "linked ?old (m_allocated_objects s) ps" using ps(2) by (auto intro!: linked_cong [OF ok(1)])
  let ?m' = "?m(last ps \<mapsto> x\<lparr>po_next := p\<rparr>)"
  let ?s = "(heap_put h s)\<lparr>m_allocated_object_count := m_allocated_object_count s + 1, pm_objects := ?m'\<rparr>"
  have c: "0 < m_allocated_object_count s" "unat (m_allocated_object_count s + 1) = Suc (length ps)"
    using ok(3,4) False by (simp_all add: word_less_nat_alt unat_add64)
  have "PageObject_GetPrevious ?old (m_allocated_objects s) p = ret (last ps)" using GetPrevious_last [OF l(2) False ps(2) new(3)] .
  then have "record_pages A va count use perms s = ret (True, ?s)" using c(1) x new(3)
    by (simp add: record_pages_new [OF walk_linked [OF ok(1)] new(1-3)] update_object_def InsertObject_def heap_put_def fun_upd_twist [of p])
      (simp add: heap_object_def)
  moreover have "linked ?m' (m_allocated_objects s) (ps @ [p])"
    using linked_snoc [OF l(1) ok(2) False ps(2) new(3), of x] x by (simp add: heap_object_def)
  ultimately show thesis using that [of ?s] x(2) c(2) by (simp add: heap_put_def)
qed

section \<open>The lock\<close>

lemma pm_acquire_held [simp]: "pm_lock s \<Longrightarrow> pm_acquire s = None"
  by (simp add: pm_acquire_def)

lemma pm_acquire_free [simp]: "\<not> pm_lock s \<Longrightarrow> pm_acquire s = ret (s\<lparr>pm_lock := True\<rparr>)"
  by (simp add: pm_acquire_def)

lemma vpm_call_lock: "vpm_call f s = ret (x, s') \<Longrightarrow> pm_lock s' = pm_lock s"
  by (auto simp: vpm_call_def bindP_eq_ret)

lemma update_object_lock: "update_object p f s = ret s' \<Longrightarrow> pm_lock s' = pm_lock s"
  by (auto simp: update_object_def bindP_eq_ret)

lemma new_object_lock: "new_object A s = ret (p, s') \<Longrightarrow> pm_lock s' = pm_lock s"
  by (auto simp: new_object_def heap_put_def bindP_eq_ret split: if_splits prod.splits)

lemma InsertObject_lock: "InsertObject p s = ret (ok, s') \<Longrightarrow> pm_lock s' = pm_lock s"
  by (auto simp: InsertObject_def bindP_eq_ret dest!: update_object_lock split: if_splits)

lemma record_pages_lock: "record_pages A va count use perms s = ret (True, s') \<Longrightarrow> pm_lock s' = pm_lock s"
  by (auto simp: record_pages_def bindP_eq_ret dest!: new_object_lock update_object_lock InsertObject_lock split: if_splits)

text \<open>The region cannot be made larger while the lock is held.\<close>

lemma obtain_pages_locked:
  assumes "pm_lock s" "obtain_pages A count addr s = ret (va, s')"
  shows "pm_lock s'"
  using assms by (auto simp: obtain_pages_def vpm_pages_def PM_ExpandVRegionToRight_def bindP_eq_ret split: if_splits dest!: vpm_call_lock)

lemma obtain_pages_exhausted:
  assumes "pm_lock s" "pm_auto_expand s" "VPM_AllocatePages A count (m_VPM s) = ret (nullptr, v)"
  shows "obtain_pages A count nullptr s = None"
  using assms by (simp add: obtain_pages_def vpm_pages_def vpm_call_def PM_ExpandVRegionToRight_def)

text \<open>A user manager cannot be initialised after its construction: the root of the temporary page table is freed under the lock.\<close>

lemma InitPageManager_user: "InitPageManager A region vpm True auto_expand s = ret s' \<Longrightarrow> False"
  by (cases "pm_lock s") (auto simp: InitPageManager_def PM_FreePage_def bindP_eq_ret Let_def)

section \<open>A concrete manager\<close>

definition test_vpm :: "u64 VPM" where
  "test_vpm = small_vpm\<lparr>m_FreePagesCount := 1, m_FreePagesSizeTree := Node 0x100 1 0x180 Null Null 1,
     vp_store := (vp_store small_vpm)\<lparr>vs_nodes := [0x180 \<mapsto> \<lparr>previous = nullptr, data = 0x400000, next = nullptr\<rparr>]\<rparr>\<rparr>"

definition test_pm :: "u64 PageManager" where
  "test_pm = \<lparr>m_allocated_objects = nullptr, m_allocated_object_count = 0, m_Vregion = VirtualRegion_sized 0x400000 0x100000, m_VPM = test_vpm,
     m_PT = \<lparr>m_root_table = 0xFFFF800000001000, m_mode = False\<rparr>, pm_mode = False, m_page_object_pool_used = False, pm_auto_expand = False, pm_lock = False,
     pm_objects = Map.empty, pm_pool = \<lparr>g_PageObjectPool = 0x10000, g_PageObjectPool_Bitmap = Bitmap_empty, g_PageObjectPool_Bitmap_Buffer = 0x20000,
       g_PageObjectPool_UsedCount = 0, g_PageObjectPool_HasBeenInitialised = False, op_mem = (\<lambda>_. 0)\<rparr>, pm_paging = empty_tables\<rparr>"

lemma test_find: "findNode [0x180 \<mapsto> \<lparr>previous = nullptr, data = 0x400000, next = nullptr\<rparr>] 0x180 0x400000 = ret 0x180"
  by (subst findNode.simps) (simp add: node_get_def)

lemma test_vpm_allocates:
  "\<exists>v. VPM_AllocatePages bump_ops 1 test_vpm = ret (0x400000, v) \<and> vs_heap (vp_store v) = 0x800040"
  by (simp add: VPM_AllocatePages_def VPM_LockPages_def VPM_UnfreePages_def unfree_exact_def remove_entry_def list_delete_node_def deleteNode_node_def
      unlinkNode_def releaseNode_def test_vpm_def vpm_eval test_find node_get_def delete_rebalance_def LL_NodePool_IsInPool_def drop_bit_eq_div)

section \<open>Properties\<close>

text \<open>C6. Allocating a page returns the page the virtual page manager chose, mapped to a frame that was free: the address translates to that
  frame. The page is recorded at the end of the list of objects, with its permissions, and the lock is free again.\<close>

theorem PM_AllocatePage_maps:
  assumes "pm_ok s ps" and "length ps < 2 ^ 64 - 1" and "VPM_AllocatePages A 1 (m_VPM s) = ret (va, v)" and "va \<noteq> nullptr"
    and "new_initialised A (vs_heap (vp_store v))" and "op_new A 40 (vs_heap (vp_store v)) = ret (p, h)" and "p \<noteq> nullptr" and "p \<notin> dom (pm_objects s)"
    and "pt_inv (pm_paging s) lvl" and "lvl root = 4" and "no_large (pm_paging s) lvl" and "m_root_table (m_PT s) = g_HHDM_start (pm_paging s) + root"
    and "4 \<le> card (free_frames (g_PPFA (pm_paging s)))"
    and "\<not> (va \<ge> g_kernel_virtual (pm_paging s) \<and> g_kernel_virtual (pm_paging s) + g_kernel_length (pm_paging s) > va)"
    and "\<not> (va \<ge> g_HHDM_start (pm_paging s) \<and> g_HHDM_start (pm_paging s) + GiB 4 > va)"
  shows "\<exists>s' f. PM_AllocatePage A perms nullptr s = ret (va, s') \<and> pm_ok s' (ps @ [p]) \<and> pm_objects s' p = Some (heap_object (pm_mode s) 8 va 1 perms) \<and>
    f \<notin> ppfa_live (g_PPFA (pm_paging s)) \<and> PageTable_GetPhysicalAddress (m_PT s') va (pm_paging s') = ret (f OR (va AND 0xFFF))"
proof -
  let ?s = "s\<lparr>pm_lock := True, m_VPM := v\<rparr>"
  have ok: "\<not> pm_lock s" "linked (pm_objects ?s) (m_allocated_objects ?s) ps" "distinct ps" "unat (m_allocated_object_count ?s) = length ps"
    using assms(1) by (auto simp: pm_ok_def)
  obtain s1 where s1: "record_pages A va 1 8 perms ?s = ret (True, s1)" "linked (pm_objects s1) (m_allocated_objects s1) (ps @ [p])"
    "pm_objects s1 p = Some (heap_object (pm_mode ?s) 8 va 1 perms)" "unat (m_allocated_object_count s1) = Suc (length ps)"
    "pm_lock s1 = pm_lock ?s" "m_PT s1 = m_PT ?s" "pm_paging s1 = pm_paging ?s"
    using record_pages_appends [OF ok(2-4) assms(2), of A p h va 1 8 perms] assms(5-8) by auto
  obtain f pg pg' lvl' where f: "pt_AllocatePage (pm_paging s) = ret (f, pg)" "f \<notin> ppfa_live (g_PPFA (pm_paging s))"
    "x86_64_map_page_noflush (g_HHDM_start (pm_paging s) + root) f va (DecodePageFlags (m_PT s) perms) pg = ret pg'"
    "x86_64_get_physaddr pg' (g_HHDM_start (pm_paging s) + root) va = ret (f OR (va AND 0xFFF))"
    using allocate_and_map [OF assms(9-11) DecodePageFlags_bits assms(13-15), of "m_PT s" perms] by metis
  have p: "p \<notin> set ps" using linked_dom [OF ok(2)] assms(8) by auto
  have "PM_AllocatePage A perms nullptr s = ret (va, pm_release (s1\<lparr>pm_paging := pg'\<rparr>))"
    using ok(1) assms(3,4,12) s1 f
    by (simp add: PM_AllocatePage_def find_standby_def page_taken_def allocate_new_def obtain_pages_def vpm_pages_def vpm_call_def leave_def
        PageTable_MapPage_def)
  then show ?thesis using s1 f ok(3) p assms(12)
    by (intro exI [of _ "pm_release (s1\<lparr>pm_paging := pg'\<rparr>)"] exI [of _ f]) (simp add: pm_ok_def pm_release_def PageTable_GetPhysicalAddress_def)
qed

theorem PM_AllocatePage_maps_witness:
  "\<exists>s' f. PM_AllocatePage bump_ops READ_WRITE nullptr test_pm = ret (0x400000, s') \<and> f \<notin> ppfa_live small_ppfa \<and>
    PageTable_GetPhysicalAddress (m_PT s') 0x400000 (pm_paging s') = ret f"
proof -
  obtain v where v: "VPM_AllocatePages bump_ops 1 (m_VPM test_pm) = ret (0x400000, v)" "vs_heap (vp_store v) = 0x800040"
    using test_vpm_allocates by (auto simp: test_pm_def)
  have inv: "pt_inv (pm_paging test_pm) (\<lambda>f. if f = 0x1000 then 4 else 0)" "no_large (pm_paging test_pm) (\<lambda>f. if f = 0x1000 then 4 else 0)"
    using empty_tables_inv by (simp_all add: test_pm_def)
  have ok: "pm_ok test_pm []" by (simp add: pm_ok_def test_pm_def)
  have "\<exists>s' f. PM_AllocatePage bump_ops READ_WRITE nullptr test_pm = ret (0x400000, s') \<and> pm_ok s' ([] @ [0x800040]) \<and>
      pm_objects s' 0x800040 = Some (heap_object (pm_mode test_pm) 8 0x400000 1 READ_WRITE) \<and> f \<notin> ppfa_live (g_PPFA (pm_paging test_pm)) \<and>
      PageTable_GetPhysicalAddress (m_PT s') 0x400000 (pm_paging s') = ret (f OR (0x400000 AND 0xFFF))"
    by (rule PM_AllocatePage_maps [OF ok _ v(1) _ _ _ _ _ inv(1) _ inv(2), where root = "0x1000" and h = "0x800080"])
      (use small_ppfa_free v(2) in \<open>simp_all add: test_pm_def bump_ops_def empty_tables_def\<close>)
  then show ?thesis by (auto simp: test_pm_def empty_tables_def)
qed



text \<open>C38. The test that guards the writes of system calls accepts a range that lies behind an object entirely: it starts at the end of the object and is
  as long as the object.\<close>

theorem isWritable_accepts_outside:
  assumes "pm_ok s (q # ps)" and "pm_objects s q = Some x" and "po_perms x = READ_WRITE" and "unat (po_virtual_address x) + unat (po_page_count x) * 4096 < 2 ^ 64"
  shows "PM_isWritable (po_virtual_address x + po_page_count x * 4096) (po_page_count x * 4096) s = ret (True, s)"
proof -
  have l: "\<not> pm_lock s" "linked (pm_objects s) (m_allocated_objects s) (q # ps)" using assms(1) by (auto simp: pm_ok_def)
  have c: "covers (po_virtual_address x + po_page_count x * 4096) x"
    using assms(4) by (simp add: covers_def word_le_nat_alt unat_add64 unat_mult64)
  have "first_object (covers (po_virtual_address x + po_page_count x * 4096)) (pm_objects s) (m_allocated_objects s) = ret q"
    using first_object_linked [OF l(2)] assms(2) c by simp
  then have "isWritable_loop (pm_objects s) (m_allocated_objects s) (po_virtual_address x + po_page_count x * 4096) (po_page_count x * 4096) = ret True"
    using assms(2,3) l(2) by (subst isWritable_loop.simps) simp
  moreover have "s\<lparr>pm_lock := False\<rparr> = s" using l(1) by simp
  ultimately show ?thesis using l(1) by (simp add: PM_isWritable_def leave_def pm_release_def)
qed

theorem isWritable_accepts_outside_witness:
  "PM_isWritable 0x401000 4096 (test_pm\<lparr>m_allocated_objects := 0x900, m_allocated_object_count := 1, pm_objects := [0x900 \<mapsto> heap_object True 8 0x400000 1 READ_WRITE]\<rparr>) =
    ret (True, test_pm\<lparr>m_allocated_objects := 0x900, m_allocated_object_count := 1, pm_objects := [0x900 \<mapsto> heap_object True 8 0x400000 1 READ_WRITE]\<rparr>)"
  using isWritable_accepts_outside [of "test_pm\<lparr>m_allocated_objects := 0x900, m_allocated_object_count := 1,
      pm_objects := [0x900 \<mapsto> heap_object True 8 0x400000 1 READ_WRITE]\<rparr>" "0x900" "[]" "heap_object True 8 0x400000 1 READ_WRITE"]
  by (simp add: pm_ok_def heap_object_def test_pm_def)

end
