(* ===== verification/Spec2Isabelle.thy ===== *)
theory Spec2Isabelle
  imports KmallocContract LinkedListCorrect AVLTreeCorrect CStringCorrect PageTablesCorrect VirtualPagesCorrect BufferCorrect VFSCorrect SemaphoreCorrect PrintfNumbers UserFiles FileDescriptorCorrect PageManagerCorrect
begin

text \<open>
  A model of the FrostyOS kernel (src/kernel) and of the C library it shares with the programs (src/Userland/Libraries/LibC), with the
  properties its components have, and the ones they fail to have.

  \<^bold>\<open>How code is modelled.\<close> Integers are words of their width and wrap as in the code; a pointer is its address. A function returns
  \<open>'a prog\<close> (Prelude): None when it does not return, which is a loop without end or a spinlock that is held already, a fault when it
  dereferences null or a freed object, panics, or does what C++ leaves undefined, and otherwise its result with the new state. Locks are booleans
  on one processor. Loops are structural recursion where the code counts or runs over a list, and \<open>partial_function (option)\<close> where it
  follows pointers or may not end; there is no fuel. Objects the code shares through pointers live in stores from addresses to
  records; what a component calls in the one below it is a record of operations (HeapOps, TempFSInode), with the laws it needs in a locale that is
  interpreted on the model of the provider.

  \<^bold>\<open>Parts, bottom up.\<close>

  \<^item> Util, Bitmap, NodePool: lib/src/util.c and the macros of util.h, Data-structures/Bitmap.cpp, and the static node pools of the lists
    and trees. The locales \<open>bit_store\<close> and \<open>slot_pool\<close> are the interfaces of a bitmap and of a pool.
  \<^item> HeapOps, Kmalloc, KmallocBlocks, KmallocContract: Memory/kmalloc.cpp and newdelete.cpp. The free list of headers is related to a
    sequence of blocks; allocation is first fit on it, freeing merges neighbours, and the blocks handed out are disjoint. The locale
    \<open>kernel_heap\<close> is the contract, interpreted on \<open>kmalloc\<close>.
  \<^item> LinkedList, LinkedListCorrect, AVLTree, AVLTreeCorrect: the two containers of Data-structures over explicit nodes, with what their
    operations do to the sequence or the ordered map they hold. Components above use the sequences.
  \<^item> Buffer, BufferCorrect: Data-structures/Buffer.cpp against the flat sequence of its bytes.
  \<^item> Errno, CString, CStringCorrect: lib/include/errno.h; strings, numbers and integer functions of both C libraries.
  \<^item> PhysicalMemory, PhysicalMemoryCorrect: Memory.cpp and PhysicalPageFrameAllocator.cpp against the set of frames in use; the locale
    \<open>frame_allocator\<close> is its interface.
  \<^item> PageTables, PageTablesCorrect: PageMapIndexer.cpp, PageTable.cpp and PagingUtil.cpp. The invariant gives every table frame a level;
    a mapped page translates to its frame.
  \<^item> VirtualPages, VirtualPagesCorrect: VirtualRegion.cpp and VirtualPageManager.cpp, with their two trees and lists.
  \<^item> PageManager, PageManagerCorrect: PageManager.cpp and PageObject.cpp over the three above. A page that is handed out is recorded in the
    list of objects and translates to a frame that was free.
  \<^item> TempFSInode, TempFileSystem, TempFSCorrect: the in-memory file system of fs/TempFS. A path is walked to the inode it names.
  \<^item> FileStream, VFS, VFSCorrect: FileStream.cpp, DirectoryStream.cpp and VFS.cpp. Paths cross mount points; streams keep their own
    positions; a directory stream lists its folder.
  \<^item> ThreadList, Scheduler, SchedulerCorrect: Scheduling/Scheduler.cpp and the priorities of Process.cpp. The queues are linked through
    the threads; picking a thread is related to sequences, and the counters give every class its turn.
  \<^item> Semaphore, SemaphoreCorrect: Scheduling/Semaphore.cpp, their registry in Scheduler.cpp and SystemCalls/Synchronisation.cpp. The states
    the operations reach are an inductive predicate; units are conserved, and a release hands over in order.
  \<^item> Printf, PrintfCorrect, PrintfNumbers: the formatted output of lib/src/stdio.cpp and of the C library of the programs. One formatter
    over the function that takes a character stands for the four copies in the code; the locale \<open>follows\<close> carries its output from one
    such function to another, here from a file to a buffer. Numbers are printed so that \<open>strtoul\<close> reads them back. Counts of characters
    are unbounded integers, where the code has \<open>int\<close>.
  \<^item> FileDescriptor, FileDescriptorManager, FileDescriptorCorrect: fs/FileDescriptor.cpp, fs/FileDescriptorManager.cpp and the file functions
    of lib/src/stdio.cpp over them. The table of descriptors is a map from numbers to objects; the terminal, \<open>krealloc\<close> and the bytes of an
    inode are operations in a record. Asserts and debug output are those of the debug build.
  \<^item> UserFiles: the table of open files behind \<open>fopen\<close> and \<open>fclose\<close> of the C library of the programs.

  \<^bold>\<open>What the theorems show.\<close> The properties are the numbered theorems of the theories named \<open>...Correct\<close>, of KmallocContract,
  PrintfNumbers and UserFiles.
  Most say that an operation computes what its abstract view says, on every input its hypotheses describe; the hypotheses are
  invariants of the component, sizes below the width of the types and the laws of the provider, and each has a concrete instance after it.
  The ones about errors pin down where the code departs from what it means to do: lost nodes, locks that stay held, results that are off.

  \<^bold>\<open>Not modelled.\<close> Assembly, port and register access, interrupts, ACPI, APIC and timers (src/kernel/src/arch, HAL): their effect is on
  devices. Preemption and several processors: a lock is only ever contended by its own holder here, and the waiting for other processors in
  \<open>AddProcessor\<close> and \<open>Start\<close> is left out. The life of processes and the system calls other than those of semaphores: they copy registers and
  switch address spaces. The program loader and the reader of the boot archive, which interpret images the boot loader leaves in memory. The
  terminal, the graphics output and the keyboard: their effect is on devices. The user programs and the build. Alignment and layout of objects
  other than heap headers and page table entries; object lifetimes other than of list nodes, tree nodes, inodes and streams.
\<close>

end
